(* ===== verification/Go_Base.thy ===== *)
theory Go_Base
  imports Main "HOL-Library.Word"
begin

text \<open>
  Shared vocabulary of the development: Go errors, the result of a Go call
  (a value, an error or a run-time panic), slice expressions, and the generic
  lemmas the component theories rest on.

  An error is a value of \<open>goerr\<close>. \<open>Errf fmt\<close> is an error made by \<open>errors.New\<close> or
  \<open>fmt.Errorf\<close>, named by its format string (the formatted arguments are left out);
  \<open>Wrapf fmt e\<close> is \<open>fmt.Errorf\<close> with a \<open>%w\<close> verb around \<open>e\<close>. The other constructors
  are the error values that the code compares or inspects.

  A run-time panic of the source (a slice expression out of range, a nil
  dereference, an unhashable map key) is the value \<open>Panic\<close>, so a theorem that a
  function returns \<open>Ok\<close> also says that it does not panic.
\<close>

type_synonym byte = "8 word"
type_synonym int8 = "8 word"
type_synonym int16 = "16 word"
type_synonym int32 = "32 word"
type_synonym int64 = "64 word"
type_synonym bytes = "byte list"

datatype goerr =
    Errf string
  | Wrapf string goerr
  | APIError int32 string
  | PartialWriteError string "(int64 option \<times> int32 \<times> goerr) list"
  | ErrEOF
  | ErrUnexpectedEOF
  | DeadlineExceeded
  | Canceled
  | ErrClosed
  | ErrBufferFull
  | External string

datatype 'a res = Ok 'a | Fail goerr | Panic

named_theorems res_simps \<open>evaluation of results and slice expressions\<close>
named_theorems res_elims \<open>inversion of a successful result\<close>

fun andThen :: "'a res \<Rightarrow> ('a \<Rightarrow> 'b res) \<Rightarrow> 'b res" where
  "andThen (Ok x) f = f x"
| "andThen (Fail e) f = Fail e"
| "andThen Panic f = Panic"

fun wrapErr :: "string \<Rightarrow> 'a res \<Rightarrow> 'a res" where
  "wrapErr msg (Ok x) = Ok x"
| "wrapErr msg (Fail e) = Fail (Wrapf msg e)"
| "wrapErr msg Panic = Panic"

fun mapRes :: "('a \<Rightarrow> 'b) \<Rightarrow> 'a res \<Rightarrow> 'b res" where
  "mapRes f (Ok x) = Ok (f x)"
| "mapRes f (Fail e) = Fail e"
| "mapRes f Panic = Panic"

definition guard :: "bool \<Rightarrow> string \<Rightarrow> 'a res \<Rightarrow> 'a res" where
  "guard ok msg k = (if ok then k else Fail (Errf msg))"

text \<open>The slice expression \<open>s[lo:hi]\<close>; out of range it panics.\<close>

definition goslice :: "'a list \<Rightarrow> nat \<Rightarrow> nat \<Rightarrow> 'a list res" where
  "goslice s lo hi =
     (if lo \<le> hi \<and> hi \<le> length s then Ok (take (hi - lo) (drop lo s)) else Panic)"

text \<open>The index expression \<open>s[i]\<close>.\<close>

definition goindex :: "'a list \<Rightarrow> nat \<Rightarrow> 'a res" where
  "goindex s i = (if i < length s then Ok (s ! i) else Panic)"

lemma andThen_cong [fundef_cong]:
  "x = y \<Longrightarrow> (\<And>a. y = Ok a \<Longrightarrow> f a = g a) \<Longrightarrow> andThen x f = andThen y g"
  by (cases y) auto

lemma guard_cong [fundef_cong]:
  "ok = ok' \<Longrightarrow> (ok' \<Longrightarrow> k = k') \<Longrightarrow> guard ok msg k = guard ok' msg k'"
  by (auto simp: guard_def)

lemma andThen_eq_Ok [res_elims]:
  "andThen x f = Ok y \<longleftrightarrow> (\<exists>a. x = Ok a \<and> f a = Ok y)"
  by (cases x) auto

lemma andThen_eq_Panic:
  "andThen x f = Panic \<longleftrightarrow> x = Panic \<or> (\<exists>a. x = Ok a \<and> f a = Panic)"
  by (cases x) auto

lemma andThen_eq_Fail:
  "andThen x f = Fail e \<longleftrightarrow> x = Fail e \<or> (\<exists>a. x = Ok a \<and> f a = Fail e)"
  by (cases x) auto

lemma wrapErr_eq_Ok [res_elims]: "wrapErr m x = Ok y \<longleftrightarrow> x = Ok y"
  by (cases x) auto

lemma wrapErr_eq_Panic [simp]: "wrapErr m x = Panic \<longleftrightarrow> x = Panic"
  by (cases x) auto

lemma mapRes_eq_Ok [res_elims]: "mapRes f x = Ok y \<longleftrightarrow> (\<exists>a. x = Ok a \<and> y = f a)"
  by (cases x) auto

lemma mapRes_eq_Panic [simp]: "mapRes f x = Panic \<longleftrightarrow> x = Panic"
  by (cases x) auto

lemma guard_eq_Ok [res_elims]: "guard ok m k = Ok y \<longleftrightarrow> ok \<and> k = Ok y"
  by (auto simp: guard_def)

lemma guard_eq_Panic [simp]: "guard ok m k = Panic \<longleftrightarrow> ok \<and> k = Panic"
  by (auto simp: guard_def)

lemma guard_True [simp]: "guard True m k = k"
  by (simp add: guard_def)

lemma guard_False [simp]: "guard False m k = Fail (Errf m)"
  by (simp add: guard_def)

lemma goslice_Ok [res_simps]:
  "lo \<le> hi \<Longrightarrow> hi \<le> length s \<Longrightarrow> goslice s lo hi = Ok (take (hi - lo) (drop lo s))"
  by (simp add: goslice_def)

lemma goslice_to_end [simp]: "lo \<le> length s \<Longrightarrow> goslice s lo (length s) = Ok (drop lo s)"
  by (simp add: goslice_def)

lemma goslice_eq_Ok [res_elims]:
  "goslice s lo hi = Ok t \<longleftrightarrow> lo \<le> hi \<and> hi \<le> length s \<and> t = take (hi - lo) (drop lo s)"
  by (auto simp: goslice_def)

lemma goslice_eq_Panic: "goslice s lo hi = Panic \<longleftrightarrow> \<not> (lo \<le> hi \<and> hi \<le> length s)"
  by (simp add: goslice_def)

lemma goslice_not_Fail [simp]: "goslice s lo hi \<noteq> Fail e"
  by (simp add: goslice_def)

lemma goindex_Ok [res_simps]: "i < length s \<Longrightarrow> goindex s i = Ok (s ! i)"
  by (simp add: goindex_def)

lemma goindex_eq_Ok [res_elims]: "goindex s i = Ok x \<longleftrightarrow> i < length s \<and> x = s ! i"
  by (auto simp: goindex_def)

lemma goindex_eq_Panic: "goindex s i = Panic \<longleftrightarrow> \<not> i < length s"
  by (simp add: goindex_def)

lemma goindex_not_Fail [simp]: "goindex s i \<noteq> Fail e"
  by (simp add: goindex_def)

lemma take_append_exact [simp]: "length xs = n \<Longrightarrow> take n (xs @ ys) = xs"
  by simp

lemma drop_append_exact [simp]: "length xs = n \<Longrightarrow> drop n (xs @ ys) = ys"
  by simp

end
