(* ===== verification/Go_Bytes.thy ===== *)
theory Go_Bytes
  imports Go_Base
begin

text \<open>
  Byte-level encodings of the Go standard library that the codecs use:
  \<open>encoding/binary\<close> fixed-width integers in both byte orders, the unsigned varint
  of \<open>binary.PutUvarint\<close> and \<open>binary.Uvarint\<close>, the Castagnoli CRC of \<open>hash/crc32\<close>,
  \<open>big.Int.Bytes\<close> / \<open>SetBytes\<close> / \<open>Int64\<close>, and the conversion \<open>float32(float64)\<close>
  on the bit patterns of the values.
\<close>

unbundle bit_operations_syntax

subsection \<open>Fixed-width integers\<close>

fun le_bytes :: "nat \<Rightarrow> nat \<Rightarrow> bytes" where
  "le_bytes 0 x = []"
| "le_bytes (Suc n) x = word_of_nat (x mod 256) # le_bytes n (x div 256)"

fun le_nat :: "bytes \<Rightarrow> nat" where
  "le_nat [] = 0"
| "le_nat (b # bs) = unat b + 256 * le_nat bs"

definition putU16 :: "16 word \<Rightarrow> bytes" where "putU16 w = le_bytes 2 (unat w)"
definition putU32 :: "32 word \<Rightarrow> bytes" where "putU32 w = le_bytes 4 (unat w)"
definition putU64 :: "64 word \<Rightarrow> bytes" where "putU64 w = le_bytes 8 (unat w)"

definition getU16 :: "bytes \<Rightarrow> 16 word" where "getU16 bs = word_of_nat (le_nat (take 2 bs))"
definition getU32 :: "bytes \<Rightarrow> 32 word" where "getU32 bs = word_of_nat (le_nat (take 4 bs))"
definition getU64 :: "bytes \<Rightarrow> 64 word" where "getU64 bs = word_of_nat (le_nat (take 8 bs))"

definition putBE16 :: "16 word \<Rightarrow> bytes" where "putBE16 w = rev (putU16 w)"
definition putBE32 :: "32 word \<Rightarrow> bytes" where "putBE32 w = rev (putU32 w)"
definition getBE16 :: "bytes \<Rightarrow> 16 word" where "getBE16 bs = getU16 (rev (take 2 bs))"
definition getBE32 :: "bytes \<Rightarrow> 32 word" where "getBE32 bs = getU32 (rev (take 4 bs))"

lemma unat_byte_of_nat: "unat (word_of_nat x :: byte) = x mod 256"
  by (simp add: unat_of_nat)

lemma length_le_bytes [simp]: "length (le_bytes n x) = n"
  by (induction n arbitrary: x) auto

lemma le_nat_le_bytes: "le_nat (le_bytes n x) = x mod 256 ^ n"
proof (induction n arbitrary: x)
  case 0
  then show ?case by simp
next
  case (Suc n)
  have "x mod 256 + 256 * (x div 256 mod 256 ^ n) = x mod (256 * 256 ^ n)"
    by (simp add: mod_mult2_eq)
  then show ?case by (simp add: Suc unat_byte_of_nat)
qed

lemma le_nat_bound: "le_nat bs < 256 ^ length bs"
proof (induction bs)
  case (Cons b bs)
  have "unat b < 256" using unsigned_less[of b] by simp
  with Cons show ?case by simp
qed simp

lemma le_bytes_le_nat: "length bs = n \<Longrightarrow> le_bytes n (le_nat bs) = bs"
proof (induction bs arbitrary: n)
  case (Cons b bs)
  have "unat b < 256" using unsigned_less[of b] by simp
  with Cons show ?case by auto
qed simp

lemma length_putU [simp]:
  "length (putU16 w) = 2" "length (putU32 v) = 4" "length (putU64 u) = 8"
  "length (putBE16 w) = 2" "length (putBE32 v) = 4"
  by (simp_all add: putU16_def putU32_def putU64_def putBE16_def putBE32_def)

lemma unat_lt_256: "unat (w :: 16 word) < 256 ^ 2" "unat (v :: 32 word) < 256 ^ 4"
  "unat (u :: 64 word) < 256 ^ 8"
  using unsigned_less[of w] unsigned_less[of v] unsigned_less[of u] by simp_all

lemma getU16_putU16 [simp]: "getU16 (putU16 w @ rest) = w"
  by (simp only: getU16_def putU16_def take_append_exact length_le_bytes le_nat_le_bytes
      mod_less [OF unat_lt_256(1)] of_nat_unat ucast_id)

lemma getU32_putU32 [simp]: "getU32 (putU32 w @ rest) = w"
  by (simp only: getU32_def putU32_def take_append_exact length_le_bytes le_nat_le_bytes
      mod_less [OF unat_lt_256(2)] of_nat_unat ucast_id)

lemma getU64_putU64 [simp]: "getU64 (putU64 w @ rest) = w"
  by (simp only: getU64_def putU64_def take_append_exact length_le_bytes le_nat_le_bytes
      mod_less [OF unat_lt_256(3)] of_nat_unat ucast_id)

lemma getU_putU_nil [simp]: "getU16 (putU16 w) = w" "getU32 (putU32 v) = v" "getU64 (putU64 u) = u"
  using getU16_putU16[of w "[]"] getU32_putU32[of v "[]"] getU64_putU64[of u "[]"] by simp_all

lemma getBE16_putBE16 [simp]: "getBE16 (putBE16 w @ rest) = w"
  by (simp add: getBE16_def putBE16_def)

lemma getBE32_putBE32 [simp]: "getBE32 (putBE32 w @ rest) = w"
  by (simp add: getBE32_def putBE32_def)

lemma putU32_getU32: "length bs = 4 \<Longrightarrow> putU32 (getU32 bs) = bs"
  using le_nat_bound[of bs] by (simp add: putU32_def getU32_def unat_of_nat le_bytes_le_nat)

lemma putU_inj: "putU16 a = putU16 a' \<longleftrightarrow> a = a'" "putU32 b = putU32 b' \<longleftrightarrow> b = b'"
  "putU64 c = putU64 c' \<longleftrightarrow> c = c'"
  by (metis getU_putU_nil)+

subsection \<open>Unsigned varints\<close>

text \<open>\<open>binary.PutUvarint\<close>: seven bits per byte, low group first, high bit for "more".\<close>

fun putUvarintNat :: "nat \<Rightarrow> bytes" where
  "putUvarintNat x =
     (if x < 128 then [word_of_nat x] else word_of_nat (x mod 128 + 128) # putUvarintNat (x div 128))"

declare putUvarintNat.simps [simp del]

definition putUvarint :: "64 word \<Rightarrow> bytes" where
  "putUvarint w = putUvarintNat (unat w)"

text \<open>
  The loop of \<open>binary.Uvarint\<close>: index \<open>i\<close>, accumulated value \<open>x\<close>, shift \<open>s\<close>. The result
  pairs the value with the number of bytes read: 0 when the buffer is too small, a
  negative number when the value overflows 64 bits.
\<close>

fun uvarintLoop :: "nat \<Rightarrow> 64 word \<Rightarrow> nat \<Rightarrow> bytes \<Rightarrow> 64 word \<times> int" where
  "uvarintLoop i x s [] = (0, 0)"
| "uvarintLoop i x s (b # bs) =
     (if i = 10 then (0, - int (i + 1))
      else if unat b < 128 then
        (if i = 9 \<and> unat b > 1 then (0, - int (i + 1))
         else (x OR push_bit s (ucast b), int (i + 1)))
      else uvarintLoop (i + 1) (x OR push_bit s (ucast (b AND 0x7f))) (s + 7) bs)"

definition uvarint :: "bytes \<Rightarrow> 64 word \<times> int" where
  "uvarint buf = uvarintLoop 0 0 0 buf"

text \<open>Accumulating a group above the bits already read is addition.\<close>

lemma or_push_bit_nat:
  fixes x :: "64 word"
  assumes "unat x < 2 ^ s" and "unat x + k * 2 ^ s < 2 ^ 64"
  shows "x OR push_bit s (word_of_nat k) = word_of_nat (unat x + k * 2 ^ s)"
proof -
  have "\<not> bit x n \<or> \<not> bit (push_bit s (word_of_nat k) :: 64 word) n" for n
  proof (cases "n < s")
    case True
    then show ?thesis by (simp add: bit_push_bit_iff)
  next
    case False
    have "unat x < 2 ^ n" using assms(1) False
      by (meson le_less_trans less_le_trans not_less one_le_numeral power_increasing)
    then have "\<not> bit (unat x) n" by (simp add: bit_iff_odd)
    then show ?thesis by (auto simp: bit_unsigned_iff dest: bit_imp_le_length)
  qed
  then have "x OR push_bit s (word_of_nat k) = x + push_bit s (word_of_nat k)"
    by (simp add: disjunctive_add)
  also have "\<dots> = word_of_nat (unat x + k * 2 ^ s)"
    by (simp add: push_bit_eq_mult)
  finally show ?thesis .
qed

lemma ucast_byte_nat: "(ucast (b :: byte) :: 64 word) = word_of_nat (unat b)"
  by (simp add: unsigned_ucast_eq)

lemma and_0x7f_nat: "unat (b :: byte) = k + 128 \<Longrightarrow> k < 128 \<Longrightarrow> ucast (b AND 0x7f) = (word_of_nat k :: 64 word)"
proof -
  assume b: "unat b = k + 128" and k: "k < 128"
  have t: "b AND 0x7f = take_bit 7 b" by (simp add: take_bit_eq_mask mask_eq_exp_minus_1)
  have "unat (b AND 0x7f) = take_bit 7 (unat b)"
    unfolding t by (rule unsigned_take_bit_eq)
  then have "unat (b AND 0x7f) = unat b mod 128" by (simp add: take_bit_eq_mod)
  with b k have "unat (b AND 0x7f) = k" by simp
  then show ?thesis by (metis ucast_byte_nat)
qed

text \<open>
  The round trip: reading the varint of \<open>n\<close> at index \<open>i\<close> with \<open>s = 7 * i\<close> adds \<open>n\<close>
  above the accumulated bits and consumes exactly the varint's bytes.
\<close>

lemma uvarintLoop_putUvarintNat:
  assumes "unat x < 2 ^ (7 * i)" and "unat x + n * 2 ^ (7 * i) < 2 ^ 64" and "i \<le> 9"
  shows "uvarintLoop i x (7 * i) (putUvarintNat n @ rest) =
    (word_of_nat (unat x + n * 2 ^ (7 * i)), int (i + length (putUvarintNat n)))"
  using assms
proof (induction n arbitrary: x i rule: putUvarintNat.induct)
  case (1 n)
  show ?case
  proof (cases "n < 128")
    case True
    have "n \<le> 1" if "i = 9"
    proof -
      have "n * 2 ^ 63 < 2 ^ 64" using "1.prems"(2) that by simp
      then show ?thesis by simp
    qed
    with True "1.prems" show ?thesis
      by (auto simp: putUvarintNat.simps[of n] unat_byte_of_nat ucast_byte_nat or_push_bit_nat)
  next
    case False
    let ?b = "word_of_nat (n mod 128 + 128) :: byte"
    let ?x = "x OR push_bit (7 * i) (ucast (?b AND 0x7f))"
    have ub: "unat ?b = n mod 128 + 128" by (simp add: unat_byte_of_nat del: of_nat_add)
    have i9: "i < 9"
    proof (rule ccontr)
      assume "\<not> i < 9"
      with "1.prems"(3) have "i = 9" by simp
      with "1.prems"(2) False show False by simp
    qed
    have split: "n * 2 ^ (7 * i) = n mod 128 * 2 ^ (7 * i) + n div 128 * 2 ^ (7 * (i + 1))"
    proof -
      have "n * 2 ^ (7 * i) = (n mod 128 + n div 128 * 128) * 2 ^ (7 * i)" by simp
      also have "\<dots> = n mod 128 * 2 ^ (7 * i) + n div 128 * (128 * 2 ^ (7 * i))"
        by (simp only: distrib_right mult.assoc)
      also have "(128 :: nat) * 2 ^ (7 * i) = 2 ^ (7 * (i + 1))" by (simp add: power_add)
      finally show ?thesis .
    qed
    have c: "ucast (?b AND 0x7f) = (word_of_nat (n mod 128) :: 64 word)"
      using ub by (rule and_0x7f_nat) simp
    have lt: "unat x + n mod 128 * 2 ^ (7 * i) < 2 ^ 64"
      using "1.prems"(2) split by linarith
    have x: "?x = word_of_nat (unat x + n mod 128 * 2 ^ (7 * i))"
      unfolding c by (rule or_push_bit_nat[OF "1.prems"(1) lt])
    have ux: "unat ?x = unat x + n mod 128 * 2 ^ (7 * i)"
      unfolding x using lt by (simp add: unat_of_nat del: of_nat_add of_nat_mult)
    have le: "n mod 128 * 2 ^ (7 * i) \<le> 127 * 2 ^ (7 * i)"
      by (rule mult_right_mono) (simp_all add: mod_less_eq_dividend less_Suc_eq_le[symmetric])
    have "(2 :: nat) ^ (7 * (i + 1)) = 128 * 2 ^ (7 * i)" by (simp add: power_add)
    with "1.prems"(1) le have ltx: "unat ?x < 2 ^ (7 * (i + 1))" unfolding ux by linarith
    have "uvarintLoop i x (7 * i) (putUvarintNat n @ rest)
        = uvarintLoop (i + 1) ?x (7 * (i + 1)) (putUvarintNat (n div 128) @ rest)"
      using False i9 ub by (subst putUvarintNat.simps) (simp add: algebra_simps)
    also have "\<dots> = (word_of_nat (unat ?x + n div 128 * 2 ^ (7 * (i + 1))),
        int (i + 1 + length (putUvarintNat (n div 128))))"
    proof (rule "1.IH"[OF False ltx])
      show "unat ?x + n div 128 * 2 ^ (7 * (i + 1)) < 2 ^ 64"
        using "1.prems"(2) split unfolding ux by linarith
    qed (use i9 in simp)
    also have "unat ?x + n div 128 * 2 ^ (7 * (i + 1)) = unat x + n * 2 ^ (7 * i)"
      using split unfolding ux by linarith
    also have "i + 1 + length (putUvarintNat (n div 128)) = i + length (putUvarintNat n)"
      using False by (simp add: putUvarintNat.simps[of n])
    finally show ?thesis .
  qed
qed

lemma uvarint_putUvarint [simp]:
  "uvarint (putUvarint w @ rest) = (w, int (length (putUvarint w)))"
proof -
  have "unat w < 2 ^ 64" using unsigned_less[of w] by simp
  then show ?thesis
    using uvarintLoop_putUvarintNat[of 0 0 "unat w" rest]
    by (simp add: uvarint_def putUvarint_def)
qed

lemma uvarint_putUvarint_nil [simp]: "uvarint (putUvarint w) = (w, int (length (putUvarint w)))"
  using uvarint_putUvarint[of w "[]"] by simp

lemma length_putUvarintNat_pos [simp]: "0 < length (putUvarintNat n)"
  by (subst putUvarintNat.simps) simp

lemma length_putUvarint_pos [simp]: "0 < length (putUvarint w)" "putUvarint w \<noteq> []"
  using length_putUvarintNat_pos[of "unat w"] by (simp_all add: putUvarint_def del: length_putUvarintNat_pos)

text \<open>A successful read consumes bytes that are there.\<close>

lemma uvarintLoop_bound: "uvarintLoop i x s bs = (v, n) \<Longrightarrow> n \<le> int (i + length bs)"
  by (induction i x s bs rule: uvarintLoop.induct) (auto split: if_splits)

lemma uvarint_bound: "uvarint bs = (v, n) \<Longrightarrow> n \<le> int (length bs)"
  using uvarintLoop_bound[of 0 0 0 bs v n] by (simp add: uvarint_def)

text \<open>Varints are prefix-free: two of them at the head of the same bytes are equal.\<close>

lemma putUvarint_append_inj:
  "putUvarint v @ r = putUvarint w @ t \<Longrightarrow> v = w \<and> r = t"
proof -
  assume eq: "putUvarint v @ r = putUvarint w @ t"
  then have "v = w" using uvarint_putUvarint[of v r] uvarint_putUvarint[of w t] by simp
  with eq show ?thesis by simp
qed

subsection \<open>The Castagnoli CRC\<close>

text \<open>\<open>crc32.Checksum(buf, crc32.MakeTable(crc32.Castagnoli))\<close>, bit by bit, reflected.\<close>

definition crcStep :: "32 word \<Rightarrow> 32 word" where
  "crcStep c = (if bit c 0 then drop_bit 1 c XOR 0x82F63B78 else drop_bit 1 c)"

definition crcByte :: "32 word \<Rightarrow> byte \<Rightarrow> 32 word" where
  "crcByte c b =
     crcStep (crcStep (crcStep (crcStep (crcStep (crcStep (crcStep (crcStep (c XOR ucast b))))))))"

definition crc32c :: "bytes \<Rightarrow> 32 word" where
  "crc32c bs = NOT (foldl crcByte (NOT 0) bs)"

subsection \<open>Arbitrary-precision integers\<close>

text \<open>\<open>big.Int.Bytes\<close> is the absolute value, big-endian, without leading zeros.\<close>

fun natBytesLE :: "nat \<Rightarrow> bytes" where
  "natBytesLE n = (if n = 0 then [] else word_of_nat (n mod 256) # natBytesLE (n div 256))"

declare natBytesLE.simps [simp del]

definition bigBytes :: "int \<Rightarrow> bytes" where
  "bigBytes z = rev (natBytesLE (nat \<bar>z\<bar>))"

definition bigSetBytes :: "bytes \<Rightarrow> int" where
  "bigSetBytes bs = int (le_nat (rev bs))"

definition bigInt64 :: "int \<Rightarrow> int64" where
  "bigInt64 z = word_of_int z"

lemma le_nat_natBytesLE: "le_nat (natBytesLE n) = n"
  by (induction n rule: natBytesLE.induct)
    (subst natBytesLE.simps, auto simp: unat_byte_of_nat)

lemma bigSetBytes_bigBytes [simp]: "bigSetBytes (bigBytes z) = \<bar>z\<bar>"
  by (simp add: bigSetBytes_def bigBytes_def le_nat_natBytesLE)

lemma bigBytes_inj: "0 \<le> a \<Longrightarrow> 0 \<le> b \<Longrightarrow> bigBytes a = bigBytes b \<longleftrightarrow> a = b"
  by (metis bigSetBytes_bigBytes abs_of_nonneg)

lemma bigBytes_uminus: "bigBytes (- z) = bigBytes z"
  by (simp add: bigBytes_def)

lemma sint_bigInt64: "- (2 ^ 63) \<le> z \<Longrightarrow> z < 2 ^ 63 \<Longrightarrow> sint (bigInt64 z) = z"
  by (simp add: bigInt64_def int_word_sint)

subsection \<open>Conversion of a float64 to a float32\<close>

text \<open>
  Floats are their IEEE 754 bit patterns. \<open>float32(x)\<close> rounds to nearest, ties to
  even; a NaN keeps its leading payload bits and becomes quiet.
\<close>

definition rneShift :: "nat \<Rightarrow> nat \<Rightarrow> nat" where
  "rneShift m s =
     (let q = m div 2 ^ s; r = m mod 2 ^ s; h = 2 ^ (s - 1)
      in if s = 0 then m
         else if r > h \<or> (r = h \<and> odd q) then q + 1 else q)"

definition float64to32 :: "64 word \<Rightarrow> 32 word" where
  "float64to32 w =
     (let n = unat w; sgn = n div 2 ^ 63; e = n div 2 ^ 52 mod 2048; m = n mod 2 ^ 52 in
      let body =
        (if e = 2047 then
           (if m = 0 then 0x7F800000 else 0x7FC00000 + m div 2 ^ 29 mod 2 ^ 22)
         else if e = 0 then rneShift m (29 + 897 - 1)
         else if e > 896 then
           min ((e - 897) * 2 ^ 23 + rneShift (m + 2 ^ 52) 29) 0x7F800000
         else rneShift (m + 2 ^ 52) (29 + (897 - e)))
      in word_of_nat (sgn * 2 ^ 31 + body))"

end
