(* ===== verification/Row_Types.thy ===== *)
theory Row_Types
  imports Go_Bytes
begin

text \<open>
  The row codec's type and value universe (\<open>internal/codec/row/types.go\<close>): the kinds,
  \<open>FieldType\<close> with its optional element, key and value types, the schema, the Go
  values an \<open>any\<close> may hold, and \<open>IsFixed\<close> and \<open>Validate\<close>.

  \<open>TypeKind\<close> is a Go string; \<open>TypeOther\<close> stands for every string that is not one of
  the seventeen constants. Floats are their bit patterns. A Go map is the list of its
  entries in the iteration order of the run. \<open>VOther\<close> is a value of any Go type the
  codec does not handle.
\<close>

datatype TypeKind =
    TypeBool | TypeInt8 | TypeInt16 | TypeInt32 | TypeInt64 | TypeFloat32 | TypeFloat64
  | TypeString | TypeBytes | TypeDecimal | TypeDate | TypeTime | TypeTimestampNtz
  | TypeTimestampLtz | TypeArray | TypeMap | TypeRow | TypeOther string

datatype FieldType =
  FieldType (Kind: TypeKind) (Length: int) (Scale: int) (Element: "FieldType option")
    (Key: "FieldType option") (Value: "FieldType option") (RowFields: "FieldType list")

definition scalarType :: "TypeKind \<Rightarrow> FieldType" where
  "scalarType k = FieldType k 0 0 None None None []"

definition BoolType :: FieldType where "BoolType = scalarType TypeBool"
definition Int8Type :: FieldType where "Int8Type = scalarType TypeInt8"
definition Int16Type :: FieldType where "Int16Type = scalarType TypeInt16"
definition Int32Type :: FieldType where "Int32Type = scalarType TypeInt32"
definition Int64Type :: FieldType where "Int64Type = scalarType TypeInt64"
definition Float32Type :: FieldType where "Float32Type = scalarType TypeFloat32"
definition Float64Type :: FieldType where "Float64Type = scalarType TypeFloat64"
definition StringType :: FieldType where "StringType = scalarType TypeString"
definition BytesType :: FieldType where "BytesType = scalarType TypeBytes"
definition DateType :: FieldType where "DateType = scalarType TypeDate"
definition TimeType :: FieldType where "TimeType = scalarType TypeTime"

definition DecimalType :: "int \<Rightarrow> int \<Rightarrow> FieldType" where
  "DecimalType precision scale = FieldType TypeDecimal precision scale None None None []"

definition TimestampNtzType :: "int \<Rightarrow> FieldType" where
  "TimestampNtzType precision = FieldType TypeTimestampNtz precision 0 None None None []"

definition TimestampLtzType :: "int \<Rightarrow> FieldType" where
  "TimestampLtzType precision = FieldType TypeTimestampLtz precision 0 None None None []"

definition ArrayType :: "FieldType \<Rightarrow> FieldType" where
  "ArrayType element = FieldType TypeArray 0 0 (Some element) None None []"

definition MapType :: "FieldType \<Rightarrow> FieldType \<Rightarrow> FieldType" where
  "MapType key val = FieldType TypeMap 0 0 None (Some key) (Some val) []"

definition RowType :: "FieldType list \<Rightarrow> FieldType" where
  "RowType fields = FieldType TypeRow 0 0 None None None fields"

lemmas type_constructors =
  scalarType_def BoolType_def Int8Type_def Int16Type_def Int32Type_def Int64Type_def
  Float32Type_def Float64Type_def StringType_def BytesType_def DateType_def TimeType_def
  DecimalType_def TimestampNtzType_def TimestampLtzType_def ArrayType_def MapType_def
  RowType_def

record Decimal =
  Unscaled :: "int option"
  DecScale :: int

record TimestampNtz =
  Millisecond :: int64
  NtzNanos :: int32

record TimestampLtz =
  EpochMillisecond :: int64
  LtzNanos :: int32

datatype gval =
    VNil
  | VBool bool
  | VInt int64
  | VInt8 int8
  | VInt16 int16
  | VInt32 int32
  | VInt64 int64
  | VFloat32 "32 word"
  | VFloat64 "64 word"
  | VString bytes
  | VBytes bytes
  | VDecimal Decimal
  | VBigInt "int option"
  | VTimestampNtz TimestampNtz
  | VTimestampLtz TimestampLtz
  | VSlice "gval list"
  | VMap "(gval \<times> gval) list"
  | VOther string

type_synonym Schema = "FieldType list"

definition IsFixed :: "FieldType \<Rightarrow> bool" where
  "IsFixed t = (case Kind t of
      TypeBool \<Rightarrow> True | TypeInt8 \<Rightarrow> True | TypeInt16 \<Rightarrow> True | TypeInt32 \<Rightarrow> True
    | TypeInt64 \<Rightarrow> True | TypeFloat32 \<Rightarrow> True | TypeFloat64 \<Rightarrow> True
    | TypeDate \<Rightarrow> True | TypeTime \<Rightarrow> True
    | TypeDecimal \<Rightarrow> 0 < Length t \<and> Length t \<le> 18
    | TypeTimestampNtz \<Rightarrow> 0 \<le> Length t \<and> Length t \<le> 3
    | TypeTimestampLtz \<Rightarrow> 0 \<le> Length t \<and> Length t \<le> 3
    | _ \<Rightarrow> False)"

text \<open>
  \<open>FieldType.Validate\<close>, and the loop over the fields of a row type, which wraps the
  error of the field it stops at.
\<close>

fun Validate :: "FieldType \<Rightarrow> unit res"
and validateFields :: "string \<Rightarrow> FieldType list \<Rightarrow> unit res" where
  "Validate (FieldType k len sc el ke va fs) = (case k of
      TypeDecimal \<Rightarrow>
        if len \<le> 0 then Fail (Errf ''rowcodec: decimal precision must be positive'')
        else if sc < 0 \<or> sc > len then Fail (Errf ''rowcodec: invalid decimal scale'')
        else Ok ()
    | TypeTimestampNtz \<Rightarrow>
        if len < 0 \<or> len > 9 then Fail (Errf ''rowcodec: invalid timestamp precision %d'') else Ok ()
    | TypeTimestampLtz \<Rightarrow>
        if len < 0 \<or> len > 9 then Fail (Errf ''rowcodec: invalid timestamp precision %d'') else Ok ()
    | TypeArray \<Rightarrow>
        (case el of
          None \<Rightarrow> Fail (Errf ''rowcodec: array element type is required'')
        | Some e \<Rightarrow> Validate e)
    | TypeMap \<Rightarrow>
        (case ke of
          None \<Rightarrow> Fail (Errf ''rowcodec: map key and value types are required'')
        | Some kt \<Rightarrow>
            (case va of
              None \<Rightarrow> Fail (Errf ''rowcodec: map key and value types are required'')
            | Some vt \<Rightarrow> andThen (Validate kt) (\<lambda>_. Validate vt)))
    | TypeRow \<Rightarrow> validateFields ''rowcodec: row field %d: %w'' fs
    | TypeOther s \<Rightarrow> Fail (Errf ''rowcodec: unsupported type %q'')
    | _ \<Rightarrow> Ok ())"
| "validateFields msg [] = Ok ()"
| "validateFields msg (f # fs) =
     andThen (wrapErr msg (Validate f)) (\<lambda>_. validateFields msg fs)"

definition SchemaValidate :: "Schema \<Rightarrow> unit res" where
  "SchemaValidate fs = validateFields ''data: field %d: %w'' fs"

definition NewSchema :: "FieldType list \<Rightarrow> Schema" where
  "NewSchema fs = fs"

text \<open>\<open>NewRow\<close>: a row whose value count matches a valid schema.\<close>

record Row =
  RowSchema :: Schema
  RowValues :: "gval list"

definition NewRow :: "Schema \<Rightarrow> gval list \<Rightarrow> Row res" where
  "NewRow schema values =
     guard (length values = length schema) ''rowcodec: expected %d values, got %d''
       (andThen (SchemaValidate schema) (\<lambda>_. Ok \<lparr>RowSchema = schema, RowValues = values\<rparr>))"

text \<open>Facts every codec proof uses about validation.\<close>

lemma Validate_not_Panic: "Validate t \<noteq> Panic"
  and validateFields_not_Panic: "validateFields msg ts \<noteq> Panic"
  by (induction t and msg ts rule: Validate_validateFields.induct)
    (auto simp: andThen_eq_Panic split: TypeKind.splits option.splits)

lemma validateFields_Ok_iff: "validateFields msg fs = Ok u \<longleftrightarrow> (\<forall>f \<in> set fs. Validate f = Ok ())"
  by (induction fs) (auto simp: res_elims)

lemma SchemaValidate_Ok_iff: "SchemaValidate fs = Ok u \<longleftrightarrow> (\<forall>f \<in> set fs. Validate f = Ok ())"
  by (simp add: SchemaValidate_def validateFields_Ok_iff)

lemma Validate_Array: "Validate t = Ok () \<Longrightarrow> Kind t = TypeArray \<Longrightarrow> \<exists>e. Element t = Some e \<and> Validate e = Ok ()"
  by (cases t) (auto split: option.splits)

lemma Validate_Map:
  "Validate t = Ok () \<Longrightarrow> Kind t = TypeMap \<Longrightarrow>
    \<exists>k v. Key t = Some k \<and> Value t = Some v \<and> Validate k = Ok () \<and> Validate v = Ok ()"
  by (cases t) (auto split: option.splits simp: res_elims)

lemma Validate_Row: "Validate t = Ok () \<Longrightarrow> Kind t = TypeRow \<Longrightarrow> \<forall>f \<in> set (RowFields t). Validate f = Ok ()"
  by (cases t) (auto simp: validateFields_Ok_iff)

lemma Validate_Other: "Validate t = Ok () \<Longrightarrow> Kind t \<noteq> TypeOther s"
  by (cases t) auto

lemma Validate_Decimal:
  "Validate t = Ok () \<Longrightarrow> Kind t = TypeDecimal \<Longrightarrow> 0 < Length t \<and> 0 \<le> Scale t \<and> Scale t \<le> Length t"
  by (cases t) (auto split: if_splits)

lemma Validate_Timestamp:
  "Validate t = Ok () \<Longrightarrow> Kind t = TypeTimestampNtz \<or> Kind t = TypeTimestampLtz \<Longrightarrow>
    0 \<le> Length t \<and> Length t \<le> 9"
  by (cases t) (auto split: if_splits)

end
