(* ===== verification/Row_Coerce.thy ===== *)
theory Row_Coerce
  imports Row_Types
begin

text \<open>
  The coercions of \<open>internal/codec/row/row.go\<close> from a Go value of any type to the Go
  type a field is encoded as (\<open>asBool\<close>, \<open>asInt8\<close>, \<dots>, \<open>asTimestampLtz\<close>). A narrowing
  integer conversion keeps the low bits, a widening one extends the sign.

  \<open>big.Rat.SetString\<close> is the parameter \<open>ratParse\<close>: it gives the numerator and the
  positive denominator of the number a string denotes, or \<open>None\<close>.
\<close>

type_synonym rat_parser = "bytes \<Rightarrow> (int \<times> int) option"

definition asBool :: "gval \<Rightarrow> bool res" where
  "asBool v = (case v of VBool b \<Rightarrow> Ok b | _ \<Rightarrow> Fail (Errf ''expected bool, got %T''))"

definition asInt8 :: "gval \<Rightarrow> int8 res" where
  "asInt8 v = (case v of
      VInt8 x \<Rightarrow> Ok x
    | VInt x \<Rightarrow> Ok (ucast x)
    | VInt16 x \<Rightarrow> Ok (ucast x)
    | VInt32 x \<Rightarrow> Ok (ucast x)
    | VInt64 x \<Rightarrow> Ok (ucast x)
    | _ \<Rightarrow> Fail (Errf ''expected int8-compatible value, got %T''))"

definition asInt16 :: "gval \<Rightarrow> int16 res" where
  "asInt16 v = (case v of
      VInt16 x \<Rightarrow> Ok x
    | VInt x \<Rightarrow> Ok (ucast x)
    | VInt8 x \<Rightarrow> Ok (scast x)
    | VInt32 x \<Rightarrow> Ok (ucast x)
    | VInt64 x \<Rightarrow> Ok (ucast x)
    | _ \<Rightarrow> Fail (Errf ''expected int16-compatible value, got %T''))"

definition asInt32 :: "gval \<Rightarrow> int32 res" where
  "asInt32 v = (case v of
      VInt32 x \<Rightarrow> Ok x
    | VInt x \<Rightarrow> Ok (ucast x)
    | VInt64 x \<Rightarrow> Ok (ucast x)
    | _ \<Rightarrow> Fail (Errf ''expected int32-compatible value, got %T''))"

definition asInt64 :: "gval \<Rightarrow> int64 res" where
  "asInt64 v = (case v of
      VInt64 x \<Rightarrow> Ok x
    | VInt x \<Rightarrow> Ok x
    | VInt32 x \<Rightarrow> Ok (scast x)
    | _ \<Rightarrow> Fail (Errf ''expected int64-compatible value, got %T''))"

definition asFloat64 :: "gval \<Rightarrow> 64 word res" where
  "asFloat64 v = (case v of VFloat64 x \<Rightarrow> Ok x | _ \<Rightarrow> Fail (Errf ''expected float64, got %T''))"

definition asFloat32 :: "gval \<Rightarrow> 32 word res" where
  "asFloat32 v = (case v of
      VFloat32 x \<Rightarrow> Ok x
    | VFloat64 x \<Rightarrow> Ok (float64to32 x)
    | _ \<Rightarrow> Fail (Errf ''expected float32-compatible value, got %T''))"

definition asString :: "gval \<Rightarrow> bytes res" where
  "asString v = (case v of
      VString s \<Rightarrow> Ok s
    | VBytes s \<Rightarrow> Ok s
    | _ \<Rightarrow> Fail (Errf ''expected string or []byte, got %T''))"

definition asBytes :: "gval \<Rightarrow> bytes res" where
  "asBytes v = (case v of VBytes s \<Rightarrow> Ok s | _ \<Rightarrow> Fail (Errf ''expected []byte, got %T''))"

text \<open>
  The scale factor is \<open>big.Int.Exp(10, scale)\<close>, which is 1 for a negative scale.
  \<open>big.Int.Set\<close> of a nil \<open>*big.Int\<close> dereferences it.
\<close>

definition asDecimal :: "rat_parser \<Rightarrow> gval \<Rightarrow> FieldType \<Rightarrow> Decimal res" where
  "asDecimal ratParse v field = (case v of
      VDecimal d \<Rightarrow>
        (case Unscaled d of
          None \<Rightarrow> Fail (Errf ''expected decimal with unscaled value'')
        | Some u \<Rightarrow>
            if DecScale d \<noteq> Scale field then Fail (Errf ''expected decimal scale %d, got %d'')
            else Ok \<lparr>Unscaled = Some u, DecScale = DecScale d\<rparr>)
    | VBigInt None \<Rightarrow> Panic
    | VBigInt (Some u) \<Rightarrow> Ok \<lparr>Unscaled = Some u, DecScale = Scale field\<rparr>
    | VString s \<Rightarrow>
        (case ratParse s of
          None \<Rightarrow> Fail (Errf ''expected decimal string, got %q'')
        | Some (num, den) \<Rightarrow>
            let scaled = num * 10 ^ nat (Scale field) in
            if \<not> den dvd scaled then Fail (Errf ''decimal %q does not fit scale %d'')
            else Ok \<lparr>Unscaled = Some (scaled div den), DecScale = Scale field\<rparr>)
    | _ \<Rightarrow> Fail (Errf ''expected decimal-compatible value, got %T''))"

definition asTimestampNtz :: "gval \<Rightarrow> TimestampNtz res" where
  "asTimestampNtz v =
     (case v of VTimestampNtz t \<Rightarrow> Ok t | _ \<Rightarrow> Fail (Errf ''expected TimestampNtz, got %T''))"

definition asTimestampLtz :: "gval \<Rightarrow> TimestampLtz res" where
  "asTimestampLtz v =
     (case v of VTimestampLtz t \<Rightarrow> Ok t | _ \<Rightarrow> Fail (Errf ''expected TimestampLtz, got %T''))"

text \<open>\<open>client.NewDecimalFromString\<close> uses the same scaling with its own errors.\<close>

definition NewDecimalFromString :: "rat_parser \<Rightarrow> bytes \<Rightarrow> int \<Rightarrow> int \<Rightarrow> Decimal res" where
  "NewDecimalFromString ratParse s precision scale =
     andThen (Validate (DecimalType precision scale)) (\<lambda>_.
       case ratParse s of
         None \<Rightarrow> Fail (Errf ''fluss: invalid decimal string %q'')
       | Some (num, den) \<Rightarrow>
           let scaled = num * 10 ^ nat scale in
           if \<not> den dvd scaled then Fail (Errf ''fluss: decimal %q does not fit scale %d'')
           else Ok \<lparr>Unscaled = Some (scaled div den), DecScale = scale\<rparr>)"

named_theorems coerce_simps \<open>the coercions applied to a value of known type\<close>

lemmas [coerce_simps] =
  asBool_def asInt8_def asInt16_def asInt32_def asInt64_def asFloat64_def asFloat32_def
  asString_def asBytes_def asDecimal_def asTimestampNtz_def asTimestampLtz_def

text \<open>Nothing is coerced from nil, and only a nil \<open>*big.Int\<close> panics.\<close>

lemma coerce_nil:
  "asBool VNil \<noteq> Ok a" "asInt8 VNil \<noteq> Ok b" "asInt16 VNil \<noteq> Ok c" "asInt32 VNil \<noteq> Ok d"
  "asInt64 VNil \<noteq> Ok e" "asFloat64 VNil \<noteq> Ok f" "asFloat32 VNil \<noteq> Ok g" "asString VNil \<noteq> Ok h"
  "asBytes VNil \<noteq> Ok i" "asDecimal rp VNil t \<noteq> Ok j" "asTimestampNtz VNil \<noteq> Ok k"
  "asTimestampLtz VNil \<noteq> Ok l"
  by (simp_all add: coerce_simps)

text \<open>
  A decimal value keeps its meaning: the unscaled integer over \<open>10 ^ scale\<close> is the
  parsed rational (stated without division).
\<close>

lemma asDecimal_string_exact:
  assumes "asDecimal rp (VString s) t = Ok d" and "0 \<le> Scale t"
  shows "\<exists>num den u. rp s = Some (num, den) \<and> Unscaled d = Some u \<and> DecScale d = Scale t
           \<and> u * den = num * 10 ^ nat (Scale t)"
  using assms by (auto simp: asDecimal_def Let_def split: option.splits if_splits)

end
