(* ===== verification/Row_Encode.thy ===== *)
theory Row_Encode
  imports Row_Coerce
begin

text \<open>
  The encoding half of \<open>internal/codec/row/row.go\<close>: fixed and varint scalars,
  length-prefixed bytes, decimals and timestamps, the value encoder \<open>encodeValue\<close> with
  its collections, nested rows and null bitmap, and the lookup-key encoder.
\<close>

unbundle bit_operations_syntax

definition encodeFixed32 :: "int32 \<Rightarrow> bytes" where "encodeFixed32 v = putU32 v"
definition encodeFixed64 :: "int64 \<Rightarrow> bytes" where "encodeFixed64 v = putU64 v"

text \<open>\<open>encodeSignedVarint32\<close> goes through \<open>uint32\<close>, so it never exceeds five bytes.\<close>

text \<open>
  The varints of signed numbers. \<open>encodeVarint32\<close>, which nothing calls, extends the sign first
  and panics on a negative number, whose varint does not fit the buffer of five bytes.
\<close>

definition encodeVarint32 :: "int32 \<Rightarrow> bytes res" where
  "encodeVarint32 v = (let bs = putUvarint (scast v) in if length bs \<le> 5 then Ok bs else Panic)"

definition encodeVarint64 :: "int64 \<Rightarrow> bytes" where
  "encodeVarint64 v = putUvarint v"

definition encodeSignedVarint32 :: "int32 \<Rightarrow> bytes" where
  "encodeSignedVarint32 v = putUvarint (ucast v)"

definition encodeSignedVarint64 :: "int64 \<Rightarrow> bytes" where
  "encodeSignedVarint64 v = putUvarint v"

definition nullBitsSize :: "nat \<Rightarrow> nat" where
  "nullBitsSize fieldCount = (fieldCount + 7) div 8"

definition setNullBit :: "bytes \<Rightarrow> nat \<Rightarrow> bytes" where
  "setNullBit bits index =
     bits[index div 8 := bits ! (index div 8) OR push_bit (index mod 8) 1]"

definition encodeLengthPrefixedBytes :: "bytes \<Rightarrow> bool \<Rightarrow> bytes" where
  "encodeLengthPrefixedBytes raw indexed =
     (if indexed then putU32 (word_of_nat (length raw)) @ raw
      else encodeSignedVarint32 (word_of_nat (length raw)) @ raw)"

text \<open>The unscaled value is present here: \<open>asDecimal\<close> never returns a nil one.\<close>

definition encodeDecimal :: "Decimal \<Rightarrow> FieldType \<Rightarrow> bool \<Rightarrow> bytes res" where
  "encodeDecimal d field indexed = (case Unscaled d of
      None \<Rightarrow> Panic
    | Some u \<Rightarrow>
        if Length field \<le> 18 then Ok (encodeFixed64 (bigInt64 u))
        else Ok (encodeLengthPrefixedBytes (bigBytes u) indexed))"

definition encodeDecimalCompact :: "Decimal \<Rightarrow> FieldType \<Rightarrow> bytes res" where
  "encodeDecimalCompact d field = (case Unscaled d of
      None \<Rightarrow> Panic
    | Some u \<Rightarrow>
        if Length field \<le> 18 then Ok (encodeSignedVarint64 (bigInt64 u))
        else Ok (encodeLengthPrefixedBytes (bigBytes u) False))"

definition encodeTimestampNtz :: "TimestampNtz \<Rightarrow> FieldType \<Rightarrow> bytes" where
  "encodeTimestampNtz t field =
     (if Length field \<le> 3 then encodeFixed64 (Millisecond t)
      else putU64 (Millisecond t) @ putU32 (NtzNanos t))"

definition encodeCompactedTimestampNtz :: "TimestampNtz \<Rightarrow> FieldType \<Rightarrow> bytes" where
  "encodeCompactedTimestampNtz t field =
     (if Length field \<le> 3 then encodeSignedVarint64 (Millisecond t)
      else encodeSignedVarint64 (Millisecond t) @ encodeSignedVarint32 (NtzNanos t))"

definition encodeTimestampLtz :: "TimestampLtz \<Rightarrow> FieldType \<Rightarrow> bytes" where
  "encodeTimestampLtz t field =
     (if Length field \<le> 3 then encodeFixed64 (EpochMillisecond t)
      else putU64 (EpochMillisecond t) @ putU32 (LtzNanos t))"

definition encodeCompactedTimestampLtz :: "TimestampLtz \<Rightarrow> FieldType \<Rightarrow> bytes" where
  "encodeCompactedTimestampLtz t field =
     (if Length field \<le> 3 then encodeSignedVarint64 (EpochMillisecond t)
      else encodeSignedVarint64 (EpochMillisecond t) @ encodeSignedVarint32 (LtzNanos t))"

text \<open>The lookup-key encoder: always compacted, scalar types only.\<close>

definition encodeCompactedKeyValue :: "rat_parser \<Rightarrow> FieldType \<Rightarrow> gval \<Rightarrow> bytes res" where
  "encodeCompactedKeyValue rp field v = (case Kind field of
      TypeBool \<Rightarrow> andThen (asBool v) (\<lambda>b. Ok [if b then 1 else 0])
    | TypeInt8 \<Rightarrow> andThen (asInt8 v) (\<lambda>x. Ok [x])
    | TypeInt16 \<Rightarrow> andThen (asInt16 v) (\<lambda>x. Ok (putU16 x))
    | TypeInt32 \<Rightarrow> andThen (asInt32 v) (\<lambda>x. Ok (encodeSignedVarint32 x))
    | TypeInt64 \<Rightarrow> andThen (asInt64 v) (\<lambda>x. Ok (encodeSignedVarint64 x))
    | TypeFloat32 \<Rightarrow> andThen (asFloat32 v) (\<lambda>x. Ok (putU32 x))
    | TypeFloat64 \<Rightarrow> andThen (asFloat64 v) (\<lambda>x. Ok (encodeFixed64 x))
    | TypeString \<Rightarrow> andThen (asString v) (\<lambda>s. Ok (encodeLengthPrefixedBytes s False))
    | TypeBytes \<Rightarrow> andThen (asBytes v) (\<lambda>s. Ok (encodeLengthPrefixedBytes s False))
    | TypeDecimal \<Rightarrow> andThen (asDecimal rp v field) (\<lambda>d. encodeDecimalCompact d field)
    | TypeDate \<Rightarrow> andThen (asInt32 v) (\<lambda>x. Ok (encodeSignedVarint32 x))
    | TypeTime \<Rightarrow> andThen (asInt32 v) (\<lambda>x. Ok (encodeSignedVarint32 x))
    | TypeTimestampNtz \<Rightarrow> andThen (asTimestampNtz v) (\<lambda>t. Ok (encodeCompactedTimestampNtz t field))
    | TypeTimestampLtz \<Rightarrow> andThen (asTimestampLtz v) (\<lambda>t. Ok (encodeCompactedTimestampLtz t field))
    | _ \<Rightarrow> Fail (Errf ''data: unsupported lookup key type %q''))"

text \<open>
  The value encoder. \<open>encodeFields\<close> is the loop of \<open>encodeRow\<close> from field \<open>i\<close> on: it
  sets the null bit of a nil value, and otherwise appends the encoded value and, in the
  indexed layout, the length of a value whose type is not fixed. \<open>encodeItems\<close> and
  \<open>encodeEntries\<close> are the loops over an array and over a map.
\<close>

function (sequential) encodeValue :: "rat_parser \<Rightarrow> FieldType \<Rightarrow> gval \<Rightarrow> bool \<Rightarrow> bytes res"
and encodeRow :: "rat_parser \<Rightarrow> FieldType list \<Rightarrow> gval list \<Rightarrow> bool \<Rightarrow> bytes res"
and encodeFields :: "rat_parser \<Rightarrow> bool \<Rightarrow> nat \<Rightarrow> FieldType list \<Rightarrow> gval list \<Rightarrow>
      bytes \<Rightarrow> bytes \<Rightarrow> bytes \<Rightarrow> (bytes \<times> bytes \<times> bytes) res"
and encodeGenericField :: "rat_parser \<Rightarrow> FieldType \<Rightarrow> gval \<Rightarrow> bytes res"
and encodeItems :: "rat_parser \<Rightarrow> FieldType \<Rightarrow> gval list \<Rightarrow> bytes \<Rightarrow> bytes res"
and encodeEntries :: "rat_parser \<Rightarrow> FieldType \<Rightarrow> FieldType \<Rightarrow> (gval \<times> gval) list \<Rightarrow> bytes \<Rightarrow> bytes res"
where
  "encodeValue rp (FieldType k len sc el ke va fs) v indexed =
    (let field = FieldType k len sc el ke va fs in
     case k of
      TypeBool \<Rightarrow> andThen (asBool v) (\<lambda>b. Ok [if b then 1 else 0])
    | TypeInt8 \<Rightarrow> andThen (asInt8 v) (\<lambda>x. Ok [x])
    | TypeInt16 \<Rightarrow> andThen (asInt16 v) (\<lambda>x. Ok (putU16 x))
    | TypeInt32 \<Rightarrow> andThen (asInt32 v) (\<lambda>x.
        if indexed then Ok (encodeFixed32 x) else Ok (encodeSignedVarint32 x))
    | TypeInt64 \<Rightarrow> andThen (asInt64 v) (\<lambda>x.
        if indexed then Ok (encodeFixed64 x) else Ok (encodeSignedVarint64 x))
    | TypeFloat32 \<Rightarrow> andThen (asFloat32 v) (\<lambda>x. Ok (putU32 x))
    | TypeFloat64 \<Rightarrow> andThen (asFloat64 v) (\<lambda>x. Ok (encodeFixed64 x))
    | TypeString \<Rightarrow> andThen (asString v) (\<lambda>s. Ok (encodeLengthPrefixedBytes s indexed))
    | TypeBytes \<Rightarrow> andThen (asBytes v) (\<lambda>s. Ok (encodeLengthPrefixedBytes s indexed))
    | TypeDecimal \<Rightarrow> andThen (asDecimal rp v field) (\<lambda>d. encodeDecimal d field indexed)
    | TypeDate \<Rightarrow> andThen (asInt32 v) (\<lambda>x.
        if indexed then Ok (encodeFixed32 x) else Ok (encodeSignedVarint32 x))
    | TypeTime \<Rightarrow> andThen (asInt32 v) (\<lambda>x.
        if indexed then Ok (encodeFixed32 x) else Ok (encodeSignedVarint32 x))
    | TypeTimestampNtz \<Rightarrow> andThen (asTimestampNtz v) (\<lambda>t. Ok (encodeTimestampNtz t field))
    | TypeTimestampLtz \<Rightarrow> andThen (asTimestampLtz v) (\<lambda>t. Ok (encodeTimestampLtz t field))
    | TypeArray \<Rightarrow>
        (case v of
          VSlice items \<Rightarrow>
            (case el of
              None \<Rightarrow> Panic
            | Some e \<Rightarrow> encodeItems rp e items (putU32 (word_of_nat (length items))))
        | _ \<Rightarrow> Fail (Errf ''expected []any for array, got %T''))
    | TypeMap \<Rightarrow>
        (case v of
          VMap entries \<Rightarrow>
            (case (ke, va) of
              (Some kt, Some vt) \<Rightarrow>
                encodeEntries rp kt vt entries (putU32 (word_of_nat (length entries)))
            | (Some kt, None) \<Rightarrow>
                (case entries of
                  [] \<Rightarrow> Ok (putU32 0)
                | (key, item) # rest \<Rightarrow> andThen (encodeGenericField rp kt key) (\<lambda>_. Panic))
            | (None, _) \<Rightarrow> if entries = [] then Ok (putU32 0) else Panic)
        | _ \<Rightarrow> Fail (Errf ''expected map[any]any for map, got %T''))
    | TypeRow \<Rightarrow>
        (case v of
          VSlice items \<Rightarrow> encodeRow rp fs items indexed
        | _ \<Rightarrow> Fail (Errf ''expected []any for row, got %T''))
    | TypeOther s \<Rightarrow> Fail (Errf ''data: unsupported type %q''))"
| "encodeRow rp schema vals indexed =
     andThen (SchemaValidate schema) (\<lambda>_.
       if length vals \<noteq> length schema then Fail (Errf ''rowcodec: expected %d values, got %d'')
       else andThen (encodeFields rp indexed 0 schema vals
                       (replicate (nullBitsSize (length vals)) 0) [] [])
         (\<lambda>(nullBits, variableLengths, payload).
           Ok (nullBits @ (if indexed then variableLengths else []) @ payload)))"
| "encodeFields rp indexed i (f # fs) (v # vs) nullBits variableLengths payload =
     (if v = VNil then encodeFields rp indexed (i + 1) fs vs (setNullBit nullBits i) variableLengths payload
      else andThen (wrapErr ''rowcodec: field %d: %w'' (encodeValue rp f v indexed)) (\<lambda>encoded.
        encodeFields rp indexed (i + 1) fs vs nullBits
          (if indexed \<and> \<not> IsFixed f then variableLengths @ putU32 (word_of_nat (length encoded))
           else variableLengths)
          (payload @ encoded)))"
| "encodeFields rp indexed i fs vs nullBits variableLengths payload =
     Ok (nullBits, variableLengths, payload)"
| "encodeGenericField rp field v =
     (if v = VNil then Ok [1]
      else andThen (encodeValue rp field v True) (\<lambda>payload. Ok (0 # payload)))"
| "encodeItems rp field [] buf = Ok buf"
| "encodeItems rp field (item # items) buf =
     andThen (encodeGenericField rp field item) (\<lambda>payload.
       encodeItems rp field items (buf @ putU32 (word_of_nat (length payload)) @ payload))"
| "encodeEntries rp kt vt [] buf = Ok buf"
| "encodeEntries rp kt vt ((key, item) # entries) buf =
     andThen (encodeGenericField rp kt key) (\<lambda>keyPayload.
       andThen (encodeGenericField rp vt item) (\<lambda>valPayload.
         encodeEntries rp kt vt entries
           (buf @ putU32 (word_of_nat (length keyPayload)) @ keyPayload
                @ putU32 (word_of_nat (length valPayload)) @ valPayload)))"
  by pat_completeness auto
termination
  by (relation "measures
    [\<lambda>x. case x of
        Inl (Inl (rp, f, v, b)) \<Rightarrow> 2 * size f
      | Inl (Inr (Inl (rp, fs, vs, b))) \<Rightarrow> 2 * size_list size fs
      | Inl (Inr (Inr (rp, b, i, fs, vs, n, l, p))) \<Rightarrow> 2 * size_list size fs
      | Inr (Inl (rp, f, v)) \<Rightarrow> 2 * size f
      | Inr (Inr (Inl (rp, f, vs, b))) \<Rightarrow> 2 * size f
      | Inr (Inr (Inr (rp, k, f, es, b))) \<Rightarrow> 2 * size k + 2 * size f,
     \<lambda>x. case x of
        Inl (Inl (rp, f, v, b)) \<Rightarrow> 0
      | Inl (Inr (Inl (rp, fs, vs, b))) \<Rightarrow> 1
      | Inl (Inr (Inr (rp, b, i, fs, vs, n, l, p))) \<Rightarrow> 0
      | Inr (Inl (rp, f, v)) \<Rightarrow> 1
      | Inr (Inr (Inl (rp, f, vs, b))) \<Rightarrow> 2 + length vs
      | Inr (Inr (Inr (rp, k, f, es, b))) \<Rightarrow> 2 + length es]")
    auto

text \<open>The functions the cases of nested types call, which \<open>encodeValue\<close> has in line.\<close>

definition encodeArray :: "rat_parser \<Rightarrow> FieldType \<Rightarrow> gval \<Rightarrow> bytes res" where
  "encodeArray rp field v = (case v of
      VSlice items \<Rightarrow>
        (case Element field of
          None \<Rightarrow> Panic
        | Some e \<Rightarrow> encodeItems rp e items (putU32 (word_of_nat (length items))))
    | _ \<Rightarrow> Fail (Errf ''expected []any for array, got %T''))"

definition encodeNestedRow :: "rat_parser \<Rightarrow> FieldType \<Rightarrow> gval \<Rightarrow> bool \<Rightarrow> bytes res" where
  "encodeNestedRow rp field v indexed = (case v of
      VSlice items \<Rightarrow> encodeRow rp (RowFields field) items indexed
    | _ \<Rightarrow> Fail (Errf ''expected []any for row, got %T''))"

lemma encodeValue_array:
  "encodeValue rp (FieldType TypeArray len sc el ke va fs) v indexed = encodeArray rp (FieldType TypeArray len sc el ke va fs) v"
  by (simp only: encodeValue.simps Let_def encodeArray_def TypeKind.case FieldType.sel)

lemma encodeValue_row:
  "encodeValue rp (FieldType TypeRow len sc el ke va fs) v indexed = encodeNestedRow rp (FieldType TypeRow len sc el ke va fs) v indexed"
  by (simp only: encodeValue.simps Let_def encodeNestedRow_def TypeKind.case FieldType.sel)


definition EncodeIndexed :: "rat_parser \<Rightarrow> Row \<Rightarrow> bytes res" where
  "EncodeIndexed rp r = encodeRow rp (RowSchema r) (RowValues r) True"

definition EncodeCompacted :: "rat_parser \<Rightarrow> Row \<Rightarrow> bytes res" where
  "EncodeCompacted rp r = encodeRow rp (RowSchema r) (RowValues r) False"

end
