(* ===== verification/Row_Decode.thy ===== *)
theory Row_Decode
  imports Row_Encode
begin

text \<open>
  The decoding half of \<open>internal/codec/row/row.go\<close>. Offsets are \<open>nat\<close>: they start at
  zero and only grow, and a 32-bit length never overflows Go's 64-bit \<open>int\<close>. Every
  slice and index expression of the source is \<open>goslice\<close> or \<open>goindex\<close>, so a
  malformed payload that makes the code panic makes the model return \<open>Panic\<close>.
\<close>

unbundle bit_operations_syntax

definition nullBitSet :: "bytes \<Rightarrow> nat \<Rightarrow> bool" where
  "nullBitSet nullBits i = (nullBits ! (i div 8) AND push_bit (i mod 8) 1 \<noteq> 0)"

definition decodeCompactedUint32 :: "bytes \<Rightarrow> (32 word \<times> nat) res" where
  "decodeCompactedUint32 payload =
     (let (v, n) = uvarint payload in
      if n \<le> 0 then Fail (Errf ''data: invalid compacted uint32 payload'') else Ok (ucast v, nat n))"

definition decodeCompactedInt32 :: "bytes \<Rightarrow> int32 res" where
  "decodeCompactedInt32 payload =
     (let (v, n) = uvarint payload in
      if n \<le> 0 then Fail (Errf ''data: invalid compacted int32 payload'') else Ok (ucast v))"

definition decodeCompactedInt64 :: "bytes \<Rightarrow> int64 res" where
  "decodeCompactedInt64 payload =
     (let (v, n) = uvarint payload in
      if n \<le> 0 then Fail (Errf ''data: invalid compacted int64 payload'') else Ok v)"

definition decodeLengthPrefixedBytes :: "bytes \<Rightarrow> bool \<Rightarrow> bytes res" where
  "decodeLengthPrefixedBytes payload indexed =
     (if indexed then
        if length payload < 4 then Fail (Errf ''data: bytes payload too short'')
        else Ok (drop 4 payload)
      else andThen (decodeCompactedUint32 payload) (\<lambda>(len, n).
        if n + unat len > length payload then Fail (Errf ''data: bytes payload too short'')
        else Ok (take (unat len) (drop n payload))))"

text \<open>
  \<open>uvarintSize\<close> is the pattern of \<open>compactedFieldSize\<close> that reads a varint for its
  length only; \<open>prefixedSize\<close> the one for length-prefixed bytes.
\<close>

definition uvarintSize :: "string \<Rightarrow> bytes \<Rightarrow> nat res" where
  "uvarintSize msg payload =
     (let (_, n) = uvarint payload in if n \<le> 0 then Fail (Errf msg) else Ok (nat n))"

definition prefixedSize :: "bytes \<Rightarrow> nat res" where
  "prefixedSize payload = andThen (decodeCompactedUint32 payload) (\<lambda>(len, n). Ok (n + unat len))"

definition timestampSize :: "FieldType \<Rightarrow> bytes \<Rightarrow> nat res" where
  "timestampSize field payload =
     (if Length field \<le> 3 then uvarintSize ''data: invalid compacted timestamp payload'' payload
      else andThen (uvarintSize ''data: invalid compacted timestamp payload'' payload) (\<lambda>n1.
        andThen (uvarintSize ''data: invalid compacted timestamp nanos payload'' (drop n1 payload))
          (\<lambda>n2. Ok (n1 + n2))))"

definition compactedFieldSize :: "FieldType \<Rightarrow> bytes \<Rightarrow> nat res" where
  "compactedFieldSize field payload = (case Kind field of
      TypeBool \<Rightarrow> Ok 1
    | TypeInt8 \<Rightarrow> Ok 1
    | TypeInt16 \<Rightarrow> Ok 2
    | TypeInt32 \<Rightarrow> uvarintSize ''data: invalid compacted int32 payload'' payload
    | TypeDate \<Rightarrow> uvarintSize ''data: invalid compacted int32 payload'' payload
    | TypeTime \<Rightarrow> uvarintSize ''data: invalid compacted int32 payload'' payload
    | TypeInt64 \<Rightarrow> uvarintSize ''data: invalid compacted int64 payload'' payload
    | TypeFloat32 \<Rightarrow> Ok 4
    | TypeFloat64 \<Rightarrow> Ok 8
    | TypeString \<Rightarrow> prefixedSize payload
    | TypeBytes \<Rightarrow> prefixedSize payload
    | TypeDecimal \<Rightarrow>
        if Length field \<le> 18 then uvarintSize ''data: invalid compacted decimal payload'' payload
        else prefixedSize payload
    | TypeTimestampNtz \<Rightarrow> timestampSize field payload
    | TypeTimestampLtz \<Rightarrow> timestampSize field payload
    | _ \<Rightarrow> Fail (Errf ''data: compacted decoding for variable field type %q not implemented''))"

definition fixedSize :: "FieldType \<Rightarrow> nat" where
  "fixedSize field = (case Kind field of
      TypeBool \<Rightarrow> 1 | TypeInt8 \<Rightarrow> 1 | TypeInt16 \<Rightarrow> 2 | TypeInt32 \<Rightarrow> 4 | TypeInt64 \<Rightarrow> 8
    | TypeFloat32 \<Rightarrow> 4 | TypeFloat64 \<Rightarrow> 8 | TypeDate \<Rightarrow> 4 | TypeTime \<Rightarrow> 4
    | TypeDecimal \<Rightarrow> if Length field \<le> 18 then 8 else 0
    | TypeTimestampNtz \<Rightarrow> if Length field \<le> 3 then 8 else 0
    | TypeTimestampLtz \<Rightarrow> if Length field \<le> 3 then 8 else 0
    | _ \<Rightarrow> 0)"

definition decodeDecimal :: "FieldType \<Rightarrow> bytes \<Rightarrow> bool \<Rightarrow> gval res" where
  "decodeDecimal field payload indexed =
     (if Length field \<le> 18 then
        if indexed then
          if length payload < 8 then Fail (Errf ''data: decimal payload too short'')
          else Ok (VDecimal \<lparr>Unscaled = Some (sint (getU64 payload)), DecScale = Scale field\<rparr>)
        else
          (let (v, n) = uvarint payload in
           if n \<le> 0 then Fail (Errf ''data: invalid decimal varint'')
           else Ok (VDecimal \<lparr>Unscaled = Some (sint v), DecScale = Scale field\<rparr>))
      else andThen (decodeLengthPrefixedBytes payload indexed) (\<lambda>raw.
        Ok (VDecimal \<lparr>Unscaled = Some (bigSetBytes raw), DecScale = Scale field\<rparr>)))"

definition decodeTimestampNtz :: "FieldType \<Rightarrow> bytes \<Rightarrow> bool \<Rightarrow> gval res" where
  "decodeTimestampNtz field payload indexed =
     (if Length field \<le> 3 then
        if indexed then
          if length payload < 8 then Fail (Errf ''data: timestamp_ntz payload too short'')
          else Ok (VTimestampNtz \<lparr>Millisecond = getU64 payload, NtzNanos = 0\<rparr>)
        else
          (let (v, n) = uvarint payload in
           if n \<le> 0 then Fail (Errf ''data: invalid timestamp_ntz varint'')
           else Ok (VTimestampNtz \<lparr>Millisecond = v, NtzNanos = 0\<rparr>))
      else if length payload < 12 then Fail (Errf ''data: timestamp_ntz payload too short'')
      else Ok (VTimestampNtz \<lparr>Millisecond = getU64 payload, NtzNanos = getU32 (drop 8 payload)\<rparr>))"

definition decodeTimestampLtz :: "FieldType \<Rightarrow> bytes \<Rightarrow> bool \<Rightarrow> gval res" where
  "decodeTimestampLtz field payload indexed =
     (if Length field \<le> 3 then
        if indexed then
          if length payload < 8 then Fail (Errf ''data: timestamp_ltz payload too short'')
          else Ok (VTimestampLtz \<lparr>EpochMillisecond = getU64 payload, LtzNanos = 0\<rparr>)
        else
          (let (v, n) = uvarint payload in
           if n \<le> 0 then Fail (Errf ''data: invalid timestamp_ltz varint'')
           else Ok (VTimestampLtz \<lparr>EpochMillisecond = v, LtzNanos = 0\<rparr>))
      else if length payload < 12 then Fail (Errf ''data: timestamp_ltz payload too short'')
      else Ok (VTimestampLtz \<lparr>EpochMillisecond = getU64 payload, LtzNanos = getU32 (drop 8 payload)\<rparr>))"

text \<open>
  Go map keys. Interface keys compare by dynamic type and value; floats compare as
  IEEE 754 numbers (NaN differs from itself, both zeros are equal); a decoded decimal
  holds a fresh pointer, so it equals no other key; a byte slice, a slice or a map is
  not hashable, and using one as a key panics.
\<close>

definition f32NaN :: "32 word \<Rightarrow> bool" where
  "f32NaN w = (unat w div 2 ^ 23 mod 256 = 255 \<and> unat w mod 2 ^ 23 \<noteq> 0)"

definition f64NaN :: "64 word \<Rightarrow> bool" where
  "f64NaN w = (unat w div 2 ^ 52 mod 2048 = 2047 \<and> unat w mod 2 ^ 52 \<noteq> 0)"

fun hashable :: "gval \<Rightarrow> bool" where
  "hashable (VBytes s) = False"
| "hashable (VSlice vs) = False"
| "hashable (VMap es) = False"
| "hashable v = True"

definition goKeyEq :: "gval \<Rightarrow> gval \<Rightarrow> bool" where
  "goKeyEq a b = (case (a, b) of
      (VFloat32 x, VFloat32 y) \<Rightarrow>
        \<not> f32NaN x \<and> \<not> f32NaN y \<and> (x = y \<or> unat x mod 2 ^ 31 = 0 \<and> unat y mod 2 ^ 31 = 0)
    | (VFloat64 x, VFloat64 y) \<Rightarrow>
        \<not> f64NaN x \<and> \<not> f64NaN y \<and> (x = y \<or> unat x mod 2 ^ 63 = 0 \<and> unat y mod 2 ^ 63 = 0)
    | (VDecimal x, VDecimal y) \<Rightarrow> False
    | _ \<Rightarrow> a = b)"

text \<open>
  \<open>result[key] = item\<close>: an equal key keeps its place and gets the new value, a new key
  is added.
\<close>

fun mapAssign :: "(gval \<times> gval) list \<Rightarrow> gval \<Rightarrow> gval \<Rightarrow> (gval \<times> gval) list" where
  "mapAssign [] key item = [(key, item)]"
| "mapAssign ((k, x) # es) key item =
     (if goKeyEq k key then (k, item) # es else (k, x) # mapAssign es key item)"

definition goMapStore :: "(gval \<times> gval) list \<Rightarrow> gval \<Rightarrow> gval \<Rightarrow> (gval \<times> gval) list res" where
  "goMapStore m key item = (if hashable key then Ok (mapAssign m key item) else Panic)"

text \<open>
  One length-prefixed part of a collection: its length at \<open>off\<close>, then its bytes. The
  result pairs the part with the offset behind it.
\<close>

definition readPart :: "string \<Rightarrow> string \<Rightarrow> bytes \<Rightarrow> nat \<Rightarrow> (bytes \<times> nat) res" where
  "readPart lenMsg payMsg payload off =
     (if off + 4 > length payload then Fail (Errf lenMsg)
      else let n = unat (getU32 (drop off payload)) in
        if off + 4 + n > length payload then Fail (Errf payMsg)
        else Ok (take n (drop (off + 4) payload), off + 4 + n))"

text \<open>The first loop of \<open>decodeRow\<close> in the indexed layout: the length of every field.\<close>

fun readLengths :: "bytes \<Rightarrow> bytes \<Rightarrow> nat \<Rightarrow> FieldType list \<Rightarrow> nat \<Rightarrow> (nat list \<times> nat) res" where
  "readLengths nullBits payload i [] off = Ok ([], off)"
| "readLengths nullBits payload i (f # fs) off =
     (if IsFixed f then
        andThen (readLengths nullBits payload (i + 1) fs off) (\<lambda>(lens, end). Ok (fixedSize f # lens, end))
      else if nullBitSet nullBits i then
        andThen (readLengths nullBits payload (i + 1) fs off) (\<lambda>(lens, end). Ok (0 # lens, end))
      else if off + 4 > length payload then Fail (Errf ''data: payload truncated'')
      else andThen (readLengths nullBits payload (i + 1) fs (off + 4)) (\<lambda>(lens, end).
        Ok (unat (getU32 (drop off payload)) # lens, end)))"

text \<open>
  The value decoder. \<open>decodeFields\<close> is the second loop of \<open>decodeRow\<close>, from field \<open>i\<close> and
  offset \<open>off\<close> on; \<open>decodeItems\<close> and \<open>decodeEntries\<close> are the counted loops over an array
  and a map.
\<close>

function (sequential) decodeValue :: "FieldType \<Rightarrow> bytes \<Rightarrow> bool \<Rightarrow> gval res"
and decodeRow :: "FieldType list \<Rightarrow> bytes \<Rightarrow> bool \<Rightarrow> gval list res"
and decodeFields :: "bool \<Rightarrow> bytes \<Rightarrow> bytes \<Rightarrow> nat list \<Rightarrow> nat \<Rightarrow> FieldType list \<Rightarrow> nat \<Rightarrow> gval list res"
and decodeGenericField :: "FieldType \<Rightarrow> bytes \<Rightarrow> gval res"
and decodeItems :: "FieldType \<Rightarrow> bytes \<Rightarrow> nat \<Rightarrow> nat \<Rightarrow> gval list res"
and decodeEntries :: "FieldType \<Rightarrow> FieldType \<Rightarrow> bytes \<Rightarrow> nat \<Rightarrow> nat \<Rightarrow> (gval \<times> gval) list \<Rightarrow>
      (gval \<times> gval) list res"
where
  "decodeValue (FieldType k len sc el ke va fs) payload indexed =
    (let field = FieldType k len sc el ke va fs in
     case k of
      TypeBool \<Rightarrow> Ok (VBool (payload \<noteq> [] \<and> hd payload \<noteq> 0))
    | TypeInt8 \<Rightarrow>
        if length payload < 1 then Fail (Errf ''data: int8 payload too short'')
        else Ok (VInt8 (hd payload))
    | TypeInt16 \<Rightarrow>
        if length payload < 2 then Fail (Errf ''data: int16 payload too short'')
        else Ok (VInt16 (getU16 payload))
    | TypeInt32 \<Rightarrow>
        if indexed then
          if length payload < 4 then Fail (Errf ''data: int32 payload too short'')
          else Ok (VInt32 (getU32 payload))
        else mapRes VInt32 (decodeCompactedInt32 payload)
    | TypeInt64 \<Rightarrow>
        if indexed then
          if length payload < 8 then Fail (Errf ''data: int64 payload too short'')
          else Ok (VInt64 (getU64 payload))
        else mapRes VInt64 (decodeCompactedInt64 payload)
    | TypeFloat32 \<Rightarrow>
        if length payload < 4 then Fail (Errf ''data: float32 payload too short'')
        else Ok (VFloat32 (getU32 payload))
    | TypeFloat64 \<Rightarrow>
        if length payload < 8 then Fail (Errf ''data: float64 payload too short'')
        else Ok (VFloat64 (getU64 payload))
    | TypeString \<Rightarrow> mapRes VString (decodeLengthPrefixedBytes payload indexed)
    | TypeBytes \<Rightarrow> mapRes VBytes (decodeLengthPrefixedBytes payload indexed)
    | TypeDecimal \<Rightarrow> decodeDecimal field payload indexed
    | TypeDate \<Rightarrow>
        if indexed then
          if length payload < 4 then Fail (Errf ''data: date payload too short'')
          else Ok (VInt32 (getU32 payload))
        else mapRes VInt32 (decodeCompactedInt32 payload)
    | TypeTime \<Rightarrow>
        if indexed then
          if length payload < 4 then Fail (Errf ''data: time payload too short'')
          else Ok (VInt32 (getU32 payload))
        else mapRes VInt32 (decodeCompactedInt32 payload)
    | TypeTimestampNtz \<Rightarrow> decodeTimestampNtz field payload indexed
    | TypeTimestampLtz \<Rightarrow> decodeTimestampLtz field payload indexed
    | TypeArray \<Rightarrow>
        (case el of
          None \<Rightarrow> Panic
        | Some e \<Rightarrow>
            if length payload < 4 then Fail (Errf ''data: collection payload too short'')
            else mapRes VSlice (decodeItems e payload (unat (getU32 payload)) 4))
    | TypeMap \<Rightarrow>
        if length payload < 4 then Fail (Errf ''data: map payload too short'')
        else (case (ke, va) of
          (Some kt, Some vt) \<Rightarrow> mapRes VMap (decodeEntries kt vt payload (unat (getU32 payload)) 4 [])
        | (Some kt, None) \<Rightarrow>
            if getU32 payload = 0 then Ok (VMap [])
            else andThen (readPart ''data: map key length truncated''
                    ''data: map key payload truncated'' payload 4) (\<lambda>(keyPart, off1).
              andThen (decodeGenericField kt keyPart) (\<lambda>_.
                andThen (readPart ''data: map value length truncated''
                    ''data: map value payload truncated'' payload off1) (\<lambda>_. Panic)))
        | (None, _) \<Rightarrow>
            if getU32 payload = 0 then Ok (VMap [])
            else andThen (readPart ''data: map key length truncated''
                    ''data: map key payload truncated'' payload 4) (\<lambda>_. Panic))
    | TypeRow \<Rightarrow> mapRes VSlice (decodeRow fs payload indexed)
    | TypeOther s \<Rightarrow> Fail (Errf ''data: unsupported type %q''))"
| "decodeRow schema payload indexed =
     andThen (SchemaValidate schema) (\<lambda>_.
       let nb = nullBitsSize (length schema) in
       if length payload < nb then Fail (Errf ''data: payload too short'')
       else if indexed then
         andThen (readLengths (take nb payload) payload 0 schema nb) (\<lambda>(lens, off).
           decodeFields True (take nb payload) payload lens 0 schema off)
       else decodeFields False (take nb payload) payload [] 0 schema nb)"
| "decodeFields indexed nullBits payload lens i [] off = Ok []"
| "decodeFields indexed nullBits payload lens i (f # fs) off =
     (if nullBitSet nullBits i then
        mapRes ((#) VNil) (decodeFields indexed nullBits payload lens (i + 1) fs off)
      else
        andThen (if indexed then goindex lens i
                 else andThen (goslice payload off (length payload)) (compactedFieldSize f)) (\<lambda>n.
          if off + n > length payload then Fail (Errf ''data: payload truncated'')
          else andThen (decodeValue f (take n (drop off payload)) indexed) (\<lambda>v.
            mapRes ((#) v) (decodeFields indexed nullBits payload lens (i + 1) fs (off + n)))))"
| "decodeGenericField field payload =
     (case payload of
        [] \<Rightarrow> Fail (Errf ''data: generic field payload too short'')
      | b # rest \<Rightarrow> if b = 1 then Ok VNil else decodeValue field rest True)"
| "decodeItems field payload 0 off = Ok []"
| "decodeItems field payload (Suc count) off =
     andThen (readPart ''data: collection item length truncated''
                ''data: collection item payload truncated'' payload off) (\<lambda>(part, next).
       andThen (decodeGenericField field part) (\<lambda>item.
         mapRes ((#) item) (decodeItems field payload count next)))"
| "decodeEntries kt vt payload 0 off result = Ok result"
| "decodeEntries kt vt payload (Suc count) off result =
     andThen (readPart ''data: map key length truncated''
                ''data: map key payload truncated'' payload off) (\<lambda>(keyPart, off1).
       andThen (decodeGenericField kt keyPart) (\<lambda>key.
         andThen (readPart ''data: map value length truncated''
                    ''data: map value payload truncated'' payload off1) (\<lambda>(valPart, off2).
           andThen (decodeGenericField vt valPart) (\<lambda>item.
             andThen (goMapStore result key item) (\<lambda>result'.
               decodeEntries kt vt payload count off2 result')))))"
  by pat_completeness auto
termination
  by (relation "measures
    [\<lambda>x. case x of
        Inl (Inl (f, p, b)) \<Rightarrow> 2 * size f
      | Inl (Inr (Inl (fs, p, b))) \<Rightarrow> 2 * size_list size fs
      | Inl (Inr (Inr (b, n, p, l, i, fs, off))) \<Rightarrow> 2 * size_list size fs
      | Inr (Inl (f, p)) \<Rightarrow> 2 * size f
      | Inr (Inr (Inl (f, p, c, off))) \<Rightarrow> 2 * size f
      | Inr (Inr (Inr (k, f, p, c, off, r))) \<Rightarrow> 2 * size k + 2 * size f,
     \<lambda>x. case x of
        Inl (Inl (f, p, b)) \<Rightarrow> 0
      | Inl (Inr (Inl (fs, p, b))) \<Rightarrow> 1
      | Inl (Inr (Inr (b, n, p, l, i, fs, off))) \<Rightarrow> 0
      | Inr (Inl (f, p)) \<Rightarrow> 1
      | Inr (Inr (Inl (f, p, c, off))) \<Rightarrow> 2 + c
      | Inr (Inr (Inr (k, f, p, c, off, r))) \<Rightarrow> 2 + c]")
    auto

text \<open>The functions the cases of nested types call, which \<open>decodeValue\<close> has in line.\<close>

definition decodeArray :: "FieldType \<Rightarrow> bytes \<Rightarrow> gval res" where
  "decodeArray field payload = (case Element field of
      None \<Rightarrow> Panic
    | Some e \<Rightarrow>
        if length payload < 4 then Fail (Errf ''data: collection payload too short'')
        else mapRes VSlice (decodeItems e payload (unat (getU32 payload)) 4))"

definition decodeNestedRow :: "FieldType \<Rightarrow> bytes \<Rightarrow> bool \<Rightarrow> gval res" where
  "decodeNestedRow field payload indexed = mapRes VSlice (decodeRow (RowFields field) payload indexed)"

lemma decodeValue_array:
  "decodeValue (FieldType TypeArray len sc el ke va fs) payload indexed = decodeArray (FieldType TypeArray len sc el ke va fs) payload"
  by (simp only: decodeValue.simps Let_def decodeArray_def TypeKind.case FieldType.sel)

lemma decodeValue_row:
  "decodeValue (FieldType TypeRow len sc el ke va fs) payload indexed
    = decodeNestedRow (FieldType TypeRow len sc el ke va fs) payload indexed"
  by (simp only: decodeValue.simps Let_def decodeNestedRow_def TypeKind.case FieldType.sel)

definition DecodeIndexed :: "Schema \<Rightarrow> bytes \<Rightarrow> gval list res" where
  "DecodeIndexed schema payload = decodeRow schema payload True"

definition DecodeCompacted :: "Schema \<Rightarrow> bytes \<Rightarrow> gval list res" where
  "DecodeCompacted schema payload = decodeRow schema payload False"

end
