(* ===== verification/Row_Roundtrip.thy ===== *)
theory Row_Roundtrip
  imports Row_Decode
begin

text \<open>
  The round trip of rows. \<open>row_layout\<close> is the contract one field's codec keeps with the
  row codec around it: a field that encodes decodes to the same value, a fixed field has
  its fixed size, and the compacted reader finds the end of a compacted field. From it
  the row lemmas (null bitmap, length table, payload) are proved once, and both layouts
  are instances of it.
\<close>

unbundle bit_operations_syntax

subsection \<open>The null bitmap\<close>

lemma nullBitSet_bit: "nullBitSet nb i \<longleftrightarrow> bit (nb ! (i div 8)) (i mod 8)"
  by (simp add: nullBitSet_def bit_iff_and_push_bit_not_eq_0)

lemma length_setNullBit [simp]: "length (setNullBit nb i) = length nb"
  by (simp add: setNullBit_def)

lemma nullBitSet_setNullBit:
  assumes "i < 8 * length nb"
  shows "nullBitSet (setNullBit nb i) j \<longleftrightarrow> j = i \<or> nullBitSet nb j"
proof (cases "j div 8 = i div 8")
  case True
  have lt: "i div 8 < length nb" using assms by auto
  have "(j mod 8 = i mod 8) = (j = i)" using True by (metis div_mod_decomp)
  with True lt show ?thesis
    by (auto simp: nullBitSet_bit setNullBit_def bit_or_iff bit_exp_iff)
next
  case False
  then show ?thesis by (auto simp: nullBitSet_bit setNullBit_def)
qed

lemma nullBitSet_replicate [simp]: "j < 8 * n \<Longrightarrow> \<not> nullBitSet (replicate n 0) j"
  by (simp add: nullBitSet_bit)

lemma nullBitsSize_bound: "n \<le> 8 * nullBitsSize n"
  by (simp add: nullBitsSize_def)

subsection \<open>What the field loop of the encoder builds\<close>

text \<open>
  \<open>ps\<close> lists the encoding of each field, \<open>None\<close> for a nil value. \<open>lengthTable\<close> is the
  length section of the indexed layout, \<open>fieldLengths\<close> the lengths the decoder reads.
\<close>

fun fieldParts :: "rat_parser \<Rightarrow> bool \<Rightarrow> FieldType list \<Rightarrow> gval list \<Rightarrow> bytes option list \<Rightarrow> bool" where
  "fieldParts rp ix [] [] [] = True"
| "fieldParts rp ix (f # fs) (v # vs) (p # ps) =
     ((case p of None \<Rightarrow> v = VNil | Some b \<Rightarrow> v \<noteq> VNil \<and> encodeValue rp f v ix = Ok b)
      \<and> fieldParts rp ix fs vs ps)"
| "fieldParts rp ix fs vs ps = False"

fun lengthTable :: "FieldType list \<Rightarrow> bytes option list \<Rightarrow> bytes" where
  "lengthTable (f # fs) (Some b # ps) =
     (if IsFixed f then [] else putU32 (word_of_nat (length b))) @ lengthTable fs ps"
| "lengthTable (f # fs) (None # ps) = lengthTable fs ps"
| "lengthTable fs ps = []"

fun fieldLengths :: "FieldType list \<Rightarrow> bytes option list \<Rightarrow> nat list" where
  "fieldLengths (f # fs) (p # ps) =
     (if IsFixed f then fixedSize f else case p of None \<Rightarrow> 0 | Some b \<Rightarrow> length b) # fieldLengths fs ps"
| "fieldLengths fs ps = []"

definition partBytes :: "bytes option list \<Rightarrow> bytes" where
  "partBytes ps = concat (map (\<lambda>p. case p of None \<Rightarrow> [] | Some b \<Rightarrow> b) ps)"

lemma partBytes_simps [simp]:
  "partBytes [] = []" "partBytes (None # ps) = partBytes ps" "partBytes (Some b # ps) = b @ partBytes ps"
  by (simp_all add: partBytes_def)

fun nullsMatch :: "bytes \<Rightarrow> nat \<Rightarrow> bytes option list \<Rightarrow> bool" where
  "nullsMatch nb i [] = True"
| "nullsMatch nb i (p # ps) = ((nullBitSet nb i \<longleftrightarrow> p = None) \<and> nullsMatch nb (i + 1) ps)"

lemma encodeFields_parts:
  assumes "encodeFields rp ix i fs vs nb vl pl = Ok (nb', vl', pl')"
    and "length fs = length vs" and "i + length fs \<le> 8 * length nb"
    and "\<And>j. i \<le> j \<Longrightarrow> j < 8 * length nb \<Longrightarrow> \<not> nullBitSet nb j"
  shows "\<exists>ps. fieldParts rp ix fs vs ps \<and> nullsMatch nb' i ps \<and> length nb' = length nb
     \<and> (\<forall>j < i. nullBitSet nb' j = nullBitSet nb j)
     \<and> vl' = vl @ (if ix then lengthTable fs ps else []) \<and> pl' = pl @ partBytes ps"
  using assms
proof (induction fs arbitrary: i vs nb vl pl)
  case Nil
  then show ?case by (intro exI[of _ "[]"]) auto
next
  case (Cons f fs)
  then obtain v vs' where vs: "vs = v # vs'" and len: "length fs = length vs'"
    by (cases vs) auto
  show ?case
  proof (cases "v = VNil")
    case True
    let ?nb = "setNullBit nb i"
    have i: "i < 8 * length nb" using Cons.prems(3) by simp
    have rest: "encodeFields rp ix (i + 1) fs vs' ?nb vl pl = Ok (nb', vl', pl')"
      using Cons.prems(1) vs True by simp
    have "\<not> nullBitSet ?nb j" if "i + 1 \<le> j" "j < 8 * length ?nb" for j
      using that Cons.prems(4)[of j] by (simp add: nullBitSet_setNullBit[OF i])
    then obtain ps where ps: "fieldParts rp ix fs vs' ps" "nullsMatch nb' (i + 1) ps"
      "length nb' = length nb" "\<forall>j < i + 1. nullBitSet nb' j = nullBitSet ?nb j"
      "vl' = vl @ (if ix then lengthTable fs ps else [])" "pl' = pl @ partBytes ps"
      using Cons.IH[OF rest len] Cons.prems(3) by auto
    with vs True show ?thesis
      by (intro exI[of _ "None # ps"]) (auto simp: nullBitSet_setNullBit[OF i])
  next
    case False
    then obtain b where b: "encodeValue rp f v ix = Ok b"
      and rest: "encodeFields rp ix (i + 1) fs vs' nb
        (if ix \<and> \<not> IsFixed f then vl @ putU32 (word_of_nat (length b)) else vl) (pl @ b) = Ok (nb', vl', pl')"
      using Cons.prems(1) vs by (auto simp: res_elims)
    obtain ps where ps: "fieldParts rp ix fs vs' ps" "nullsMatch nb' (i + 1) ps"
      "length nb' = length nb" "\<forall>j < i + 1. nullBitSet nb' j = nullBitSet nb j"
      "vl' = (if ix \<and> \<not> IsFixed f then vl @ putU32 (word_of_nat (length b)) else vl)
         @ (if ix then lengthTable fs ps else [])" "pl' = (pl @ b) @ partBytes ps"
      using Cons.IH[OF rest len] Cons.prems(3,4) by fastforce
    moreover have "\<not> nullBitSet nb' i" using ps(4) Cons.prems(3) Cons.prems(4)[of i] by simp
    ultimately show ?thesis using vs False b by (intro exI[of _ "Some b # ps"]) auto
  qed
qed

text \<open>The bytes of a row: null bitmap, length table (indexed only), field payloads.\<close>

lemma encodeRow_parts:
  assumes "encodeRow rp fs vs ix = Ok bs"
  shows "length fs = length vs \<and> SchemaValidate fs = Ok () \<and> (\<exists>nb ps. fieldParts rp ix fs vs ps
     \<and> nullsMatch nb 0 ps \<and> length nb = nullBitsSize (length fs)
     \<and> bs = nb @ (if ix then lengthTable fs ps else []) @ partBytes ps)"
proof -
  from assms have sv: "SchemaValidate fs = Ok ()"
    by (cases "SchemaValidate fs") auto
  from assms sv have len: "length fs = length vs"
    by (auto split: if_splits)
  obtain r where r: "encodeFields rp ix 0 fs vs (replicate (nullBitsSize (length vs)) 0) [] [] = Ok r"
    using assms sv len by (cases "encodeFields rp ix 0 fs vs (replicate (nullBitsSize (length vs)) 0) [] []") auto
  obtain nb vl pl where "r = (nb, vl, pl)" by (cases r)
  with r have loop: "encodeFields rp ix 0 fs vs (replicate (nullBitsSize (length vs)) 0) [] [] = Ok (nb, vl, pl)"
    by simp
  have bs: "bs = nb @ (if ix then vl else []) @ pl"
    using assms sv len loop by simp
  from encodeFields_parts[OF loop len] len nullBitsSize_bound[of "length fs"]
  obtain ps where "fieldParts rp ix fs vs ps" "nullsMatch nb 0 ps" "length nb = nullBitsSize (length fs)"
    "vl = (if ix then lengthTable fs ps else [])" "pl = partBytes ps" by auto
  with bs have "fieldParts rp ix fs vs ps \<and> nullsMatch nb 0 ps \<and> length nb = nullBitsSize (length fs)
     \<and> bs = nb @ (if ix then lengthTable fs ps else []) @ partBytes ps" by simp
  with len sv show ?thesis by blast
qed

text \<open>The decoder reads the length of every field back from the length table.\<close>

lemma fieldParts_length: "fieldParts rp ix fs vs ps \<Longrightarrow> length fs = length vs \<and> length ps = length vs"
  by (induction rp ix fs vs ps rule: fieldParts.induct) auto

lemma length_lengthTable_le: "length (lengthTable fs ps) \<le> 4 * length ps"
  by (induction fs ps rule: lengthTable.induct) auto

lemma readLengths_table:
  assumes "fieldParts rp True fs vs ps" and "nullsMatch nb i ps"
    and "drop off payload = lengthTable fs ps @ rest" and "off \<le> length payload"
    and "\<forall>p \<in> set ps. \<forall>b. p = Some b \<longrightarrow> length b < 2 ^ 32"
  shows "readLengths nb payload i fs off = Ok (fieldLengths fs ps, off + length (lengthTable fs ps))"
  using assms
proof (induction fs arbitrary: vs ps i off)
  case Nil
  then show ?case by (cases ps; cases vs) auto
next
  case (Cons f fs)
  then obtain v vs' p ps' where vs: "vs = v # vs'" and ps: "ps = p # ps'"
    by (cases vs; cases ps) auto
  have parts: "fieldParts rp True fs vs' ps'" and nulls: "nullsMatch nb (i + 1) ps'"
    and small: "\<forall>p \<in> set ps'. \<forall>b. p = Some b \<longrightarrow> length b < 2 ^ 32"
    using Cons.prems(1,2,5) vs ps by auto
  show ?case
  proof (cases "\<not> IsFixed f \<and> p \<noteq> None")
    case True
    then obtain b where b: "p = Some b" and nf: "\<not> IsFixed f" by auto
    have lt: "length b < 2 ^ 32" using Cons.prems(5) ps b by auto
    have d: "drop off payload = putU32 (word_of_nat (length b)) @ lengthTable fs ps' @ rest"
      using Cons.prems(3) ps b nf by simp
    then have "length (drop off payload) = 4 + length (lengthTable fs ps' @ rest)" by simp
    then have off4: "off + 4 \<le> length payload" by simp
    have d4: "drop (off + 4) payload = lengthTable fs ps' @ rest"
      using d by (metis drop_drop drop_append_exact length_putU(2) add.commute)
    have "readLengths nb payload (i + 1) fs (off + 4)
        = Ok (fieldLengths fs ps', off + 4 + length (lengthTable fs ps'))"
      by (rule Cons.IH[OF parts nulls d4 off4 small])
    moreover have "unat (getU32 (drop off payload)) = length b"
      unfolding d using lt by (simp add: unat_of_nat)
    moreover have "\<not> nullBitSet nb i" using Cons.prems(2) ps b by simp
    ultimately show ?thesis using ps b nf off4 by simp
  next
    case False
    then have d: "drop off payload = lengthTable fs ps' @ rest"
      using Cons.prems(3) ps by (cases p) auto
    have "readLengths nb payload (i + 1) fs off = Ok (fieldLengths fs ps', off + length (lengthTable fs ps'))"
      by (rule Cons.IH[OF parts nulls d Cons.prems(4) small])
    then show ?thesis using False Cons.prems(2) ps by (cases p) auto
  qed
qed

subsection \<open>The contract between a field codec and the row codec\<close>

locale row_layout =
  fixes rp :: rat_parser and ix :: bool and ok :: "FieldType \<Rightarrow> gval \<Rightarrow> bool"
  assumes field_roundtrip:
    "ok f v \<Longrightarrow> v \<noteq> VNil \<Longrightarrow> encodeValue rp f v ix = Ok b \<Longrightarrow> length b < 2 ^ 32 \<Longrightarrow> decodeValue f b ix = Ok v"
  and field_fixed: "ok f v \<Longrightarrow> v \<noteq> VNil \<Longrightarrow> encodeValue rp f v ix = Ok b \<Longrightarrow> ix \<Longrightarrow> IsFixed f \<Longrightarrow>
      length b = fixedSize f"
  and field_size: "ok f v \<Longrightarrow> v \<noteq> VNil \<Longrightarrow> encodeValue rp f v ix = Ok b \<Longrightarrow> length b < 2 ^ 32 \<Longrightarrow> \<not> ix \<Longrightarrow>
      compactedFieldSize f (b @ rest) = Ok (length b)"
begin

text \<open>The payload loop, from field \<open>i\<close> and offset \<open>off\<close> on.\<close>

lemma decodeFields_payload:
  assumes "fieldParts rp ix fs vs ps" and "nullsMatch nb i ps"
    and "list_all2 (\<lambda>f v. v = VNil \<or> ok f v) fs vs"
    and "\<forall>p \<in> set ps. \<forall>b. p = Some b \<longrightarrow> length b < 2 ^ 32"
    and "drop off payload = partBytes ps @ rest" and "off \<le> length payload"
    and "ix \<Longrightarrow> drop i lens = fieldLengths fs ps"
  shows "decodeFields ix nb payload lens i fs off = Ok vs"
  using assms
proof (induction fs arbitrary: vs ps i off)
  case Nil
  then show ?case by (cases vs) auto
next
  case (Cons f fs)
  then obtain v vs' p ps' where vs: "vs = v # vs'" and ps: "ps = p # ps'"
    by (cases vs; cases ps) auto
  have parts: "fieldParts rp ix fs vs' ps'" and nulls: "nullsMatch nb (i + 1) ps'"
    and oks: "list_all2 (\<lambda>f v. v = VNil \<or> ok f v) fs vs'"
    and small: "\<forall>p \<in> set ps'. \<forall>b. p = Some b \<longrightarrow> length b < 2 ^ 32"
    using Cons.prems(1,2,3,4) vs ps by auto
  have lens: "drop (i + 1) lens = fieldLengths fs ps'" if ix
    using Cons.prems(7)[OF that] ps by (metis drop_Suc Suc_eq_plus1 fieldLengths.simps(1) list.sel(3) tl_drop)
  show ?case
  proof (cases p)
    case None
    with Cons.prems(5) ps have d: "drop off payload = partBytes ps' @ rest" by simp
    have "decodeFields ix nb payload lens (i + 1) fs off = Ok vs'"
      by (rule Cons.IH[OF parts nulls oks small d Cons.prems(6) lens])
    with None Cons.prems(1,2) vs ps show ?thesis by simp
  next
    case (Some b)
    have v: "v \<noteq> VNil" "encodeValue rp f v ix = Ok b" using Cons.prems(1) vs ps Some by auto
    have okv: "ok f v" using Cons.prems(3) v vs by simp
    have lt: "length b < 2 ^ 32" using Cons.prems(4) ps Some by auto
    have d: "drop off payload = b @ partBytes ps' @ rest" using Cons.prems(5) ps Some by simp
    then have "length (drop off payload) = length b + length (partBytes ps' @ rest)" by simp
    then have offb: "off + length b \<le> length payload" using Cons.prems(6) by simp
    have db: "drop (off + length b) payload = partBytes ps' @ rest"
      using d by (metis add.commute append_eq_conv_conj drop_drop)
    have "decodeFields ix nb payload lens (i + 1) fs (off + length b) = Ok vs'"
      by (rule Cons.IH[OF parts nulls oks small db offb lens])
    moreover have "(if ix then goindex lens i
        else andThen (goslice payload off (length payload)) (compactedFieldSize f)) = Ok (length b)"
    proof (cases ix)
      case True
      then have l: "drop i lens = (if IsFixed f then fixedSize f else length b) # fieldLengths fs ps'"
        using Cons.prems(7) ps Some by simp
      then have "i < length lens" by (metis drop_all list.distinct(1) not_le)
      with l True field_fixed[OF okv v] show ?thesis
        by (auto simp: goindex_def hd_drop_conv_nth[symmetric])
    next
      case False
      with field_size[OF okv v lt False, of "partBytes ps' @ rest"] Cons.prems(6) d show ?thesis
        by simp
    qed
    moreover have "decodeValue f (take (length b) (drop off payload)) ix = Ok v"
      using field_roundtrip[OF okv v lt] d by simp
    moreover have "\<not> nullBitSet nb i" using Cons.prems(2) ps Some by simp
    ultimately show ?thesis using vs offb by simp
  qed
qed

theorem row_roundtrip:
  assumes enc: "encodeRow rp fs vs ix = Ok bs" and lt: "length bs < 2 ^ 32"
    and oks: "list_all2 (\<lambda>f v. v = VNil \<or> ok f v) fs vs"
  shows "decodeRow fs bs ix = Ok vs"
proof -
  from encodeRow_parts[OF enc] obtain nb ps where sv: "SchemaValidate fs = Ok ()"
    and parts: "fieldParts rp ix fs vs ps" and nulls: "nullsMatch nb 0 ps"
    and nb: "length nb = nullBitsSize (length fs)"
    and bs: "bs = nb @ (if ix then lengthTable fs ps else []) @ partBytes ps" by auto
  have small: "\<forall>p \<in> set ps. \<forall>b. p = Some b \<longrightarrow> length b < 2 ^ 32"
  proof (intro ballI allI impI)
    fix p b assume "p \<in> set ps" "p = Some b"
    then have "length b \<le> length (partBytes ps)"
      by (induction ps) (auto simp: partBytes_def)
    with bs lt show "length b < 2 ^ 32" by simp
  qed
  show ?thesis
  proof (cases ix)
    case True
    have "readLengths nb bs 0 fs (length nb) = Ok (fieldLengths fs ps, length nb + length (lengthTable fs ps))"
      using readLengths_table[of rp fs vs ps nb 0 "length nb" bs "partBytes ps"] parts nulls small bs True by simp
    moreover have "decodeFields True nb bs (fieldLengths fs ps) 0 fs (length nb + length (lengthTable fs ps)) = Ok vs"
      using decodeFields_payload[OF parts nulls oks small, of _ bs "[]"] bs True by simp
    ultimately show ?thesis using True sv bs by (simp add: nb[symmetric])
  next
    case False
    have "decodeFields False nb bs [] 0 fs (length nb) = Ok vs"
      using decodeFields_payload[OF parts nulls oks small, of "length nb" bs "[]"] bs False by simp
    with False sv bs show ?thesis by (simp add: nb[symmetric])
  qed
qed

end

end
