(* ===== verification/Row_Laws.thy ===== *)
theory Row_Laws
  imports Row_Roundtrip
begin

text \<open>
  The laws of the row codec. \<open>conforms t v\<close> says that \<open>v\<close> is the value the decoder
  produces for type \<open>t\<close>: the Go type of the field, a decimal that fits its encoding, a
  timestamp with no nanoseconds when the precision drops them, a map with the hashable
  and pairwise different keys a Go map has. Both layouts are interpretations of
  \<open>row_layout\<close>; the compacted one for the kinds \<open>compactable\<close> lists.
\<close>

fun conforms :: "FieldType \<Rightarrow> gval \<Rightarrow> bool" where
  "conforms (FieldType k len sc el ke va fs) v = (case (k, v) of
      (TypeBool, VBool b) \<Rightarrow> True
    | (TypeInt8, VInt8 x) \<Rightarrow> True
    | (TypeInt16, VInt16 x) \<Rightarrow> True
    | (TypeInt32, VInt32 x) \<Rightarrow> True
    | (TypeInt64, VInt64 x) \<Rightarrow> True
    | (TypeFloat32, VFloat32 x) \<Rightarrow> True
    | (TypeFloat64, VFloat64 x) \<Rightarrow> True
    | (TypeString, VString s) \<Rightarrow> True
    | (TypeBytes, VBytes s) \<Rightarrow> True
    | (TypeDecimal, VDecimal d) \<Rightarrow>
        (case Unscaled d of None \<Rightarrow> False
         | Some u \<Rightarrow> DecScale d = sc \<and> (if len \<le> 18 then - (2 ^ 63) \<le> u \<and> u < 2 ^ 63 else 0 \<le> u))
    | (TypeDate, VInt32 x) \<Rightarrow> True
    | (TypeTime, VInt32 x) \<Rightarrow> True
    | (TypeTimestampNtz, VTimestampNtz t) \<Rightarrow> len \<le> 3 \<longrightarrow> NtzNanos t = 0
    | (TypeTimestampLtz, VTimestampLtz t) \<Rightarrow> len \<le> 3 \<longrightarrow> LtzNanos t = 0
    | (TypeArray, VSlice items) \<Rightarrow>
        (case el of None \<Rightarrow> False
         | Some e \<Rightarrow> list_all (\<lambda>v. v = VNil \<or> conforms e v) items)
    | (TypeMap, VMap entries) \<Rightarrow>
        (case (ke, va) of
          (Some kt, Some vt) \<Rightarrow>
            list_all (\<lambda>(key, x). hashable key \<and> (key = VNil \<or> conforms kt key) \<and> (x = VNil \<or> conforms vt x)) entries
            \<and> sorted_wrt (\<lambda>a b. \<not> goKeyEq (fst a) (fst b)) entries
        | _ \<Rightarrow> False)
    | (TypeRow, VSlice items) \<Rightarrow> list_all2 (\<lambda>f v. v = VNil \<or> conforms f v) fs items
    | _ \<Rightarrow> False)"

abbreviation conformsRow :: "FieldType list \<Rightarrow> gval list \<Rightarrow> bool" where
  "conformsRow fs vs \<equiv> list_all2 (\<lambda>f v. v = VNil \<or> conforms f v) fs vs"

subsection \<open>Sizes of fixed fields\<close>

lemma length_encodeFixed [simp]: "length (encodeFixed32 x) = 4" "length (encodeFixed64 y) = 8"
  by (simp_all add: encodeFixed32_def encodeFixed64_def)

lemma encode_fixed_length:
  assumes "encodeValue rp f v True = Ok b" and "IsFixed f"
  shows "length b = fixedSize f"
  using assms
  by (cases f) (auto simp: Let_def IsFixed_def fixedSize_def encodeDecimal_def encodeTimestampNtz_def
      encodeTimestampLtz_def res_elims split: TypeKind.splits if_splits option.splits)

subsection \<open>Scalars\<close>

lemma decodeLengthPrefixed_indexed:
  "decodeLengthPrefixedBytes (encodeLengthPrefixedBytes s True) True = Ok s"
  by (simp add: decodeLengthPrefixedBytes_def encodeLengthPrefixedBytes_def)

lemma conforms_decimal:
  "conforms (FieldType TypeDecimal len sc el ke va fs) v \<Longrightarrow>
    \<exists>u. v = VDecimal \<lparr>Unscaled = Some u, DecScale = sc\<rparr>
      \<and> (if len \<le> 18 then - (2 ^ 63) \<le> u \<and> u < 2 ^ 63 else 0 \<le> u)"
proof -
  assume c: "conforms (FieldType TypeDecimal len sc el ke va fs) v"
  then obtain d u where v: "v = VDecimal d" and u: "Unscaled d = Some u" "DecScale d = sc"
    "if len \<le> 18 then - (2 ^ 63) \<le> u \<and> u < 2 ^ 63 else 0 \<le> u"
    by (cases v) (auto split: option.splits)
  then have "d = \<lparr>Unscaled = Some u, DecScale = sc\<rparr>" by simp
  with v u show ?thesis by blast
qed

definition scalarKind :: "TypeKind \<Rightarrow> bool" where
  "scalarKind k = (k \<noteq> TypeArray \<and> k \<noteq> TypeMap \<and> k \<noteq> TypeRow)"

lemma decodeTimestamp_indexed:
  "(Length f \<le> 3 \<longrightarrow> NtzNanos t = 0) \<Longrightarrow> decodeTimestampNtz f (encodeTimestampNtz t f) True = Ok (VTimestampNtz t)"
  "(Length f \<le> 3 \<longrightarrow> LtzNanos u = 0) \<Longrightarrow> decodeTimestampLtz f (encodeTimestampLtz u f) True = Ok (VTimestampLtz u)"
  by (auto simp: decodeTimestampNtz_def encodeTimestampNtz_def decodeTimestampLtz_def
      encodeTimestampLtz_def encodeFixed64_def)

lemma decodeDecimal_indexed:
  assumes "if Length f \<le> 18 then - (2 ^ 63) \<le> u \<and> u < 2 ^ 63 else 0 \<le> u"
    and "encodeDecimal \<lparr>Unscaled = Some u, DecScale = Scale f\<rparr> f True = Ok b"
  shows "decodeDecimal f b True = Ok (VDecimal \<lparr>Unscaled = Some u, DecScale = Scale f\<rparr>)"
  using assms
  by (auto simp: decodeDecimal_def encodeDecimal_def encodeFixed64_def sint_bigInt64
      decodeLengthPrefixed_indexed split: if_splits)

lemma scalar_roundtrip_indexed:
  assumes k: "scalarKind (Kind f)" and c: "conforms f v" and e: "encodeValue rp f v True = Ok b"
  shows "decodeValue f b True = Ok v"
proof (cases f)
  case (FieldType k len sc el ke va fs)
  show ?thesis
  proof (cases "k = TypeDecimal")
    case True
    with c FieldType conforms_decimal obtain u where
      u: "v = VDecimal \<lparr>Unscaled = Some u, DecScale = sc\<rparr>"
        "if len \<le> 18 then - (2 ^ 63) \<le> u \<and> u < 2 ^ 63 else 0 \<le> u" by blast
    with e FieldType True have "encodeDecimal \<lparr>Unscaled = Some u, DecScale = Scale f\<rparr> f True = Ok b"
      by (simp add: asDecimal_def Let_def)
    from decodeDecimal_indexed[OF _ this] u(2) FieldType True u(1) show ?thesis by (simp add: Let_def)
  next
    case False
    with k c e FieldType show ?thesis
      by (cases k; cases v) (auto simp: Let_def scalarKind_def coerce_simps encodeFixed32_def
          encodeFixed64_def decodeLengthPrefixed_indexed decodeTimestamp_indexed split: if_splits)
  qed
qed

subsection \<open>Collections\<close>

text \<open>
  \<open>genericLaw t ok\<close> is what the element codec keeps: a value that satisfies \<open>ok\<close> survives
  \<open>encodeGenericField\<close> and \<open>decodeGenericField\<close>. \<open>framed\<close> is a sequence of parts, each
  behind its length.
\<close>

declare encodeGenericField.simps [simp del] and decodeGenericField.simps [simp del]

definition framed :: "bytes list \<Rightarrow> bytes" where
  "framed ps = concat (map (\<lambda>p. putU32 (word_of_nat (length p)) @ p) ps)"

lemma framed_simps [simp]:
  "framed [] = []" "framed (p # ps) = putU32 (word_of_nat (length p)) @ p @ framed ps"
  by (simp_all add: framed_def)

lemma length_framed: "4 * length ps \<le> length (framed ps)"
  by (induction ps) auto

lemma length_in_framed: "p \<in> set ps \<Longrightarrow> length p \<le> length (framed ps)"
  by (induction ps) auto

lemma encodeGeneric_not_nil: "encodeGenericField rp f v = Ok p \<Longrightarrow> p \<noteq> []"
  by (auto simp: encodeGenericField.simps res_elims split: if_splits)

definition genericLaw :: "rat_parser \<Rightarrow> FieldType \<Rightarrow> (gval \<Rightarrow> bool) \<Rightarrow> bool" where
  "genericLaw rp f ok \<longleftrightarrow> (\<forall>v p. ok v \<longrightarrow> encodeGenericField rp f v = Ok p \<longrightarrow> length p < 2 ^ 32 \<longrightarrow>
     decodeGenericField f p = Ok v)"

lemma genericLawI:
  assumes "\<And>v b. conforms f v \<Longrightarrow> v \<noteq> VNil \<Longrightarrow> encodeValue rp f v True = Ok b \<Longrightarrow> length b < 2 ^ 32 \<Longrightarrow>
    decodeValue f b True = Ok v"
  shows "genericLaw rp f (\<lambda>v. v = VNil \<or> conforms f v)"
  using assms by (auto simp: genericLaw_def encodeGenericField.simps decodeGenericField.simps
      res_elims split: if_splits)

lemma readPart_framed:
  assumes "drop off payload = putU32 (word_of_nat (length p)) @ p @ rest" and "length p < 2 ^ 32"
    and "off \<le> length payload"
  shows "readPart m1 m2 payload off = Ok (p, off + 4 + length p)"
    and "drop (off + 4 + length p) payload = rest" and "off + 4 + length p \<le> length payload"
proof -
  have len: "length payload = off + (4 + length p + length rest)"
    using assms(1,3) by (metis add.assoc append_take_drop_id length_append length_putU(2) length_take min.absorb2)
  have n: "unat (getU32 (drop off payload)) = length p"
    unfolding assms(1) using assms(2) by (simp add: unat_of_nat)
  have d4: "drop (off + 4) payload = p @ rest"
    using assms(1) by (metis add.commute drop_append_exact drop_drop length_putU(2))
  show "readPart m1 m2 payload off = Ok (p, off + 4 + length p)"
    using len by (simp add: readPart_def n d4)
  show "drop (off + 4 + length p) payload = rest"
    using d4 by (metis add.commute drop_append_exact drop_drop)
  show "off + 4 + length p \<le> length payload" using len by simp
qed

lemma encodeItems_framed:
  "encodeItems rp f items buf = Ok bs \<Longrightarrow>
    \<exists>ps. bs = buf @ framed ps \<and> list_all2 (\<lambda>v p. encodeGenericField rp f v = Ok p) items ps"
proof (induction items arbitrary: buf)
  case Nil
  then show ?case by (intro exI[of _ "[]"]) simp
next
  case (Cons item items)
  then obtain p where p: "encodeGenericField rp f item = Ok p"
    and rest: "encodeItems rp f items (buf @ putU32 (word_of_nat (length p)) @ p) = Ok bs"
    by (auto simp: andThen_eq_Ok)
  from Cons.IH[OF rest] obtain ps where
    "bs = buf @ putU32 (word_of_nat (length p)) @ p @ framed ps"
    "list_all2 (\<lambda>v p. encodeGenericField rp f v = Ok p) items ps" by auto
  with p show ?case by (intro exI[of _ "p # ps"]) simp
qed

lemma decodeItems_framed:
  assumes "genericLaw rp f ok" and "list_all2 (\<lambda>v p. encodeGenericField rp f v = Ok p) items ps"
    and "list_all ok items" and "\<forall>p \<in> set ps. length p < 2 ^ 32"
    and "drop off payload = framed ps @ rest" and "off \<le> length payload"
  shows "decodeItems f payload (length items) off = Ok items"
  using assms(2-)
proof (induction items arbitrary: ps off)
  case Nil
  then show ?case by simp
next
  case (Cons item items)
  then obtain p ps' where ps: "ps = p # ps'" and p: "encodeGenericField rp f item = Ok p"
    and ps': "list_all2 (\<lambda>v p. encodeGenericField rp f v = Ok p) items ps'"
    by (auto simp: list_all2_Cons1)
  have d: "drop off payload = putU32 (word_of_nat (length p)) @ p @ framed ps' @ rest"
    using Cons.prems(4) ps by simp
  have lt: "length p < 2 ^ 32" using Cons.prems(3) ps by simp
  note part = readPart_framed[OF d lt Cons.prems(5)]
  have "decodeItems f payload (length items) (off + 4 + length p) = Ok items"
    using Cons.IH[OF ps' _ _ part(2,3)] Cons.prems(2,3) ps by simp
  moreover have "decodeGenericField f p = Ok item"
    using assms(1) p lt Cons.prems(2) by (simp add: genericLaw_def)
  ultimately show ?case by (simp add: part(1))
qed

lemma array_roundtrip:
  assumes law: "genericLaw rp e (\<lambda>v. v = VNil \<or> conforms e v)"
    and items: "list_all (\<lambda>v. v = VNil \<or> conforms e v) items"
    and enc: "encodeItems rp e items (putU32 (word_of_nat (length items))) = Ok b" and lt: "length b < 2 ^ 32"
  shows "decodeItems e b (unat (getU32 b)) 4 = Ok items \<and> 4 \<le> length b"
proof -
  from encodeItems_framed[OF enc] obtain ps where
    b: "b = putU32 (word_of_nat (length items)) @ framed ps"
    and ps: "list_all2 (\<lambda>v p. encodeGenericField rp e v = Ok p) items ps" by blast
  have len: "length ps = length items" using ps by (simp add: list_all2_lengthD)
  with length_framed[of ps] lt b have "length items < 2 ^ 32" by simp
  then have n: "unat (getU32 b) = length items" using b by (simp add: unat_of_nat)
  have small: "\<forall>p \<in> set ps. length p < 2 ^ 32"
    using length_in_framed[of _ ps] lt b by fastforce
  show ?thesis
    using decodeItems_framed[OF law ps items small, of 4 b "[]"] b n by simp
qed

text \<open>Maps: a new key goes to the end, so the entries come back in the encoder's order.\<close>

lemma mapAssign_new: "\<forall>e \<in> set m. \<not> goKeyEq (fst e) key \<Longrightarrow> mapAssign m key x = m @ [(key, x)]"
  by (induction m key x rule: mapAssign.induct) auto

fun pairParts :: "(bytes \<times> bytes) list \<Rightarrow> bytes list" where
  "pairParts [] = []"
| "pairParts ((a, b) # ps) = a # b # pairParts ps"

lemma length_pairParts [simp]: "length (pairParts ps) = 2 * length ps"
  by (induction ps rule: pairParts.induct) auto

definition entryParts :: "rat_parser \<Rightarrow> FieldType \<Rightarrow> FieldType \<Rightarrow> (gval \<times> gval) \<Rightarrow> bytes \<times> bytes \<Rightarrow> bool" where
  "entryParts rp kt vt e p \<longleftrightarrow>
     encodeGenericField rp kt (fst e) = Ok (fst p) \<and> encodeGenericField rp vt (snd e) = Ok (snd p)"

lemma entryParts_pair [simp]:
  "entryParts rp kt vt (key, x) (kp, xp) \<longleftrightarrow>
     encodeGenericField rp kt key = Ok kp \<and> encodeGenericField rp vt x = Ok xp"
  by (simp add: entryParts_def)

lemma encodeEntries_framed:
  "encodeEntries rp kt vt entries buf = Ok bs \<Longrightarrow>
    \<exists>ps. bs = buf @ framed (pairParts ps) \<and> list_all2 (entryParts rp kt vt) entries ps"
proof (induction entries arbitrary: buf)
  case Nil
  then show ?case by (intro exI[of _ "[]"]) simp
next
  case (Cons e entries)
  obtain key x where e: "e = (key, x)" by (cases e)
  with Cons.prems obtain kp xp where kp: "encodeGenericField rp kt key = Ok kp"
    and xp: "encodeGenericField rp vt x = Ok xp"
    and rest: "encodeEntries rp kt vt entries (buf @ putU32 (word_of_nat (length kp)) @ kp
      @ putU32 (word_of_nat (length xp)) @ xp) = Ok bs"
    by (auto simp: andThen_eq_Ok)
  from Cons.IH[OF rest] obtain ps where "bs = buf @ framed (pairParts ((kp, xp) # ps))"
    "list_all2 (entryParts rp kt vt) entries ps" by auto
  with e kp xp show ?case by (intro exI[of _ "(kp, xp) # ps"]) simp
qed

lemma decodeEntries_framed:
  assumes "genericLaw rp kt okk" and "genericLaw rp vt okv"
    and "list_all2 (entryParts rp kt vt) entries ps"
    and "list_all (\<lambda>(key, x). hashable key \<and> okk key \<and> okv x) entries"
    and "\<forall>p \<in> set (pairParts ps). length p < 2 ^ 32"
    and "sorted_wrt (\<lambda>a b. \<not> goKeyEq (fst a) (fst b)) (acc @ entries)"
    and "drop off payload = framed (pairParts ps) @ rest" and "off \<le> length payload"
  shows "decodeEntries kt vt payload (length entries) off acc = Ok (acc @ entries)"
  using assms(3-)
proof (induction entries arbitrary: ps off acc)
  case Nil
  then show ?case by simp
next
  case (Cons e entries)
  obtain key x where e: "e = (key, x)" by (cases e)
  from Cons.prems(1) obtain kp xp ps' where ps: "ps = (kp, xp) # ps'"
    and kp: "encodeGenericField rp kt key = Ok kp" and xp: "encodeGenericField rp vt x = Ok xp"
    and ps': "list_all2 (entryParts rp kt vt) entries ps'"
    by (auto simp: list_all2_Cons1 e)
  have lt: "length kp < 2 ^ 32" "length xp < 2 ^ 32" using Cons.prems(3) ps by simp_all
  have ok: "hashable key" "okk key" "okv x" and oks: "list_all (\<lambda>(key, x). hashable key \<and> okk key \<and> okv x) entries"
    using Cons.prems(2) e by simp_all
  have d: "drop off payload = putU32 (word_of_nat (length kp)) @ kp @
      (putU32 (word_of_nat (length xp)) @ xp @ framed (pairParts ps') @ rest)"
    using Cons.prems(5) ps by simp
  note k = readPart_framed[OF d lt(1) Cons.prems(6)]
  note v = readPart_framed[OF k(2) lt(2) k(3)]
  have store: "goMapStore acc key x = Ok (acc @ [e])"
    using ok(1) Cons.prems(4) e by (simp add: goMapStore_def mapAssign_new sorted_wrt_append)
  have "decodeEntries kt vt payload (length entries) (off + 4 + length kp + 4 + length xp) (acc @ [e])
      = Ok ((acc @ [e]) @ entries)"
    using Cons.IH[OF ps' oks _ _ v(2,3)] Cons.prems(3,4) ps by simp
  moreover have "decodeGenericField kt kp = Ok key" "decodeGenericField vt xp = Ok x"
    using assms(1,2) kp xp lt ok by (simp_all add: genericLaw_def)
  ultimately show ?case
    using k(1) v(1) store e by (simp)
qed

lemma map_roundtrip:
  assumes law: "genericLaw rp kt (\<lambda>v. v = VNil \<or> conforms kt v)" "genericLaw rp vt (\<lambda>v. v = VNil \<or> conforms vt v)"
    and entries: "list_all (\<lambda>(key, x). hashable key \<and> (key = VNil \<or> conforms kt key) \<and> (x = VNil \<or> conforms vt x)) entries"
    and keys: "sorted_wrt (\<lambda>a b. \<not> goKeyEq (fst a) (fst b)) entries"
    and enc: "encodeEntries rp kt vt entries (putU32 (word_of_nat (length entries))) = Ok b" and lt: "length b < 2 ^ 32"
  shows "decodeEntries kt vt b (unat (getU32 b)) 4 [] = Ok entries \<and> 4 \<le> length b"
proof -
  from encodeEntries_framed[OF enc] obtain ps where
    b: "b = putU32 (word_of_nat (length entries)) @ framed (pairParts ps)"
    and ps: "list_all2 (entryParts rp kt vt) entries ps" by blast
  have len: "length ps = length entries" using ps by (simp add: list_all2_lengthD)
  with length_framed[of "pairParts ps"] lt b have "length entries < 2 ^ 32" by simp
  then have n: "unat (getU32 b) = length entries" using b by (simp add: unat_of_nat)
  have small: "\<forall>p \<in> set (pairParts ps). length p < 2 ^ 32"
    using length_in_framed[of _ "pairParts ps"] lt b by fastforce
  show ?thesis
    using decodeEntries_framed[OF law ps entries small, of "[]" 4 b "[]"] keys b n by simp
qed

subsection \<open>Every conforming value of a valid type survives the indexed layout\<close>

lemma value_roundtrip_indexed:
  assumes "Validate t = Ok ()" and "conforms t v" and "encodeValue rp t v True = Ok b" and "length b < 2 ^ 32"
  shows "decodeValue t b True = Ok v"
  using assms
proof (induction t arbitrary: v b rule: FieldType.induct)
  case (FieldType k len sc el ke va fs)
  show ?case
  proof (cases "scalarKind k")
    case True
    with scalar_roundtrip_indexed[OF _ FieldType.prems(2,3)] show ?thesis by simp
  next
    case False
    then consider (array) "k = TypeArray" | (map) "k = TypeMap" | (row) "k = TypeRow"
      by (auto simp: scalarKind_def)
    then show ?thesis
    proof cases
      case array
      with FieldType.prems obtain e items where e: "el = Some e" "Validate e = Ok ()" "v = VSlice items"
        and items: "list_all (\<lambda>v. v = VNil \<or> conforms e v) items"
        and enc: "encodeItems rp e items (putU32 (word_of_nat (length items))) = Ok b"
        by (cases v) (auto split: option.splits)
      have "genericLaw rp e (\<lambda>v. v = VNil \<or> conforms e v)"
        using FieldType.IH(1)[of e] e by (intro genericLawI) auto
      from array_roundtrip[OF this items enc FieldType.prems(4)] array e show ?thesis by simp
    next
      case map
      with FieldType.prems obtain kt vt entries where e: "ke = Some kt" "va = Some vt" "v = VMap entries"
        and valid: "Validate kt = Ok ()" "Validate vt = Ok ()"
        and entries: "list_all (\<lambda>(key, x). hashable key \<and> (key = VNil \<or> conforms kt key) \<and> (x = VNil \<or> conforms vt x)) entries"
        and keys: "sorted_wrt (\<lambda>a b. \<not> goKeyEq (fst a) (fst b)) entries"
        and enc: "encodeEntries rp kt vt entries (putU32 (word_of_nat (length entries))) = Ok b"
        by (cases v) (auto simp: res_elims split: option.splits)
      have "genericLaw rp kt (\<lambda>v. v = VNil \<or> conforms kt v)" "genericLaw rp vt (\<lambda>v. v = VNil \<or> conforms vt v)"
        using FieldType.IH(2)[of kt] FieldType.IH(3)[of vt] e valid by (auto intro!: genericLawI)
      from map_roundtrip[OF this entries keys enc FieldType.prems(4)] map e show ?thesis by simp
    next
      case row
      with FieldType.prems obtain items where v: "v = VSlice items" and oks: "conformsRow fs items"
        and valid: "\<forall>f \<in> set fs. Validate f = Ok ()" and enc: "encodeRow rp fs items True = Ok b"
        by (cases v) (auto simp: validateFields_Ok_iff simp del: encodeRow.simps)
      let ?ok = "\<lambda>f v. f \<in> set fs \<and> conforms f v"
      have "row_layout rp True ?ok"
        using FieldType.IH(4) valid by unfold_locales (auto intro: encode_fixed_length)
      moreover have "list_all2 (\<lambda>f v. v = VNil \<or> ?ok f v) fs items"
        using oks by (auto simp: list_all2_conv_all_nth)
      ultimately have "decodeRow fs b True = Ok items"
        using row_layout.row_roundtrip enc FieldType.prems(4) by blast
      with row v show ?thesis by (simp del: decodeRow.simps)
    qed
  qed
qed

interpretation indexed: row_layout rp True "\<lambda>f v. Validate f = Ok () \<and> conforms f v" for rp
  by unfold_locales (auto intro: value_roundtrip_indexed encode_fixed_length)

end
