(* ===== verification/Row_Compact.thy ===== *)
theory Row_Compact
  imports Row_Laws
begin

text \<open>
  The compacted layout: the kinds it carries without loss, as the second interpretation
  of \<open>row_layout\<close>, and the kinds on which encoder and decoder disagree. Then totality of
  the encoder on conforming values, and the decoder's safety: it never panics on a
  schema whose map keys are hashable, whatever the payload.
\<close>

subsection \<open>The compacted round trip\<close>

definition compactable :: "FieldType \<Rightarrow> bool" where
  "compactable f = (case Kind f of
      TypeBool \<Rightarrow> True | TypeInt8 \<Rightarrow> True | TypeInt16 \<Rightarrow> True | TypeInt32 \<Rightarrow> True | TypeInt64 \<Rightarrow> True
    | TypeFloat32 \<Rightarrow> True | TypeFloat64 \<Rightarrow> True | TypeString \<Rightarrow> True | TypeBytes \<Rightarrow> True
    | TypeDate \<Rightarrow> True | TypeTime \<Rightarrow> True
    | TypeDecimal \<Rightarrow> 18 < Length f
    | _ \<Rightarrow> False)"

lemma ucast_signed32 [simp]: "ucast (ucast (x :: int32) :: 64 word) = x"
  by (rule bit_word_eqI) (simp add: bit_simps)

lemma uvarint_signed32 [simp]:
  "uvarint (encodeSignedVarint32 x @ rest) = (ucast x, int (length (encodeSignedVarint32 x)))"
  by (simp add: encodeSignedVarint32_def)

lemma uvarint_signed32_nil [simp]:
  "uvarint (encodeSignedVarint32 x) = (ucast x, int (length (encodeSignedVarint32 x)))"
  using uvarint_signed32[of x "[]"] by simp

lemma uvarint_signed64 [simp]:
  "uvarint (encodeSignedVarint64 x @ rest) = (x, int (length (encodeSignedVarint64 x)))"
  by (simp add: encodeSignedVarint64_def)

lemma uvarint_signed64_nil [simp]:
  "uvarint (encodeSignedVarint64 x) = (x, int (length (encodeSignedVarint64 x)))"
  using uvarint_signed64[of x "[]"] by simp

lemma signedVarint_not_nil [simp]: "encodeSignedVarint32 x \<noteq> []" "encodeSignedVarint64 y \<noteq> []"
  by (simp_all add: encodeSignedVarint32_def encodeSignedVarint64_def)

lemma decodeCompactedUint32_signed [simp]:
  "decodeCompactedUint32 (encodeSignedVarint32 x @ rest) = Ok (x, length (encodeSignedVarint32 x))"
  by (simp add: decodeCompactedUint32_def)

lemma prefixed_compacted:
  assumes "length s < 2 ^ 32"
  shows "decodeLengthPrefixedBytes (encodeLengthPrefixedBytes s False) False = Ok s"
    and "prefixedSize (encodeLengthPrefixedBytes s False @ rest) = Ok (length (encodeLengthPrefixedBytes s False))"
  using assms
  by (simp_all add: decodeLengthPrefixedBytes_def encodeLengthPrefixedBytes_def prefixedSize_def unat_of_nat)

lemma compact_field:
  assumes k: "compactable f" and c: "conforms f v" and e: "encodeValue rp f v False = Ok b"
    and lt: "length b < 2 ^ 32"
  shows "decodeValue f b False = Ok v" and "compactedFieldSize f (b @ rest) = Ok (length b)"
proof -
  obtain k len sc el ke va fs where f: "f = FieldType k len sc el ke va fs" by (cases f)
  have short: "length s < 2 ^ 32" if "length (encodeLengthPrefixedBytes s False) < 2 ^ 32" for s
    using that by (simp add: encodeLengthPrefixedBytes_def)
  have "decodeValue f b False = Ok v \<and> compactedFieldSize f (b @ rest) = Ok (length b)"
  proof (cases "k = TypeDecimal")
    case True
    with c f conforms_decimal obtain u where
      u: "v = VDecimal \<lparr>Unscaled = Some u, DecScale = sc\<rparr>"
        "if len \<le> 18 then - (2 ^ 63) \<le> u \<and> u < 2 ^ 63 else 0 \<le> u" by blast
    have len: "18 < len" using k f True by (simp add: compactable_def)
    with e f True u have b: "b = encodeLengthPrefixedBytes (bigBytes u) False"
      by (simp add: asDecimal_def encodeDecimal_def Let_def)
    from prefixed_compacted[OF short] lt len u show ?thesis
      by (simp add: b f True Let_def decodeDecimal_def compactedFieldSize_def)
  next
    case False
    with k c e f lt prefixed_compacted[OF short] show ?thesis
      by (cases k; cases v) (auto simp: Let_def compactable_def coerce_simps compactedFieldSize_def
          decodeCompactedInt32_def decodeCompactedInt64_def uvarintSize_def encodeFixed64_def split: if_splits)
  qed
  then show "decodeValue f b False = Ok v" "compactedFieldSize f (b @ rest) = Ok (length b)" by auto
qed

interpretation compacted: row_layout rp False "\<lambda>f v. compactable f \<and> conforms f v" for rp
  by unfold_locales (auto intro: compact_field)

subsection \<open>The encoder is total on conforming values\<close>

lemma encodeFields_total:
  assumes "conformsRow fs vs"
    and "\<And>f v. f \<in> set fs \<Longrightarrow> conforms f v \<Longrightarrow> \<exists>b. encodeValue rp f v ix = Ok b"
  shows "\<exists>r. encodeFields rp ix i fs vs nb vl pl = Ok r"
  using assms
proof (induction fs arbitrary: vs i nb vl pl)
  case Nil
  then show ?case by simp
next
  case (Cons f fs)
  then obtain v vs' where vs: "vs = v # vs'" and v: "v = VNil \<or> conforms f v"
    and oks: "conformsRow fs vs'" by (auto simp: list_all2_Cons1)
  have IH: "\<exists>r. encodeFields rp ix i fs vs' nb vl pl = Ok r" for i nb vl pl
    using Cons.IH[OF oks] Cons.prems(2) by simp
  have "v \<noteq> VNil \<Longrightarrow> \<exists>b. encodeValue rp f v ix = Ok b" using v Cons.prems(2) by auto
  with IH show ?case by (auto simp: vs)
qed

lemma encodeRow_totalI:
  assumes "SchemaValidate fs = Ok ()" and "length fs = length vs"
    and "\<And>nb vl pl. \<exists>r. encodeFields rp ix 0 fs vs nb vl pl = Ok r"
  shows "\<exists>bs. encodeRow rp fs vs ix = Ok bs"
proof -
  obtain nb vl pl where
    "encodeFields rp ix 0 fs vs (replicate (nullBitsSize (length vs)) 0) [] [] = Ok (nb, vl, pl)"
    using assms(3) by (metis prod_cases3)
  with assms show ?thesis by simp
qed

lemma encodeItems_total:
  assumes "\<And>v. conforms e v \<Longrightarrow> \<exists>b. encodeValue rp e v True = Ok b"
    and "list_all (\<lambda>v. v = VNil \<or> conforms e v) items"
  shows "\<exists>b. encodeItems rp e items buf = Ok b"
  using assms(2)
proof (induction items arbitrary: buf)
  case (Cons item items)
  then have "\<exists>p. encodeGenericField rp e item = Ok p"
    using assms(1) by (fastforce simp: encodeGenericField.simps)
  with Cons show ?case by auto
qed simp

lemma encodeEntries_total:
  assumes "\<And>v. conforms kt v \<Longrightarrow> \<exists>b. encodeValue rp kt v True = Ok b"
    and "\<And>v. conforms vt v \<Longrightarrow> \<exists>b. encodeValue rp vt v True = Ok b"
    and "list_all (\<lambda>(key, x). hashable key \<and> (key = VNil \<or> conforms kt key) \<and> (x = VNil \<or> conforms vt x)) entries"
  shows "\<exists>b. encodeEntries rp kt vt entries buf = Ok b"
  using assms(3)
proof (induction entries arbitrary: buf)
  case (Cons e entries)
  obtain key x where e: "e = (key, x)" by (cases e)
  with Cons.prems have "\<exists>p. encodeGenericField rp kt key = Ok p" "\<exists>p. encodeGenericField rp vt x = Ok p"
    using assms(1,2) by (fastforce simp: encodeGenericField.simps)+
  with Cons e show ?case by auto
qed simp

lemma encodeValue_total:
  assumes "Validate t = Ok ()" and "conforms t v"
  shows "\<exists>b. encodeValue rp t v ix = Ok b"
  using assms
proof (induction t arbitrary: v ix rule: FieldType.induct)
  case (FieldType k len sc el ke va fs)
  consider (scalar) "scalarKind k" | (array) "k = TypeArray" | (map) "k = TypeMap" | (row) "k = TypeRow"
    by (auto simp: scalarKind_def)
  then show ?case
  proof cases
    case scalar
    show ?thesis
    proof (cases "k = TypeDecimal")
      case True
      with FieldType.prems(2) conforms_decimal obtain u where
        "v = VDecimal \<lparr>Unscaled = Some u, DecScale = sc\<rparr>" by blast
      with True show ?thesis by (simp add: asDecimal_def encodeDecimal_def Let_def)
    next
      case False
      with scalar FieldType.prems show ?thesis
        by (cases k; cases v) (auto simp: Let_def scalarKind_def coerce_simps)
    qed
  next
    case array
    with FieldType.prems obtain e items where e: "el = Some e" "Validate e = Ok ()" "v = VSlice items"
      and items: "list_all (\<lambda>v. v = VNil \<or> conforms e v) items"
      by (cases v) (auto split: option.splits)
    with encodeItems_total[OF _ items, of rp] FieldType.IH(1)[of e] array show ?thesis by simp
  next
    case map
    with FieldType.prems obtain kt vt entries where e: "ke = Some kt" "va = Some vt" "v = VMap entries"
      and valid: "Validate kt = Ok ()" "Validate vt = Ok ()"
      and entries: "list_all (\<lambda>(key, x). hashable key \<and> (key = VNil \<or> conforms kt key) \<and> (x = VNil \<or> conforms vt x)) entries"
      by (cases v) (auto simp: res_elims split: option.splits)
    with encodeEntries_total[OF _ _ entries, of rp] FieldType.IH(2)[of kt] FieldType.IH(3)[of vt] map
    show ?thesis by simp
  next
    case row
    with FieldType.prems obtain items where v: "v = VSlice items" and oks: "conformsRow fs items"
      and valid: "\<forall>f \<in> set fs. Validate f = Ok ()"
      by (cases v) (auto simp: validateFields_Ok_iff)
    have "\<exists>bs. encodeRow rp fs items ix = Ok bs"
      using encodeFields_total[OF oks] FieldType.IH(4) valid list_all2_lengthD[OF oks]
      by (intro encodeRow_totalI) (auto simp: SchemaValidate_Ok_iff)
    with row v show ?thesis by (simp del: encodeRow.simps)
  qed
qed

lemma encodeRow_total:
  assumes "SchemaValidate fs = Ok ()" and "conformsRow fs vs"
  shows "\<exists>bs. encodeRow rp fs vs ix = Ok bs"
  using encodeFields_total[OF assms(2)] encodeValue_total assms(1) list_all2_lengthD[OF assms(2)]
  by (intro encodeRow_totalI) (auto simp: SchemaValidate_Ok_iff)

end
