(* ===== verification/Row_Safety.thy ===== *)
theory Row_Safety
  imports Row_Compact
begin

text \<open>
  The decoder on arbitrary bytes: for a valid schema whose map keys have hashable Go
  types it returns a row or an error, never a panic, and the row has one value per
  field. \<open>safeKeys\<close> is that condition on a type.
\<close>

fun safeKeys :: "FieldType \<Rightarrow> bool" where
  "safeKeys (FieldType k len sc el ke va fs) = (case k of
      TypeArray \<Rightarrow> (case el of None \<Rightarrow> True | Some e \<Rightarrow> safeKeys e)
    | TypeMap \<Rightarrow>
        (case ke of None \<Rightarrow> True
         | Some kt \<Rightarrow> Kind kt \<noteq> TypeBytes \<and> scalarKind (Kind kt) \<and> safeKeys kt)
        \<and> (case va of None \<Rightarrow> True | Some vt \<Rightarrow> safeKeys vt)
    | TypeRow \<Rightarrow> list_all safeKeys fs
    | _ \<Rightarrow> True)"

named_theorems no_panic \<open>functions that never panic\<close>

lemma mapRes_no_panic [no_panic]: "x \<noteq> Panic \<Longrightarrow> mapRes f x \<noteq> Panic"
  by simp

lemma andThen_no_panic [no_panic]:
  "x \<noteq> Panic \<Longrightarrow> (\<And>a. x = Ok a \<Longrightarrow> f a \<noteq> Panic) \<Longrightarrow> andThen x f \<noteq> Panic"
  by (cases x) auto

lemma leaf_no_panic [no_panic]:
  "decodeCompactedInt32 p \<noteq> Panic" "decodeCompactedInt64 p \<noteq> Panic"
  "decodeLengthPrefixedBytes p ix \<noteq> Panic" "compactedFieldSize f p \<noteq> Panic"
  "decodeDecimal f p ix \<noteq> Panic" "decodeTimestampNtz f p ix \<noteq> Panic" "decodeTimestampLtz f p ix \<noteq> Panic"
  "readPart m n p off \<noteq> Panic" "readLengths nb p i fs off \<noteq> Panic"
proof -
  show "readLengths nb p i fs off \<noteq> Panic"
    by (induction nb p i fs off rule: readLengths.induct) (auto simp: andThen_eq_Panic)
qed (auto simp: decodeCompactedInt32_def decodeCompactedInt64_def decodeLengthPrefixedBytes_def
    decodeCompactedUint32_def compactedFieldSize_def uvarintSize_def prefixedSize_def timestampSize_def
    decodeDecimal_def decodeTimestampNtz_def decodeTimestampLtz_def readPart_def Let_def andThen_eq_Panic
    split: TypeKind.splits prod.splits)

lemma readLengths_length: "readLengths nb p i fs off = Ok (lens, end) \<Longrightarrow> length lens = length fs"
  by (induction nb p i fs off arbitrary: lens "end" rule: readLengths.induct)
    (auto simp: res_elims split: if_splits)

lemma decoded_key_hashable:
  assumes "Kind f \<noteq> TypeBytes" and "scalarKind (Kind f)" and "decodeGenericField f p = Ok v"
  shows "hashable v"
proof (cases f)
  case (FieldType k len sc el ke va fs)
  with assms show ?thesis
    by (cases k) (auto simp: decodeGenericField.simps scalarKind_def Let_def res_elims decodeDecimal_def
        decodeTimestampNtz_def decodeTimestampLtz_def split: list.splits if_splits prod.splits)
qed

lemma decodeFields_no_panic:
  assumes "\<And>f p. f \<in> set fs \<Longrightarrow> decodeValue f p ix \<noteq> Panic"
    and "ix \<Longrightarrow> i + length fs \<le> length lens" and "\<not> ix \<Longrightarrow> off \<le> length payload"
  shows "decodeFields ix nb payload lens i fs off \<noteq> Panic"
  using assms
proof (induction fs arbitrary: i off)
  case Nil
  then show ?case by simp
next
  case (Cons f fs)
  have IH: "decodeFields ix nb payload lens (i + 1) fs off' \<noteq> Panic" if "\<not> ix \<Longrightarrow> off' \<le> length payload" for off'
    using Cons.IH[of "i + 1" off'] Cons.prems that by auto
  let ?n = "if ix then goindex lens i else andThen (goslice payload off (length payload)) (compactedFieldSize f)"
  have "?n \<noteq> Panic"
    using Cons.prems(2,3) by (auto simp: goindex_eq_Panic no_panic)
  then show ?case
    using IH Cons.prems(1,3) by (auto simp: andThen_eq_Panic split: if_splits)
qed

lemma decodeRow_no_panicI:
  assumes "\<And>f p. f \<in> set fs \<Longrightarrow> decodeValue f p ix \<noteq> Panic"
  shows "decodeRow fs payload ix \<noteq> Panic"
proof -
  have "decodeFields True nb payload lens 0 fs off \<noteq> Panic"
    if "readLengths nb payload 0 fs n = Ok (lens, off)" "ix" for nb lens n off
    using decodeFields_no_panic[of fs True 0 lens] assms that readLengths_length[OF that(1)] by simp
  moreover have "decodeFields False nb payload [] 0 fs n \<noteq> Panic" if "n \<le> length payload" "\<not> ix" for nb n
    using decodeFields_no_panic[of fs False 0 "[]" n payload] assms that by simp
  moreover have "SchemaValidate fs \<noteq> Panic" by (simp add: SchemaValidate_def validateFields_not_Panic)
  ultimately show ?thesis
    by (auto simp: Let_def andThen_eq_Panic leaf_no_panic)
qed

lemma decodeItems_no_panic:
  assumes "\<And>p. decodeValue e p True \<noteq> Panic"
  shows "decodeItems e payload n off \<noteq> Panic"
proof (induction n arbitrary: off)
  case (Suc n)
  have "decodeGenericField e p \<noteq> Panic" for p
    using assms by (auto simp: decodeGenericField.simps split: list.splits)
  with Suc show ?case by (auto simp: andThen_eq_Panic no_panic)
qed simp

lemma decodeEntries_no_panic:
  assumes "\<And>p. decodeValue kt p True \<noteq> Panic" and "\<And>p. decodeValue vt p True \<noteq> Panic"
    and "Kind kt \<noteq> TypeBytes" and "scalarKind (Kind kt)"
  shows "decodeEntries kt vt payload n off acc \<noteq> Panic"
proof (induction n arbitrary: off acc)
  case (Suc n)
  have "decodeGenericField kt p \<noteq> Panic" "decodeGenericField vt p \<noteq> Panic" for p
    using assms by (auto simp: decodeGenericField.simps split: list.splits)
  moreover have "goMapStore m key x \<noteq> Panic" if "decodeGenericField kt p = Ok key" for p m key x
    using decoded_key_hashable[OF assms(3,4) that] by (simp add: goMapStore_def)
  ultimately show ?case using Suc by (auto simp: andThen_eq_Panic no_panic)
qed simp

lemma decodeValue_no_panic:
  assumes "Validate t = Ok ()" and "safeKeys t"
  shows "decodeValue t p ix \<noteq> Panic"
  using assms
proof (induction t arbitrary: p ix rule: FieldType.induct)
  case (FieldType k len sc el ke va fs)
  consider (scalar) "scalarKind k" | (array) "k = TypeArray" | (map) "k = TypeMap" | (row) "k = TypeRow"
    by (auto simp: scalarKind_def)
  then show ?case
  proof cases
    case scalar
    then show ?thesis by (cases k) (auto simp: Let_def no_panic scalarKind_def)
  next
    case array
    with FieldType.prems obtain e where e: "el = Some e" "Validate e = Ok ()" "safeKeys e"
      by (auto split: option.splits)
    with decodeItems_no_panic[of e] FieldType.IH(1)[of e] array show ?thesis by simp
  next
    case map
    with FieldType.prems obtain kt vt where e: "ke = Some kt" "va = Some vt"
      and valid: "Validate kt = Ok ()" "Validate vt = Ok ()" "safeKeys kt" "safeKeys vt"
      and kinds: "Kind kt \<noteq> TypeBytes" "scalarKind (Kind kt)"
      by (auto simp: res_elims split: option.splits)
    with decodeEntries_no_panic[of kt vt] FieldType.IH(2)[of kt] FieldType.IH(3)[of vt] map
    show ?thesis by simp
  next
    case row
    with FieldType.prems FieldType.IH(4) have "decodeRow fs p ix \<noteq> Panic"
      by (intro decodeRow_no_panicI) (auto simp: validateFields_Ok_iff list_all_iff)
    with row show ?thesis by (simp del: decodeRow.simps)
  qed
qed

lemma decodeRow_no_panic:
  assumes "list_all safeKeys fs"
  shows "decodeRow fs payload ix \<noteq> Panic"
proof (cases "SchemaValidate fs = Ok ()")
  case True
  with assms show ?thesis
    by (intro decodeRow_no_panicI decodeValue_no_panic) (auto simp: SchemaValidate_Ok_iff list_all_iff)
next
  case False
  then show ?thesis
    by (cases "SchemaValidate fs") (auto simp: SchemaValidate_def validateFields_not_Panic)
qed

lemma decodeFields_length: "decodeFields ix nb p lens i fs off = Ok vs \<Longrightarrow> length vs = length fs"
  by (induction fs arbitrary: i off vs) (auto simp: res_elims split: if_splits)

lemma decodeRow_length: "decodeRow fs p ix = Ok vs \<Longrightarrow> length vs = length fs"
  by (auto simp: Let_def res_elims decodeFields_length split: if_splits)

end
