(* ===== verification/Row_Key.thy ===== *)
theory Row_Key
  imports Row_Safety
begin

text \<open>
  Lookup keys. \<open>prefix_code\<close> is the contract that makes a concatenation of column
  encodings unambiguous: the encoding of one column is not a proper prefix of another
  one of the same type. \<open>encodeCompactedKeyValue\<close> provides it on the values \<open>keyable\<close>
  describes, so different keys of a table never get the same lookup bytes.
\<close>

definition encodeLookupValue :: "rat_parser \<Rightarrow> FieldType \<Rightarrow> gval \<Rightarrow> bytes res" where
  "encodeLookupValue rp field v = encodeCompactedKeyValue rp field v"

text \<open>The loop of \<open>Row.EncodeLookupKey\<close>; a column index is an \<open>int\<close> and may be negative.\<close>

fun lookupKeyLoop :: "rat_parser \<Rightarrow> Row \<Rightarrow> int list \<Rightarrow> bytes \<Rightarrow> bytes res" where
  "lookupKeyLoop rp r [] buf = Ok buf"
| "lookupKeyLoop rp r (idx # cols) buf =
     (if idx < 0 \<or> idx \<ge> int (length (RowValues r)) then Fail (Errf ''rowcodec: key column index %d out of range'')
      else andThen (goindex (RowSchema r) (nat idx)) (\<lambda>field.
        andThen (encodeCompactedKeyValue rp field (RowValues r ! nat idx)) (\<lambda>part.
          lookupKeyLoop rp r cols (buf @ part))))"

definition EncodeLookupKey :: "rat_parser \<Rightarrow> Row \<Rightarrow> int list \<Rightarrow> bytes res" where
  "EncodeLookupKey rp r cols =
     (if cols = [] then Fail (Errf ''rowcodec: at least one key column is required'')
      else lookupKeyLoop rp r cols [])"

locale prefix_code =
  fixes enc :: "'f \<Rightarrow> 'v \<Rightarrow> bytes res" and ok :: "'f \<Rightarrow> 'v \<Rightarrow> bool"
  assumes prefix_free: "ok f v \<Longrightarrow> ok f w \<Longrightarrow> enc f v = Ok a \<Longrightarrow> enc f w = Ok b \<Longrightarrow> a @ r = b @ s \<Longrightarrow>
    v = w \<and> a = b"
begin

text \<open>Equal concatenations of the same columns come from equal values.\<close>

lemma columns_injective:
  assumes "list_all2 (\<lambda>(f, v) a. ok f v \<and> enc f v = Ok a) (zip fs vs) as"
    and "list_all2 (\<lambda>(f, w) b. ok f w \<and> enc f w = Ok b) (zip fs ws) bs"
    and "length vs = length fs" and "length ws = length fs" and "concat as @ r = concat bs @ s"
  shows "vs = ws \<and> r = s"
  using assms
proof (induction fs arbitrary: vs ws as bs)
  case Nil
  then show ?case by simp
next
  case (Cons f fs)
  obtain v vs' w ws' where vs: "vs = v # vs'" "ws = w # ws'" using Cons.prems(3,4) by (cases vs; cases ws) auto
  with Cons.prems(1,2) obtain a as' b bs' where ab: "as = a # as'" "bs = b # bs'"
    "ok f v" "enc f v = Ok a" "ok f w" "enc f w = Ok b"
    "list_all2 (\<lambda>(f, v) a. ok f v \<and> enc f v = Ok a) (zip fs vs') as'"
    "list_all2 (\<lambda>(f, w) b. ok f w \<and> enc f w = Ok b) (zip fs ws') bs'"
    by (auto simp: list_all2_Cons1)
  with Cons.prems(5) have eq: "a @ (concat as' @ r) = b @ (concat bs' @ s)" by simp
  from prefix_free[OF ab(3,5,4,6) eq] have "v = w" "a = b" by auto
  with eq Cons.IH[OF ab(7,8)] Cons.prems(3,4) vs show ?case by auto
qed

end

text \<open>
  The values a key column takes: conforming scalars, with byte strings short enough
  for a 32-bit length. (A decimal of precision above 18 conforms only when it is not
  negative.)
\<close>

definition keyable :: "FieldType \<Rightarrow> gval \<Rightarrow> bool" where
  "keyable f v \<longleftrightarrow> conforms f v \<and> scalarKind (Kind f) \<and>
     (case v of VString s \<Rightarrow> length s < 2 ^ 32 | VBytes s \<Rightarrow> length s < 2 ^ 32
      | VDecimal d \<Rightarrow> (case Unscaled d of None \<Rightarrow> False | Some u \<Rightarrow> length (bigBytes u) < 2 ^ 32)
      | _ \<Rightarrow> True)"

lemma signed32_append_inj [simp]:
  "encodeSignedVarint32 x @ r = encodeSignedVarint32 y @ s \<longleftrightarrow> x = y \<and> r = s"
  using uvarint_signed32[of x r] uvarint_signed32[of y s]
  by (metis append_same_eq decodeCompactedUint32_signed res.inject(1) prod.inject append_eq_append_conv)

lemma signed64_append_inj [simp]:
  "encodeSignedVarint64 x @ r = encodeSignedVarint64 y @ s \<longleftrightarrow> x = y \<and> r = s"
  using putUvarint_append_inj by (auto simp: encodeSignedVarint64_def)

lemma put_append_inj [simp]:
  "putU16 a @ r = putU16 b @ s \<longleftrightarrow> a = b \<and> r = s" "putU32 c @ r = putU32 d @ s \<longleftrightarrow> c = d \<and> r = s"
  "putU64 e @ r = putU64 f @ s \<longleftrightarrow> e = f \<and> r = s"
  by (auto simp: append_eq_append_conv putU_inj)

lemma prefixed_append_inj:
  assumes "length x < 2 ^ 32" and "length y < 2 ^ 32"
  shows "encodeLengthPrefixedBytes x False @ r = encodeLengthPrefixedBytes y False @ s \<longleftrightarrow> x = y \<and> r = s"
proof
  assume eq: "encodeLengthPrefixedBytes x False @ r = encodeLengthPrefixedBytes y False @ s"
  then have "(word_of_nat (length x) :: int32) = word_of_nat (length y)" and "x @ r = y @ s"
    by (simp_all add: encodeLengthPrefixedBytes_def)
  moreover have "unat (word_of_nat (length x) :: int32) = unat (word_of_nat (length y) :: int32)"
    using calculation(1) by simp
  then have "length x = length y" using assms by (simp add: unat_of_nat)
  ultimately show "x = y \<and> r = s" by simp
qed simp

lemma key_prefix_free:
  assumes "keyable f v" and "keyable f w" and "encodeCompactedKeyValue rp f v = Ok a"
    and "encodeCompactedKeyValue rp f w = Ok b" and "a @ r = b @ s"
  shows "v = w \<and> a = b"
proof -
  obtain k len sc el ke va fs where f: "f = FieldType k len sc el ke va fs" by (cases f)
  show ?thesis
  proof (cases "k = TypeDecimal")
    case True
    with assms(1,2) f conforms_decimal obtain x y where
      x: "v = VDecimal \<lparr>Unscaled = Some x, DecScale = sc\<rparr>" "if len \<le> 18 then - (2 ^ 63) \<le> x \<and> x < 2 ^ 63 else 0 \<le> x"
      and y: "w = VDecimal \<lparr>Unscaled = Some y, DecScale = sc\<rparr>" "if len \<le> 18 then - (2 ^ 63) \<le> y \<and> y < 2 ^ 63 else 0 \<le> y"
      unfolding keyable_def by metis
    show ?thesis
    proof (cases "len \<le> 18")
      case True
      with x y assms(3-5) f \<open>k = TypeDecimal\<close> have "bigInt64 x = bigInt64 y" "a = b"
        by (auto simp: encodeCompactedKeyValue_def asDecimal_def encodeDecimalCompact_def)
      then have "sint (bigInt64 x) = sint (bigInt64 y)" by simp
      with x y True \<open>a = b\<close> show ?thesis by (simp add: sint_bigInt64)
    next
      case False
      with x y assms f \<open>k = TypeDecimal\<close> have "bigBytes x = bigBytes y" "a = b"
        by (auto simp: encodeCompactedKeyValue_def asDecimal_def encodeDecimalCompact_def keyable_def
            prefixed_append_inj)
      with x y False show ?thesis by (simp add: bigBytes_inj)
    qed
  next
    case False
    with assms f show ?thesis
      by (cases k) (auto simp: encodeCompactedKeyValue_def keyable_def scalarKind_def
          coerce_simps prefixed_append_inj encodeFixed64_def encodeCompactedTimestampNtz_def
          encodeCompactedTimestampLtz_def split: if_splits gval.split_asm
          intro: TimestampNtz.equality TimestampLtz.equality)
  qed
qed

interpretation key: prefix_code "encodeCompactedKeyValue rp" keyable for rp
  by unfold_locales (blast dest: key_prefix_free)

text \<open>The loop concatenates the encodings of the key columns in order.\<close>

lemma lookupKeyLoop_parts:
  "lookupKeyLoop rp r cols buf = Ok k \<Longrightarrow> \<exists>as. k = buf @ concat as \<and>
     list_all2 (\<lambda>c a. 0 \<le> c \<and> nat c < length (RowValues r) \<and> nat c < length (RowSchema r) \<and>
       encodeCompactedKeyValue rp (RowSchema r ! nat c) (RowValues r ! nat c) = Ok a) cols as"
proof (induction cols arbitrary: buf)
  case Nil
  then show ?case by (intro exI[of _ "[]"]) simp
next
  case (Cons c cols)
  then obtain a where c: "0 \<le> c" "nat c < length (RowValues r)" "nat c < length (RowSchema r)"
    and a: "encodeCompactedKeyValue rp (RowSchema r ! nat c) (RowValues r ! nat c) = Ok a"
    and rest: "lookupKeyLoop rp r cols (buf @ a) = Ok k"
    by (auto simp: res_elims split: if_splits)
  from Cons.IH[OF rest] obtain as where "k = (buf @ a) @ concat as"
    "list_all2 (\<lambda>c a. 0 \<le> c \<and> nat c < length (RowValues r) \<and> nat c < length (RowSchema r) \<and>
       encodeCompactedKeyValue rp (RowSchema r ! nat c) (RowValues r ! nat c) = Ok a) cols as" by blast
  with c a show ?case by (intro exI[of _ "a # as"]) simp
qed

lemma lookupKey_injective:
  assumes "EncodeLookupKey rp \<lparr>RowSchema = fs, RowValues = vs\<rparr> cols = Ok k"
    and "EncodeLookupKey rp \<lparr>RowSchema = fs, RowValues = ws\<rparr> cols = Ok k"
    and "\<forall>c \<in> set cols. keyable (fs ! nat c) (vs ! nat c) \<and> keyable (fs ! nat c) (ws ! nat c)"
  shows "\<forall>c \<in> set cols. vs ! nat c = ws ! nat c"
proof -
  let ?fs = "map (\<lambda>c. fs ! nat c) cols"
  let ?vs = "map (\<lambda>c. vs ! nat c) cols" and ?ws = "map (\<lambda>c. ws ! nat c) cols"
  from assms(1) have "lookupKeyLoop rp \<lparr>RowSchema = fs, RowValues = vs\<rparr> cols [] = Ok k"
    by (simp add: EncodeLookupKey_def split: if_splits)
  from lookupKeyLoop_parts[OF this] obtain as where as: "k = concat as"
    "list_all2 (\<lambda>(f, v) a. keyable f v \<and> encodeCompactedKeyValue rp f v = Ok a) (zip ?fs ?vs) as"
    using assms(3) by (auto simp: zip_map_map zip_same_conv_map list_all2_conv_all_nth)
  from assms(2) have "lookupKeyLoop rp \<lparr>RowSchema = fs, RowValues = ws\<rparr> cols [] = Ok k"
    by (simp add: EncodeLookupKey_def split: if_splits)
  from lookupKeyLoop_parts[OF this] obtain bs where bs: "k = concat bs"
    "list_all2 (\<lambda>(f, v) a. keyable f v \<and> encodeCompactedKeyValue rp f v = Ok a) (zip ?fs ?ws) bs"
    using assms(3) by (auto simp: zip_map_map zip_same_conv_map list_all2_conv_all_nth)
  have "?vs = ?ws"
    using key.columns_injective[OF as(2) bs(2), of "[]" "[]"] as(1) bs(1) by simp
  then show ?thesis by simp
qed

end
