(* ===== verification/Row_Batch.thy ===== *)
theory Row_Batch
  imports Row_Key
begin

text \<open>
  Record batches of the row codec: the log batch (48-byte header, one CRC-protected
  body of length-prefixed records), the key-value batch and the value batch of limit
  scans. \<open>batch_stream\<close> is the contract of a loop that reads units from the head of the
  remaining bytes until none are left; the loops over log batches and over log records
  are interpretations of it.
\<close>

record WriterState =
  WriterID :: int64
  BatchSequence :: int32

record LogBatchOptions =
  LogSchemaID :: int32
  LogIndexed :: bool
  LogWriterState :: "WriterState option"

record KvBatchOptions =
  KvSchemaID :: int32
  KvIndexed :: bool
  KeyColumns :: "int list"
  KvWriterState :: "WriterState option"

definition logHeaderSize :: nat where "logHeaderSize = 48"
definition kvHeaderSize :: nat where "kvHeaderSize = 28"
definition logLengthFieldSize :: nat where "logLengthFieldSize = 36"
definition kvLengthFieldSize :: nat where "kvLengthFieldSize = 24"

lemmas header_sizes = logHeaderSize_def kvHeaderSize_def logLengthFieldSize_def kvLengthFieldSize_def

definition encodedWriterID :: "WriterState option \<Rightarrow> 64 word" where
  "encodedWriterID ws = (case ws of None \<Rightarrow> - 1 | Some s \<Rightarrow> WriterID s)"

definition encodedBatchSequence :: "WriterState option \<Rightarrow> 32 word" where
  "encodedBatchSequence ws = (case ws of None \<Rightarrow> - 1 | Some s \<Rightarrow> BatchSequence s)"

text \<open>\<open>PutUint32(buf[at:at+4], crc)\<close> over the placeholder written before.\<close>

definition patchU32 :: "nat \<Rightarrow> 32 word \<Rightarrow> bytes \<Rightarrow> bytes" where
  "patchU32 at w buf = take at buf @ putU32 w @ drop (at + 4) buf"

definition encodeLogBatch :: "int32 \<Rightarrow> bytes \<Rightarrow> WriterState option \<Rightarrow> bytes" where
  "encodeLogBatch schemaID recordPayload ws =
     (let buf = putU64 0
            @ putU32 (word_of_nat (logLengthFieldSize + length recordPayload))
            @ [0]
            @ putU64 0
            @ putU32 0
            @ putU16 (ucast schemaID)
            @ [0]
            @ putU32 0
            @ putU64 (encodedWriterID ws)
            @ putU32 (encodedBatchSequence ws)
            @ putU32 1
            @ recordPayload
      in patchU32 21 (crc32c (drop 25 buf)) buf)"

definition encodeKvBatch :: "int32 \<Rightarrow> bytes \<Rightarrow> WriterState option \<Rightarrow> bytes" where
  "encodeKvBatch schemaID recordPayload ws =
     (let buf = putU32 (word_of_nat (kvLengthFieldSize + length recordPayload))
            @ [0]
            @ putU32 0
            @ putU16 (ucast schemaID)
            @ [0]
            @ putU64 (encodedWriterID ws)
            @ putU32 (encodedBatchSequence ws)
            @ putU32 1
            @ recordPayload
      in patchU32 5 (crc32c (drop 9 buf)) buf)"

text \<open>
  \<open>batch := payload[:batchSize]\<close> keeps the capacity of the payload, so reading
  \<open>batch[21:25]\<close> never panics once 48 bytes are there, while \<open>batch[25:]\<close> and
  \<open>batch[48:]\<close> panic when the declared size is smaller.
\<close>

definition decodeLogBatch :: "bytes \<Rightarrow> (nat \<times> bytes) res" where
  "decodeLogBatch payload =
     (if length payload < logHeaderSize then Fail (Errf ''data: log batch payload too short'')
      else if payload ! 12 \<noteq> 0 then Fail (Errf ''data: unsupported log batch magic %d'')
      else let batchSize = unat (getU32 (drop 8 payload)) + 12 in
        if batchSize > length payload then Fail (Errf ''data: log batch payload truncated'')
        else let batch = take batchSize payload; crc = getU32 (drop 21 payload) in
          andThen (goslice batch 25 batchSize) (\<lambda>body.
            if crc \<noteq> crc32c body then Fail (Errf ''data: invalid log batch crc'')
            else andThen (goslice batch logHeaderSize batchSize) (\<lambda>records. Ok (batchSize, records))))"

definition decodeKvBatch :: "bytes \<Rightarrow> (int32 \<times> bytes) res" where
  "decodeKvBatch payload =
     (if length payload < kvHeaderSize then Fail (Errf ''data: kv batch payload too short'')
      else if payload ! 4 \<noteq> 0 then Fail (Errf ''data: unsupported kv batch magic %d'')
      else if getU32 (drop 5 payload) \<noteq> crc32c (drop 9 payload) then Fail (Errf ''data: invalid kv batch crc'')
      else Ok (ucast (getU16 (drop 9 payload)), drop kvHeaderSize payload))"

subsection \<open>Log records\<close>

definition encodeLogRecord :: "rat_parser \<Rightarrow> Schema \<Rightarrow> gval list \<Rightarrow> bool \<Rightarrow> bytes res" where
  "encodeLogRecord rp schema vals indexed =
     andThen (encodeRow rp schema vals indexed) (\<lambda>rowPayload.
       Ok (putU32 (word_of_nat (1 + length rowPayload)) @ [0] @ rowPayload))"

text \<open>The loop of \<open>decodeLogRecords\<close>; \<open>rest\<close> is \<open>payload[off:]\<close>.\<close>

function decodeLogRecords :: "Schema \<Rightarrow> bytes \<Rightarrow> gval list list res" where
  "decodeLogRecords schema rest =
     (if rest = [] then Ok []
      else if length rest < 5 then Fail (Errf ''data: log record payload truncated'')
      else let recordEnd = 4 + unat (getU32 rest) in
        if recordEnd > length rest then Fail (Errf ''data: log record payload truncated'')
        else if rest ! 4 \<noteq> 0 then Fail (Errf ''data: unsupported log record attributes %d'')
        else andThen (goslice rest 5 recordEnd) (\<lambda>p.
          andThen (decodeRow schema p True) (\<lambda>row.
            mapRes ((#) row) (decodeLogRecords schema (drop recordEnd rest)))))"
  by pat_completeness auto
termination by (relation "measure (\<lambda>(schema, rest). length rest)") auto

declare decodeLogRecords.simps [simp del]

definition decodeLogRecord :: "Schema \<Rightarrow> bytes \<Rightarrow> gval list res" where
  "decodeLogRecord schema payload =
     andThen (decodeLogRecords schema payload) (\<lambda>rows.
       case rows of [] \<Rightarrow> Fail (Errf ''data: log record payload empty'') | row # _ \<Rightarrow> Ok row)"

definition EncodeLogRecordBatch :: "rat_parser \<Rightarrow> Schema \<Rightarrow> gval list \<Rightarrow> LogBatchOptions \<Rightarrow> bytes res" where
  "EncodeLogRecordBatch rp schema vals opts =
     andThen (encodeLogRecord rp schema vals (LogIndexed opts)) (\<lambda>recordPayload.
       Ok (encodeLogBatch (LogSchemaID opts) recordPayload (LogWriterState opts)))"

definition DecodeLogRecordBatch :: "Schema \<Rightarrow> bytes \<Rightarrow> gval list res" where
  "DecodeLogRecordBatch schema payload =
     andThen (decodeLogBatch payload) (\<lambda>(_, recordPayload). decodeLogRecord schema recordPayload)"

lemma decodeLogBatch_size: "decodeLogBatch p = Ok (n, r) \<Longrightarrow> 12 \<le> n \<and> n \<le> length p"
  by (auto simp: decodeLogBatch_def Let_def res_elims split: if_splits)

function DecodeLogRecordBatchRows :: "Schema \<Rightarrow> bytes \<Rightarrow> gval list list res" where
  "DecodeLogRecordBatchRows schema payload =
     (if payload = [] then Ok []
      else andThen (decodeLogBatch payload) (\<lambda>(batchSize, recordPayload).
        andThen (decodeLogRecords schema recordPayload) (\<lambda>decoded.
          mapRes ((@) decoded) (DecodeLogRecordBatchRows schema (drop batchSize payload)))))"
  by pat_completeness auto
termination
  by (relation "measure (\<lambda>(schema, payload). length payload)") (auto dest: decodeLogBatch_size)

declare DecodeLogRecordBatchRows.simps [simp del]

subsection \<open>Key-value records\<close>

definition keyColumnsOf :: "KvBatchOptions \<Rightarrow> int list" where
  "keyColumnsOf opts = (if KeyColumns opts = [] then [0] else KeyColumns opts)"

definition encodeKvRecord :: "rat_parser \<Rightarrow> Schema \<Rightarrow> gval list \<Rightarrow> KvBatchOptions \<Rightarrow> bytes res" where
  "encodeKvRecord rp schema vals opts =
     (if schema = [] then Fail (Errf ''rowcodec: kv schema has no fields'')
      else andThen (NewRow schema vals) (\<lambda>row.
        andThen (EncodeLookupKey rp row (keyColumnsOf opts)) (\<lambda>keyPayload.
          andThen (encodeRow rp schema vals (KvIndexed opts)) (\<lambda>rowPayload.
            let keyLenPayload = putUvarint (word_of_nat (length keyPayload)) in
            Ok (putU32 (word_of_nat (length keyLenPayload + length keyPayload + length rowPayload))
              @ keyLenPayload @ keyPayload @ rowPayload)))))"

definition encodeKvDeleteRecord :: "rat_parser \<Rightarrow> Schema \<Rightarrow> gval list \<Rightarrow> KvBatchOptions \<Rightarrow> bytes res" where
  "encodeKvDeleteRecord rp schema vals opts =
     (if schema = [] then Fail (Errf ''rowcodec: kv schema has no fields'')
      else andThen (NewRow schema vals) (\<lambda>row.
        andThen (EncodeLookupKey rp row (keyColumnsOf opts)) (\<lambda>keyPayload.
          let keyLenPayload = putUvarint (word_of_nat (length keyPayload)) in
          Ok (putU32 (word_of_nat (length keyLenPayload + length keyPayload))
            @ keyLenPayload @ keyPayload))))"

definition EncodeKvRecordBatch :: "rat_parser \<Rightarrow> Schema \<Rightarrow> gval list \<Rightarrow> KvBatchOptions \<Rightarrow> bytes res" where
  "EncodeKvRecordBatch rp schema vals opts =
     andThen (encodeKvRecord rp schema vals opts) (\<lambda>recordPayload.
       Ok (encodeKvBatch (KvSchemaID opts) recordPayload (KvWriterState opts)))"

definition EncodeKvDeleteRecordBatch :: "rat_parser \<Rightarrow> Schema \<Rightarrow> gval list \<Rightarrow> KvBatchOptions \<Rightarrow> bytes res" where
  "EncodeKvDeleteRecordBatch rp schema vals opts =
     andThen (encodeKvDeleteRecord rp schema vals opts) (\<lambda>recordPayload.
       Ok (encodeKvBatch (KvSchemaID opts) recordPayload (KvWriterState opts)))"

definition DecodeKvRecordBatch :: "Schema \<Rightarrow> bytes \<Rightarrow> gval list res" where
  "DecodeKvRecordBatch schema payload =
     andThen (decodeKvBatch payload) (\<lambda>(_, recordPayload). decodeRow schema recordPayload True)"

subsection \<open>Value batches\<close>

text \<open>The counted loop of \<open>DecodeValueRecordBatchRows\<close>, from offset \<open>off\<close> on.\<close>

fun valueRecords :: "Schema \<Rightarrow> bytes \<Rightarrow> bool \<Rightarrow> nat \<Rightarrow> nat \<Rightarrow> nat \<Rightarrow> (gval list list \<times> nat) res" where
  "valueRecords schema payload indexed limit 0 off = Ok ([], off)"
| "valueRecords schema payload indexed limit (Suc count) off =
     (if off + 6 > limit then Fail (Errf ''data: value record payload truncated'')
      else let recordEnd = off + 4 + unat (getU32 (drop off payload)) in
        if recordEnd > limit then Fail (Errf ''data: value record payload truncated'')
        else andThen (goslice payload (off + 6) recordEnd) (\<lambda>p.
          andThen (decodeRow schema p indexed) (\<lambda>row.
            mapRes (\<lambda>(rows, end). (row # rows, end)) (valueRecords schema payload indexed limit count recordEnd))))"

definition DecodeValueRecordBatchRows :: "Schema \<Rightarrow> bytes \<Rightarrow> bool \<Rightarrow> gval list list res" where
  "DecodeValueRecordBatchRows schema payload indexed =
     andThen (SchemaValidate schema) (\<lambda>_.
       if length payload < 9 then Fail (Errf ''data: value batch payload too short'')
       else let declared = unat (getU32 payload) in
         if declared + 4 > length payload then Fail (Errf ''data: value batch payload truncated'')
         else if payload ! 4 \<noteq> 0 then Fail (Errf ''data: unsupported value batch magic %d'')
         else andThen (valueRecords schema payload indexed (declared + 4) (unat (getU32 (drop 5 payload))) 9)
           (\<lambda>(rows, off).
             if off \<noteq> declared + 4 then Fail (Errf ''data: incorrect declared value batch size'')
             else Ok rows))"

end
