(* ===== verification/Batch_Laws.thy ===== *)
theory Batch_Laws
  imports Row_Batch
begin

text \<open>
  The laws of record batches: what the header of an encoded batch reads back to, that
  one altered byte behind the CRC field is always detected, and that a concatenation of
  batches (or of records) decodes to the concatenation of its rows.
\<close>

unbundle bit_operations_syntax

subsection \<open>The CRC detects a change of one byte\<close>

lemma crcStep_inj: "crcStep c = crcStep d \<Longrightarrow> c = d"
proof (rule bit_word_eqI)
  fix n assume eq: "crcStep c = crcStep d" and n: "n < LENGTH(32)"
  have hi: "\<not> bit x 32" for x :: "32 word" using bit_imp_le_length[of x 32] by auto
  have top: "bit (crcStep x) 31 = bit x 0" for x
    using hi[of x] by (simp add: crcStep_def bit_simps)
  have step: "bit (crcStep x) n = (bit x (Suc n) \<noteq> (bit x 0 \<and> bit (0x82F63B78 :: 32 word) n))" for x n
    by (auto simp: crcStep_def bit_simps)
  have b0: "bit c 0 = bit d 0" using top eq by metis
  show "bit c n = bit d n"
  proof (cases n)
    case 0
    with b0 show ?thesis by simp
  next
    case (Suc m)
    with step[of c m] step[of d m] eq b0 show ?thesis by metis
  qed
qed

lemma crcByte_inj_state: "crcByte c b = crcByte d b \<Longrightarrow> c = d"
proof -
  assume "crcByte c b = crcByte d b"
  then have "c XOR ucast b = d XOR ucast b" by (auto simp: crcByte_def dest!: crcStep_inj)
  then show "c = d" by (metis bit.xor_left_self xor.commute)
qed

lemma crcByte_inj_byte: "crcByte c a = crcByte c b \<Longrightarrow> a = b"
proof -
  assume "crcByte c a = crcByte c b"
  then have "c XOR ucast a = c XOR ucast b" by (auto simp: crcByte_def dest!: crcStep_inj)
  then have e: "(ucast a :: 32 word) = ucast b" by (metis bit.xor_left_self)
  show "a = b"
  proof (rule bit_word_eqI)
    fix n assume "n < LENGTH(8)"
    then show "bit a n = bit b n" using arg_cong[OF e, of "\<lambda>w. bit w n"] by (simp add: bit_simps)
  qed
qed

lemma foldl_crc_inj: "foldl crcByte c bs = foldl crcByte d bs \<Longrightarrow> c = d"
  by (induction bs arbitrary: c d) (auto dest: crcByte_inj_state)

lemma crc_detects_byte: "a \<noteq> b \<Longrightarrow> crc32c (xs @ a # ys) \<noteq> crc32c (xs @ b # ys)"
  by (auto simp: crc32c_def dest!: foldl_crc_inj crcByte_inj_byte)

lemma crc_detects_update: "i < length xs \<Longrightarrow> xs ! i \<noteq> b \<Longrightarrow> crc32c (xs[i := b]) \<noteq> crc32c xs"
  using crc_detects_byte[of b "xs ! i" "take i xs" "drop (Suc i) xs"]
  by (simp add: upd_conv_take_nth_drop id_take_nth_drop[symmetric])

subsection \<open>Batch headers\<close>

lemma patched_batch:
  assumes "length a = n"
  shows "patchU32 n c (a @ putU32 w @ body) = a @ putU32 c @ body"
  using assms by (simp add: patchU32_def)

lemma encodeLogBatch_eq:
  "encodeLogBatch sid payload ws =
     (let body = putU16 (ucast sid) @ [0] @ putU32 0 @ putU64 (encodedWriterID ws)
            @ putU32 (encodedBatchSequence ws) @ putU32 1 @ payload
      in putU64 0 @ putU32 (word_of_nat (36 + length payload)) @ [0] @ putU64 0 @ putU32 (crc32c body) @ body)"
  unfolding encodeLogBatch_def Let_def patchU32_def
  by (simp add: logLengthFieldSize_def)

lemma encodeKvBatch_eq:
  "encodeKvBatch sid payload ws =
     (let body = putU16 (ucast sid) @ [0] @ putU64 (encodedWriterID ws)
            @ putU32 (encodedBatchSequence ws) @ putU32 1 @ payload
      in putU32 (word_of_nat (24 + length payload)) @ [0] @ putU32 (crc32c body) @ body)"
  unfolding encodeKvBatch_def Let_def patchU32_def
  by (simp add: kvLengthFieldSize_def)

lemma length_encodeLogBatch [simp]: "length (encodeLogBatch sid payload ws) = 48 + length payload"
  by (simp add: encodeLogBatch_eq Let_def)

lemma length_encodeKvBatch [simp]: "length (encodeKvBatch sid payload ws) = 28 + length payload"
  by (simp add: encodeKvBatch_eq Let_def)

text \<open>The fields of an encoded log batch, at the offsets of the wire format.\<close>

lemma logBatch_fields:
  assumes "bs = encodeLogBatch sid payload ws @ rest"
  shows "getU32 (drop 8 bs) = word_of_nat (36 + length payload)" and "bs ! 12 = 0"
    and "getU16 (drop 25 bs) = ucast sid" and "getU64 (drop 32 bs) = encodedWriterID ws"
    and "getU32 (drop 40 bs) = encodedBatchSequence ws" and "getU32 (drop 44 bs) = 1"
    and "drop 48 bs = payload @ rest" and "getU32 (drop 21 bs) = crc32c (take (23 + length payload) (drop 25 bs))"
proof -
  let ?body = "putU16 (ucast sid) @ [0] @ putU32 0 @ putU64 (encodedWriterID ws)
            @ putU32 (encodedBatchSequence ws) @ putU32 1 @ payload"
  have d: "drop 25 bs = ?body @ rest"
    unfolding assms by (simp add: encodeLogBatch_eq Let_def)
  have b: "take (23 + length payload) (?body @ rest) = ?body"
    by (rule take_append_exact) simp
  have c: "getU32 (drop 21 bs) = crc32c ?body"
    unfolding assms by (simp add: encodeLogBatch_eq Let_def)
  show "getU32 (drop 21 bs) = crc32c (take (23 + length payload) (drop 25 bs))"
    unfolding c d b ..
qed (use assms in \<open>simp_all add: encodeLogBatch_eq Let_def nth_append\<close>)

lemma decodeLogBatch_encode:
  assumes "36 + length payload < 2 ^ 32"
  shows "decodeLogBatch (encodeLogBatch sid payload ws @ rest) = Ok (48 + length payload, payload)"
proof -
  let ?bs = "encodeLogBatch sid payload ws @ rest"
  note f = logBatch_fields[of ?bs sid payload ws rest, OF refl]
  have size: "unat (getU32 (drop 8 ?bs)) + 12 = 48 + length payload"
    using assms unfolding f(1) by (simp add: unat_of_nat del: of_nat_add)
  have "take (23 + length payload) (drop 25 (take (48 + length payload) ?bs))
      = take (23 + length payload) (drop 25 ?bs)"
    by (simp add: take_drop)
  moreover have "take (length payload) (drop 48 (take (48 + length payload) ?bs)) = payload"
    using f(7) by (simp add: take_drop[symmetric] add.commute)
  ultimately show ?thesis
    unfolding decodeLogBatch_def Let_def size f(2) f(8)
    by (simp add: logHeaderSize_def goslice_Ok)
qed

subsection \<open>Loops over units\<close>

text \<open>
  The contract of a loop that reads one unit from the head of the remaining bytes until
  none are left. \<open>step\<close> gives the rows of the first unit and its size.
\<close>

locale batch_stream =
  fixes step :: "bytes \<Rightarrow> ('r list \<times> nat) res"
    and loop :: "bytes \<Rightarrow> 'r list res"
  assumes loop_nil: "loop [] = Ok []"
    and loop_step: "p \<noteq> [] \<Longrightarrow>
      loop p = andThen (step p) (\<lambda>(rows, n). mapRes ((@) rows) (loop (drop n p)))"
begin

definition unit_of :: "bytes \<Rightarrow> 'r list \<Rightarrow> bool" where
  "unit_of u rows \<longleftrightarrow> u \<noteq> [] \<and> (\<forall>rest. step (u @ rest) = Ok (rows, length u))"

lemma loop_units:
  assumes "list_all2 unit_of us rows"
  shows "loop (concat us @ rest) = mapRes ((@) (concat rows)) (loop rest)"
  using assms
proof (induction rule: list_all2_induct)
  case Nil
  have "(@) [] = (\<lambda>x. x)" by auto
  then show ?case by (cases "loop rest") auto
next
  case (Cons u us r rs)
  then have "loop (u @ concat us @ rest) = mapRes ((@) r) (loop (concat us @ rest))"
    by (subst loop_step) (auto simp: unit_of_def)
  with Cons.IH show ?case by (cases "loop rest") auto
qed

lemma loop_concat: "list_all2 unit_of us rows \<Longrightarrow> loop (concat us) = Ok (concat rows)"
  using loop_units[of us rows "[]"] by (simp add: loop_nil)

lemma loop_error:
  assumes "list_all2 unit_of us rows" and "bad \<noteq> []" and "step bad = Fail e"
  shows "loop (concat us @ bad) = Fail e"
  using assms loop_units[OF assms(1), of bad] by (simp add: loop_step)

end

definition logRecordStep :: "Schema \<Rightarrow> bytes \<Rightarrow> (gval list list \<times> nat) res" where
  "logRecordStep schema rest =
     (if length rest < 5 then Fail (Errf ''data: log record payload truncated'')
      else let recordEnd = 4 + unat (getU32 rest) in
        if recordEnd > length rest then Fail (Errf ''data: log record payload truncated'')
        else if rest ! 4 \<noteq> 0 then Fail (Errf ''data: unsupported log record attributes %d'')
        else andThen (goslice rest 5 recordEnd) (\<lambda>p.
          andThen (decodeRow schema p True) (\<lambda>row. Ok ([row], recordEnd))))"

definition logBatchStep :: "Schema \<Rightarrow> bytes \<Rightarrow> (gval list list \<times> nat) res" where
  "logBatchStep schema payload =
     andThen (decodeLogBatch payload) (\<lambda>(batchSize, recordPayload).
       andThen (decodeLogRecords schema recordPayload) (\<lambda>decoded. Ok (decoded, batchSize)))"

lemma andThen_assoc: "andThen (andThen x f) g = andThen x (\<lambda>a. andThen (f a) g)"
  by (cases x) auto

lemma andThen_Ok [simp]: "andThen x Ok = x"
  by (cases x) auto

interpretation records: batch_stream "logRecordStep schema" "decodeLogRecords schema" for schema
proof unfold_locales
  fix p :: bytes assume "p \<noteq> []"
  have "(#) r = (@) [r]" for r :: "gval list" by auto
  with \<open>p \<noteq> []\<close> show "decodeLogRecords schema p =
      andThen (logRecordStep schema p) (\<lambda>(rows, n). mapRes ((@) rows) (decodeLogRecords schema (drop n p)))"
    by (subst decodeLogRecords.simps) (simp add: logRecordStep_def Let_def andThen_assoc)
qed (simp add: decodeLogRecords.simps)

interpretation batches: batch_stream "logBatchStep schema" "DecodeLogRecordBatchRows schema" for schema
  by unfold_locales
    (subst DecodeLogRecordBatchRows.simps, simp add: logBatchStep_def andThen_assoc split_def)+

subsection \<open>Records and batches that the encoder writes\<close>

text \<open>What an encoded log record needs to read back: the size has to fit its field.\<close>

lemma logRecord_unit:
  assumes "encodeLogRecord rp schema vals True = Ok r" and "length r < 2 ^ 32"
    and "conformsRow schema vals"
  shows "records.unit_of schema r [vals]"
proof -
  from assms(1) obtain p where p: "encodeRow rp schema vals True = Ok p"
    and r: "r = putU32 (word_of_nat (1 + length p)) @ [0] @ p"
    by (auto simp: encodeLogRecord_def res_elims)
  have sv: "\<forall>f \<in> set schema. Validate f = Ok ()"
    using encodeRow_parts[OF p] by (auto simp: SchemaValidate_Ok_iff)
  have size: "4 + unat (getU32 (r @ rest)) = 5 + length p" for rest
    using assms(2) unfolding r by (simp add: unat_of_nat del: of_nat_Suc)
  have "list_all2 (\<lambda>f v. v = VNil \<or> (Validate f = Ok () \<and> conforms f v)) schema vals"
    using assms(3) sv by (auto simp: list_all2_conv_all_nth)
  then have "decodeRow schema p True = Ok vals"
    using indexed.row_roundtrip[OF p] assms(2) unfolding r by (simp del: decodeRow.simps)
  moreover have "take (length p) (drop 5 (r @ rest)) = p" for rest
    unfolding r by simp
  moreover have "(r @ rest) ! 4 = 0" "length r = 5 + length p" for rest
    unfolding r by (simp_all add: nth_append)
  ultimately show ?thesis
    unfolding records.unit_of_def logRecordStep_def Let_def size
    by (auto simp: goslice_Ok simp del: decodeRow.simps)
qed

definition logBatchOf :: "rat_parser \<Rightarrow> Schema \<Rightarrow> LogBatchOptions \<Rightarrow> gval list list \<Rightarrow> bytes \<Rightarrow> bool" where
  "logBatchOf rp schema opts rows b \<longleftrightarrow>
     (\<exists>rs. list_all2 (\<lambda>vals r. encodeLogRecord rp schema vals True = Ok r) rows rs
       \<and> b = encodeLogBatch (LogSchemaID opts) (concat rs) (LogWriterState opts))"

lemma logBatch_unit:
  assumes "logBatchOf rp schema opts rows b" and "length b < 2 ^ 32"
    and "list_all (conformsRow schema) rows"
  shows "batches.unit_of schema b rows"
proof -
  from assms(1) obtain rs where rs: "list_all2 (\<lambda>vals r. encodeLogRecord rp schema vals True = Ok r) rows rs"
    and b: "b = encodeLogBatch (LogSchemaID opts) (concat rs) (LogWriterState opts)"
    by (auto simp: logBatchOf_def)
  have lt: "length (concat rs) + 48 < 2 ^ 32" using assms(2) b by simp
  have "length r \<le> length (concat rs)" if "r \<in> set rs" for r
    using that by (induction rs) auto
  then have small: "\<forall>r \<in> set rs. length r < 2 ^ 32" using lt by fastforce
  have "list_all2 (\<lambda>r v. records.unit_of schema r [v]) rs rows"
    using rs small assms(3)
    by (auto simp: list_all2_conv_all_nth list_all_length intro!: logRecord_unit)
  then have "list_all2 (records.unit_of schema) rs (map (\<lambda>v. [v]) rows)"
    by (simp add: list.rel_map)
  from records.loop_concat[OF this] have "decodeLogRecords schema (concat rs) = Ok rows" by simp
  moreover have "decodeLogBatch (b @ rest) = Ok (length b, concat rs)" for rest
    using lt unfolding b by (subst decodeLogBatch_encode) simp_all
  moreover have "b \<noteq> []" using b length_encodeLogBatch by (metis add_is_0 list.size(3) zero_neq_numeral)
  ultimately show ?thesis by (simp add: batches.unit_of_def logBatchStep_def)
qed

lemma EncodeLogRecordBatch_logBatchOf:
  "LogIndexed opts \<Longrightarrow> EncodeLogRecordBatch rp schema vals opts = Ok b \<Longrightarrow> logBatchOf rp schema opts [vals] b"
  by (force simp: EncodeLogRecordBatch_def logBatchOf_def res_elims list_all2_Cons1)

subsection \<open>Corrupted batches are rejected\<close>

lemma getU32_nth: "4 \<le> length p \<Longrightarrow> putU32 (getU32 p) = take 4 p"
  using putU32_getU32[of "take 4 p"] by (simp add: getU32_def)

text \<open>Altering one byte of four alters the number they encode.\<close>

lemma getU32_update:
  assumes "i < 4" and "4 \<le> length p" and "p ! i \<noteq> b"
  shows "getU32 (p[i := b]) \<noteq> getU32 p"
proof
  assume "getU32 (p[i := b]) = getU32 p"
  then have "take 4 (p[i := b]) = take 4 p"
    using getU32_nth[of p] getU32_nth[of "p[i := b]"] assms(2) by simp
  then have "take 4 (p[i := b]) ! i = take 4 p ! i" by simp
  with assms show False by simp
qed

lemma decodeLogBatch_corrupt:
  assumes "decodeLogBatch p = Ok (n, r)" and "21 \<le> i" and "i < n" and "p ! i \<noteq> b"
  shows "decodeLogBatch (p[i := b]) = Fail (Errf ''data: invalid log batch crc'')"
proof -
  from assms(1) have len: "48 \<le> length p" and n: "n = unat (getU32 (drop 8 p)) + 12" "n \<le> length p" "48 \<le> n"
    and v: "p ! 12 = 0" and crc: "getU32 (drop 21 p) = crc32c (drop 25 (take n p))"
    by (auto simp: decodeLogBatch_def Let_def res_elims header_sizes drop_take split: if_splits)
  have same: "getU32 (drop 8 (p[i := b])) = getU32 (drop 8 p)" "p[i := b] ! 12 = 0"
    using assms(2) v by (simp_all add: drop_update_swap getU32_def take_update_cancel)
  have "getU32 (drop 21 (p[i := b])) \<noteq> crc32c (drop 25 (take n (p[i := b])))"
  proof (cases "i < 25")
    case True
    then have "getU32 (drop 21 (p[i := b])) \<noteq> getU32 (drop 21 p)"
      using getU32_update[of "i - 21" "drop 21 p" b] assms len by (simp add: drop_update_swap)
    with True crc show ?thesis by (simp add: take_update_swap)
  next
    case False
    then have "crc32c ((drop 25 (take n p))[i - 25 := b]) \<noteq> crc32c (drop 25 (take n p))"
      using assms len n by (intro crc_detects_update) auto
    moreover have "drop 25 (take n (p[i := b])) = (drop 25 (take n p))[i - 25 := b]"
      using False assms(3) by (simp add: take_update_swap drop_update_swap)
    moreover have "getU32 (drop 21 (p[i := b])) = getU32 (drop 21 p)"
      using False by (simp add: drop_update_swap getU32_def)
    ultimately show ?thesis using crc by simp
  qed
  with len n same v show ?thesis
    by (simp add: decodeLogBatch_def Let_def header_sizes goslice_Ok drop_take)
qed

lemma kvBatch_fields:
  assumes "bs = encodeKvBatch sid payload ws"
  shows "bs ! 4 = 0" and "getU16 (drop 9 bs) = ucast sid" and "drop 28 bs = payload"
    and "getU32 (drop 5 bs) = crc32c (drop 9 bs)" and "getU32 bs = word_of_nat (24 + length payload)"
    and "getU64 (drop 12 bs) = encodedWriterID ws" and "getU32 (drop 20 bs) = encodedBatchSequence ws"
  unfolding assms by (simp_all add: encodeKvBatch_eq Let_def nth_append)

lemma decodeKvBatch_encode:
  "decodeKvBatch (encodeKvBatch sid payload ws) = Ok (ucast (ucast sid :: 16 word), payload)"
  unfolding decodeKvBatch_def header_sizes kvBatch_fields[OF refl] by (simp add: kvBatch_fields[OF refl])

lemma decodeKvBatch_corrupt:
  assumes "decodeKvBatch p = Ok r" and "5 \<le> i" and "i < length p" and "p ! i \<noteq> b"
  shows "decodeKvBatch (p[i := b]) = Fail (Errf ''data: invalid kv batch crc'')"
proof -
  from assms(1) have len: "28 \<le> length p" and v: "p ! 4 = 0" and crc: "getU32 (drop 5 p) = crc32c (drop 9 p)"
    by (auto simp: decodeKvBatch_def header_sizes split: if_splits)
  have "getU32 (drop 5 (p[i := b])) \<noteq> crc32c (drop 9 (p[i := b]))"
  proof (cases "i < 9")
    case True
    then have "getU32 (drop 5 (p[i := b])) \<noteq> getU32 (drop 5 p)"
      using getU32_update[of "i - 5" "drop 5 p" b] assms len by (simp add: drop_update_swap)
    with True crc show ?thesis by simp
  next
    case False
    then have "crc32c ((drop 9 p)[i - 9 := b]) \<noteq> crc32c (drop 9 p)"
      using assms len by (intro crc_detects_update) auto
    with False crc show ?thesis by (simp add: drop_update_swap getU32_def)
  qed
  with len v assms(2) show ?thesis by (simp add: decodeKvBatch_def header_sizes)
qed

subsection \<open>The layout of an encoded key-value record\<close>

text \<open>The reading a server does of a key-value record: size, key size, key, row.\<close>

definition readKvRecord :: "bytes \<Rightarrow> (nat \<times> bytes \<times> bytes) option" where
  "readKvRecord p =
     (let (klen, n) = uvarint (drop 4 p); body = drop (nat n) (drop 4 p) in
      if n \<le> 0 then None
      else Some (unat (getU32 p), take (unat klen) body, drop (unat klen) body))"

lemma readKvRecord_encode:
  assumes "encodeKvRecord rp schema vals opts = Ok p" and "length p < 2 ^ 32"
  shows "\<exists>key row. EncodeLookupKey rp \<lparr>RowSchema = schema, RowValues = vals\<rparr> (keyColumnsOf opts) = Ok key
    \<and> encodeRow rp schema vals (KvIndexed opts) = Ok row
    \<and> readKvRecord p = Some (length p - 4, key, row)"
proof -
  from assms(1) obtain r key row where r: "NewRow schema vals = Ok r"
    and key: "EncodeLookupKey rp r (keyColumnsOf opts) = Ok key"
    and row: "encodeRow rp schema vals (KvIndexed opts) = Ok row"
    and p: "p = putU32 (word_of_nat (length (putUvarint (word_of_nat (length key))) + length key + length row))
       @ putUvarint (word_of_nat (length key)) @ key @ row"
    by (auto simp: encodeKvRecord_def Let_def res_elims simp del: encodeRow.simps split: if_splits)
  from r have "r = \<lparr>RowSchema = schema, RowValues = vals\<rparr>" by (auto simp: NewRow_def res_elims)
  moreover have "unat (word_of_nat (length key) :: 64 word) = length key"
    and "unat (word_of_nat (length (putUvarint (word_of_nat (length key))) + length key + length row) :: 32 word)
      = length p - 4"
    using assms(2) p by (simp_all add: unat_of_nat del: of_nat_add)
  ultimately show ?thesis
    using key row p by (auto simp: readKvRecord_def Let_def simp del: encodeRow.simps)
qed

subsection \<open>Value batches\<close>

text \<open>
  The value batch the server sends for a limit scan: declared size, magic byte, record
  count, then records of a size, a schema id and a row.
\<close>

definition valueRecordOf :: "16 word \<Rightarrow> bytes \<Rightarrow> bytes" where
  "valueRecordOf sid row = putU32 (word_of_nat (2 + length row)) @ putU16 sid @ row"

definition valueBatchOf :: "(16 word \<times> bytes) list \<Rightarrow> bytes" where
  "valueBatchOf rs = (let body = concat (map (\<lambda>(sid, row). valueRecordOf sid row) rs) in
     putU32 (word_of_nat (5 + length body)) @ [0] @ putU32 (word_of_nat (length rs)) @ body)"

lemma valueRecords_encode:
  assumes "list_all2 (\<lambda>(sid, row) vals. length row + 2 < 2 ^ 32 \<and> decodeRow schema row ix = Ok vals) rs rows"
    and "drop off payload = concat (map (\<lambda>(sid, row). valueRecordOf sid row) rs)"
    and "off \<le> length payload" and "limit = length payload"
  shows "valueRecords schema payload ix limit (length rs) off = Ok (rows, limit)"
  using assms
proof (induction rs arbitrary: rows off)
  case Nil
  then show ?case by simp
next
  case (Cons r rs)
  obtain sid row where r: "r = (sid, row)" by force
  from Cons.prems(1) r obtain vals rows' where rows: "rows = vals # rows'"
    and row: "length row + 2 < 2 ^ 32" "decodeRow schema row ix = Ok vals"
    and rest: "list_all2 (\<lambda>(sid, row) vals. length row + 2 < 2 ^ 32 \<and> decodeRow schema row ix = Ok vals) rs rows'"
    by (auto simp: list_all2_Cons1)
  let ?tail = "concat (map (\<lambda>(sid, row). valueRecordOf sid row) rs)"
  have d: "drop off payload = putU32 (word_of_nat (2 + length row)) @ putU16 sid @ row @ ?tail"
    using Cons.prems(2) r by (simp add: valueRecordOf_def)
  have size: "unat (getU32 (drop off payload)) = 2 + length row"
    unfolding d using row(1) by (simp add: unat_of_nat del: of_nat_Suc of_nat_add)
  have len: "length payload - off = 6 + length row + length ?tail"
    using arg_cong[OF d, of length] by simp
  have d6: "drop (off + 6) payload = row @ ?tail" and dn: "drop (off + (6 + length row)) payload = ?tail"
    unfolding drop_drop[symmetric] add.commute[of off] d by simp_all
  have "valueRecords schema payload ix limit (length rs) (off + (6 + length row)) = Ok (rows', limit)"
    by (rule Cons.IH[OF rest dn]) (use len Cons.prems in linarith)+
  then show ?case
    using row(2) rows d6 size len Cons.prems(3,4)
    by (simp add: Let_def goslice_Ok algebra_simps del: decodeRow.simps)
qed

lemma list_all2_mono_elem:
  "list_all2 P xs ys \<Longrightarrow> (\<And>x y. x \<in> set xs \<Longrightarrow> P x y \<Longrightarrow> Q x y) \<Longrightarrow> list_all2 Q xs ys"
  by (auto simp: list_all2_conv_all_nth)

lemma decodeValueBatch_encode:
  assumes "SchemaValidate schema = Ok ()"
    and "list_all2 (\<lambda>(sid, row) vals. decodeRow schema row ix = Ok vals) rs rows"
    and "length (valueBatchOf rs) < 2 ^ 32"
  shows "DecodeValueRecordBatchRows schema (valueBatchOf rs) ix = Ok rows"
proof -
  let ?body = "concat (map (\<lambda>(sid, row). valueRecordOf sid row) rs)"
  have len: "length (valueBatchOf rs) = 9 + length ?body" by (simp add: valueBatchOf_def Let_def)
  have bound: "length row + 6 \<le> length ?body" if "(sid, row) \<in> set rs" for sid row
    using that by (induction rs) (auto simp: valueRecordOf_def)
  have n: "length rs \<le> length ?body" by (induction rs) (auto simp: valueRecordOf_def)
  have size: "unat (getU32 (valueBatchOf rs)) + 4 = length (valueBatchOf rs)"
    using assms(3) len by (simp add: valueBatchOf_def Let_def unat_of_nat del: of_nat_add)
  have count: "unat (getU32 (drop 5 (valueBatchOf rs))) = length rs"
    using assms(3) len n by (simp add: valueBatchOf_def Let_def unat_of_nat)
  have "list_all2 (\<lambda>(sid, row) vals. length row + 2 < 2 ^ 32 \<and> decodeRow schema row ix = Ok vals) rs rows"
  proof (rule list_all2_mono_elem[OF assms(2)])
    fix r vals
    assume "r \<in> set rs" and d: "(\<lambda>(sid, row) vals. decodeRow schema row ix = Ok vals) r vals"
    then have "length (snd r) + 6 \<le> length ?body" using bound[of "fst r" "snd r"] by simp
    with d assms(3) len show "(\<lambda>(sid, row) vals. length row + 2 < 2 ^ 32 \<and> decodeRow schema row ix = Ok vals) r vals"
      by (auto simp: split_def simp del: decodeRow.simps)
  qed
  moreover have "drop 9 (valueBatchOf rs) = ?body" by (simp add: valueBatchOf_def Let_def)
  ultimately have "valueRecords schema (valueBatchOf rs) ix (length (valueBatchOf rs)) (length rs) 9
      = Ok (rows, length (valueBatchOf rs))"
    using len by (intro valueRecords_encode) auto
  moreover have "valueBatchOf rs ! 4 = 0" by (simp add: valueBatchOf_def Let_def nth_append)
  ultimately show ?thesis
    using assms(1) size count len by (simp add: DecodeValueRecordBatchRows_def Let_def)
qed

end
