(* ===== verification/Codec_Limits.thy ===== *)
theory Codec_Limits
  imports Batch_Laws
begin

text \<open>
  Where the row codec does not carry its values: exactly when a compacted timestamp comes back
  unchanged, exactly when the decoder of a batch panics, and what \<open>DecodeKvRecordBatch\<close> makes
  of a key-value record.
\<close>

unbundle bit_operations_syntax

subsection \<open>A varint over fixed bytes\<close>

text \<open>The number a varint reads is at most the little-endian number of its bytes, and smaller from 128 on.\<close>

lemma or_le_add: "unat (a OR b) \<le> unat a + unat (b :: 64 word)"
proof -
  have "a OR b = a + (b AND NOT a)"
    by (subst disjunctive_add) (auto simp: bit_simps intro: bit_word_eqI)
  then have "unat (a OR b) \<le> unat a + unat (b AND NOT a)"
    by (metis unat_of_nat mod_less_eq_dividend of_nat_add unat_word_ariths(1))
  moreover have "unat (b AND NOT a) \<le> unat b" using word_and_le2 word_le_nat_alt by blast
  ultimately show ?thesis by linarith
qed

lemma unat_push_bit_le: "unat (push_bit s (w :: 64 word)) \<le> 2 ^ s * unat w"
proof -
  have "unat (push_bit s w) = take_bit 64 (push_bit s (unat w))" by (simp add: unsigned_push_bit_eq)
  also have "\<dots> \<le> push_bit s (unat w)" by (rule take_bit_nat_less_eq_self)
  finally show ?thesis by (simp add: push_bit_eq_mult mult.commute)
qed

lemma unat_bound: "unat (w :: 'a :: len word) < 2 ^ LENGTH('a)"
  by (rule unsigned_less)

lemma unat_ucast_byte: "unat (ucast (b :: byte) :: 64 word) = unat b"
  using unat_bound[of b] by (simp add: unsigned_ucast_eq take_bit_nat_eq_self)

lemma uvarintLoop_le:
  assumes "uvarintLoop i x s bs = (v, n)" and "0 < n"
  shows "unat v \<le> unat x + 2 ^ s * le_nat bs \<and> (\<forall>b r. bs = b # r \<longrightarrow> 128 \<le> unat b \<longrightarrow> unat v < unat x + 2 ^ s * le_nat bs)"
  using assms
proof (induction i x s bs rule: uvarintLoop.induct)
  case (2 i x s b bs)
  show ?case
  proof (cases "unat b < 128")
    case True
    have "unat (x OR push_bit s (ucast b)) \<le> unat x + 2 ^ s * unat b"
      using or_le_add[of x "push_bit s (ucast b)"] unat_push_bit_le[of s "ucast b"]
      by (simp add: unat_ucast_byte)
    with 2 True show ?thesis by (auto simp: distrib_left split: if_splits)
  next
    case False
    let ?x = "x OR push_bit s (ucast (b AND 0x7f)) :: 64 word"
    have "ucast (b AND 0x7f) = (word_of_nat (unat b - 128) :: 64 word)"
      using False unat_bound[of b] by (intro and_0x7f_nat) simp_all
    then have "unat ?x \<le> unat x + 2 ^ s * (unat b - 128)"
      using or_le_add[of x "push_bit s (ucast (b AND 0x7f))"] unat_push_bit_le[of s "ucast (b AND 0x7f)"]
        unat_bound[of b] by (simp add: unat_of_nat)
    moreover have "unat v \<le> unat ?x + 2 ^ (s + 7) * le_nat bs"
      using 2 False by (auto split: if_splits)
    ultimately have "unat v \<le> unat x + 2 ^ s * (unat b - 128) + 2 ^ s * (128 * le_nat bs)"
      by (simp add: power_add)
    also have "\<dots> < unat x + 2 ^ s * (unat b + 256 * le_nat bs)"
      using False unfolding add.assoc distrib_left[symmetric] by simp
    finally show ?thesis by auto
  qed
qed simp

lemma uvarint_le:
  assumes "uvarint bs = (v, n)" and "0 < n"
  shows "unat v \<le> le_nat bs" and "128 \<le> le_nat bs \<Longrightarrow> unat v < le_nat bs"
proof -
  from assms have l: "uvarintLoop 0 0 0 bs = (v, n)" by (simp add: uvarint_def)
  from uvarintLoop_le[OF l assms(2)] show "unat v \<le> le_nat bs" by simp
  assume big: "128 \<le> le_nat bs"
  from l assms(2) obtain b r where bs: "bs = b # r" by (cases bs) auto
  show "unat v < le_nat bs"
  proof (cases "unat b < 128")
    case True
    with l bs have "v = ucast b" by simp
    with True big show ?thesis by (simp add: unat_ucast_byte)
  next
    case False
    with uvarintLoop_le[OF l assms(2)] bs show ?thesis by simp
  qed
qed

lemma le_nat_take: "le_nat (take k bs) \<le> le_nat bs"
proof (induction bs arbitrary: k)
  case (Cons b bs)
  then show ?case by (cases k) auto
qed simp

lemma timestamp_encoding:
  assumes "0 \<le> p" and "p \<le> 3"
  shows "encodeRow rp [TimestampNtzType p] [VTimestampNtz \<lparr>Millisecond = ms, NtzNanos = 0\<rparr>] False = Ok (0 # putU64 ms)"
  using assms by (simp add: type_constructors SchemaValidate_def nullBitsSize_def asTimestampNtz_def
      encodeTimestampNtz_def encodeFixed64_def)

lemma le_nat_putU64: "le_nat (putU64 ms) = unat ms"
  using unat_bound[of ms] by (simp add: putU64_def le_nat_le_bytes)

lemma small_uvarint:
  assumes "unat ms < 128"
  shows "uvarint (putU64 ms) = (ms, 1)" and "uvarint (take 1 (putU64 ms)) = (ms, 1)"
proof -
  let ?b = "word_of_nat (unat ms mod 256) :: byte"
  have p: "putU64 ms = ?b # le_bytes 7 (unat ms div 256)"
    unfolding putU64_def le_bytes.simps(2)[symmetric] by simp
  have "k < 128 \<Longrightarrow> unat (word_of_nat (k mod 256) :: byte) = k" for k by (simp add: unat_of_nat)
  then have b: "unat ?b = unat ms" using assms by blast
  then have "unat (ucast ?b :: 64 word) = unat ms" unfolding unat_ucast_byte .
  then have "(ucast ?b :: 64 word) = ms" unfolding word_unat_eq_iff .
  with assms b show "uvarint (putU64 ms) = (ms, 1)" "uvarint (take 1 (putU64 ms)) = (ms, 1)"
    unfolding p by (simp_all add: uvarint_def)
qed

lemma compacted_timestamp_iff:
  assumes "0 \<le> p" and "p \<le> 3"
  shows "andThen (encodeRow rp [TimestampNtzType p] [VTimestampNtz \<lparr>Millisecond = ms, NtzNanos = 0\<rparr>] False)
     (\<lambda>bs. decodeRow [TimestampNtzType p] bs False) = Ok [VTimestampNtz \<lparr>Millisecond = ms, NtzNanos = 0\<rparr>] \<longleftrightarrow> unat ms < 128"
proof -
  let ?row = "[VTimestampNtz \<lparr>Millisecond = ms, NtzNanos = 0\<rparr>]"
  obtain v n where u: "uvarint (putU64 ms) = (v, n)" by force
  obtain v' n' where u': "uvarint (take (nat n) (putU64 ms)) = (v', n')" by force
  have d: "decodeRow [TimestampNtzType p] (0 # putU64 ms) False = Ok ?row \<longleftrightarrow>
      0 < n \<and> nat n \<le> 8 \<and> 0 < n' \<and> v' = ms"
    using assms u u' by (auto simp: type_constructors SchemaValidate_def nullBitsSize_def nullBitSet_def goindex_def
        goslice_def compactedFieldSize_def timestampSize_def uvarintSize_def decodeTimestampNtz_def Let_def)
  show ?thesis
  proof (cases "unat ms < 128")
    case True
    with small_uvarint[OF True] u u' have "n = 1" "n' = 1" "v' = ms" by auto
    with True d show ?thesis by (simp add: timestamp_encoding[OF assms] del: decodeRow.simps encodeRow.simps)
  next
    case False
    have "\<not> (0 < n' \<and> v' = ms)"
    proof
      assume a: "0 < n' \<and> v' = ms"
      have le: "le_nat (take (nat n) (putU64 ms)) \<le> unat ms" using le_nat_take[of "nat n" "putU64 ms"] le_nat_putU64[of ms] by simp
      moreover have "unat ms \<le> le_nat (take (nat n) (putU64 ms))" using uvarint_le(1)[OF u'] a by simp
      ultimately show False using uvarint_le(2)[OF u'] a False by simp
    qed
    with False d show ?thesis by (simp add: timestamp_encoding[OF assms] del: decodeRow.simps encodeRow.simps)
  qed
qed

lemma length_putUvarintNat_eq: "128 ^ k \<le> n \<Longrightarrow> n < 128 ^ Suc k \<Longrightarrow> length (putUvarintNat n) = Suc k"
proof (induction k arbitrary: n)
  case 0
  then show ?case by (simp add: putUvarintNat.simps)
next
  case (Suc k)
  have "128 \<le> n" using Suc.prems(1) self_le_power[of "128 :: nat" "Suc k"] by linarith
  moreover have "length (putUvarintNat (n div 128)) = Suc k"
    by (rule Suc.IH) (use Suc.prems in \<open>simp_all add: less_eq_div_iff_mult_less_eq less_mult_imp_div_less mult.commute\<close>)
  ultimately show ?case by (subst putUvarintNat.simps) simp
qed

lemma length_putUvarintNat: "n < 128 ^ k \<Longrightarrow> 0 < k \<Longrightarrow> length (putUvarintNat n) \<le> k"
proof (induction k arbitrary: n)
  case (Suc k)
  show ?case
  proof (cases "n < 128")
    case True
    then show ?thesis by (simp add: putUvarintNat.simps)
  next
    case False
    with Suc.prems(1) have "0 < k" by (cases k) auto
    moreover have "n div 128 < 128 ^ k" using Suc.prems(1) by (simp add: less_mult_imp_div_less mult.commute)
    ultimately have "length (putUvarintNat (n div 128)) \<le> k" using Suc.IH by blast
    with False show ?thesis by (subst putUvarintNat.simps) simp
  qed
qed simp

lemma length_putUvarint: "length (putUvarint w) \<le> 10"
proof -
  have "unat w < 2 ^ 64" using unat_bound[of w] by simp
  also have "(2 :: nat) ^ 64 \<le> 128 ^ 10" by simp
  finally show ?thesis unfolding putUvarint_def by (intro length_putUvarintNat) simp_all
qed

lemma length_uvarint32: "length (putUvarint (ucast (x :: int32))) \<in> {1, 2, 3, 4, 5}"
proof -
  have "unat (ucast x :: 64 word) < 2 ^ 32"
    using unat_bound[of x] by (simp add: unsigned_ucast_eq take_bit_nat_eq_self)
  also have "(2 :: nat) ^ 32 < 128 ^ 5" by simp
  finally have "length (putUvarint (ucast x)) \<le> 5"
    unfolding putUvarint_def by (intro length_putUvarintNat) simp_all
  moreover have "0 < length (putUvarint (ucast x))" by (rule length_putUvarint_pos)
  moreover have "m \<in> {1, 2, 3, 4, 5}" if "0 < m" "m \<le> 5" for m :: nat using that by simp presburger
  ultimately show ?thesis by blast
qed

subsection \<open>Key-value records read as rows\<close>

abbreviation kvOne :: KvBatchOptions where
  "kvOne \<equiv> \<lparr>KvSchemaID = 1, KvIndexed = True, KeyColumns = [], KvWriterState = None\<rparr>"

lemma kv_record:
  fixes x :: int32
  defines "key \<equiv> putUvarint (ucast x)"
  shows "encodeKvRecord rp [Int32Type] [VInt32 x] kvOne
    = Ok (putU32 (word_of_nat (6 + length key)) @ word_of_nat (length key) # key @ 0 # putU32 x)"
proof -
  have "length key < 128" using length_uvarint32[of x] by (auto simp: key_def)
  then have "putUvarint (word_of_nat (length key)) = [word_of_nat (length key)]"
    by (simp add: putUvarint_def putUvarintNat.simps unat_of_nat)
  then show ?thesis
    by (simp add: encodeKvRecord_def NewRow_def keyColumnsOf_def EncodeLookupKey_def type_constructors SchemaValidate_def
        encodeCompactedKeyValue_def coerce_simps nullBitsSize_def IsFixed_def goindex_def encodeSignedVarint32_def
        Let_def encodeFixed32_def flip: key_def)
qed

lemma kv_misread:
  fixes x :: int32
  defines "n \<equiv> length (putUvarint (ucast x))"
  shows "andThen (EncodeKvRecordBatch rp [Int32Type] [VInt32 x] kvOne) (DecodeKvRecordBatch [Int32Type])
    = Ok [if odd n then VNil else VInt32 (word_of_nat (n * 2 ^ 24))]"
proof -
  have put: "putU32 7 = [7, 0, 0, 0]" "putU32 8 = [8, 0, 0, 0]" "putU32 9 = [9, 0, 0, 0]" "putU32 10 = [10, 0, 0, 0]"
    "putU32 11 = [11, 0, 0, 0]" by code_simp+
  have dec: "decodeRow [Int32Type] (b # 0 # 0 # 0 # w # rest) True
      = Ok [if nullBitSet [b] 0 then VNil else VInt32 (getU32 [0, 0, 0, w])]" for b w :: byte and rest
    by (simp add: type_constructors SchemaValidate_def nullBitsSize_def goindex_def goslice_def IsFixed_def fixedSize_def)
  have bits: "nullBitSet [7] 0" "\<not> nullBitSet [8] 0" "nullBitSet [9] 0" "\<not> nullBitSet [10] 0" "nullBitSet [11] 0"
    by (simp_all add: nullBitSet_def)
  have "n \<in> {1, 2, 3, 4, 5}" unfolding n_def by (rule length_uvarint32)
  then show ?thesis
    by (auto simp: EncodeKvRecordBatch_def DecodeKvRecordBatch_def kv_record decodeKvBatch_encode put dec bits getU32_def
        simp flip: n_def simp del: decodeRow.simps)
qed

lemma kv_misread_iff:
  "andThen (EncodeKvRecordBatch rp [Int32Type] [VInt32 x] kvOne) (DecodeKvRecordBatch [Int32Type]) = Ok [VInt32 x]
    \<longleftrightarrow> x = 2 ^ 26"
proof -
  have len: "length (putUvarint (ucast (2 ^ 25 :: int32))) = 4" "length (putUvarint (ucast (2 ^ 26 :: int32))) = 4"
    unfolding putUvarint_def using length_putUvarintNat_eq[of 3 "2 ^ 25"] length_putUvarintNat_eq[of 3 "2 ^ 26"] by simp_all
  have "x = 2 ^ 26 \<longleftrightarrow> even n \<and> word_of_nat (n * 2 ^ 24) = x" if "n = length (putUvarint (ucast x))" for n
  proof -
    have "n \<in> {1, 2, 3, 4, 5}" unfolding that by (rule length_uvarint32)
    then consider "odd n" | "n = 2" | "n = 4" by auto
    then show ?thesis
    proof cases
      case 1
      with len that show ?thesis by auto
    next
      case 2
      with len that show ?thesis by auto
    next
      case 3
      then show ?thesis by auto
    qed
  qed
  then show ?thesis unfolding kv_misread by auto
qed

subsection \<open>When the decoder of a batch panics\<close>

lemma decodeLogBatch_Panic_iff:
  "decodeLogBatch p = Panic \<longleftrightarrow> 48 \<le> length p \<and> p ! 12 = 0
     \<and> (let n = unat (getU32 (drop 8 p)) + 12 in n \<le> length p
        \<and> (n < 25 \<or> n < 48 \<and> getU32 (drop 21 p) = crc32c (drop 25 (take n p))))"
proof -
  let ?n = "unat (getU32 (drop 8 p)) + 12"
  consider "length p < 48 \<or> p ! 12 \<noteq> 0 \<or> length p < ?n" | (slice) "48 \<le> length p" "p ! 12 = 0" "?n \<le> length p" by linarith
  then show ?thesis
  proof cases
    case 1
    then show ?thesis by (auto simp: decodeLogBatch_def Let_def header_sizes)
  next
    case slice
    then show ?thesis
      by (cases "?n < 25"; cases "?n < 48") (auto simp: decodeLogBatch_def Let_def header_sizes andThen_eq_Panic goslice_def drop_take)
  qed
qed

lemma decodeLogRecords_empty_record: "decodeLogRecords schema (putU32 0 @ [0] @ rest) = Panic"
  by (subst decodeLogRecords.simps) (simp add: Let_def goslice_def nth_append)

end
