(* ===== verification/Row_Typing.thy ===== *)
theory Row_Typing
  imports Row_Safety
begin

text \<open>
  The type discipline of the row decoder: whatever the bytes, a value it returns for a
  valid type is a value of that type (\<open>conforms\<close>), so a decoded row can always be encoded
  again. Decimals of a compact precision fit 64 bits, timestamps of a low precision have
  no nanoseconds, and no two keys of a decoded map are equal as Go map keys.
\<close>

subsection \<open>Scalars\<close>

lemma bigSetBytes_nonneg: "0 \<le> bigSetBytes bs"
  by (simp add: bigSetBytes_def)

lemma sint64_bounds: "- (2 ^ 63) \<le> sint (w :: 64 word)" "sint (w :: 64 word) < 2 ^ 63"
  using sint_ge[of w] sint_lt[of w] by simp_all

lemma decoded_scalar_typed:
  assumes "scalarKind (Kind t)" and "decodeValue t p ix = Ok v"
  shows "conforms t v"
proof (cases t)
  case (FieldType k len sc el ke va fs)
  with assms sint64_bounds show ?thesis
    by (cases k) (auto simp: scalarKind_def Let_def res_elims decodeDecimal_def decodeTimestampNtz_def
        decodeTimestampLtz_def bigSetBytes_nonneg split: if_splits prod.splits)
qed

subsection \<open>Collections\<close>

lemma decodeGeneric_typed:
  assumes "\<And>p v. decodeValue t p True = Ok v \<Longrightarrow> conforms t v"
    and "decodeGenericField t p = Ok v"
  shows "v = VNil \<or> conforms t v"
  using assms by (auto simp: decodeGenericField.simps split: list.splits if_splits)

lemma decodeItems_typed:
  assumes "\<And>p v. decodeValue t p True = Ok v \<Longrightarrow> conforms t v"
  shows "decodeItems t payload n off = Ok vs \<Longrightarrow> list_all (\<lambda>v. v = VNil \<or> conforms t v) vs"
  by (induction n arbitrary: off vs) (auto simp: res_elims dest: decodeGeneric_typed[rotated, OF _ assms])

lemma decodeFields_typed:
  assumes "\<And>f p v. f \<in> set fs \<Longrightarrow> decodeValue f p ix = Ok v \<Longrightarrow> conforms f v"
    and "decodeFields ix nb payload lens i fs off = Ok vs"
  shows "conformsRow fs vs"
  using assms
  by (induction fs arbitrary: i off vs) (auto simp: res_elims split: if_splits)

lemma decodeRow_typedI:
  assumes "\<And>f p v. f \<in> set fs \<Longrightarrow> decodeValue f p ix = Ok v \<Longrightarrow> conforms f v"
    and "decodeRow fs payload ix = Ok vs"
  shows "conformsRow fs vs"
proof -
  from assms(2) obtain nb lens i off where "decodeFields ix nb payload lens i fs off = Ok vs"
    by (auto simp: Let_def res_elims split: if_splits)
  from decodeFields_typed[OF assms(1) this] show ?thesis by simp
qed

abbreviation typedEntries :: "FieldType \<Rightarrow> FieldType \<Rightarrow> (gval \<times> gval) list \<Rightarrow> bool" where
  "typedEntries kt vt es \<equiv>
     list_all (\<lambda>(key, x). hashable key \<and> (key = VNil \<or> conforms kt key) \<and> (x = VNil \<or> conforms vt x)) es
     \<and> sorted_wrt (\<lambda>a b. \<not> goKeyEq (fst a) (fst b)) es"

lemma fst_mapAssign: "fst ` set (mapAssign m key x) \<subseteq> insert key (fst ` set m)"
  by (induction m key x rule: mapAssign.induct) auto

lemma mapAssign_entries:
  "list_all (\<lambda>(key, x). P key \<and> Q x) m \<Longrightarrow> P key \<Longrightarrow> Q x \<Longrightarrow>
    list_all (\<lambda>(key, x). P key \<and> Q x) (mapAssign m key x)"
  by (induction m key x rule: mapAssign.induct) auto

lemma mapAssign_distinct:
  "sorted_wrt (\<lambda>a b. \<not> goKeyEq (fst a) (fst b)) m \<Longrightarrow>
    sorted_wrt (\<lambda>a b. \<not> goKeyEq (fst a) (fst b)) (mapAssign m key x)"
proof (induction m key x rule: mapAssign.induct)
  case (2 k y es key x)
  have "fst e \<in> insert key (fst ` set es)" if "e \<in> set (mapAssign es key x)" for e
    using fst_mapAssign[of es key x] that by blast
  with 2 show ?case by fastforce
qed simp

lemma mapAssign_typed:
  assumes "typedEntries kt vt m" and "hashable key" and "key = VNil \<or> conforms kt key"
    and "x = VNil \<or> conforms vt x"
  shows "typedEntries kt vt (mapAssign m key x)"
  using assms mapAssign_entries[of "\<lambda>key. hashable key \<and> (key = VNil \<or> conforms kt key)" _ m key x]
    mapAssign_distinct[of m key x] by simp

lemma decodeEntries_typed:
  assumes k: "\<And>p v. decodeValue kt p True = Ok v \<Longrightarrow> conforms kt v"
    and v: "\<And>p v. decodeValue vt p True = Ok v \<Longrightarrow> conforms vt v"
  shows "typedEntries kt vt acc \<Longrightarrow> decodeEntries kt vt payload n off acc = Ok es \<Longrightarrow> typedEntries kt vt es"
proof (induction n arbitrary: off acc)
  case (Suc n)
  from Suc.prems(2) obtain keyPart off1 key valPart off2 x acc' where
    key: "decodeGenericField kt keyPart = Ok key" and x: "decodeGenericField vt valPart = Ok x"
    and acc': "goMapStore acc key x = Ok acc'" and rest: "decodeEntries kt vt payload n off2 acc' = Ok es"
    by (auto simp: res_elims)
  from acc' have "hashable key" "acc' = mapAssign acc key x" by (auto simp: goMapStore_def split: if_splits)
  with mapAssign_typed[OF Suc.prems(1) this(1) decodeGeneric_typed[OF k key] decodeGeneric_typed[OF v x]]
    Suc.IH[OF _ rest] show ?case by simp
qed simp

subsection \<open>Values and rows\<close>

lemma decodeValue_typed:
  assumes "Validate t = Ok ()" and "decodeValue t p ix = Ok v"
  shows "conforms t v"
  using assms
proof (induction t arbitrary: p ix v rule: FieldType.induct)
  case (FieldType k len sc el ke va fs)
  consider (scalar) "scalarKind k" | (array) "k = TypeArray" | (map) "k = TypeMap" | (row) "k = TypeRow"
    by (auto simp: scalarKind_def)
  then show ?case
  proof cases
    case scalar
    then show ?thesis by (intro decoded_scalar_typed[OF _ FieldType.prems(2)]) simp
  next
    case array
    with FieldType.prems obtain e where e: "el = Some e" "Validate e = Ok ()"
      by (auto split: option.splits)
    with decodeItems_typed[of e] FieldType.IH(1)[of e] FieldType.prems(2) array show ?thesis
      by (auto simp: res_elims split: if_splits)
  next
    case map
    with FieldType.prems obtain kt vt where e: "ke = Some kt" "va = Some vt"
      and valid: "Validate kt = Ok ()" "Validate vt = Ok ()"
      by (auto simp: res_elims split: option.splits)
    with decodeEntries_typed[of kt vt "[]"] FieldType.IH(2)[of kt] FieldType.IH(3)[of vt] FieldType.prems(2) map
    show ?thesis by (fastforce simp: res_elims split: if_splits)
  next
    case row
    with FieldType.prems obtain vs where "v = VSlice vs" "decodeRow fs p ix = Ok vs"
      by (auto simp: res_elims simp del: decodeRow.simps)
    with decodeRow_typedI[of fs ix p vs] FieldType.IH(4) FieldType.prems(1) row
    show ?thesis by (simp add: validateFields_Ok_iff del: decodeRow.simps)
  qed
qed

lemma decodeRow_typed:
  assumes "decodeRow schema payload ix = Ok vals"
  shows "SchemaValidate schema = Ok ()" and "conformsRow schema vals"
proof -
  show valid: "SchemaValidate schema = Ok ()" using assms by (auto simp: res_elims)
  then show "conformsRow schema vals"
    by (intro decodeRow_typedI[OF decodeValue_typed assms]) (auto simp: SchemaValidate_Ok_iff)
qed

end
