(* ===== verification/Row_Properties.thy ===== *)
theory Row_Properties
  imports Codec_Limits Row_Typing
begin

text \<open>
  The properties of the row codec (\<open>internal/codec/row\<close>), each with a witness on a
  concrete schema and row.
\<close>

text \<open>The schema and row of the witnesses: an int, a string and a nullable timestamp.\<close>

definition demoSchema :: Schema where
  "demoSchema = [Int32Type, StringType, TimestampNtzType 6]"

definition demoRow :: "gval list" where
  "demoRow = [VInt32 7, VString [104, 105], VNil]"

lemma demo_valid: "SchemaValidate demoSchema = Ok ()" "conformsRow demoSchema demoRow"
  by (simp_all add: demoSchema_def demoRow_def SchemaValidate_def type_constructors)

lemma indexed_roundtrip:
  assumes "SchemaValidate schema = Ok ()" and "conformsRow schema vals"
  shows "\<exists>bs. encodeRow rp schema vals True = Ok bs
    \<and> (length bs < 2 ^ 32 \<longrightarrow> decodeRow schema bs True = Ok vals)"
proof -
  obtain bs where bs: "encodeRow rp schema vals True = Ok bs" using encodeRow_total[OF assms] by blast
  have "list_all2 (\<lambda>f v. v = VNil \<or> (Validate f = Ok () \<and> conforms f v)) schema vals"
    using assms by (auto simp: SchemaValidate_Ok_iff list_all2_conv_all_nth)
  with bs indexed.row_roundtrip[OF bs] show ?thesis by (auto simp del: decodeRow.simps)
qed

text \<open>
  C7. Indexed rows round trip: on a valid schema and values that conform to it (nulls
  allowed in every column) the encoder succeeds, and decoding what it wrote gives the
  same values, nested arrays, maps and rows included. The bound is the 32-bit length table.
\<close>

theorem indexed_row_roundtrip:
  assumes "SchemaValidate schema = Ok ()" and "conformsRow schema vals"
  shows "\<exists>bs. encodeRow rp schema vals True = Ok bs
    \<and> (length bs < 2 ^ 32 \<longrightarrow> decodeRow schema bs True = Ok vals)"
  by (rule indexed_roundtrip[OF assms])

lemma demo_encodes: "\<exists>bs. encodeRow rp demoSchema demoRow True = Ok bs \<and> length bs < 2 ^ 32"
  by (simp add: demoSchema_def demoRow_def SchemaValidate_def type_constructors coerce_simps
      nullBitsSize_def IsFixed_def encodeLengthPrefixedBytes_def setNullBit_def)

lemma indexed_row_roundtrip_witness:
  "\<exists>bs. encodeRow (\<lambda>_. None) demoSchema demoRow True = Ok bs \<and> decodeRow demoSchema bs True = Ok demoRow"
  using indexed_row_roundtrip[OF demo_valid, of "\<lambda>_. None"] demo_encodes[of "\<lambda>_. None"]
  by (auto simp del: encodeRow.simps decodeRow.simps)

text \<open>
  C8. Compacted rows round trip on the kinds the layout carries without loss: booleans,
  integers, floats, strings, bytes, dates, times and decimals of more than 18 digits.
\<close>

theorem compacted_row_roundtrip:
  assumes "SchemaValidate schema = Ok ()" and "conformsRow schema vals" and "list_all compactable schema"
  shows "\<exists>bs. encodeRow rp schema vals False = Ok bs
    \<and> (length bs < 2 ^ 32 \<longrightarrow> decodeRow schema bs False = Ok vals)"
proof -
  obtain bs where bs: "encodeRow rp schema vals False = Ok bs" using encodeRow_total[OF assms(1,2)] by blast
  have "list_all2 (\<lambda>f v. v = VNil \<or> (compactable f \<and> conforms f v)) schema vals"
    using assms(2,3) by (auto simp: list_all_length list_all2_conv_all_nth)
  with bs compacted.row_roundtrip[OF bs] show ?thesis by (auto simp del: decodeRow.simps)
qed

lemma compacted_row_roundtrip_witness:
  "\<exists>bs. encodeRow (\<lambda>_. None) [Int64Type, StringType] [VInt64 5, VNil] False = Ok bs
    \<and> decodeRow [Int64Type, StringType] bs False = Ok [VInt64 5, VNil]"
proof -
  have "\<exists>bs. encodeRow (\<lambda>_. None) [Int64Type, StringType] [VInt64 5, VNil] False = Ok bs \<and> length bs < 2 ^ 32"
    by (simp add: SchemaValidate_def type_constructors coerce_simps nullBitsSize_def
        encodeSignedVarint64_def putUvarint_def putUvarintNat.simps)
  moreover have "\<exists>bs. encodeRow (\<lambda>_. None) [Int64Type, StringType] [VInt64 5, VNil] False = Ok bs
    \<and> (length bs < 2 ^ 32 \<longrightarrow> decodeRow [Int64Type, StringType] bs False = Ok [VInt64 5, VNil])"
    by (rule compacted_row_roundtrip)
      (simp_all add: SchemaValidate_def type_constructors compactable_def)
  ultimately show ?thesis by (auto simp del: encodeRow.simps decodeRow.simps)
qed



text \<open>
  C10. Decoding is type sound: whatever the payload and in both layouts, a row that the
  decoder returns conforms to the schema, column by column and to any depth; so it can be
  encoded again in the indexed layout, and decoding that gives the same row.
\<close>

theorem decoded_row_typed:
  assumes "decodeRow schema payload indexed = Ok vals"
  shows "conformsRow schema vals \<and> (\<exists>bs. encodeRow rp schema vals True = Ok bs
    \<and> (length bs < 2 ^ 32 \<longrightarrow> decodeRow schema bs True = Ok vals))"
proof (intro conjI)
  note typed = decodeRow_typed[OF assms]
  show "conformsRow schema vals" by (rule typed)
  show "\<exists>bs. encodeRow rp schema vals True = Ok bs \<and> (length bs < 2 ^ 32 \<longrightarrow> decodeRow schema bs True = Ok vals)"
    by (rule indexed_roundtrip[OF typed])
qed

lemma decoded_row_typed_witness:
  "\<exists>bs. encodeRow (\<lambda>_. None) [ArrayType BoolType, BoolType] [VSlice [VBool True, VNil], VBool False] True = Ok bs
    \<and> decodeRow [ArrayType BoolType, BoolType] bs True = Ok [VSlice [VBool True, VNil], VBool False]"
proof -
  have "decodeRow [ArrayType BoolType, BoolType] [0, 15, 0, 0, 0, 2, 0, 0, 0, 2, 0, 0, 0, 0, 7, 1, 0, 0, 0, 1, 0] True
    = Ok [VSlice [VBool True, VNil], VBool False]"
    by code_simp
  from decoded_row_typed[OF this, of "\<lambda>_. None"] obtain bs where
    bs: "encodeRow (\<lambda>_. None) [ArrayType BoolType, BoolType] [VSlice [VBool True, VNil], VBool False] True = Ok bs"
    "length bs < 2 ^ 32 \<longrightarrow> decodeRow [ArrayType BoolType, BoolType] bs True = Ok [VSlice [VBool True, VNil], VBool False]"
    by blast
  have "length bs < 2 ^ 32"
    using bs(1)
    by (auto simp: type_constructors SchemaValidate_def coerce_simps nullBitsSize_def IsFixed_def
        encodeGenericField.simps)
  with bs show ?thesis by blast
qed




text \<open>
  C12. A fetch response that holds any number of log batches, each with any number of
  records of the schema, decodes to all their rows in order.
\<close>

theorem log_batches_roundtrip:
  assumes "list_all2 (\<lambda>b rows. \<exists>opts. logBatchOf rp schema opts rows b \<and> length b < 2 ^ 32) bs rowss"
    and "list_all (list_all (conformsRow schema)) rowss"
  shows "DecodeLogRecordBatchRows schema (concat bs) = Ok (concat rowss)"
proof (rule batches.loop_concat)
  show "list_all2 (batches.unit_of schema) bs rowss"
    unfolding list_all2_conv_all_nth
  proof (intro conjI allI impI)
    show "length bs = length rowss" by (rule list_all2_lengthD[OF assms(1)])
    fix i assume i: "i < length bs"
    then obtain opts where "logBatchOf rp schema opts (rowss ! i) (bs ! i)" "length (bs ! i) < 2 ^ 32"
      using list_all2_nthD[OF assms(1)] by blast
    moreover have "list_all (conformsRow schema) (rowss ! i)"
      using assms(2) i list_all2_lengthD[OF assms(1)] by (simp add: list_all_length)
    ultimately show "batches.unit_of schema (bs ! i) (rowss ! i)" by (rule logBatch_unit)
  qed
qed

lemma demo_batch:
  "\<exists>b. EncodeLogRecordBatch (\<lambda>_. None) [BoolType] [VBool True]
    \<lparr>LogSchemaID = 1, LogIndexed = True, LogWriterState = None\<rparr> = Ok b \<and> length b = 55"
  by (simp add: EncodeLogRecordBatch_def encodeLogRecord_def type_constructors SchemaValidate_def
      coerce_simps nullBitsSize_def IsFixed_def)

lemma log_batches_roundtrip_witness:
  "\<exists>b. DecodeLogRecordBatchRows [BoolType] (concat [b, b]) = Ok [[VBool True], [VBool True]]"
proof -
  let ?o = "\<lparr>LogSchemaID = 1, LogIndexed = True, LogWriterState = None\<rparr>"
  obtain b where b: "EncodeLogRecordBatch (\<lambda>_. None) [BoolType] [VBool True] ?o = Ok b" "length b = 55"
    using demo_batch by blast
  have "logBatchOf (\<lambda>_. None) [BoolType] ?o [[VBool True]] b"
    by (rule EncodeLogRecordBatch_logBatchOf[OF _ b(1)]) simp
  with b(2) have "DecodeLogRecordBatchRows [BoolType] (concat [b, b]) = Ok (concat [[[VBool True]], [[VBool True]]])"
    by (intro log_batches_roundtrip[of "\<lambda>_. None"]) (auto simp: type_constructors)
  then show ?thesis by auto
qed

text \<open>
  C13. The CRC of a log batch detects every change of a single byte of the protected part
  and of the CRC itself: a batch that decodes is refused after the change.
\<close>

theorem log_batch_detects_corruption:
  assumes "decodeLogBatch p = Ok (n, r)" and "21 \<le> i" and "i < n" and "p ! i \<noteq> b"
  shows "decodeLogBatch (p[i := b]) = Fail (Errf ''data: invalid log batch crc'')"
  by (rule decodeLogBatch_corrupt[OF assms])

lemma log_batch_detects_corruption_witness:
  "decodeLogBatch ((encodeLogBatch 3 [9] None)[48 := 8]) = Fail (Errf ''data: invalid log batch crc'')"
proof (rule log_batch_detects_corruption)
  show "decodeLogBatch (encodeLogBatch 3 [9] None) = Ok (49, [9])"
    using decodeLogBatch_encode[of "[9]" 3 None "[]"] by simp
qed (simp_all add: encodeLogBatch_eq Let_def nth_append)

text \<open>
  The same for a key-value batch, whose CRC covers everything behind it.
\<close>

theorem kv_batch_detects_corruption:
  assumes "decodeKvBatch p = Ok r" and "5 \<le> i" and "i < length p" and "p ! i \<noteq> b"
  shows "decodeKvBatch (p[i := b]) = Fail (Errf ''data: invalid kv batch crc'')"
  by (rule decodeKvBatch_corrupt[OF assms])

lemma kv_batch_detects_corruption_witness:
  "decodeKvBatch ((encodeKvBatch 3 [9] None)[28 := 8]) = Fail (Errf ''data: invalid kv batch crc'')"
proof (rule kv_batch_detects_corruption)
  show "decodeKvBatch (encodeKvBatch 3 [9] None) = Ok (ucast (ucast (3 :: int32) :: 16 word), [9])"
    by (rule decodeKvBatch_encode)
qed (simp_all add: encodeKvBatch_eq Let_def nth_append)

text \<open>
  A key-value upsert batch carries, behind a header that decodes, one record in which
  a reader of the format finds the record size, the lookup key and the encoded row.
\<close>

theorem kv_batch_layout:
  assumes "EncodeKvRecordBatch rp schema vals opts = Ok batch" and "length batch < 2 ^ 32"
  shows "\<exists>key row. EncodeLookupKey rp \<lparr>RowSchema = schema, RowValues = vals\<rparr> (keyColumnsOf opts) = Ok key
    \<and> encodeRow rp schema vals (KvIndexed opts) = Ok row
    \<and> decodeKvBatch batch = Ok (ucast (ucast (KvSchemaID opts) :: 16 word), drop 28 batch)
    \<and> readKvRecord (drop 28 batch) = Some (length batch - 32, key, row)"
proof -
  from assms(1) obtain p where p: "encodeKvRecord rp schema vals opts = Ok p"
    and b: "batch = encodeKvBatch (KvSchemaID opts) p (KvWriterState opts)"
    by (auto simp: EncodeKvRecordBatch_def res_elims)
  have d: "drop 28 batch = p" unfolding b by (rule kvBatch_fields(3)[OF refl])
  have "length p < 2 ^ 32" using assms(2) b by simp
  from readKvRecord_encode[OF p this] decodeKvBatch_encode[of "KvSchemaID opts" p "KvWriterState opts"]
  show ?thesis unfolding d unfolding b by simp
qed

lemma kv_batch_layout_witness:
  "\<exists>batch key row. EncodeLookupKey (\<lambda>_. None) \<lparr>RowSchema = [Int32Type], RowValues = [VInt32 7]\<rparr> [0] = Ok key
    \<and> encodeRow (\<lambda>_. None) [Int32Type] [VInt32 7] True = Ok row
    \<and> readKvRecord (drop 28 batch) = Some (length batch - 32, key, row)"
proof -
  let ?o = "\<lparr>KvSchemaID = 1, KvIndexed = True, KeyColumns = [], KvWriterState = None\<rparr>"
  have "\<exists>b. EncodeKvRecordBatch (\<lambda>_. None) [Int32Type] [VInt32 7] ?o = Ok b \<and> length b < 2 ^ 32"
    by (simp add: EncodeKvRecordBatch_def encodeKvRecord_def NewRow_def keyColumnsOf_def
        EncodeLookupKey_def type_constructors SchemaValidate_def encodeCompactedKeyValue_def
        coerce_simps nullBitsSize_def IsFixed_def goindex_def encodeSignedVarint32_def
        putUvarint_def putUvarintNat.simps Let_def)
  then obtain b where "EncodeKvRecordBatch (\<lambda>_. None) [Int32Type] [VInt32 7] ?o = Ok b" "length b < 2 ^ 32"
    by blast
  from kv_batch_layout[OF this] show ?thesis
    by (auto simp: keyColumnsOf_def simp del: encodeRow.simps)
qed

text \<open>
  A value batch in the server's format decodes to the rows its records hold, and the
  declared size and record count are consumed exactly.
\<close>

theorem value_batch_decodes:
  assumes "SchemaValidate schema = Ok ()"
    and "list_all2 (\<lambda>(sid, row) vals. decodeRow schema row indexed = Ok vals) records rows"
    and "length (valueBatchOf records) < 2 ^ 32"
  shows "DecodeValueRecordBatchRows schema (valueBatchOf records) indexed = Ok rows"
  by (rule decodeValueBatch_encode[OF assms])

lemma value_batch_decodes_witness:
  "DecodeValueRecordBatchRows [BoolType] (valueBatchOf [(5, [0, 1]), (5, [1])]) False = Ok [[VBool True], [VNil]]"
  by (rule value_batch_decodes)
    (simp_all add: SchemaValidate_def type_constructors nullBitsSize_def nullBitSet_def goindex_def
      compactedFieldSize_def goslice_def valueBatchOf_def valueRecordOf_def Let_def)

subsection \<open>Where encoder and decoder disagree\<close>

text \<open>
  C14. A compacted row writes a timestamp of millisecond precision with eight fixed bytes and
  reads it as a varint: a row of one such column comes back unchanged exactly when the
  timestamp lies within the first 127 milliseconds after the epoch.
\<close>

theorem compacted_timestamp_misread:
  assumes "0 \<le> p" and "p \<le> 3"
  shows "andThen (encodeRow rp [TimestampNtzType p] [VTimestampNtz \<lparr>Millisecond = ms, NtzNanos = 0\<rparr>] False)
     (\<lambda>bs. decodeRow [TimestampNtzType p] bs False) = Ok [VTimestampNtz \<lparr>Millisecond = ms, NtzNanos = 0\<rparr>]
   \<longleftrightarrow> unat ms < 128"
  by (rule compacted_timestamp_iff[OF assms])

lemma compacted_timestamp_misread_witness:
  "andThen (encodeRow (\<lambda>_. None) [TimestampNtzType 3] [VTimestampNtz \<lparr>Millisecond = 200, NtzNanos = 0\<rparr>] False)
     (\<lambda>bs. decodeRow [TimestampNtzType 3] bs False) \<noteq> Ok [VTimestampNtz \<lparr>Millisecond = 200, NtzNanos = 0\<rparr>]"
proof -
  have small: "\<not> unat (200 :: int64) < 128" by simp
  have "0 \<le> (3 :: int)" "(3 :: int) \<le> 3" by simp_all
  from compacted_timestamp_misread[OF this, of "\<lambda>_. None" 200] small show ?thesis by blast
qed

text \<open>
  Decimals of more than 18 digits are written as the bytes of their absolute value:
  a number and its negation have the same encoding, in both layouts.
\<close>

lemma big_decimal_sign_lost:
  assumes "18 < precision"
  shows "encodeValue rp (DecimalType precision scale) (VDecimal \<lparr>Unscaled = Some (- u), DecScale = s\<rparr>) ix
    = encodeValue rp (DecimalType precision scale) (VDecimal \<lparr>Unscaled = Some u, DecScale = s\<rparr>) ix"
  using assms by (simp add: DecimalType_def asDecimal_def encodeDecimal_def Let_def bigBytes_uminus)

text \<open>
  C15. \<open>DecodeKvRecordBatch\<close> is not the inverse of \<open>EncodeKvRecordBatch\<close>: it reads the framing
  of the record as a row. Of the rows of one int column, exactly one of the two to the 32
  comes back unchanged.
\<close>

theorem kv_decode_not_inverse:
  "andThen (EncodeKvRecordBatch rp [Int32Type] [VInt32 x]
       \<lparr>KvSchemaID = 1, KvIndexed = True, KeyColumns = [], KvWriterState = None\<rparr>)
     (DecodeKvRecordBatch [Int32Type]) = Ok [VInt32 x] \<longleftrightarrow> x = 2 ^ 26"
  by (rule kv_misread_iff)


lemma big_decimal_sign_lost_witness:
  "encodeValue (\<lambda>_. None) (DecimalType 20 0) (VDecimal \<lparr>Unscaled = Some (- 5), DecScale = 0\<rparr>) True
    = encodeValue (\<lambda>_. None) (DecimalType 20 0) (VDecimal \<lparr>Unscaled = Some 5, DecScale = 0\<rparr>) True"
  by (rule big_decimal_sign_lost) simp

end
