(* ===== verification/Go_Strings.thy ===== *)
theory Go_Strings
  imports Go_Base
begin

text \<open>
  The string operations of the Go standard library that the client uses: decimal
  printing (the \<open>%d\<close> verb), \<open>strings.Contains\<close>, \<open>HasPrefix\<close>, \<open>HasSuffix\<close>, \<open>ToUpper\<close>,
  \<open>EqualFold\<close> and \<open>TrimSpace\<close> (the last three on ASCII text), with the laws of the
  printer and of separators that make composed keys unambiguous.
\<close>

fun natDigits :: "nat \<Rightarrow> string" where
  "natDigits n = (if n < 10 then [char_of (48 + n)] else natDigits (n div 10) @ [char_of (48 + n mod 10)])"

declare natDigits.simps [simp del]

definition itoa :: "int \<Rightarrow> string" where
  "itoa x = (if x < 0 then CHR ''-'' # natDigits (nat (- x)) else natDigits (nat x))"

definition isDigit :: "char \<Rightarrow> bool" where
  "isDigit c \<longleftrightarrow> 48 \<le> (of_char c :: nat) \<and> (of_char c :: nat) \<le> 57"

definition digitsValue :: "string \<Rightarrow> nat" where
  "digitsValue s = foldl (\<lambda>a c. 10 * a + (of_char c - 48)) 0 s"

lemma of_char_digit [simp]: "n < 10 \<Longrightarrow> (of_char (char_of (48 + n) :: char) :: nat) = 48 + n"
  by simp

lemma natDigits_digits: "c \<in> set (natDigits n) \<Longrightarrow> isDigit c"
proof (induction n rule: natDigits.induct)
  case (1 n)
  show ?case
  proof (cases "n < 10")
    case True
    with 1 show ?thesis by (simp add: natDigits.simps[of n] isDigit_def)
  next
    case False
    with 1 show ?thesis by (auto simp: natDigits.simps[of n] isDigit_def)
  qed
qed

lemma natDigits_value [simp]: "digitsValue (natDigits n) = n"
proof (induction n rule: natDigits.induct)
  case (1 n)
  then show ?case by (cases "n < 10") (simp_all add: natDigits.simps[of n] digitsValue_def)
qed

lemma natDigits_inj [simp]: "natDigits m = natDigits n \<longleftrightarrow> m = n"
  by (metis natDigits_value)

lemma natDigits_not_nil [simp]: "natDigits n \<noteq> []"
  by (simp add: natDigits.simps[of n])

lemma not_digit [simp]: "\<not> isDigit CHR ''-''" "\<not> isDigit CHR ''/''" "\<not> isDigit CHR '',''" "\<not> isDigit CHR '')''"
  "\<not> isDigit CHR '' ''" "\<not> isDigit CHR ''(''"
  by (simp_all add: isDigit_def of_char_def)

lemma itoa_inj [simp]: "itoa x = itoa y \<longleftrightarrow> x = y"
proof
  assume eq: "itoa x = itoa y"
  have "CHR ''-'' \<notin> set (natDigits n)" for n using natDigits_digits not_digit(1) by blast
  then have hd: "hd (natDigits n) \<noteq> CHR ''-''" for n using hd_in_set natDigits_not_nil by metis
  have "CHR ''-'' # xs \<noteq> natDigits n" for xs n using hd[of n] by (metis list.sel(1))
  with eq show "x = y" by (auto simp: itoa_def dest: sym split: if_splits)
qed simp

lemma itoa_chars: "c \<in> set (itoa x) \<Longrightarrow> isDigit c \<or> c = CHR ''-''"
  by (auto simp: itoa_def dest: natDigits_digits split: if_splits)

lemma slash_itoa [simp]: "CHR ''/'' \<notin> set (itoa x)"
  using itoa_chars[of "CHR ''/''" x] by auto

lemma itoa_not_dash [simp]: "itoa x \<noteq> ''-''"
proof
  assume "itoa x = ''-''"
  then have "natDigits (nat x) = ''-''" by (simp add: itoa_def split: if_splits)
  then show False using natDigits_digits[of "CHR ''-''" "nat x"] by simp
qed

text \<open>A separator that does not occur in the parts makes a composed string unambiguous.\<close>

lemma sep_append_inj:
  "c \<notin> set xs \<Longrightarrow> c \<notin> set ys \<Longrightarrow> xs @ c # r = ys @ c # s \<longleftrightarrow> xs = ys \<and> r = s"
proof (induction xs arbitrary: ys)
  case Nil
  then show ?case by (cases ys) auto
next
  case (Cons x xs)
  then show ?case by (cases ys) auto
qed

fun hasPrefix :: "string \<Rightarrow> string \<Rightarrow> bool" where
  "hasPrefix s [] \<longleftrightarrow> True"
| "hasPrefix [] (p # ps) \<longleftrightarrow> False"
| "hasPrefix (c # s) (p # ps) \<longleftrightarrow> c = p \<and> hasPrefix s ps"

fun strContains :: "string \<Rightarrow> string \<Rightarrow> bool" where
  "strContains [] sub \<longleftrightarrow> sub = []"
| "strContains (c # s) sub \<longleftrightarrow> hasPrefix (c # s) sub \<or> strContains s sub"

definition hasSuffix :: "string \<Rightarrow> string \<Rightarrow> bool" where
  "hasSuffix s suf \<longleftrightarrow> hasPrefix (rev s) (rev suf)"

lemma hasPrefix_iff: "hasPrefix s p \<longleftrightarrow> (\<exists>t. s = p @ t)"
  by (induction s p rule: hasPrefix.induct) auto

lemma strContains_iff: "strContains s sub \<longleftrightarrow> (\<exists>a b. s = a @ sub @ b)"
proof (induction s)
  case Nil
  then show ?case by auto
next
  case (Cons c s)
  show ?case
  proof
    assume "strContains (c # s) sub"
    then consider b where "c # s = sub @ b" | a b where "s = a @ sub @ b"
      using Cons by (auto simp: hasPrefix_iff)
    then show "\<exists>a b. c # s = a @ sub @ b"
      by cases (metis append_Nil, metis append_Cons)
  next
    assume "\<exists>a b. c # s = a @ sub @ b"
    then obtain a b where ab: "c # s = a @ sub @ b" by blast
    show "strContains (c # s) sub"
    proof (cases a)
      case Nil
      with ab have "hasPrefix (c # s) sub" unfolding hasPrefix_iff by auto
      then show ?thesis by simp
    next
      case Cons
      with ab \<open>strContains s sub \<longleftrightarrow> (\<exists>a b. s = a @ sub @ b)\<close> show ?thesis by auto
    qed
  qed
qed

definition upperChar :: "char \<Rightarrow> char" where
  "upperChar c = (let n = of_char c :: nat in if 97 \<le> n \<and> n \<le> 122 then char_of (n - 32) else c)"

definition toUpper :: "string \<Rightarrow> string" where "toUpper s = map upperChar s"

definition equalFold :: "string \<Rightarrow> string \<Rightarrow> bool" where
  "equalFold s t \<longleftrightarrow> toUpper s = toUpper t"

definition isSpace :: "char \<Rightarrow> bool" where
  "isSpace c \<longleftrightarrow> (of_char c :: nat) \<in> {9, 10, 11, 12, 13, 32}"

definition trimSpace :: "string \<Rightarrow> string" where
  "trimSpace s = rev (dropWhile isSpace (rev (dropWhile isSpace s)))"

end
