(* ===== verification/Metadata_Cache.thy ===== *)
theory Metadata_Cache
  imports Go_Strings
begin

text \<open>
  The metadata cache (\<open>internal/metadata/cache.go\<close>): servers by id, tables by path and
  bucket routes by a printed key. \<open>store\<close> is the contract of a keyed store; the three
  tables of the cache are interpretations of it. For the routes this rests on the printed
  keys being unambiguous. Every operation runs under the cache's lock, so a history of
  concurrent calls is a sequence of these operations.
\<close>

record TablePath =
  DatabaseName :: string
  TableName :: string

record ServerNode =
  NodeID :: int32
  Host :: string
  Port :: int32
  Listeners :: string
  Rack :: string

definition Address :: "ServerNode \<Rightarrow> string" where
  "Address n = Host n @ CHR '':'' # itoa (sint (Port n))"

record TableInfo =
  Path :: TablePath
  TableID :: int64
  SchemaID :: int32
  TableJSON :: bytes
  CreatedTime :: int64
  ModifiedTime :: int64

record BucketRoute =
  RouteTableID :: int64
  RoutePartitionID :: int64
  HasPartition :: bool
  RouteBucketID :: int32
  LeaderID :: int32
  LeaderEpoch :: int32
  Replicas :: "int32 list"

record Cache =
  coordinator :: "ServerNode option"
  servers :: "int32 \<rightharpoonup> ServerNode"
  tables :: "TablePath \<rightharpoonup> TableInfo"
  routes :: "string \<rightharpoonup> BucketRoute"

definition NewCache :: Cache where
  "NewCache = \<lparr>coordinator = None, servers = Map.empty, tables = Map.empty, routes = Map.empty\<rparr>"

definition routeKey :: "int64 \<Rightarrow> int64 \<Rightarrow> bool \<Rightarrow> int32 \<Rightarrow> string" where
  "routeKey tableID partitionID hasPartition bucketID =
     (if hasPartition then itoa (sint tableID) @ CHR ''/'' # itoa (sint partitionID) @ CHR ''/'' # itoa (sint bucketID)
      else itoa (sint tableID) @ CHR ''/'' # ''-'' @ CHR ''/'' # itoa (sint bucketID))"

definition Coordinator :: "Cache \<Rightarrow> ServerNode option" where
  "Coordinator c = coordinator c"

definition SetCoordinator :: "ServerNode \<Rightarrow> Cache \<Rightarrow> Cache" where
  "SetCoordinator node c = c\<lparr>coordinator := Some node, servers := (servers c)(NodeID node \<mapsto> node)\<rparr>"

definition UpsertServer :: "ServerNode \<Rightarrow> Cache \<Rightarrow> Cache" where
  "UpsertServer node c = c\<lparr>servers := (servers c)(NodeID node \<mapsto> node)\<rparr>"

definition Server :: "Cache \<Rightarrow> int32 \<Rightarrow> ServerNode option" where
  "Server c i = servers c i"

definition SetTable :: "TableInfo \<Rightarrow> Cache \<Rightarrow> Cache" where
  "SetTable info c = c\<lparr>tables := (tables c)(Path info \<mapsto> info)\<rparr>"

definition Table :: "Cache \<Rightarrow> TablePath \<Rightarrow> TableInfo option" where
  "Table c path = tables c path"

definition SetRoute :: "BucketRoute \<Rightarrow> Cache \<Rightarrow> Cache" where
  "SetRoute route c = c\<lparr>routes := (routes c)
     (routeKey (RouteTableID route) (RoutePartitionID route) (HasPartition route) (RouteBucketID route) \<mapsto> route)\<rparr>"

definition Route :: "Cache \<Rightarrow> int64 \<Rightarrow> int64 \<Rightarrow> bool \<Rightarrow> int32 \<Rightarrow> BucketRoute option" where
  "Route c tableID partitionID hasPartition bucketID = routes c (routeKey tableID partitionID hasPartition bucketID)"

lemmas cache_defs = Coordinator_def SetCoordinator_def UpsertServer_def Server_def SetTable_def
  Table_def SetRoute_def Route_def

text \<open>The printed key determines the table, the optional partition and the bucket.\<close>

lemma routeKey_inj:
  "routeKey t p h b = routeKey t' p' h' b' \<longleftrightarrow> t = t' \<and> h = h' \<and> (h \<longrightarrow> p = p') \<and> b = b'"
proof -
  have dash: "CHR ''/'' \<notin> set ''-''" by simp
  have sint_eq: "sint x = sint y \<longleftrightarrow> x = y" for x y :: "'a::len word" by (auto intro: signed_word_eqI)
  show ?thesis
    unfolding routeKey_def
    by (cases h; cases h')
      (simp_all only: if_True if_False sep_append_inj slash_itoa dash not_False_eq_True itoa_inj
        sint_eq itoa_not_dash itoa_not_dash[symmetric], auto)
qed

subsection \<open>The contract of a keyed store\<close>

locale store =
  fixes get :: "'s \<Rightarrow> 'k \<Rightarrow> 'v option" and put :: "'v \<Rightarrow> 's \<Rightarrow> 's" and key :: "'v \<Rightarrow> 'k"
  assumes get_put: "get (put v s) k = (if k = key v then Some v else get s k)"
begin

lemma get_put_same [simp]: "get (put v s) (key v) = Some v"
  by (simp add: get_put)

lemma put_order_irrelevant: "key v \<noteq> key w \<Longrightarrow> get (put v (put w s)) k = get (put w (put v s)) k"
  by (simp add: get_put)

text \<open>After a series of puts a key holds the last value put under it.\<close>

lemma get_fold_put:
  "get (fold put vs s) k = (case find (\<lambda>v. key v = k) (rev vs) of Some v \<Rightarrow> Some v | None \<Rightarrow> get s k)"
proof (induction vs arbitrary: s)
  case (Cons v vs)
  have "find P (xs @ [v]) = (case find P xs of Some y \<Rightarrow> Some y | None \<Rightarrow> if P v then Some v else None)"
    for P and xs :: "'v list" by (induction xs) auto
  with Cons show ?case by (auto simp: get_put split: option.splits)
qed simp

lemma get_fold_put_other: "\<forall>v \<in> set vs. key v \<noteq> k \<Longrightarrow> get (fold put vs s) k = get s k"
  by (induction vs arbitrary: s) (auto simp: get_put)

lemma get_fold_put_mem:
  assumes "get (fold put vs s) k = Some v"
  shows "v \<in> set vs \<and> key v = k \<or> get s k = Some v"
  using assms
proof (induction vs arbitrary: s)
  case (Cons w vs)
  then show ?case by (fastforce simp: get_put split: if_splits)
qed simp

end

interpretation server_store: store Server UpsertServer NodeID
  by unfold_locales (simp add: cache_defs)

interpretation table_store: store Table SetTable Path
  by unfold_locales (simp add: cache_defs)

text \<open>A route is looked up by table, optional partition and bucket, as \<open>Client.routeFor\<close> does.\<close>

definition bucketOf :: "BucketRoute \<Rightarrow> int64 \<times> int64 option \<times> int32" where
  "bucketOf r = (RouteTableID r, if HasPartition r then Some (RoutePartitionID r) else None, RouteBucketID r)"

definition routeLookup :: "Cache \<Rightarrow> int64 \<times> int64 option \<times> int32 \<Rightarrow> BucketRoute option" where
  "routeLookup c k = (case k of
      (t, Some p, b) \<Rightarrow> Route c t p True b
    | (t, None, b) \<Rightarrow> Route c t 0 False b)"

interpretation route_store: store routeLookup SetRoute bucketOf
proof unfold_locales
  fix v s and k :: "int64 \<times> int64 option \<times> int32"
  obtain t p b where k: "k = (t, p, b)" by (cases k)
  show "routeLookup (SetRoute v s) k = (if k = bucketOf v then Some v else routeLookup s k)"
    unfolding k by (cases p) (simp_all add: routeLookup_def bucketOf_def cache_defs routeKey_inj)
qed

text \<open>The stores are independent of each other.\<close>

lemma store_frames [simp]:
  "Table (UpsertServer n c) = Table c" "Table (SetCoordinator n c) = Table c" "Table (SetRoute r c) = Table c"
  "Server (SetTable i c) = Server c" "Server (SetRoute r c) = Server c"
  "routeLookup (UpsertServer n c) = routeLookup c" "routeLookup (SetCoordinator n c) = routeLookup c"
  "routeLookup (SetTable i c) = routeLookup c"
  "Coordinator (UpsertServer n c) = Coordinator c" "Coordinator (SetTable i c) = Coordinator c"
  "Coordinator (SetRoute r c) = Coordinator c"
  by (auto simp: cache_defs routeLookup_def fun_eq_iff split: option.splits)

lemma Server_SetCoordinator: "Server (SetCoordinator n c) = Server (UpsertServer n c)"
  by (simp add: cache_defs fun_eq_iff)

end
