(* ===== verification/Protocol.thy ===== *)
theory Protocol
  imports Go_Strings Go_Bytes
begin

text \<open>
  The wire protocol: the error values of \<open>internal/protocol\<close> and their unwrapping, the
  request and response frames of \<open>internal/codec/frame\<close>, and the message factory of
  \<open>internal/proto/factory.go\<close>.
\<close>

subsection \<open>Errors\<close>

definition ErrUnsupportedVersion :: goerr where "ErrUnsupportedVersion = Errf ''fluss: unsupported API version''"
definition ErrLeaderNotAvailable :: goerr where "ErrLeaderNotAvailable = Errf ''fluss: leader not available''"
definition ErrTableNotExist :: goerr where "ErrTableNotExist = Errf ''fluss: table does not exist''"
definition ErrDatabaseNotExist :: goerr where "ErrDatabaseNotExist = Errf ''fluss: database does not exist''"
definition ErrAuthentication :: goerr where "ErrAuthentication = Errf ''fluss: authentication failed''"
definition ErrTimeout :: goerr where "ErrTimeout = Errf ''fluss: request timeout''"
definition ErrScannerExpired :: goerr where "ErrScannerExpired = Errf ''fluss: scanner expired''"
definition ErrUnknownServer :: goerr where "ErrUnknownServer = Errf ''fluss: unknown server''"

lemmas sentinels = ErrUnsupportedVersion_def ErrLeaderNotAvailable_def ErrTableNotExist_def
  ErrDatabaseNotExist_def ErrAuthentication_def ErrTimeout_def ErrScannerExpired_def ErrUnknownServer_def

definition APIError_Unwrap :: "int32 \<Rightarrow> goerr option" where
  "APIError_Unwrap code =
     (if code = 2 then Some ErrUnsupportedVersion
      else if code = 4 then Some ErrDatabaseNotExist
      else if code = 7 then Some ErrTableNotExist
      else if code = 25 then Some ErrTimeout
      else if code = 44 then Some ErrLeaderNotAvailable
      else if code = 46 \<or> code = 51 then Some ErrAuthentication
      else if code = - 1 then Some ErrUnknownServer
      else if code = 66 then Some ErrScannerExpired
      else None)"

definition APIError_Error :: "int32 \<Rightarrow> string \<Rightarrow> string" where
  "APIError_Error code message =
     (if message = [] then ''fluss API error code='' @ itoa (sint code)
      else ''fluss API error code='' @ itoa (sint code) @ '': '' @ message)"

definition PartialWriteError_Error :: "string \<Rightarrow> (int64 option \<times> int32 \<times> goerr) list \<Rightarrow> string" where
  "PartialWriteError_Error operation failures =
     (if failures = [] then ''fluss: partial write failure'' else operation @ '': partial failure'')"

text \<open>
  \<open>err.Error()\<close>. The verbs of a format string other than \<open>%w\<close> are left as they are, so
  the text is exact up to the formatted arguments.
\<close>

fun substW :: "string \<Rightarrow> string \<Rightarrow> string" where
  "substW t [] = []"
| "substW t [c] = [c]"
| "substW t (c # d # s) = (if c = CHR ''%'' \<and> d = CHR ''w'' then t @ s else c # substW t (d # s))"

fun errText :: "goerr \<Rightarrow> string" where
  "errText (Errf s) = s"
| "errText (Wrapf s e) = substW (errText e) s"
| "errText (APIError code message) = APIError_Error code message"
| "errText (PartialWriteError operation failures) = PartialWriteError_Error operation failures"
| "errText ErrEOF = ''EOF''"
| "errText ErrUnexpectedEOF = ''unexpected EOF''"
| "errText DeadlineExceeded = ''context deadline exceeded''"
| "errText Canceled = ''context canceled''"
| "errText ErrClosed = ''fluss: resource is closed''"
| "errText ErrBufferFull = ''fluss: writer buffer is full''"
| "errText (External s) = s"

text \<open>\<open>errors.Is\<close>: the target occurs in the chain of wrapped errors.\<close>

fun errorsIs :: "goerr \<Rightarrow> goerr \<Rightarrow> bool" where
  "errorsIs (Wrapf s e) target \<longleftrightarrow> Wrapf s e = target \<or> errorsIs e target"
| "errorsIs (APIError code message) target \<longleftrightarrow> APIError code message = target \<or>
     (case APIError_Unwrap code of None \<Rightarrow> False | Some e \<Rightarrow> e = target)"
| "errorsIs e target \<longleftrightarrow> e = target"

definition isRetryableWriteRouteErr :: "goerr \<Rightarrow> bool" where
  "isRetryableWriteRouteErr err =
     (if errorsIs err ErrLeaderNotAvailable then True
      else strContains (errText err) ''fluss: no route for table=''
        \<or> strContains (errText err) ''fluss: leader '')"

lemma retryable_code_44: "isRetryableWriteRouteErr (APIError 44 m)"
  by (simp add: isRetryableWriteRouteErr_def APIError_Unwrap_def)

lemma retryable_no_route: "isRetryableWriteRouteErr (Errf ''fluss: no route for table=%d bucket=%d'')"
  and retryable_no_leader: "isRetryableWriteRouteErr (Errf ''fluss: leader %d not found'')"
  by code_simp+

subsection \<open>Frames\<close>

record RequestFrame =
  APIKey :: int32
  APIVersion :: int16
  RequestID :: int32
  ReqPayload :: bytes

datatype ResponseType = ResponseSuccess | ResponseError | ResponseFailure

record ResponseFrame =
  RespType :: ResponseType
  RespRequestID :: int32
  RespPayload :: bytes

definition RequestHeaderLength :: nat where "RequestHeaderLength = 8"
definition ResponseHeaderLength :: nat where "ResponseHeaderLength = 5"
definition FailureHeaderLength :: nat where "FailureHeaderLength = 1"

lemmas frame_sizes = RequestHeaderLength_def ResponseHeaderLength_def FailureHeaderLength_def

definition EncodeRequest :: "RequestFrame \<Rightarrow> bytes" where
  "EncodeRequest f = putBE32 (word_of_nat (RequestHeaderLength + length (ReqPayload f)))
     @ putBE16 (ucast (APIKey f)) @ putBE16 (APIVersion f) @ putBE32 (RequestID f) @ ReqPayload f"

text \<open>\<open>io.ReadFull\<close> of \<open>n\<close> bytes from a reader, given as the bytes it yields before its end.\<close>

definition ReadFull :: "nat \<Rightarrow> bytes \<Rightarrow> (bytes \<times> bytes) res" where
  "ReadFull n r =
     (if n \<le> length r then Ok (take n r, drop n r)
      else if r = [] then Fail ErrEOF else Fail ErrUnexpectedEOF)"

definition responseTypeOf :: "byte \<Rightarrow> ResponseType option" where
  "responseTypeOf b = (if b = 0 then Some ResponseSuccess else if b = 1 then Some ResponseError
     else if b = 2 then Some ResponseFailure else None)"

definition ReadResponse :: "bytes \<Rightarrow> (ResponseFrame \<times> bytes) res" where
  "ReadResponse r =
     andThen (ReadFull 4 r) (\<lambda>(sizeBuf, r1).
       let size = unat (getBE32 sizeBuf) in
       if size < FailureHeaderLength then Fail (Errf ''invalid frame length %d'')
       else andThen (ReadFull size r1) (\<lambda>(body, r2).
         case responseTypeOf (hd body) of
           Some ResponseFailure \<Rightarrow>
             Ok (\<lparr>RespType = ResponseFailure, RespRequestID = 0, RespPayload = drop 1 body\<rparr>, r2)
         | Some t \<Rightarrow>
             if size < ResponseHeaderLength then Fail (Errf ''response too short: %d'')
             else Ok (\<lparr>RespType = t, RespRequestID = getBE32 (drop 1 body), RespPayload = drop 5 body\<rparr>, r2)
         | None \<Rightarrow> Fail (Errf ''unknown response type %d'')))"

text \<open>The response frames of the protocol, as the server writes them.\<close>

definition encodeResponse :: "ResponseFrame \<Rightarrow> bytes" where
  "encodeResponse f = (case RespType f of
      ResponseSuccess \<Rightarrow> putBE32 (word_of_nat (5 + length (RespPayload f))) @ [0] @ putBE32 (RespRequestID f) @ RespPayload f
    | ResponseError \<Rightarrow> putBE32 (word_of_nat (5 + length (RespPayload f))) @ [1] @ putBE32 (RespRequestID f) @ RespPayload f
    | ResponseFailure \<Rightarrow> putBE32 (word_of_nat (1 + length (RespPayload f))) @ [2] @ RespPayload f)"

definition wellFormedFrame :: "ResponseFrame \<Rightarrow> bool" where
  "wellFormedFrame f \<longleftrightarrow> 5 + length (RespPayload f) < 2 ^ 32 \<and> (RespType f = ResponseFailure \<longrightarrow> RespRequestID f = 0)"

lemma getBE_putBE [simp]: "getBE32 (putBE32 w @ r) = w" "getBE32 (putBE32 w) = w" "getBE16 (putBE16 v @ r) = v"
  by (simp_all add: getBE32_def putBE32_def getBE16_def putBE16_def)

lemma ReadFull_append [simp]: "length a = n \<Longrightarrow> ReadFull n (a @ r) = Ok (a, r)"
  by (simp add: ReadFull_def)

lemma ReadFull_length: "ReadFull n r = Ok (a, r') \<Longrightarrow> length r' + n = length r \<and> length a = n"
  by (auto simp: ReadFull_def split: if_splits)

lemma ReadResponse_encode:
  assumes "wellFormedFrame f"
  shows "ReadResponse (encodeResponse f @ rest) = Ok (f, rest)"
proof -
  have "unat (word_of_nat (5 + length (RespPayload f)) :: 32 word) = 5 + length (RespPayload f)"
    and "unat (word_of_nat (1 + length (RespPayload f)) :: 32 word) = 1 + length (RespPayload f)"
    using assms by (simp_all add: wellFormedFrame_def unat_of_nat del: of_nat_Suc of_nat_add)
  then have *: "unat (getBE32 (putBE32 (word_of_nat (5 + length (RespPayload f))))) = 5 + length (RespPayload f)"
    and **: "unat (getBE32 (putBE32 (word_of_nat (1 + length (RespPayload f))))) = 1 + length (RespPayload f)"
    by simp_all
  show ?thesis
  proof (cases "RespType f")
    case ResponseSuccess
    have "ReadFull (5 + length (RespPayload f)) ((0 # putBE32 (RespRequestID f) @ RespPayload f) @ rest)
      = Ok (0 # putBE32 (RespRequestID f) @ RespPayload f, rest)" by (rule ReadFull_append) simp
    with ResponseSuccess * show ?thesis
      by (simp add: ReadResponse_def encodeResponse_def frame_sizes responseTypeOf_def del: of_nat_add of_nat_Suc)
  next
    case ResponseError
    have "ReadFull (5 + length (RespPayload f)) ((1 # putBE32 (RespRequestID f) @ RespPayload f) @ rest)
      = Ok (1 # putBE32 (RespRequestID f) @ RespPayload f, rest)" by (rule ReadFull_append) simp
    with ResponseError * show ?thesis
      by (simp add: ReadResponse_def encodeResponse_def frame_sizes responseTypeOf_def del: of_nat_add of_nat_Suc)
  next
    case ResponseFailure
    have "ReadFull (1 + length (RespPayload f)) ((2 # RespPayload f) @ rest)
      = Ok (2 # RespPayload f, rest)" by (rule ReadFull_append) simp
    with ResponseFailure ** assms show ?thesis
      by (simp add: ReadResponse_def encodeResponse_def frame_sizes responseTypeOf_def wellFormedFrame_def
          del: of_nat_add of_nat_Suc)
  qed
qed

lemma ReadResponse_shorter: "ReadResponse r = Ok (f, r') \<Longrightarrow> length r' < length r"
  by (auto simp: ReadResponse_def Let_def res_elims dest!: ReadFull_length
      split: if_splits option.splits ResponseType.splits)

lemma ReadResponse_no_panic: "ReadResponse r \<noteq> Panic"
  by (auto simp: ReadResponse_def ReadFull_def Let_def andThen_eq_Panic
      split: if_splits option.splits ResponseType.splits)

text \<open>A request frame, as the server reads it.\<close>

definition parseRequest :: "bytes \<Rightarrow> RequestFrame option" where
  "parseRequest bs =
     (if length bs < 12 \<or> unat (getBE32 bs) + 4 \<noteq> length bs then None
      else Some \<lparr>APIKey = ucast (getBE16 (drop 4 bs)), APIVersion = getBE16 (drop 6 bs),
        RequestID = getBE32 (drop 8 bs), ReqPayload = drop 12 bs\<rparr>)"

lemma parseRequest_encode:
  assumes "length (ReqPayload f) + 8 < 2 ^ 32" and "unat (APIKey f) < 2 ^ 16"
  shows "parseRequest (EncodeRequest f) = Some f"
proof -
  have n: "unat (word_of_nat (8 + length (ReqPayload f)) :: 32 word) = 8 + length (ReqPayload f)"
    using assms(1) by (simp add: unat_of_nat del: of_nat_Suc of_nat_add)
  have "(ucast (ucast (APIKey f) :: 16 word) :: 32 word) = APIKey f"
    using assms(2) by (simp add: word_unat_eq_iff unsigned_ucast_eq unsigned_take_bit_eq take_bit_nat_eq_self)
  with n show ?thesis
    by (simp add: parseRequest_def EncodeRequest_def frame_sizes del: of_nat_add of_nat_Suc)
qed

end
