(* ===== verification/Client_Messages.thy ===== *)
theory Client_Messages
  imports Metadata_Cache Protocol
begin

text \<open>
  The protocol buffer messages the client exchanges (\<open>internal/proto/gen/fluss\<close>, generated
  from \<open>fluss.proto\<close>), restricted to the fields the client reads or writes. An optional
  field is an \<open>option\<close>; a required field is present in every message, since \<open>proto.Marshal\<close>
  and \<open>proto.Unmarshal\<close> reject messages without it. The getter of an absent optional field
  gives the zero value (\<open>getOr\<close>). Then the public types of \<open>client/types.go\<close>.
\<close>

definition getOr :: "'a \<Rightarrow> 'a option \<Rightarrow> 'a" where
  "getOr z x = (case x of None \<Rightarrow> z | Some v \<Rightarrow> v)"

lemma getOr_simps [simp]: "getOr z None = z" "getOr z (Some v) = v"
  by (simp_all add: getOr_def)

subsection \<open>Messages\<close>

datatype PbTablePath = PbTablePath (pbDatabase: string) (pbTable: string)

datatype PbServerNode = PbServerNode (pbNodeId: int32) (pbHost: string) (pbPort: int32)
  (pbListeners: "string option") (pbRack: "string option")

datatype PbBucketMetadata = PbBucketMetadata (pbBucketId: int32) (pbLeaderId: "int32 option")
  (pbReplicaId: "int32 list") (pbLeaderEpoch: "int32 option")

datatype PbTableMetadata = PbTableMetadata (pbTablePath: "PbTablePath option") (pbTableId: int64)
  (pbSchemaId: int32) (pbTableJson: bytes) (pbBuckets: "PbBucketMetadata list")
  (pbCreatedTime: int64) (pbModifiedTime: int64)

datatype PbPartitionMetadata = PbPartitionMetadata (pbPartTableId: int64) (pbPartitionId: int64)
  (pbPartBuckets: "PbBucketMetadata list")

datatype PbWriteReq = PbWriteReq (reqPartition: "int64 option") (reqBucket: int32) (reqRecords: bytes)

datatype PbWriteResp = PbWriteResp (respPartition: "int64 option") (respBucket: int32)
  (respErrorCode: "int32 option") (respErrorMessage: "string option") (respOffset: "int64 option")

datatype PbLookupReq = PbLookupReq (lookupPartition: "int64 option") (lookupBucket: int32) (lookupKeys: "bytes list")

datatype PbLookupResp = PbLookupResp (lrPartition: "int64 option") (lrBucket: int32)
  (lrErrorCode: "int32 option") (lrErrorMessage: "string option") (lrValues: "bytes option list")

datatype PbPrefixLookupResp = PbPrefixLookupResp (plPartition: "int64 option") (plBucket: int32)
  (plErrorCode: "int32 option") (plErrorMessage: "string option") (plValueLists: "bytes list list")

datatype PbFetchReq = PbFetchReq (fetchPartition: "int64 option") (fetchBucket: int32)
  (fetchOffset: int64) (fetchMaxBytes: int32)

datatype PbFetchTableReq = PbFetchTableReq (fetchTableId: int64) (fetchProjection: bool)
  (fetchProjectedFields: "int32 list") (fetchBuckets: "PbFetchReq list")

datatype PbFetchResp = PbFetchResp (frPartition: "int64 option") (frBucket: int32)
  (frErrorCode: "int32 option") (frErrorMessage: "string option") (frHighWatermark: "int64 option")
  (frLogStartOffset: "int64 option") (frRecords: "bytes option") (frFilteredEndOffset: "int64 option")

datatype PbScanBucket = PbScanBucket (scanTableId: int64) (scanPartition: "int64 option")
  (scanBucket: int32) (scanLimit: "int64 option")

datatype PbAlterConfig = PbAlterConfig (acKey: string) (acValue: "string option") (acOp: int32)

datatype PbAddColumn = PbAddColumn (addName: string) (addTypeJson: bytes) (addComment: "string option") (addPosition: int32)

datatype PbModifyColumn = PbModifyColumn (modName: string) (modTypeJson: "bytes option")
  (modComment: "string option") (modPosition: "int32 option")

datatype PbAclInfo = PbAclInfo (aclResourceName: string) (aclResourceType: int32) (aclPrincipalName: string)
  (aclPrincipalType: string) (aclHost: string) (aclOperation: int32) (aclPermission: int32)

datatype PbAclFilter = PbAclFilter (afResourceName: "string option") (afResourceType: int32)
  (afPrincipalName: "string option") (afPrincipalType: "string option") (afHost: "string option")
  (afOperation: int32) (afPermission: int32)

datatype PbRebalancePlan = PbRebalancePlan (rpPartition: "int64 option") (rpBucket: int32)
  (rpOriginalLeader: "int32 option") (rpNewLeader: "int32 option")
  (rpOriginalReplicas: "int32 list") (rpNewReplicas: "int32 list")

datatype AlterTableRequest = AlterTableRequest (atPath: PbTablePath) (atIgnore: bool)
  (atConfigs: "PbAlterConfig list") (atAdds: "PbAddColumn list") (atDrops: "string list")
  (atRenames: "(string \<times> string) list") (atModifies: "PbModifyColumn list")

datatype ScanKvRequest = ScanKvRequest (skScannerId: "bytes option") (skBucket: "PbScanBucket option")
  (skCallSeqId: "int32 option") (skBatchSize: "int32 option") (skClose: "bool option")

datatype ScanKvResponse = ScanKvResponse (srErrorCode: "int32 option") (srErrorMessage: "string option")
  (srScannerId: "bytes option") (srHasMore: "bool option") (srRecords: "bytes option") (srLogOffset: "int64 option")

text \<open>A request, with the builder's fields in the order of the message.\<close>

datatype Request =
    MetadataRequest "PbTablePath list" "int64 list"
  | ListDatabasesRequest "bool option"
  | DatabaseExistsRequest string
  | CreateDatabaseRequest string bool "bytes option"
  | DropDatabaseRequest string bool bool
  | GetDatabaseInfoRequest string
  | ListTablesRequest string
  | TableExistsRequest PbTablePath
  | CreateTableRequest PbTablePath bytes bool
  | AlterTableReq AlterTableRequest
  | DropTableRequest PbTablePath bool
  | GetTableInfoRequest PbTablePath
  | GetTableSchemaRequest PbTablePath "int32 option"
  | ListPartitionInfosRequest PbTablePath "(string \<times> string) list option"
  | CreatePartitionRequest PbTablePath "(string \<times> string) list option" bool
  | DropPartitionRequest PbTablePath "(string \<times> string) list option" bool
  | GetLatestKvSnapshotsRequest PbTablePath "string option"
  | GetKvSnapshotMetadataRequest int64 "int64 option" int32 int64
  | GetLakeSnapshotRequest PbTablePath "int64 option" "bool option"
  | ListAclsRequest PbAclFilter
  | CreateAclsRequest "PbAclInfo list"
  | DropAclsRequest "PbAclFilter list"
  | DescribeClusterConfigsRequest
  | AlterClusterConfigsRequest "PbAlterConfig list"
  | AddServerTagRequest "int32 list" int32
  | RemoveServerTagRequest "int32 list" int32
  | RebalanceRequest "int32 list"
  | ListRebalanceProgressRequest "string option"
  | CancelRebalanceRequest "string option"
  | InitWriterRequest "PbTablePath list"
  | ProduceLogRequest int32 int64 int32 "PbWriteReq list"
  | PutKvRequest int32 int64 int32 "int32 list" "int32 option" "PbWriteReq list"
  | LookupRequest int64 "bool option" "int32 option" "int32 option" "PbLookupReq list"
  | PrefixLookupRequest int64 "PbLookupReq list"
  | FetchLogRequest int32 int32 "int32 option" "int32 option" "PbFetchTableReq list"
  | LimitScanRequest int64 "int64 option" int32 int32
  | ScanKvReq ScanKvRequest

datatype Response =
    MetadataResponse "PbServerNode option" "PbServerNode list" "PbTableMetadata list" "PbPartitionMetadata list"
  | ListDatabasesResponse "string list" "(string \<times> int64 \<times> int32) list"
  | DatabaseExistsResponse bool
  | GetDatabaseInfoResponse bytes int64 int64
  | ListTablesResponse "string list"
  | TableExistsResponse bool
  | GetTableInfoResponse int64 int32 bytes int64 int64
  | GetTableSchemaResponse int32 bytes
  | ListPartitionInfosResponse "(int64 \<times> (string \<times> string) list option \<times> string option) list"
  | GetLatestKvSnapshotsResponse int64 "int64 option" "(int32 \<times> int64 option \<times> int64 option) list"
  | GetKvSnapshotMetadataResponse int64 "(string \<times> string) list"
  | GetLakeSnapshotResponse int64 int64 "(int64 option \<times> int32 \<times> int64) list"
  | ListAclsResponse "PbAclInfo list"
  | CreateAclsResponse "(PbAclInfo \<times> int32 option \<times> string option) list"
  | DropAclsResponse "((PbAclInfo \<times> int32 option \<times> string option) list \<times> int32 option \<times> string option) list"
  | DescribeClusterConfigsResponse "(string \<times> string option \<times> string) list"
  | RebalanceResponse string
  | ListRebalanceProgressResponse "string option" "int32 option" "(int64 \<times> (PbRebalancePlan \<times> int32) list) list"
  | InitWriterResponse int64
  | ProduceLogResponse "PbWriteResp list"
  | PutKvResponse "PbWriteResp list"
  | LookupResponse "PbLookupResp list"
  | PrefixLookupResponse "PbPrefixLookupResp list"
  | FetchLogResponse "PbFetchResp list list"
  | LimitScanResponse "int32 option" "string option" "bool option" "bytes option"
  | ScanKvResp ScanKvResponse
  | EmptyResponse

subsection \<open>Public types of the client\<close>

record BucketRecordBatch =
  BatchPartitionID :: "int64 option"
  BatchBucketID :: int32
  BatchRecords :: bytes

record WriteResult =
  ResPartitionID :: "int64 option"
  ResBucketID :: int32
  ResOffset :: int64
  ResErrorCode :: "int32 option"
  ResErrorMessage :: "string option"

text \<open>
  \<open>ProduceResult\<close> and \<open>PutResult\<close> differ only in the name of the offset (\<open>BaseOffset\<close>,
  \<open>LogEndOffset\<close>). A \<open>BucketWriteError\<close> is the triple of partition, bucket and error.
\<close>

type_synonym ProduceResult = WriteResult
type_synonym PutResult = WriteResult
type_synonym BucketWriteError = "int64 option \<times> int32 \<times> goerr"

record LookupBucketRequest =
  ReqPartitionID :: "int64 option"
  ReqBucketID :: int32
  ReqKeys :: "bytes list"

record LookupBucketValues =
  ValPartitionID :: "int64 option"
  ValBucketID :: int32
  Values :: "bytes option list"

record PrefixLookupBucketValues =
  PrefixPartitionID :: "int64 option"
  PrefixBucketID :: int32
  PrefixValues :: "bytes list list"

record FetchBucketRequest =
  FetchPartitionID :: "int64 option"
  FetchBucketID :: int32
  FetchOffset :: int64
  MaxFetchBytes :: int32

record FetchedBucket =
  FetchedPartitionID :: "int64 option"
  FetchedBucketID :: int32
  HighWatermark :: int64
  LogStartOffset :: int64
  FilteredEndOffset :: "int64 option"
  FetchedRecords :: bytes

record LimitScanResult =
  IsLogTable :: bool
  LimitRecords :: bytes

record ScanKVResult =
  ScannerID :: bytes
  HasMoreResults :: bool
  ScanRecords :: bytes
  ScanLogOffset :: "int64 option"

end
