(* ===== verification/Client_Parse.thy ===== *)
theory Client_Parse
  imports Client_Messages
begin

text \<open>
  Building requests and reading responses (\<open>client/pb.go\<close>, \<open>client/parse.go\<close>). A bucket of
  a write response with a non-zero error code becomes a failure of a \<open>PartialWriteError\<close>
  beside the results; a lookup or fetch stops at the first such bucket.
\<close>

subsection \<open>Builders\<close>

definition buildTablePath :: "TablePath \<Rightarrow> PbTablePath" where
  "buildTablePath path = PbTablePath (DatabaseName path) (TableName path)"

definition buildProduceBucketRecord :: "int64 option \<Rightarrow> int32 \<Rightarrow> bytes \<Rightarrow> PbWriteReq" where
  "buildProduceBucketRecord partitionID bucketID payload = PbWriteReq partitionID bucketID payload"

definition buildPutBucketRecord :: "int64 option \<Rightarrow> int32 \<Rightarrow> bytes \<Rightarrow> PbWriteReq" where
  "buildPutBucketRecord partitionID bucketID payload = PbWriteReq partitionID bucketID payload"

definition buildLookupBucket :: "LookupBucketRequest \<Rightarrow> PbLookupReq" where
  "buildLookupBucket req = PbLookupReq (ReqPartitionID req) (ReqBucketID req) (ReqKeys req)"

definition buildPrefixLookupBucket :: "LookupBucketRequest \<Rightarrow> PbLookupReq" where
  "buildPrefixLookupBucket req = PbLookupReq (ReqPartitionID req) (ReqBucketID req) (ReqKeys req)"

definition buildFetchLogBucket :: "FetchBucketRequest \<Rightarrow> PbFetchReq" where
  "buildFetchLogBucket req =
     PbFetchReq (FetchPartitionID req) (FetchBucketID req) (FetchOffset req) (MaxFetchBytes req)"

subsection \<open>Metadata\<close>

definition parseServerNode :: "PbServerNode \<Rightarrow> ServerNode" where
  "parseServerNode node = \<lparr>NodeID = pbNodeId node, Host = pbHost node, Port = pbPort node,
     Listeners = getOr [] (pbListeners node), Rack = getOr [] (pbRack node)\<rparr>"

definition parseTablePath :: "PbTablePath option \<Rightarrow> TablePath res" where
  "parseTablePath msg = (case msg of
      None \<Rightarrow> Fail (Errf ''nil table path'')
    | Some p \<Rightarrow> Ok \<lparr>DatabaseName = pbDatabase p, TableName = pbTable p\<rparr>)"

definition parseBucketMetadata :: "int64 \<Rightarrow> int64 option \<Rightarrow> PbBucketMetadata \<Rightarrow> BucketRoute res" where
  "parseBucketMetadata tableID partitionID msg = (case pbLeaderId msg of
      None \<Rightarrow> Fail (Errf ''leader missing for table=%d bucket=%d'')
    | Some leader \<Rightarrow> Ok \<lparr>RouteTableID = tableID, RoutePartitionID = getOr 0 partitionID,
        HasPartition = (partitionID \<noteq> None), RouteBucketID = pbBucketId msg, LeaderID = leader,
        LeaderEpoch = getOr 0 (pbLeaderEpoch msg), Replicas = pbReplicaId msg\<rparr>)"

text \<open>The loop over the buckets, which stops at the first error.\<close>

fun parseBuckets :: "int64 \<Rightarrow> int64 option \<Rightarrow> PbBucketMetadata list \<Rightarrow> BucketRoute list res" where
  "parseBuckets tableID partitionID [] = Ok []"
| "parseBuckets tableID partitionID (b # bs) =
     andThen (parseBucketMetadata tableID partitionID b) (\<lambda>route.
       mapRes ((#) route) (parseBuckets tableID partitionID bs))"

definition parseTableMetadata :: "PbTableMetadata \<Rightarrow> (TableInfo \<times> BucketRoute list) res" where
  "parseTableMetadata msg =
     andThen (parseTablePath (pbTablePath msg)) (\<lambda>path.
       let info = \<lparr>Path = path, TableID = pbTableId msg, SchemaID = pbSchemaId msg,
         TableJSON = pbTableJson msg, CreatedTime = pbCreatedTime msg, ModifiedTime = pbModifiedTime msg\<rparr> in
       andThen (parseBuckets (pbTableId msg) None (pbBuckets msg)) (\<lambda>routes. Ok (info, routes)))"

definition parsePartitionMetadata :: "PbPartitionMetadata \<Rightarrow> BucketRoute list res" where
  "parsePartitionMetadata msg = parseBuckets (pbPartTableId msg) (Some (pbPartitionId msg)) (pbPartBuckets msg)"

lemma parseBuckets_Ok:
  "parseBuckets t p bs = Ok rs \<Longrightarrow> list_all2 (\<lambda>b r. pbLeaderId b = Some (LeaderID r) \<and>
     bucketOf r = (t, p, pbBucketId b)) bs rs"
proof (induction bs arbitrary: rs)
  case (Cons b bs)
  from Cons.prems obtain r rs' where "rs = r # rs'" "parseBuckets t p bs = Ok rs'"
    and "parseBucketMetadata t p b = Ok r" by (auto simp: res_elims)
  moreover from this(3) have "pbLeaderId b = Some (LeaderID r)" "bucketOf r = (t, p, pbBucketId b)"
    by (cases p; auto simp: parseBucketMetadata_def bucketOf_def split: option.splits)+
  ultimately show ?case using Cons.IH by simp
qed simp

lemma parseBuckets_total: "\<forall>b \<in> set bs. pbLeaderId b \<noteq> None \<Longrightarrow> \<exists>rs. parseBuckets t p bs = Ok rs"
  by (induction bs) (auto simp: parseBucketMetadata_def)

subsection \<open>Results of writes\<close>

definition bucketAPIError :: "int32 \<Rightarrow> string \<Rightarrow> goerr option" where
  "bucketAPIError code message = (if code = 0 then None else Some (APIError code message))"

definition parseWriteItem :: "PbWriteResp \<Rightarrow> WriteResult" where
  "parseWriteItem item = \<lparr>ResPartitionID = respPartition item, ResBucketID = respBucket item,
     ResOffset = getOr 0 (respOffset item), ResErrorCode = respErrorCode item,
     ResErrorMessage = respErrorMessage item\<rparr>"

definition writeFailure :: "PbWriteResp \<Rightarrow> BucketWriteError option" where
  "writeFailure item =
     (case bucketAPIError (getOr 0 (respErrorCode item)) (getOr [] (respErrorMessage item)) of
        None \<Rightarrow> None
      | Some err \<Rightarrow> Some (respPartition item, respBucket item, err))"

text \<open>The value part and the error part of a Go result are both kept: the caller uses both.\<close>

definition parseProduceResults :: "Response \<Rightarrow> ProduceResult list \<times> goerr option" where
  "parseProduceResults msg = (case msg of
      ProduceLogResponse items \<Rightarrow>
        (let out = map parseWriteItem items; failures = List.map_filter writeFailure items in
         (out, if failures \<noteq> [] then Some (PartialWriteError ''append log'' failures) else None))
    | _ \<Rightarrow> ([], Some (Errf ''fluss: unexpected produce response type %T'')))"

definition parsePutResults :: "Response \<Rightarrow> PutResult list \<times> goerr option" where
  "parsePutResults msg = (case msg of
      PutKvResponse items \<Rightarrow>
        (let out = map parseWriteItem items; failures = List.map_filter writeFailure items in
         (out, if failures \<noteq> [] then Some (PartialWriteError ''upsert kv'' failures) else None))
    | _ \<Rightarrow> ([], Some (Errf ''fluss: unexpected put response type %T'')))"

subsection \<open>Results of reads\<close>

fun parseLookupItems :: "PbLookupResp list \<Rightarrow> LookupBucketValues list res" where
  "parseLookupItems [] = Ok []"
| "parseLookupItems (item # items) =
     (case bucketAPIError (getOr 0 (lrErrorCode item)) (getOr [] (lrErrorMessage item)) of
        Some err \<Rightarrow> Fail err
      | None \<Rightarrow> mapRes ((#) \<lparr>ValPartitionID = lrPartition item, ValBucketID = lrBucket item,
          Values = lrValues item\<rparr>) (parseLookupItems items))"

definition parseLookupResults :: "Response \<Rightarrow> LookupBucketValues list res" where
  "parseLookupResults msg = (case msg of
      LookupResponse items \<Rightarrow> parseLookupItems items
    | _ \<Rightarrow> Fail (Errf ''fluss: unexpected lookup response type %T''))"

fun parsePrefixItems :: "PbPrefixLookupResp list \<Rightarrow> PrefixLookupBucketValues list res" where
  "parsePrefixItems [] = Ok []"
| "parsePrefixItems (item # items) =
     (case bucketAPIError (getOr 0 (plErrorCode item)) (getOr [] (plErrorMessage item)) of
        Some err \<Rightarrow> Fail err
      | None \<Rightarrow> mapRes ((#) \<lparr>PrefixPartitionID = plPartition item, PrefixBucketID = plBucket item,
          PrefixValues = plValueLists item\<rparr>) (parsePrefixItems items))"

definition parsePrefixLookupResults :: "Response \<Rightarrow> PrefixLookupBucketValues list res" where
  "parsePrefixLookupResults msg = (case msg of
      PrefixLookupResponse items \<Rightarrow> parsePrefixItems items
    | _ \<Rightarrow> Fail (Errf ''fluss: unexpected prefix lookup response type %T''))"

fun parseFetchItems :: "PbFetchResp list \<Rightarrow> FetchedBucket list res" where
  "parseFetchItems [] = Ok []"
| "parseFetchItems (item # items) =
     (case bucketAPIError (getOr 0 (frErrorCode item)) (getOr [] (frErrorMessage item)) of
        Some err \<Rightarrow> Fail err
      | None \<Rightarrow> mapRes ((#) \<lparr>FetchedPartitionID = frPartition item, FetchedBucketID = frBucket item,
          HighWatermark = getOr 0 (frHighWatermark item), LogStartOffset = getOr 0 (frLogStartOffset item),
          FilteredEndOffset = frFilteredEndOffset item, FetchedRecords = getOr [] (frRecords item)\<rparr>)
          (parseFetchItems items))"

definition parseFetchResults :: "Response \<Rightarrow> FetchedBucket list res" where
  "parseFetchResults msg = (case msg of
      FetchLogResponse items \<Rightarrow> parseFetchItems (concat items)
    | _ \<Rightarrow> Fail (Errf ''fluss: unexpected fetch response type %T''))"

subsection \<open>Laws\<close>

lemma writeFailure_iff:
  "writeFailure item = Some (p, b, e) \<longleftrightarrow> p = respPartition item \<and> b = respBucket item \<and>
     getOr 0 (respErrorCode item) \<noteq> 0 \<and> e = APIError (getOr 0 (respErrorCode item)) (getOr [] (respErrorMessage item))"
  by (auto simp: writeFailure_def bucketAPIError_def)

lemma writeFailure_None: "writeFailure item = None \<longleftrightarrow> getOr 0 (respErrorCode item) = 0"
  by (simp add: writeFailure_def bucketAPIError_def)

lemma set_map_filter: "set (List.map_filter f xs) = {y. \<exists>x \<in> set xs. f x = Some y}"
  by (induction xs) (auto simp: List.map_filter_simps split: option.splits)

lemma map_filter_nil: "List.map_filter f xs = [] \<longleftrightarrow> (\<forall>x \<in> set xs. f x = None)"
  by (induction xs) (auto simp: List.map_filter_simps split: option.splits)

lemma parseLookupItems_Ok:
  "parseLookupItems items = Ok vs \<Longrightarrow> length vs = length items \<and>
    list_all2 (\<lambda>i v. getOr 0 (lrErrorCode i) = 0 \<and> ValBucketID v = lrBucket i
      \<and> ValPartitionID v = lrPartition i \<and> Values v = lrValues i) items vs"
  by (induction items arbitrary: vs) (auto simp: res_elims bucketAPIError_def split: if_splits)

end
