(* ===== verification/Client_State.thy ===== *)
theory Client_State
  imports Client_Parse
begin

text \<open>
  The client and its table handle (\<open>client/client.go\<close>, the routing half of
  \<open>client/table.go\<close>, \<open>client/config.go\<close>). A call is a function of the world: the metadata
  cache, the configured endpoints and the network, whose behaviour is the parameter \<open>rpc\<close>:
  \<open>rpc\<close> net address request is the reply of \<open>rpc.Client.Invoke\<close> and the network after it.
  Effects before an error stay in the world that is returned with the error.

  A Go map from leader address to items is an association list in insertion order; \<open>ord\<close>
  is the order in which a \<open>range\<close> over it happens to run.
\<close>

record 'w world =
  cache :: Cache
  endpoints :: "string list"
  net :: 'w

type_synonym ('w, 'a) act = "'w world \<Rightarrow> 'a res \<times> 'w world"
type_synonym 'w network = "'w \<Rightarrow> string \<Rightarrow> Request \<Rightarrow> Response res \<times> 'w"

definition bindA :: "('w, 'a) act \<Rightarrow> ('a \<Rightarrow> ('w, 'b) act) \<Rightarrow> ('w, 'b) act" where
  "bindA m f w = (case m w of
      (Ok a, w') \<Rightarrow> f a w' | (Fail e, w') \<Rightarrow> (Fail e, w') | (Panic, w') \<Rightarrow> (Panic, w'))"

definition liftA :: "'a res \<Rightarrow> ('w, 'a) act" where
  "liftA r w = (r, w)"

text \<open>\<open>if err != nil\<close> with a recovery that looks at the error.\<close>

definition catchA :: "('w, 'a) act \<Rightarrow> (goerr \<Rightarrow> ('w, 'a) act) \<Rightarrow> ('w, 'a) act" where
  "catchA m h w = (case m w of (Fail e, w') \<Rightarrow> h e w' | (r, w') \<Rightarrow> (r, w'))"

definition invokeA :: "'w network \<Rightarrow> string \<Rightarrow> Request \<Rightarrow> ('w, Response) act" where
  "invokeA rpc addr req w = (case rpc (net w) addr req of (r, n) \<Rightarrow> (r, w\<lparr>net := n\<rparr>))"

named_theorems act_simps \<open>evaluation of client actions\<close>

lemma bindA_simps [simp]:
  "m w = (Ok a, w') \<Longrightarrow> bindA m f w = f a w'"
  "m w = (Fail e, w') \<Longrightarrow> bindA m f w = (Fail e, w')"
  "m w = (Panic, w') \<Longrightarrow> bindA m f w = (Panic, w')"
  by (simp_all add: bindA_def)

lemma bindA_liftA [simp]: "bindA (liftA r) f w = (case r of Ok a \<Rightarrow> f a w | Fail e \<Rightarrow> (Fail e, w) | Panic \<Rightarrow> (Panic, w))"
  by (simp add: bindA_def liftA_def split: res.splits)

lemma liftA_apply [simp]: "liftA r w = (r, w)"
  by (simp add: liftA_def)

lemma bindA_assoc: "bindA (bindA m f) g = bindA m (\<lambda>a. bindA (f a) g)"
  by (auto simp: bindA_def fun_eq_iff split: res.splits prod.splits)

lemma bindA_eq_Ok:
  "bindA m f w = (Ok b, w') \<longleftrightarrow> (\<exists>a w1. m w = (Ok a, w1) \<and> f a w1 = (Ok b, w'))"
  by (auto simp: bindA_def split: res.splits prod.splits)

subsection \<open>Invariants of the world\<close>

definition keeps :: "('w world \<Rightarrow> bool) \<Rightarrow> ('w, 'a) act \<Rightarrow> bool" where
  "keeps I m \<longleftrightarrow> (\<forall>w. I w \<longrightarrow> I (snd (m w)))"

named_theorems keeps_intros \<open>actions that keep an invariant\<close>

lemma keepsD: "keeps I m \<Longrightarrow> I w \<Longrightarrow> m w = (r, w') \<Longrightarrow> I w'"
  unfolding keeps_def by (metis snd_conv)

lemma keepsI: "(\<And>w r w'. I w \<Longrightarrow> m w = (r, w') \<Longrightarrow> I w') \<Longrightarrow> keeps I m"
  unfolding keeps_def by (metis surjective_pairing)

lemma keeps_bindA [keeps_intros]:
  assumes "keeps I m" and "\<And>a. keeps I (f a)"
  shows "keeps I (bindA m f)"
proof (rule keepsI)
  fix w r w' assume w: "I w" and b: "bindA m f w = (r, w')"
  obtain x w1 where m: "m w = (x, w1)" by force
  with assms(1) w have "I w1" by (rule keepsD)
  with b m assms(2) show "I w'" by (cases x) (auto dest: keepsD)
qed

lemma keeps_liftA [keeps_intros]: "keeps I (liftA r)"
  by (simp add: keeps_def)

lemma keeps_catchA [keeps_intros]:
  assumes "keeps I m" and "\<And>e. keeps I (h e)"
  shows "keeps I (catchA m h)"
proof (rule keepsI)
  fix w r w' assume w: "I w" and b: "catchA m h w = (r, w')"
  obtain x w1 where m: "m w = (x, w1)" by force
  with assms(1) w have "I w1" by (rule keepsD)
  with b m assms(2) show "I w'" by (cases x) (auto simp: catchA_def dest: keepsD)
qed

subsection \<open>Metadata\<close>

fun ingestTables :: "PbTableMetadata list \<Rightarrow> Cache \<Rightarrow> unit res \<times> Cache" where
  "ingestTables [] c = (Ok (), c)"
| "ingestTables (t # ts) c = (case parseTableMetadata t of
      Ok (info, rs) \<Rightarrow> ingestTables ts (fold SetRoute rs (SetTable info c))
    | Fail e \<Rightarrow> (Fail e, c) | Panic \<Rightarrow> (Panic, c))"

fun ingestPartitions :: "PbPartitionMetadata list \<Rightarrow> Cache \<Rightarrow> unit res \<times> Cache" where
  "ingestPartitions [] c = (Ok (), c)"
| "ingestPartitions (p # ps) c = (case parsePartitionMetadata p of
      Ok rs \<Rightarrow> ingestPartitions ps (fold SetRoute rs c)
    | Fail e \<Rightarrow> (Fail e, c) | Panic \<Rightarrow> (Panic, c))"

definition ingestMetadata :: "Response \<Rightarrow> Cache \<Rightarrow> unit res \<times> Cache" where
  "ingestMetadata message c = (case message of
      MetadataResponse coord tablets tableMeta partitionMeta \<Rightarrow>
        (let c1 = (case coord of None \<Rightarrow> c | Some n \<Rightarrow> SetCoordinator (parseServerNode n) c);
             c2 = fold (\<lambda>n. UpsertServer (parseServerNode n)) tablets c1 in
         case ingestTables tableMeta c2 of
           (Ok _, c3) \<Rightarrow> ingestPartitions partitionMeta c3
         | other \<Rightarrow> other)
    | _ \<Rightarrow> (Fail (Errf ''fluss: unexpected metadata response type %T''), c))"

text \<open>The address a metadata or admin request goes to: the coordinator once it is known.\<close>

definition anyAddress :: "('w, string) act" where
  "anyAddress w = (case Coordinator (cache w) of
      Some n \<Rightarrow> (if endpoints w = [] then Panic else Ok (Address n), w)
    | None \<Rightarrow> (goindex (endpoints w) 0, w))"

definition RefreshMetadata :: "'w network \<Rightarrow> TablePath list \<Rightarrow> int64 list \<Rightarrow> ('w, unit) act" where
  "RefreshMetadata rpc tablePaths partitionIDs =
     bindA anyAddress (\<lambda>addr.
       bindA (invokeA rpc addr (MetadataRequest (map buildTablePath tablePaths) partitionIDs)) (\<lambda>msg w.
         case ingestMetadata msg (cache w) of (r, c) \<Rightarrow> (r, w\<lparr>cache := c\<rparr>)))"

definition routeFor :: "Cache \<Rightarrow> int64 \<Rightarrow> int64 option \<Rightarrow> int32 \<Rightarrow> ServerNode res" where
  "routeFor c tableID partitionID bucketID =
     (let route = (case partitionID of
          Some p \<Rightarrow> Route c tableID p True bucketID
        | None \<Rightarrow> Route c tableID 0 False bucketID) in
      case route of
        None \<Rightarrow> Fail (Errf ''fluss: no route for table=%d bucket=%d'')
      | Some r \<Rightarrow> (case Server c (LeaderID r) of
          None \<Rightarrow> Fail (Errf ''fluss: leader %d not found'')
        | Some node \<Rightarrow> Ok node))"

subsection \<open>Configuration and Dial\<close>

text \<open>
  \<open>Config\<close> without the storage settings; a nil dialer or authenticator is \<open>None\<close>, a
  configured one is named by a string. Durations are nanoseconds.
\<close>

record Config =
  Endpoints :: "string list"
  ClientSoftwareName :: string
  ClientSoftwareVersion :: string
  DialTimeout :: int64
  RequestTimeout :: int64
  Authenticator :: "string option"
  Dialer :: "int64 option"
  S3Region :: string

definition withDefaultsConfig :: "Config \<Rightarrow> Config" where
  "withDefaultsConfig c =
     (let c1 = (if ClientSoftwareName c = [] then c\<lparr>ClientSoftwareName := ''fluss-go''\<rparr> else c);
          c2 = (if ClientSoftwareVersion c1 = [] then c1\<lparr>ClientSoftwareVersion := ''0.1.0''\<rparr> else c1);
          c3 = (if sint (DialTimeout c2) \<le> 0 then c2\<lparr>DialTimeout := 5000000000\<rparr> else c2);
          c4 = (if sint (RequestTimeout c3) \<le> 0 then c3\<lparr>RequestTimeout := 15000000000\<rparr> else c3);
          c5 = (if Dialer c4 = None then c4\<lparr>Dialer := Some (DialTimeout c4)\<rparr> else c4);
          c6 = (if Authenticator c5 = None then c5\<lparr>Authenticator := Some ''none''\<rparr> else c5)
      in if S3Region c6 = [] then c6\<lparr>S3Region := ''us-east-1''\<rparr> else c6)"

definition Dial :: "'w network \<Rightarrow> Config \<Rightarrow> 'w \<Rightarrow> unit res \<times> 'w world" where
  "Dial rpc cfg n =
     (let cfg' = withDefaultsConfig cfg;
          w = \<lparr>cache = NewCache, endpoints = Endpoints cfg', net = n\<rparr> in
      if Endpoints cfg' = [] then (Fail (Errf ''fluss: at least one endpoint is required''), w)
      else RefreshMetadata rpc [] [] w)"

subsection \<open>Admin calls and the table handle\<close>

definition invokeAny :: "'w network \<Rightarrow> Request \<Rightarrow> ('w, Response) act" where
  "invokeAny rpc req = bindA anyAddress (\<lambda>addr. invokeA rpc addr req)"

definition invokeCoordinator :: "'w network \<Rightarrow> Request \<Rightarrow> ('w, Response) act" where
  "invokeCoordinator rpc req w =
     (if Coordinator (cache w) = None then bindA (RefreshMetadata rpc [] []) (\<lambda>_. invokeAny rpc req) w
      else invokeAny rpc req w)"

definition GetTableInfo :: "'w network \<Rightarrow> TablePath \<Rightarrow> ('w, TableInfo) act" where
  "GetTableInfo rpc path =
     bindA (invokeAny rpc (GetTableInfoRequest (buildTablePath path))) (\<lambda>resp w. case resp of
       GetTableInfoResponse tableID schemaID json created modified \<Rightarrow>
         (let info = \<lparr>Path = path, TableID = tableID, SchemaID = schemaID, TableJSON = json,
            CreatedTime = created, ModifiedTime = modified\<rparr> in
          (Ok info, w\<lparr>cache := SetTable info (cache w)\<rparr>))
     | _ \<Rightarrow> (Fail (Errf ''fluss: unexpected get table info response type %T''), w))"

definition ensureTableInfo :: "'w network \<Rightarrow> TablePath \<Rightarrow> ('w, TableInfo) act" where
  "ensureTableInfo rpc path w = (case Table (cache w) path of
      Some info \<Rightarrow> (Ok info, w)
    | None \<Rightarrow> GetTableInfo rpc path w)"

definition tableRouteFor ::
  "'w network \<Rightarrow> TablePath \<Rightarrow> int64 \<Rightarrow> int64 option \<Rightarrow> int32 \<Rightarrow> ('w, ServerNode) act" where
  "tableRouteFor rpc path tableID partitionID bucketID w =
     (case routeFor (cache w) tableID partitionID bucketID of
        Ok node \<Rightarrow> (Ok node, w)
      | Panic \<Rightarrow> (Panic, w)
      | Fail err \<Rightarrow> (case RefreshMetadata rpc [path] [] w of
          (Ok _, w') \<Rightarrow> (routeFor (cache w') tableID partitionID bucketID, w')
        | (Fail _, w') \<Rightarrow> (Fail err, w')
        | (Panic, w') \<Rightarrow> (Panic, w')))"

fun addGroup :: "string \<Rightarrow> 'b \<Rightarrow> (string \<times> 'b list) list \<Rightarrow> (string \<times> 'b list) list" where
  "addGroup addr x [] = [(addr, [x])]"
| "addGroup addr x ((a, xs) # gs) = (if a = addr then (a, xs @ [x]) # gs else (a, xs) # addGroup addr x gs)"

text \<open>The loop of the three \<open>group*ByLeader\<close> functions, over the partition and bucket of an item.\<close>

fun groupItems :: "'w network \<Rightarrow> TablePath \<Rightarrow> int64 \<Rightarrow> ('b \<Rightarrow> int64 option) \<Rightarrow> ('b \<Rightarrow> int32) \<Rightarrow>
    'b list \<Rightarrow> (string \<times> 'b list) list \<Rightarrow> ('w, (string \<times> 'b list) list) act" where
  "groupItems rpc path tableID part bucket [] grouped = liftA (Ok grouped)"
| "groupItems rpc path tableID part bucket (x # xs) grouped =
     bindA (tableRouteFor rpc path tableID (part x) (bucket x)) (\<lambda>node.
       groupItems rpc path tableID part bucket xs (addGroup (Address node) x grouped))"

definition groupBatchesByLeader where
  "groupBatchesByLeader rpc path tableID buckets =
     groupItems rpc path tableID BatchPartitionID BatchBucketID buckets []"

definition groupLookupsByLeader where
  "groupLookupsByLeader rpc path tableID reqs =
     groupItems rpc path tableID ReqPartitionID ReqBucketID reqs []"

definition groupFetchesByLeader where
  "groupFetchesByLeader rpc path tableID reqs =
     groupItems rpc path tableID FetchPartitionID FetchBucketID reqs []"

end
