(* ===== verification/Client_Laws.thy ===== *)
theory Client_Laws
  imports Client_State "HOL-Library.Multiset"
begin

text \<open>
  The laws of the client's metadata and routing: what a metadata response does to the
  cache, as a refinement of two finite maps (servers and leaders); the invariant that the
  cache files every entry under its own key; and that grouping by leader neither loses nor
  duplicates an item.
\<close>

subsection \<open>The abstract view of the cache\<close>

type_synonym bucket = "int64 \<times> int64 option \<times> int32"

definition leaders :: "Cache \<Rightarrow> bucket \<rightharpoonup> int32" where
  "leaders c k = map_option LeaderID (routeLookup c k)"

text \<open>The buckets a metadata response names, with their leaders, in the order of the response.\<close>

definition bucketEntries :: "int64 \<Rightarrow> int64 option \<Rightarrow> PbBucketMetadata list \<Rightarrow> (bucket \<times> int32) list" where
  "bucketEntries t p bs = List.map_filter (\<lambda>b. map_option (\<lambda>l. ((t, p, pbBucketId b), l)) (pbLeaderId b)) bs"

definition responseEntries :: "PbTableMetadata list \<Rightarrow> PbPartitionMetadata list \<Rightarrow> (bucket \<times> int32) list" where
  "responseEntries tms pms =
     concat (map (\<lambda>t. bucketEntries (pbTableId t) None (pbBuckets t)) tms)
     @ concat (map (\<lambda>p. bucketEntries (pbPartTableId p) (Some (pbPartitionId p)) (pbPartBuckets p)) pms)"

lemma leaders_SetRoute: "leaders (SetRoute r c) = (leaders c)(bucketOf r \<mapsto> LeaderID r)"
  by (auto simp: leaders_def route_store.get_put fun_eq_iff)

lemma leaders_frame [simp]: "leaders (UpsertServer n c) = leaders c" "leaders (SetCoordinator n c) = leaders c"
  "leaders (SetTable i c) = leaders c"
  by (simp_all add: leaders_def fun_eq_iff)

lemma leaders_fold_SetRoute:
  "leaders (fold SetRoute rs c) = leaders c ++ map_of (rev (map (\<lambda>r. (bucketOf r, LeaderID r)) rs))"
  by (induction rs arbitrary: c) (simp_all add: leaders_SetRoute)

lemma parseBuckets_entries:
  "parseBuckets t p bs = Ok rs \<Longrightarrow> map (\<lambda>r. (bucketOf r, LeaderID r)) rs = bucketEntries t p bs"
proof (drule parseBuckets_Ok, induction bs rs rule: list_all2_induct)
  case Nil
  then show ?case by (simp add: bucketEntries_def List.map_filter_simps)
next
  case (Cons b bs r rs)
  then show ?case by (simp add: bucketEntries_def List.map_filter_simps)
qed

lemma fold_SetRoute_frame [simp]:
  "Server (fold SetRoute rs c) = Server c" "Coordinator (fold SetRoute rs c) = Coordinator c"
  "Table (fold SetRoute rs c) = Table c"
  by (induction rs arbitrary: c) simp_all

lemma ingestTables_refines:
  "ingestTables tms c = (Ok (), c') \<Longrightarrow>
     leaders c' = leaders c ++ map_of (rev (responseEntries tms []))
     \<and> Server c' = Server c \<and> Coordinator c' = Coordinator c"
proof (induction tms arbitrary: c)
  case Nil
  then show ?case by (simp add: responseEntries_def)
next
  case (Cons t tms)
  then obtain info rs where p: "parseTableMetadata t = Ok (info, rs)"
    and rest: "ingestTables tms (fold SetRoute rs (SetTable info c)) = (Ok (), c')"
    by (auto split: res.splits)
  from p have "parseBuckets (pbTableId t) None (pbBuckets t) = Ok rs"
    by (auto simp: parseTableMetadata_def Let_def res_elims)
  from parseBuckets_entries[OF this] Cons.IH[OF rest] show ?case
    by (simp add: responseEntries_def leaders_fold_SetRoute)
qed

lemma ingestPartitions_refines:
  "ingestPartitions pms c = (Ok (), c') \<Longrightarrow>
     leaders c' = leaders c ++ map_of (rev (responseEntries [] pms))
     \<and> Server c' = Server c \<and> Coordinator c' = Coordinator c"
proof (induction pms arbitrary: c)
  case Nil
  then show ?case by (simp add: responseEntries_def)
next
  case (Cons p pms)
  then obtain rs where r: "parsePartitionMetadata p = Ok rs"
    and rest: "ingestPartitions pms (fold SetRoute rs c) = (Ok (), c')"
    by (auto split: res.splits)
  from parseBuckets_entries[OF r[unfolded parsePartitionMetadata_def]] Cons.IH[OF rest] show ?case
    by (simp add: responseEntries_def leaders_fold_SetRoute)
qed

lemma fold_UpsertServer_frame [simp]:
  "leaders (fold (\<lambda>n. UpsertServer (parseServerNode n)) ns c) = leaders c"
  "Coordinator (fold (\<lambda>n. UpsertServer (parseServerNode n)) ns c) = Coordinator c"
  by (induction ns arbitrary: c) simp_all

lemma Server_fold_Upsert:
  "Server (fold (\<lambda>n. UpsertServer (parseServerNode n)) ns c)
     = Server c ++ map_of (rev (map (\<lambda>n. (pbNodeId n, parseServerNode n)) ns))"
proof (induction ns arbitrary: c)
  case (Cons n ns)
  have "Server (UpsertServer (parseServerNode n) c) = (Server c)(pbNodeId n \<mapsto> parseServerNode n)"
    by (auto simp: server_store.get_put fun_eq_iff parseServerNode_def)
  with Cons show ?case by (simp add: map_add_def fun_eq_iff split: option.splits)
qed simp

definition responseServers :: "PbServerNode option \<Rightarrow> PbServerNode list \<Rightarrow> (int32 \<times> ServerNode) list" where
  "responseServers coord tablets =
     map (\<lambda>n. (pbNodeId n, parseServerNode n)) ((case coord of None \<Rightarrow> [] | Some n \<Rightarrow> [n]) @ tablets)"

text \<open>A successful ingestion updates both maps with the entries of the response; later entries win.\<close>

lemma ingestMetadata_refines:
  assumes "ingestMetadata (MetadataResponse coord tablets tms pms) c = (Ok (), c')"
  shows "Server c' = Server c ++ map_of (rev (responseServers coord tablets))"
    and "leaders c' = leaders c ++ map_of (rev (responseEntries tms pms))"
    and "Coordinator c' = (case coord of None \<Rightarrow> Coordinator c | Some n \<Rightarrow> Some (parseServerNode n))"
proof -
  define c1 where "c1 = (case coord of None \<Rightarrow> c | Some n \<Rightarrow> SetCoordinator (parseServerNode n) c)"
  define c2 where "c2 = fold (\<lambda>n. UpsertServer (parseServerNode n)) tablets c1"
  obtain c3 where t: "ingestTables tms c2 = (Ok (), c3)" and p: "ingestPartitions pms c3 = (Ok (), c')"
    using assms by (auto simp: ingestMetadata_def c1_def[symmetric] c2_def[symmetric] Let_def
        split: res.splits prod.splits)
  have s1: "Server c1 = Server c ++ map_of (map (\<lambda>n. (pbNodeId n, parseServerNode n)) (case coord of None \<Rightarrow> [] | Some n \<Rightarrow> [n]))"
    by (cases coord) (simp_all add: c1_def Server_SetCoordinator server_store.get_put fun_eq_iff parseServerNode_def)
  have l1: "leaders c1 = leaders c" by (cases coord) (simp_all add: c1_def)
  have k1: "Coordinator c1 = (case coord of None \<Rightarrow> Coordinator c | Some n \<Rightarrow> Some (parseServerNode n))"
    by (cases coord) (simp_all add: c1_def cache_defs)
  note T = ingestTables_refines[OF t] and P = ingestPartitions_refines[OF p]
  show "Server c' = Server c ++ map_of (rev (responseServers coord tablets))"
    using T P s1 by (auto simp: c2_def Server_fold_Upsert responseServers_def split: option.splits)
  show "leaders c' = leaders c ++ map_of (rev (responseEntries tms pms))"
    using T P l1 by (simp add: c2_def responseEntries_def)
  show "Coordinator c' = (case coord of None \<Rightarrow> Coordinator c | Some n \<Rightarrow> Some (parseServerNode n))"
    using T P k1 by (simp add: c2_def)
qed

text \<open>\<open>routeFor\<close> reads exactly the two maps.\<close>

lemma routeFor_refines:
  "routeFor c t p b = (case leaders c (t, p, b) of
      None \<Rightarrow> Fail (Errf ''fluss: no route for table=%d bucket=%d'')
    | Some l \<Rightarrow> (case Server c l of
        None \<Rightarrow> Fail (Errf ''fluss: leader %d not found'') | Some n \<Rightarrow> Ok n))"
  by (auto simp: routeFor_def leaders_def routeLookup_def Let_def split: option.splits)

subsection \<open>Every entry is filed under its own key\<close>

definition cacheOK :: "Cache \<Rightarrow> bool" where
  "cacheOK c \<longleftrightarrow> (\<forall>i n. Server c i = Some n \<longrightarrow> NodeID n = i)
     \<and> (\<forall>p i. Table c p = Some i \<longrightarrow> Path i = p)
     \<and> (\<forall>k r. routeLookup c k = Some r \<longrightarrow> bucketOf r = k)"

lemma cacheOK_NewCache [simp]: "cacheOK NewCache"
  by (simp add: cacheOK_def cache_defs NewCache_def routeLookup_def split: option.splits)

lemma cacheOK_puts [intro]:
  "cacheOK c \<Longrightarrow> cacheOK (UpsertServer n c)" "cacheOK c \<Longrightarrow> cacheOK (SetCoordinator n c)"
  "cacheOK c \<Longrightarrow> cacheOK (SetTable i c)" "cacheOK c \<Longrightarrow> cacheOK (SetRoute r c)"
  by (auto simp: cacheOK_def Server_SetCoordinator server_store.get_put table_store.get_put
      route_store.get_put split: if_splits)

lemma cacheOK_fold [intro]: "(\<And>x c. cacheOK c \<Longrightarrow> cacheOK (f x c)) \<Longrightarrow> cacheOK c \<Longrightarrow> cacheOK (fold f xs c)"
  by (induction xs arbitrary: c) auto

lemma cacheOK_ingestTables: "cacheOK c \<Longrightarrow> cacheOK (snd (ingestTables tms c))"
proof (induction tms arbitrary: c)
  case (Cons t tms)
  show ?case
  proof (cases "parseTableMetadata t")
    case (Ok r)
    with Cons show ?thesis by (cases r) (simp add: cacheOK_puts cacheOK_fold)
  qed (use Cons in simp_all)
qed simp

lemma cacheOK_ingestPartitions: "cacheOK c \<Longrightarrow> cacheOK (snd (ingestPartitions pms c))"
proof (induction pms arbitrary: c)
  case (Cons p pms)
  show ?case
  proof (cases "parsePartitionMetadata p")
    case (Ok r)
    with Cons show ?thesis by (simp add: cacheOK_puts cacheOK_fold)
  qed (use Cons in simp_all)
qed simp

lemma cacheOK_ingest: "cacheOK c \<Longrightarrow> cacheOK (snd (ingestMetadata msg c))"
proof (cases msg)
  case (MetadataResponse coord tablets tms pms)
  assume c: "cacheOK c"
  let ?c2 = "fold (\<lambda>n. UpsertServer (parseServerNode n)) tablets
    (case coord of None \<Rightarrow> c | Some n \<Rightarrow> SetCoordinator (parseServerNode n) c)"
  have "cacheOK ?c2" using c by (auto split: option.splits)
  then have t: "cacheOK (snd (ingestTables tms ?c2))" by (rule cacheOK_ingestTables)
  then show ?thesis
    using cacheOK_ingestPartitions[OF t, of pms] MetadataResponse
    by (cases "ingestTables tms ?c2") (auto simp: ingestMetadata_def Let_def split: res.splits)
qed (auto simp: ingestMetadata_def)

abbreviation worldOK :: "'w world \<Rightarrow> bool" where
  "worldOK w \<equiv> cacheOK (cache w) \<and> endpoints w \<noteq> []"

lemma keeps_invokeA [keeps_intros]: "keeps worldOK (invokeA rpc addr req)"
  by (simp add: keeps_def invokeA_def split: prod.splits)

lemma keeps_anyAddress [keeps_intros]: "keeps worldOK anyAddress"
  by (simp add: keeps_def anyAddress_def split: option.splits)

lemma keeps_Refresh [keeps_intros]: "keeps worldOK (RefreshMetadata rpc tps pids)"
  unfolding RefreshMetadata_def
  by (intro keeps_intros) (auto simp: keeps_def split: prod.splits, metis cacheOK_ingest snd_conv)

lemma keeps_invokeAny [keeps_intros]: "keeps worldOK (invokeAny rpc req)"
  unfolding invokeAny_def by (intro keeps_intros)

lemma keeps_invokeCoordinator [keeps_intros]: "keeps worldOK (invokeCoordinator rpc req)"
proof -
  have "keeps worldOK (bindA (RefreshMetadata rpc [] []) (\<lambda>_. invokeAny rpc req))"
    by (intro keeps_intros)
  with keeps_invokeAny[of rpc req] show ?thesis
    by (simp add: keeps_def invokeCoordinator_def)
qed

lemma keeps_GetTableInfo [keeps_intros]: "keeps worldOK (GetTableInfo rpc path)"
  unfolding GetTableInfo_def
  by (intro keeps_intros) (auto simp: keeps_def Let_def split: Response.splits)

lemma keeps_ensureTableInfo [keeps_intros]: "keeps worldOK (ensureTableInfo rpc path)"
  using keeps_GetTableInfo[of rpc path] by (simp add: keeps_def ensureTableInfo_def split: option.splits)

lemma keeps_tableRouteFor [keeps_intros]: "keeps worldOK (tableRouteFor rpc path t p b)"
  using keeps_Refresh[of rpc "[path]" "[]"]
  by (simp add: keeps_def tableRouteFor_def split: res.splits prod.splits) (metis snd_conv)

lemma keeps_groupItems [keeps_intros]: "keeps worldOK (groupItems rpc path t part bucket xs gs)"
proof (induction xs arbitrary: gs)
  case Nil
  show ?case unfolding groupItems.simps by (intro keeps_intros)
next
  case (Cons x xs)
  show ?case unfolding groupItems.simps by (intro keeps_intros Cons.IH)
qed

subsection \<open>Grouping by leader\<close>

lemma mset_addGroup: "mset (concat (map snd (addGroup a x gs))) = add_mset x (mset (concat (map snd gs)))"
  by (induction a x gs rule: addGroup.induct) auto

lemma fst_addGroup: "set (map fst (addGroup a x gs)) = insert a (set (map fst gs))"
  by (induction a x gs rule: addGroup.induct) auto

lemma distinct_addGroup: "distinct (map fst gs) \<Longrightarrow> distinct (map fst (addGroup a x gs))"
proof (induction a x gs rule: addGroup.induct)
  case (2 addr x a xs gs)
  have "a \<notin> fst ` set (addGroup addr x gs)" if "a \<noteq> addr" "a \<notin> fst ` set gs"
    using fst_addGroup[of addr x gs] that by auto
  with 2 show ?case by auto
qed simp

text \<open>The addresses are a function of the items: group \<open>a\<close> holds, in order, the items sent to \<open>a\<close>.\<close>

definition groupOf :: "(string \<times> 'b list) list \<Rightarrow> string \<Rightarrow> 'b list" where
  "groupOf gs a = (case map_of gs a of None \<Rightarrow> [] | Some xs \<Rightarrow> xs)"

lemma groupOf_addGroup: "groupOf (addGroup a x gs) b = groupOf gs b @ (if a = b then [x] else [])"
  by (induction a x gs rule: addGroup.induct) (auto simp: groupOf_def split: if_splits)

lemma groupItems_mset:
  "groupItems rpc path t part bucket xs gs w = (Ok gs', w') \<Longrightarrow>
     mset (concat (map snd gs')) = mset (concat (map snd gs)) + mset xs
     \<and> (distinct (map fst gs) \<longrightarrow> distinct (map fst gs'))"
proof (induction xs arbitrary: gs w)
  case (Cons x xs)
  then obtain node w1 where
    "groupItems rpc path t part bucket xs (addGroup (Address node) x gs) w1 = (Ok gs', w')"
    by (auto simp: bindA_eq_Ok)
  from Cons.IH[OF this] show ?case by (simp add: mset_addGroup distinct_addGroup)
qed simp

text \<open>With every route cached, grouping is pure: no request is sent and each item goes to its leader.\<close>

lemma groupItems_cached:
  assumes "\<forall>x \<in> set xs. routeFor (cache w) t (part x) (bucket x) = Ok (node x)"
  shows "groupItems rpc path t part bucket xs gs w = (Ok (fold (\<lambda>x. addGroup (Address (node x)) x) xs gs), w)"
  using assms
proof (induction xs arbitrary: gs)
  case (Cons x xs)
  then have "tableRouteFor rpc path t (part x) (bucket x) w = (Ok (node x), w)"
    by (simp add: tableRouteFor_def)
  with Cons show ?case by simp
qed simp

lemma groupOf_fold:
  "groupOf (fold (\<lambda>x. addGroup (f x) x) xs gs) a = groupOf gs a @ filter (\<lambda>x. f x = a) xs"
  by (induction xs arbitrary: gs) (auto simp: groupOf_addGroup)

text \<open>A failed lookup refreshes the table's metadata once and tries again.\<close>

lemma tableRouteFor_refresh:
  assumes "routeFor (cache w) t p b = Fail e" and "RefreshMetadata rpc [path] [] w = (Ok (), w')"
  shows "tableRouteFor rpc path t p b w = (routeFor (cache w') t p b, w')"
  using assms by (simp add: tableRouteFor_def)

end
