(* ===== verification/Table_Write.thy ===== *)
theory Table_Write
  imports Client_Laws "HOL-Library.AList"
begin

text \<open>
  Writing to a table (the write half of \<open>client/table.go\<close>): one round sends the batches of
  each leader and collects results and failed buckets (\<open>appendLogOnce\<close>, \<open>upsertKVOnce\<close>);
  \<open>AppendLog\<close> and \<open>UpsertKV\<close> run at most two rounds, refresh the metadata between them and
  send again only the buckets whose leader was not available.

  \<open>sort.Slice\<close> is not stable; \<open>sortByBucket\<close> is the stable order, and results of one
  bucket id (in different partitions) may come in any order in the program.
\<close>

definition sortByBucket :: "WriteResult list \<Rightarrow> WriteResult list" where
  "sortByBucket rs = sort_key (\<lambda>r. sint (ResBucketID r)) rs"

definition bucketFailureKey :: "int64 option \<Rightarrow> int32 \<Rightarrow> string" where
  "bucketFailureKey partitionID bucketID = (case partitionID of
      None \<Rightarrow> ''nil'' @ CHR ''/'' # itoa (sint bucketID)
    | Some p \<Rightarrow> itoa (sint p) @ CHR ''/'' # itoa (sint bucketID))"

text \<open>The terminal failures, as the error the caller gets, and the retryable ones by key.\<close>

definition splitBucketWriteFailures ::
  "string \<Rightarrow> BucketWriteError list \<Rightarrow> (string \<times> BucketWriteError) list \<times> goerr option" where
  "splitBucketWriteFailures operation failures =
     (let retryable = fold (\<lambda>(p, b, e) m. AList.update (bucketFailureKey p b) (p, b, e) m)
            (filter (\<lambda>(p, b, e). isRetryableWriteRouteErr e) failures) [];
          terminalFailures = filter (\<lambda>(p, b, e). \<not> isRetryableWriteRouteErr e) failures
      in (retryable, if terminalFailures = [] then None else Some (PartialWriteError operation terminalFailures)))"

definition filterBucketRecordBatchesByFailure ::
  "BucketRecordBatch list \<Rightarrow> (string \<times> BucketWriteError) list \<Rightarrow> BucketRecordBatch list" where
  "filterBucketRecordBatchesByFailure batches failures =
     filter (\<lambda>b. map_of failures (bucketFailureKey (BatchPartitionID b) (BatchBucketID b)) \<noteq> None) batches"

definition resultKey :: "WriteResult \<Rightarrow> string" where
  "resultKey r = bucketFailureKey (ResPartitionID r) (ResBucketID r)"

text \<open>The second loop of \<open>merge*Results\<close>: overwrite in place or append.\<close>

fun mergeLoop :: "WriteResult list \<Rightarrow> (string \<rightharpoonup> nat) \<Rightarrow> WriteResult list \<Rightarrow> WriteResult list" where
  "mergeLoop [] index out = out"
| "mergeLoop (r # rs) index out = (case index (resultKey r) of
      Some i \<Rightarrow> mergeLoop rs index (out[i := r])
    | None \<Rightarrow> mergeLoop rs (index(resultKey r \<mapsto> length out)) (out @ [r]))"

definition resultIndex :: "WriteResult list \<Rightarrow> string \<rightharpoonup> nat" where
  "resultIndex out = fold (\<lambda>(i, r) m. m(resultKey r \<mapsto> i)) (zip [0..<length out] out) Map.empty"

definition mergeProduceResults :: "ProduceResult list \<Rightarrow> ProduceResult list \<Rightarrow> ProduceResult list" where
  "mergeProduceResults existing current = sortByBucket (mergeLoop current (resultIndex existing) existing)"

definition mergePutResults :: "PutResult list \<Rightarrow> PutResult list \<Rightarrow> PutResult list" where
  "mergePutResults existing current = sortByBucket (mergeLoop current (resultIndex existing) existing)"

subsection \<open>One round\<close>

text \<open>
  A write returns results together with an error: \<open>Ok (results, err)\<close>. \<open>orReturn\<close> is
  \<open>if err != nil { return nil, err }\<close>.
\<close>

type_synonym write_outcome = "WriteResult list \<times> goerr option"

definition orReturn :: "('w, 'a) act \<Rightarrow> ('a \<Rightarrow> ('w, write_outcome) act) \<Rightarrow> ('w, write_outcome) act" where
  "orReturn m f w = (case m w of
      (Ok a, w') \<Rightarrow> f a w' | (Fail e, w') \<Rightarrow> (Ok ([], Some e), w') | (Panic, w') \<Rightarrow> (Panic, w'))"

text \<open>The loop over the groups; \<open>mk\<close> builds the request of a group, \<open>parse\<close> reads its response.\<close>

fun sendGroups :: "'w network \<Rightarrow> (BucketRecordBatch list \<Rightarrow> Request) \<Rightarrow> (Response \<Rightarrow> write_outcome) \<Rightarrow> string \<Rightarrow>
    (WriteResult list \<Rightarrow> WriteResult list) \<Rightarrow> (string \<times> BucketRecordBatch list) list \<Rightarrow>
    WriteResult list \<Rightarrow> BucketWriteError list \<Rightarrow> ('w, write_outcome) act" where
  "sendGroups rpc mk parse op fin [] out failures =
     liftA (Ok (fin out, if failures \<noteq> [] then Some (PartialWriteError op failures) else None))"
| "sendGroups rpc mk parse op fin ((addr, batchList) # groups) out failures =
     orReturn (invokeA rpc addr (mk batchList)) (\<lambda>resp. case parse resp of
         (results, None) \<Rightarrow> sendGroups rpc mk parse op fin groups (out @ results) failures
       | (results, Some (PartialWriteError op' fs)) \<Rightarrow>
           sendGroups rpc mk parse op fin groups (out @ results) (failures @ fs)
       | (results, Some err) \<Rightarrow> liftA (Ok (out @ results, Some err)))"

definition appendLogOnce :: "'w network \<Rightarrow>
    ((string \<times> BucketRecordBatch list) list \<Rightarrow> (string \<times> BucketRecordBatch list) list) \<Rightarrow> TablePath \<Rightarrow>
    int32 \<Rightarrow> int32 \<Rightarrow> BucketRecordBatch list \<Rightarrow> ('w, write_outcome) act" where
  "appendLogOnce rpc ord path acks timeoutMs buckets =
     orReturn (ensureTableInfo rpc path) (\<lambda>info.
       orReturn (groupBatchesByLeader rpc path (TableID info) buckets) (\<lambda>grouped.
         sendGroups rpc
           (\<lambda>batchList. ProduceLogRequest acks (TableID info) timeoutMs
              (map (\<lambda>b. buildProduceBucketRecord (BatchPartitionID b) (BatchBucketID b) (BatchRecords b)) batchList))
           parseProduceResults ''append log'' sortByBucket (ord grouped) [] []))"

definition upsertKVOnce :: "'w network \<Rightarrow>
    ((string \<times> BucketRecordBatch list) list \<Rightarrow> (string \<times> BucketRecordBatch list) list) \<Rightarrow> TablePath \<Rightarrow>
    int32 \<Rightarrow> int32 \<Rightarrow> int32 list \<Rightarrow> int32 option \<Rightarrow> BucketRecordBatch list \<Rightarrow> ('w, write_outcome) act" where
  "upsertKVOnce rpc ord path acks timeoutMs targetColumns aggMode buckets =
     orReturn (ensureTableInfo rpc path) (\<lambda>info.
       orReturn (groupBatchesByLeader rpc path (TableID info) buckets) (\<lambda>grouped.
         sendGroups rpc
           (\<lambda>batchList. PutKvRequest acks (TableID info) timeoutMs targetColumns aggMode
              (map (\<lambda>b. buildPutBucketRecord (BatchPartitionID b) (BatchBucketID b) (BatchRecords b)) batchList))
           parsePutResults ''upsert kv'' (\<lambda>out. out) (ord grouped) [] []))"

subsection \<open>Retries\<close>

text \<open>
  The attempt loop. The first argument counts the attempts that are left (\<open>attempt == 1\<close>
  when one is left); \<open>once\<close> is a round on the pending batches, \<open>refresh\<close> the metadata
  refresh, \<open>fin\<close> what is done to the results on a full success.
\<close>

fun writeAttempts :: "nat \<Rightarrow> (BucketRecordBatch list \<Rightarrow> ('w, write_outcome) act) \<Rightarrow> ('w, unit) act \<Rightarrow>
    (WriteResult list \<Rightarrow> WriteResult list \<Rightarrow> WriteResult list) \<Rightarrow> (WriteResult list \<Rightarrow> WriteResult list) \<Rightarrow>
    BucketRecordBatch list \<Rightarrow> WriteResult list \<Rightarrow> ('w, write_outcome) act" where
  "writeAttempts 0 once refresh merge fin pending allResults = liftA (Ok (fin allResults, None))"
| "writeAttempts (Suc left) once refresh merge fin pending allResults =
     bindA (once pending) (\<lambda>(results, err).
       let allResults = merge allResults results in
       case err of
         None \<Rightarrow> liftA (Ok (fin allResults, None))
       | Some (PartialWriteError op failures) \<Rightarrow>
           (case splitBucketWriteFailures op failures of (retryable, term) \<Rightarrow>
              if length retryable = 0 \<or> left = 0 then liftA (Ok (sortByBucket allResults, term))
              else bindA (catchA (bindA refresh (\<lambda>_. liftA (Ok True))) (\<lambda>_. liftA (Ok False))) (\<lambda>refreshed.
                if \<not> refreshed then liftA (Ok (sortByBucket allResults, term))
                else let pending = filterBucketRecordBatchesByFailure pending retryable in
                  if pending = [] then liftA (Ok (sortByBucket allResults, term))
                  else if term \<noteq> None \<and> length retryable \<noteq> length failures
                    then liftA (Ok (sortByBucket allResults, term))
                  else writeAttempts left once refresh merge fin pending allResults))
       | Some e \<Rightarrow>
           if left = 0 \<or> \<not> isRetryableWriteRouteErr e then liftA (Ok (allResults, Some e))
           else bindA (catchA (bindA refresh (\<lambda>_. liftA (Ok True))) (\<lambda>_. liftA (Ok False))) (\<lambda>refreshed.
             if \<not> refreshed then liftA (Ok (allResults, Some e))
             else writeAttempts left once refresh merge fin pending allResults))"

definition AppendLog where
  "AppendLog rpc ord path acks timeoutMs buckets =
     writeAttempts 2 (appendLogOnce rpc ord path acks timeoutMs) (RefreshMetadata rpc [path] [])
       mergeProduceResults sortByBucket buckets []"

definition UpsertKV where
  "UpsertKV rpc ord path acks timeoutMs targetColumns aggMode buckets =
     writeAttempts 2 (upsertKVOnce rpc ord path acks timeoutMs targetColumns aggMode) (RefreshMetadata rpc [path] [])
       mergePutResults (\<lambda>out. out) buckets []"

end
