(* ===== verification/Table_Write_Laws.thy ===== *)
theory Table_Write_Laws
  imports Table_Write
begin

text \<open>
  The laws of writing: the bucket keys are unambiguous, merging results keeps the latest
  result of each bucket, only buckets that failed for want of a leader are sent again, and
  over all attempts every batch is sent at least once when the call succeeds and at most
  twice in any case.
\<close>

subsection \<open>Keys and merging\<close>

lemma bucketFailureKey_inj [simp]: "bucketFailureKey p b = bucketFailureKey q c \<longleftrightarrow> p = q \<and> b = c"
proof -
  have nil: "CHR ''/'' \<notin> set ''nil''" by simp
  have "itoa x \<noteq> ''nil''" for x
  proof
    assume "itoa x = ''nil''"
    then have "isDigit CHR ''n'' \<or> CHR ''n'' = CHR ''-''" using itoa_chars[of "CHR ''n''" x] by simp
    then show False by (simp add: isDigit_def of_char_def)
  qed
  then have ne: "itoa x \<noteq> ''nil''" "''nil'' \<noteq> itoa x" for x by metis+
  have sint_eq: "sint x = sint y \<longleftrightarrow> x = y" for x y :: "'a::len word" by (auto intro: signed_word_eqI)
  show ?thesis
    unfolding bucketFailureKey_def
    by (cases p; cases q)
      (simp_all only: option.case sep_append_inj slash_itoa nil not_False_eq_True itoa_inj sint_eq ne, auto)
qed

definition resultView :: "WriteResult list \<Rightarrow> string \<rightharpoonup> WriteResult" where
  "resultView rs = map_of (map (\<lambda>r. (resultKey r, r)) rs)"

definition indexOK :: "(string \<rightharpoonup> nat) \<Rightarrow> WriteResult list \<Rightarrow> bool" where
  "indexOK index out \<longleftrightarrow> (\<forall>k i. index k = Some i \<longleftrightarrow> i < length out \<and> resultKey (out ! i) = k)"

lemma resultView_Some: "distinct (map resultKey rs) \<Longrightarrow> resultView rs k = Some r \<longleftrightarrow> r \<in> set rs \<and> resultKey r = k"
  by (subst resultView_def, subst map_of_eq_Some_iff) (auto simp: comp_def)

lemma indexOK_distinct: "indexOK index out \<Longrightarrow> distinct (map resultKey out)"
  unfolding indexOK_def distinct_conv_nth by (metis length_map nth_map option.inject)

lemma resultView_update:
  assumes "indexOK index out" and "index (resultKey r) = Some i"
  shows "indexOK index (out[i := r])" and "resultView (out[i := r]) = (resultView out)(resultKey r \<mapsto> r)"
proof -
  have i: "i < length out" "resultKey (out ! i) = resultKey r" using assms by (auto simp: indexOK_def)
  have keys: "map resultKey (out[i := r]) = map resultKey out"
    using i by (metis list_update_id map_update)
  show "indexOK index (out[i := r])"
    unfolding indexOK_def
  proof (intro allI)
    fix k j
    have "resultKey (out[i := r] ! j) = resultKey (out ! j)" if "j < length out"
      using that i by (cases "j = i") auto
    with assms(1) show "index k = Some j \<longleftrightarrow> j < length (out[i := r]) \<and> resultKey (out[i := r] ! j) = k"
      by (auto simp: indexOK_def)
  qed
  have d: "distinct (map resultKey out)" by (rule indexOK_distinct[OF assms(1)])
  show "resultView (out[i := r]) = (resultView out)(resultKey r \<mapsto> r)"
  proof (intro ext option.expand; (elim exE)?)
    fix k
    show "(resultView (out[i := r]) k = None) = (((resultView out)(resultKey r \<mapsto> r)) k = None)"
      using i keys by (simp add: resultView_def map_of_eq_None_iff image_image)
        (metis (no_types, lifting) image_eqI image_set nth_mem)
  next
    fix k assume "resultView (out[i := r]) k \<noteq> None" and "((resultView out)(resultKey r \<mapsto> r)) k \<noteq> None"
    then obtain s where s: "resultView (out[i := r]) k = Some s" by blast
    then have m: "s \<in> set (out[i := r])" "resultKey s = k"
      using d keys resultView_Some[of "out[i := r]"] by auto
    then obtain j where j: "j < length out" "s = out[i := r] ! j" by (metis in_set_conv_nth length_list_update)
    show "the (resultView (out[i := r]) k) = the (((resultView out)(resultKey r \<mapsto> r)) k)"
    proof (cases "j = i")
      case True
      with s m j i show ?thesis by simp
    next
      case False
      then have "s = out ! j" using j by simp
      moreover from this have "k \<noteq> resultKey r"
        using d i j m False by (metis distinct_conv_nth length_map nth_map)
      ultimately show ?thesis using s m j resultView_Some[OF d, of k s] by simp
    qed
  qed
qed

lemma indexOK_append:
  assumes "indexOK index out" and "index (resultKey r) = None"
  shows "indexOK (index(resultKey r \<mapsto> length out)) (out @ [r])"
    and "resultView (out @ [r]) = (resultView out)(resultKey r \<mapsto> r)"
proof -
  have new: "resultKey (out ! i) \<noteq> resultKey r" if "i < length out" for i
    using assms that unfolding indexOK_def by (metis option.distinct(1))
  show "indexOK (index(resultKey r \<mapsto> length out)) (out @ [r])"
    using assms(1) new unfolding indexOK_def by (auto simp: nth_append less_Suc_eq)
  have "resultKey r \<notin> resultKey ` set out"
  proof
    assume "resultKey r \<in> resultKey ` set out"
    then obtain i where "i < length out" "resultKey (out ! i) = resultKey r" by (auto simp: in_set_conv_nth)
    then show False using new by blast
  qed
  then have "resultView out (resultKey r) = None"
    by (simp add: resultView_def map_of_eq_None_iff image_image)
  then show "resultView (out @ [r]) = (resultView out)(resultKey r \<mapsto> r)"
    by (auto simp: resultView_def map_add_def fun_eq_iff split: option.splits)
qed

lemma mergeLoop_view:
  assumes "indexOK index out"
  shows "\<exists>index'. indexOK index' (mergeLoop rs index out)
    \<and> resultView (mergeLoop rs index out) = resultView out ++ map_of (rev (map (\<lambda>r. (resultKey r, r)) rs))"
  using assms
proof (induction rs arbitrary: index out)
  case (Cons r rs)
  show ?case
  proof (cases "index (resultKey r)")
    case None
    from Cons.IH[OF indexOK_append(1)[OF Cons.prems None]] None show ?thesis
      by (simp only: mergeLoop.simps option.case indexOK_append(2)[OF Cons.prems None]) (simp add: fun_upd_def map_add_def fun_eq_iff split: option.splits)
  next
    case (Some i)
    from Cons.IH[OF resultView_update(1)[OF Cons.prems Some]] Some show ?thesis
      by (simp only: mergeLoop.simps option.case resultView_update(2)[OF Cons.prems Some])
        (simp add: fun_upd_def map_add_def fun_eq_iff split: option.splits)
  qed
qed auto

lemma resultIndex_fold:
  "fold (\<lambda>(i, r) m. m(resultKey r \<mapsto> i)) (zip [n..<n + length rs] rs) m k =
    (case find (\<lambda>i. resultKey (rs ! i) = k) (rev [0..<length rs]) of Some i \<Rightarrow> Some (n + i) | None \<Rightarrow> m k)"
proof (induction rs arbitrary: n m rule: rev_induct)
  case Nil
  then show ?case by simp
next
  case (snoc r rs)
  have z: "zip [n..<n + length (rs @ [r])] (rs @ [r]) = zip [n..<n + length rs] rs @ [(n + length rs, r)]"
    by simp
  have "find P (map f xs) = map_option f (find (P \<circ> f) xs)" for P :: "nat \<Rightarrow> bool" and f xs by (induction xs) auto
  have f: "find (\<lambda>i. resultKey ((rs @ [r]) ! i) = k) (rev [0..<length rs]) = find (\<lambda>i. resultKey (rs ! i) = k) (rev [0..<length rs])"
    by (rule find_cong) (auto simp: nth_append)
  show ?case
    unfolding z fold_append fold_simps comp_def prod.case
    by (simp only: fun_upd_apply snoc) (simp add: f)
qed

lemma indexOK_resultIndex:
  assumes "distinct (map resultKey rs)"
  shows "indexOK (resultIndex rs) rs"
  unfolding indexOK_def
proof (intro allI)
  fix k i
  have "resultIndex rs k = find (\<lambda>i. resultKey (rs ! i) = k) (rev [0..<length rs])"
    using resultIndex_fold[of 0 rs Map.empty k] by (simp add: resultIndex_def split: option.splits)
  also have "\<dots> = Some i \<longleftrightarrow> i < length rs \<and> resultKey (rs ! i) = k"
  proof
    assume "find (\<lambda>i. resultKey (rs ! i) = k) (rev [0..<length rs]) = Some i"
    then show "i < length rs \<and> resultKey (rs ! i) = k"
      by (auto simp: find_Some_iff rev_nth)
  next
    assume i: "i < length rs \<and> resultKey (rs ! i) = k"
    then have "find (\<lambda>i. resultKey (rs ! i) = k) (rev [0..<length rs]) \<noteq> None"
      by (auto simp: find_None_iff)
    then obtain j where "find (\<lambda>i. resultKey (rs ! i) = k) (rev [0..<length rs]) = Some j" by blast
    moreover from this have "j < length rs" "resultKey (rs ! j) = k"
      by (auto simp: find_Some_iff rev_nth)
    ultimately show "find (\<lambda>i. resultKey (rs ! i) = k) (rev [0..<length rs]) = Some i"
      using i assms by (metis distinct_conv_nth length_map nth_map)
  qed
  finally show "resultIndex rs k = Some i \<longleftrightarrow> i < length rs \<and> resultKey (rs ! i) = k" .
qed

lemma resultView_sort:
  assumes "distinct (map resultKey rs)"
  shows "resultView (sortByBucket rs) = resultView rs" and "distinct (map resultKey (sortByBucket rs))"
proof -
  show d: "distinct (map resultKey (sortByBucket rs))"
    using assms by (simp add: sortByBucket_def distinct_map)
  show "resultView (sortByBucket rs) = resultView rs"
  proof
    fix k
    have "resultView (sortByBucket rs) k = Some r \<longleftrightarrow> resultView rs k = Some r" for r
      using resultView_Some[OF assms, of k r] resultView_Some[OF d, of k r] by (simp add: sortByBucket_def)
    then show "resultView (sortByBucket rs) k = resultView rs k" by (metis not_None_eq)
  qed
qed

text \<open>Merging: the latest result of every bucket, once, in the order of the bucket ids.\<close>

lemma mergeProduceResults_view:
  assumes "distinct (map resultKey existing)"
  shows "resultView (mergeProduceResults existing current)
      = resultView existing ++ map_of (rev (map (\<lambda>r. (resultKey r, r)) current))"
    and "distinct (map resultKey (mergeProduceResults existing current))"
    and "sorted (map (\<lambda>r. sint (ResBucketID r)) (mergeProduceResults existing current))"
proof -
  obtain index where i: "indexOK index (mergeLoop current (resultIndex existing) existing)"
    and v: "resultView (mergeLoop current (resultIndex existing) existing)
      = resultView existing ++ map_of (rev (map (\<lambda>r. (resultKey r, r)) current))"
    using mergeLoop_view[OF indexOK_resultIndex[OF assms]] by blast
  note d = indexOK_distinct[OF i]
  show "resultView (mergeProduceResults existing current)
      = resultView existing ++ map_of (rev (map (\<lambda>r. (resultKey r, r)) current))"
    and "distinct (map resultKey (mergeProduceResults existing current))"
    using resultView_sort[OF d] v by (simp_all add: mergeProduceResults_def)
  show "sorted (map (\<lambda>r. sint (ResBucketID r)) (mergeProduceResults existing current))"
    by (simp add: mergeProduceResults_def sortByBucket_def)
qed

lemma mergePut_eq_mergeProduce: "mergePutResults = mergeProduceResults"
  by (simp add: mergePutResults_def mergeProduceResults_def fun_eq_iff)

subsection \<open>Splitting the failures\<close>

lemma AList_fold_dom:
  "map_of (fold (\<lambda>(p, b, e) m. AList.update (bucketFailureKey p b) (p, b, e) m) fs m) k \<noteq> None \<longleftrightarrow>
    (\<exists>(p, b, e) \<in> set fs. bucketFailureKey p b = k) \<or> map_of m k \<noteq> None"
  by (induction fs arbitrary: m) (auto simp: update_conv' split: if_splits)

text \<open>A batch is sent again exactly when its bucket failed with a retryable error.\<close>

lemma retry_batches:
  assumes "splitBucketWriteFailures op failures = (retryable, terminal)"
  shows "x \<in> set (filterBucketRecordBatchesByFailure batches retryable) \<longleftrightarrow> x \<in> set batches \<and>
    (\<exists>e. (BatchPartitionID x, BatchBucketID x, e) \<in> set failures \<and> isRetryableWriteRouteErr e)"
proof -
  have "map_of retryable k \<noteq> None \<longleftrightarrow>
      (\<exists>(p, b, e) \<in> set (filter (\<lambda>(p, b, e). isRetryableWriteRouteErr e) failures). bucketFailureKey p b = k)" for k
    using assms AList_fold_dom[of "filter (\<lambda>(p, b, e). isRetryableWriteRouteErr e) failures" "[]" k]
    by (auto simp: splitBucketWriteFailures_def Let_def)
  then show ?thesis by (fastforce simp: filterBucketRecordBatchesByFailure_def)
qed

lemma terminal_failures:
  assumes "splitBucketWriteFailures op failures = (retryable, terminal)"
  shows "terminal = None \<longleftrightarrow> (\<forall>(p, b, e) \<in> set failures. isRetryableWriteRouteErr e)"
proof -
  have "terminal = None \<longleftrightarrow> filter (\<lambda>(p, b, e). \<not> isRetryableWriteRouteErr e) failures = []"
    using assms by (simp add: splitBucketWriteFailures_def Let_def split: if_splits) blast+
  then show ?thesis by (auto simp: filter_empty_conv)
qed

subsection \<open>What is sent\<close>

text \<open>
  A network that also keeps the log of the requests it was given, and the write requests
  of buckets in that log.
\<close>

definition logged :: "'v network \<Rightarrow> ('v \<times> Request list) network" where
  "logged rpc n addr req = (case rpc (fst n) addr req of (r, v) \<Rightarrow> (r, (v, snd n @ [req])))"

fun writeReqs :: "Request \<Rightarrow> PbWriteReq list" where
  "writeReqs (ProduceLogRequest acks t ms bs) = bs"
| "writeReqs (PutKvRequest acks t ms cols agg bs) = bs"
| "writeReqs _ = []"

definition sent :: "('v \<times> Request list) world \<Rightarrow> PbWriteReq multiset" where
  "sent w = mset (concat (map writeReqs (snd (net w))))"

definition reqOf :: "BucketRecordBatch \<Rightarrow> PbWriteReq" where
  "reqOf b = PbWriteReq (BatchPartitionID b) (BatchBucketID b) (BatchRecords b)"

text \<open>\<open>rpc.Client.Invoke\<close> never returns a \<open>PartialWriteError\<close>: only the parsers make one.\<close>

definition plainErrors :: "'v network \<Rightarrow> bool" where
  "plainErrors rpc \<longleftrightarrow> (\<forall>n a q op fs. fst (rpc n a q) \<noteq> Fail (PartialWriteError op fs))"

definition isPartial :: "goerr \<Rightarrow> bool" where
  "isPartial e = (case e of PartialWriteError op fs \<Rightarrow> True | _ \<Rightarrow> False)"

definition quiet :: "(('v \<times> Request list), 'a) act \<Rightarrow> bool" where
  "quiet m \<longleftrightarrow> (\<forall>S. keeps (\<lambda>w. sent w = S) m) \<and> (\<forall>w e. fst (m w) = Fail e \<longrightarrow> \<not> isPartial e)"

lemma sent_invoke:
  "invokeA (logged rpc) addr req w = (r, w') \<Longrightarrow> sent w' = sent w + mset (writeReqs req)"
  by (auto simp: invokeA_def logged_def sent_def split: prod.splits)

lemma invoke_not_partial:
  "plainErrors rpc \<Longrightarrow> invokeA (logged rpc) addr req w = (Fail e, w') \<Longrightarrow> \<not> isPartial e"
  by (auto simp: invokeA_def logged_def plainErrors_def isPartial_def split: prod.splits goerr.splits)
    (metis fst_conv)

named_theorems quiet_intros \<open>actions that send no write request\<close>

lemma quiet_bindA [quiet_intros]:
  assumes "quiet m" and "\<And>a. quiet (f a)"
  shows "quiet (bindA m f)"
  unfolding quiet_def
proof (intro conjI allI impI)
  fix S show "keeps (\<lambda>w. sent w = S) (bindA m f)"
    using assms by (intro keeps_intros) (auto simp: quiet_def)
next
  fix w e assume e: "fst (bindA m f w) = Fail e"
  obtain x w1 where m: "m w = (x, w1)" by force
  then have "\<forall>e. x = Fail e \<longrightarrow> \<not> isPartial e" using assms(1) by (auto simp: quiet_def) (metis fst_conv)
  with e m assms(2) show "\<not> isPartial e" by (cases x) (auto simp: quiet_def)
qed

lemma quiet_invoke [quiet_intros]:
  assumes "plainErrors rpc" and "writeReqs req = []"
  shows "quiet (invokeA (logged rpc) addr req)"
  unfolding quiet_def
proof (intro conjI allI impI)
  fix S show "keeps (\<lambda>w. sent w = S) (invokeA (logged rpc) addr req)"
    by (rule keepsI) (use assms(2) sent_invoke in fastforce)
next
  fix w e assume "fst (invokeA (logged rpc) addr req w) = Fail e"
  then show "\<not> isPartial e" using invoke_not_partial[OF assms(1)] by (metis surjective_pairing)
qed

lemma quietI:
  "(\<And>w. sent (snd (m w)) = sent w) \<Longrightarrow> (\<And>w e. fst (m w) = Fail e \<Longrightarrow> \<not> isPartial e) \<Longrightarrow> quiet m"
  by (auto simp: quiet_def keeps_def)

lemma quietD: "quiet m \<Longrightarrow> m w = (r, w') \<Longrightarrow> sent w' = sent w"
  by (auto simp: quiet_def keeps_def) (metis snd_conv)

lemma quiet_errD: "quiet m \<Longrightarrow> m w = (Fail e, w') \<Longrightarrow> \<not> isPartial e"
  by (auto simp: quiet_def) (metis fst_conv)

lemma sent_cache [simp]: "sent (w\<lparr>cache := c\<rparr>) = sent w"
  by (simp add: sent_def)

lemma quiet_anyAddress [quiet_intros]: "quiet anyAddress"
  by (rule quietI) (auto simp: anyAddress_def goindex_def split: option.splits if_splits)

lemma not_partial [simp]: "\<not> isPartial (Errf s)" "\<not> isPartial (Wrapf s e)"
  by (simp_all add: isPartial_def)

lemma parseBuckets_Errf: "parseBuckets t p bs = Fail e \<Longrightarrow> \<not> isPartial e"
  by (induction bs) (auto simp: andThen_eq_Fail parseBucketMetadata_def split: option.splits elim!: mapRes.elims)

lemma ingestMetadata_Errf: "fst (ingestMetadata msg c) = Fail e \<Longrightarrow> \<not> isPartial e"
proof -
  have t: "\<not> isPartial e" if "fst (ingestTables tms c) = Fail e" for tms c
    using that
  proof (induction tms arbitrary: c)
    case (Cons t tms)
    then show ?case
      by (auto simp: parseTableMetadata_def parseTablePath_def Let_def andThen_eq_Fail
          split: res.splits option.splits prod.splits dest: parseBuckets_Errf)
  qed simp
  have p: "\<not> isPartial e" if "fst (ingestPartitions pms c) = Fail e" for pms c
    using that
  proof (induction pms arbitrary: c)
    case (Cons p pms)
    then show ?case by (auto simp: parsePartitionMetadata_def split: res.splits dest: parseBuckets_Errf)
  qed simp
  assume "fst (ingestMetadata msg c) = Fail e"
  then show ?thesis
    using t p by (auto simp: ingestMetadata_def Let_def split: Response.splits prod.splits res.splits)
      (metis fst_conv)+
qed

lemma quiet_ingest: "quiet (\<lambda>w. case ingestMetadata msg (cache w) of (r, c) \<Rightarrow> (r, w\<lparr>cache := c\<rparr>))"
proof (rule quietI)
  fix w :: "('v \<times> Request list) world" and e
  assume "fst (case ingestMetadata msg (cache w) of (r, c) \<Rightarrow> (r, w\<lparr>cache := c\<rparr>)) = Fail e"
  then show "\<not> isPartial e"
    using ingestMetadata_Errf[of msg "cache w" e] by (cases "ingestMetadata msg (cache w)") auto
qed (simp split: prod.splits)

lemma quiet_Refresh [quiet_intros]: "plainErrors rpc \<Longrightarrow> quiet (RefreshMetadata (logged rpc) ps ids)"
  unfolding RefreshMetadata_def by (intro quiet_intros quiet_ingest) simp_all

lemma quiet_GetTableInfo [quiet_intros]: "plainErrors rpc \<Longrightarrow> quiet (GetTableInfo (logged rpc) path)"
  unfolding GetTableInfo_def invokeAny_def
  by (intro quiet_intros; (simp; fail)?) (rule quietI; auto simp: Let_def split: Response.splits)

lemma quiet_ensureTableInfo [quiet_intros]: "plainErrors rpc \<Longrightarrow> quiet (ensureTableInfo (logged rpc) path)"
proof (rule quietI)
  assume p: "plainErrors rpc"
  fix w
  show "sent (snd (ensureTableInfo (logged rpc) path w)) = sent w"
    using quietD[OF quiet_GetTableInfo[OF p], of path w]
    by (cases "GetTableInfo (logged rpc) path w") (simp add: ensureTableInfo_def split: option.splits)
  fix e assume "fst (ensureTableInfo (logged rpc) path w) = Fail e"
  then show "\<not> isPartial e"
    using quiet_errD[OF quiet_GetTableInfo[OF p], of path w e]
    by (cases "GetTableInfo (logged rpc) path w") (auto simp: ensureTableInfo_def split: option.splits)
qed

lemma routeFor_Errf: "routeFor c t p b = Fail e \<Longrightarrow> \<not> isPartial e"
  by (auto simp: routeFor_refines split: option.splits)

lemma quiet_tableRouteFor [quiet_intros]: "plainErrors rpc \<Longrightarrow> quiet (tableRouteFor (logged rpc) path t p b)"
proof (rule quietI)
  assume p: "plainErrors rpc"
  fix w
  obtain r w1 where m: "RefreshMetadata (logged rpc) [path] [] w = (r, w1)" by force
  with quietD[OF quiet_Refresh[OF p] m]
  show "sent (snd (tableRouteFor (logged rpc) path t p b w)) = sent w"
    by (cases r) (auto simp: tableRouteFor_def split: res.splits)
  fix e assume "fst (tableRouteFor (logged rpc) path t p b w) = Fail e"
  with m show "\<not> isPartial e"
    by (cases r) (auto simp: tableRouteFor_def split: res.splits dest: routeFor_Errf)
qed

lemma quiet_lift [quiet_intros]: "(\<And>e. r = Fail e \<Longrightarrow> \<not> isPartial e) \<Longrightarrow> quiet (liftA r)"
  by (rule quietI) auto

lemma quiet_groupItems [quiet_intros]: "plainErrors rpc \<Longrightarrow> quiet (groupItems (logged rpc) path t part bucket xs gs)"
proof (induction xs arbitrary: gs)
  case Nil
  show ?case unfolding groupItems.simps by (intro quiet_intros) simp
next
  case (Cons x xs)
  show ?case unfolding groupItems.simps by (intro quiet_intros Cons)
qed

text \<open>
  A round sends some of its batches, each once; without an error, or with failed buckets
  only, it has sent all of them.
\<close>

definition roundSpec :: "('v \<times> Request list) world \<Rightarrow> PbWriteReq multiset \<Rightarrow> write_outcome res \<times> ('v \<times> Request list) world \<Rightarrow> bool" where
  "roundSpec w R out \<longleftrightarrow> (\<exists>M. sent (snd out) = sent w + M \<and> M \<subseteq># R \<and>
     (\<forall>rs err. fst out = Ok (rs, err) \<longrightarrow> (case err of None \<Rightarrow> M = R | Some e \<Rightarrow> isPartial e \<longrightarrow> M = R)))"

definition groupReqs :: "(string \<times> BucketRecordBatch list) list \<Rightarrow> PbWriteReq multiset" where
  "groupReqs gs = image_mset reqOf (mset (concat (map snd gs)))"

lemma groupReqs_simps [simp]: "groupReqs [] = {#}"
  "groupReqs ((a, bs) # gs) = image_mset reqOf (mset bs) + groupReqs gs"
  by (simp_all add: groupReqs_def)

lemma sendGroups_round:
  assumes "plainErrors rpc" and "\<And>bs. writeReqs (mk bs) = map reqOf bs"
  shows "roundSpec w (groupReqs gs) (sendGroups (logged rpc) mk parse op fin gs out failures w)"
proof (induction gs arbitrary: out failures w)
  case Nil
  show ?case by (simp add: roundSpec_def)
next
  case (Cons g gs)
  obtain addr bs where g: "g = (addr, bs)" by force
  obtain r w1 where i: "invokeA (logged rpc) addr (mk bs) w = (r, w1)" by force
  have s: "sent w1 = sent w + mset (map reqOf bs)" using sent_invoke[OF i] assms(2) by simp
  have here: "roundSpec w (groupReqs (g # gs)) (Ok (rs, Some e), w1)" if "\<not> isPartial e" for rs e
    using that s g by (auto simp: roundSpec_def intro!: exI[of _ "mset (map reqOf bs)"])
  have more: "roundSpec w (groupReqs (g # gs)) x"
    if "roundSpec w1 (groupReqs gs) x" for x
  proof -
    from that obtain M where M: "sent (snd x) = sent w1 + M" "M \<subseteq># groupReqs gs"
      "\<forall>rs err. fst x = Ok (rs, err) \<longrightarrow> (case err of None \<Rightarrow> M = groupReqs gs
        | Some e \<Rightarrow> isPartial e \<longrightarrow> M = groupReqs gs)"
      by (auto simp: roundSpec_def)
    show ?thesis unfolding roundSpec_def
      by (intro exI[of _ "mset (map reqOf bs) + M"]) (use M s g in \<open>auto split: option.splits\<close>)
  qed
  show ?case
  proof (cases r)
    case (Ok resp)
    obtain rs err where p: "parse resp = (rs, err)" by force
    show ?thesis
    proof (cases err)
      case None
      with i Ok p g more[OF Cons.IH, of "out @ rs" failures] show ?thesis by (simp add: orReturn_def)
    next
      case (Some e)
      show ?thesis
      proof (cases "isPartial e")
        case True
        then obtain op' fs where "e = PartialWriteError op' fs" by (auto simp: isPartial_def split: goerr.splits)
        with i Ok p g Some more[OF Cons.IH, of "out @ rs" "failures @ fs"] show ?thesis by (simp add: orReturn_def)
      next
        case False
        with i Ok p g Some here[OF False] show ?thesis
          by (cases e) (auto simp: orReturn_def isPartial_def)
      qed
    qed
  next
    case (Fail e)
    with i have "\<not> isPartial e" using invoke_not_partial[OF assms(1)] by blast
    with here i Fail g show ?thesis by (auto simp: orReturn_def)
  next
    case Panic
    with i s g show ?thesis
      by (auto simp: orReturn_def roundSpec_def intro!: exI[of _ "mset (map reqOf bs)"])
  qed
qed

lemma orReturn_round:
  assumes "quiet m" and "\<And>a w1. m w = (Ok a, w1) \<Longrightarrow> roundSpec w1 R (f a w1)"
  shows "roundSpec w R (orReturn m f w)"
proof -
  obtain r w1 where m: "m w = (r, w1)" by force
  have s: "sent w1 = sent w" by (rule quietD[OF assms(1) m])
  show ?thesis
  proof (cases r)
    case (Ok a)
    with assms(2)[of a w1] m s show ?thesis by (simp add: orReturn_def roundSpec_def)
  next
    case (Fail e)
    with quiet_errD[OF assms(1)] m s show ?thesis by (auto simp: orReturn_def roundSpec_def)
  next
    case Panic
    with m s show ?thesis by (auto simp: orReturn_def roundSpec_def)
  qed
qed

text \<open>The order in which the groups are visited does not matter, as long as all are.\<close>

definition permutes :: "((string \<times> 'b list) list \<Rightarrow> (string \<times> 'b list) list) \<Rightarrow> bool" where
  "permutes ord \<longleftrightarrow> (\<forall>gs. mset (ord gs) = mset gs)"

lemma permutes_groupReqs:
  assumes "permutes ord"
  shows "groupReqs (ord gs) = groupReqs gs"
proof -
  have "groupReqs xs = sum_mset (image_mset (\<lambda>g. image_mset reqOf (mset (snd g))) (mset xs))" for xs
    by (induction xs) (auto simp: groupReqs_def)
  then show ?thesis using assms by (simp add: permutes_def)
qed

lemma appendLogOnce_round:
  assumes "plainErrors rpc" and "permutes ord"
  shows "roundSpec w (mset (map reqOf bs)) (appendLogOnce (logged rpc) ord path acks ms bs w)"
  unfolding appendLogOnce_def
proof (intro orReturn_round quiet_intros assms(1))
  fix info w1 gs w2
  assume "groupBatchesByLeader (logged rpc) path (TableID info) bs w1 = (Ok gs, w2)"
  then have "mset (concat (map snd gs)) = mset bs"
    using groupItems_mset[of _ _ _ _ _ bs "[]" w1 gs w2] unfolding groupBatchesByLeader_def by simp
  then have *: "groupReqs (ord gs) = mset (map reqOf bs)"
    using permutes_groupReqs[OF assms(2)] by (simp add: groupReqs_def)
  have mk: "writeReqs (ProduceLogRequest acks (TableID info) ms
      (map (\<lambda>b. buildProduceBucketRecord (BatchPartitionID b) (BatchBucketID b) (BatchRecords b)) xs)) = map reqOf xs" for xs
    by (simp add: buildProduceBucketRecord_def reqOf_def)
  show "roundSpec w2 (mset (map reqOf bs)) (sendGroups (logged rpc)
      (\<lambda>batchList. ProduceLogRequest acks (TableID info) ms
        (map (\<lambda>b. buildProduceBucketRecord (BatchPartitionID b) (BatchBucketID b) (BatchRecords b)) batchList))
      parseProduceResults ''append log'' sortByBucket (ord gs) [] [] w2)"
    unfolding *[symmetric] by (rule sendGroups_round[OF assms(1) mk])
qed (simp add: groupBatchesByLeader_def quiet_groupItems assms(1))

lemma upsertKVOnce_round:
  assumes "plainErrors rpc" and "permutes ord"
  shows "roundSpec w (mset (map reqOf bs)) (upsertKVOnce (logged rpc) ord path acks ms cols agg bs w)"
  unfolding upsertKVOnce_def
proof (intro orReturn_round quiet_intros assms(1))
  fix info w1 gs w2
  assume "groupBatchesByLeader (logged rpc) path (TableID info) bs w1 = (Ok gs, w2)"
  then have "mset (concat (map snd gs)) = mset bs"
    using groupItems_mset[of _ _ _ _ _ bs "[]" w1 gs w2] unfolding groupBatchesByLeader_def by simp
  then have *: "groupReqs (ord gs) = mset (map reqOf bs)"
    using permutes_groupReqs[OF assms(2)] by (simp add: groupReqs_def)
  have mk: "writeReqs (PutKvRequest acks (TableID info) ms cols agg
      (map (\<lambda>b. buildPutBucketRecord (BatchPartitionID b) (BatchBucketID b) (BatchRecords b)) xs)) = map reqOf xs" for xs
    by (simp add: buildPutBucketRecord_def reqOf_def)
  show "roundSpec w2 (mset (map reqOf bs)) (sendGroups (logged rpc)
      (\<lambda>batchList. PutKvRequest acks (TableID info) ms cols agg
        (map (\<lambda>b. buildPutBucketRecord (BatchPartitionID b) (BatchBucketID b) (BatchRecords b)) batchList))
      parsePutResults ''upsert kv'' (\<lambda>out. out) (ord gs) [] [] w2)"
    unfolding *[symmetric] by (rule sendGroups_round[OF assms(1) mk])
qed (simp add: groupBatchesByLeader_def quiet_groupItems assms(1))

subsection \<open>What the attempts send\<close>

text \<open>\<open>write_api\<close>: the interface the attempt loop relies on, a round and a metadata refresh.\<close>

locale write_api =
  fixes once :: "BucketRecordBatch list \<Rightarrow> ('v \<times> Request list, write_outcome) act"
    and refresh :: "('v \<times> Request list, unit) act"
    and merge :: "WriteResult list \<Rightarrow> WriteResult list \<Rightarrow> WriteResult list"
    and fin :: "WriteResult list \<Rightarrow> WriteResult list"
  assumes once_round: "roundSpec w (mset (map reqOf bs)) (once bs w)"
    and refresh_quiet: "quiet refresh"
begin

abbreviation attempts where
  "attempts n bs rs \<equiv> writeAttempts n once refresh merge fin bs rs"

definition refreshed :: "('v \<times> Request list, bool) act" where
  "refreshed = catchA (bindA refresh (\<lambda>_. liftA (Ok True))) (\<lambda>_. liftA (Ok False))"

lemma refreshed_cases:
  assumes "refreshed w = (r, w')"
  shows "sent w' = sent w \<and> (r = Ok True \<or> r = Ok False \<or> r = Panic)"
proof -
  obtain x w1 where m: "refresh w = (x, w1)" by force
  with assms quietD[OF refresh_quiet m] show ?thesis
    by (cases x) (auto simp: refreshed_def catchA_def bindA_def)
qed

lemma filter_reqs_subset:
  "mset (map reqOf (filterBucketRecordBatchesByFailure bs fs)) \<subseteq># mset (map reqOf bs)"
  by (simp add: filterBucketRecordBatchesByFailure_def image_mset_subseteq_mono)

text \<open>A failing attempt is the last one, or the refresh succeeds and a part of the batches is tried again.\<close>

lemma attempts_Suc:
  assumes once: "once bs w = (Ok (results, err), w1)" and a: "attempts (Suc n) bs rs w = out"
  shows "(fst out = Panic \<and> sent (snd out) = sent w1)
    \<or> (\<exists>rs' err'. fst out = Ok (rs', err') \<and> sent (snd out) = sent w1
        \<and> (err' = None \<longrightarrow> (case err of None \<Rightarrow> True | Some e \<Rightarrow> isPartial e)))
    \<or> (\<exists>bs' rs' w2. out = attempts n bs' rs' w2 \<and> n > 0 \<and> sent w2 = sent w1 \<and> mset (map reqOf bs') \<subseteq># mset (map reqOf bs)
        \<and> ((case err of None \<Rightarrow> True | Some e \<Rightarrow> isPartial e) \<or> bs' = bs))"
proof -
  obtain r w2 where m: "refreshed w1 = (r, w2)" by force
  note m' = m[unfolded refreshed_def] and q = refreshed_cases[OF m]
  show ?thesis
  proof (cases err)
    case None
    with once a show ?thesis by (auto simp: Let_def)
  next
    case (Some e)
    show ?thesis
    proof (cases "isPartial e")
      case True
      then obtain op fs where e: "e = PartialWriteError op fs" by (auto simp: isPartial_def split: goerr.splits)
      obtain retryable t where sp: "splitBucketWriteFailures op fs = (retryable, t)" by force
      show ?thesis
        using once a Some e sp m' q filter_reqs_subset[of bs retryable] True
        by (cases "r") (auto simp: Let_def bindA_def simp del: mset_map split: if_splits)
    next
      case False
      then show ?thesis
        using once a Some m' q
        by (cases e) (auto simp: Let_def bindA_def isPartial_def split: if_splits res.splits)
    qed
  qed
qed

lemma attempts_send:
  assumes "attempts n bs rs w = out"
  shows "\<exists>M. sent (snd out) = sent w + M \<and> M \<subseteq># repeat_mset n (mset (map reqOf bs))
    \<and> (\<forall>rs'. fst out = Ok (rs', None) \<longrightarrow> n > 0 \<longrightarrow> mset (map reqOf bs) \<subseteq># M)"
  using assms
proof (induction n arbitrary: bs rs w)
  case 0
  then show ?case by auto
next
  case (Suc n)
  let ?R = "mset (map reqOf bs)"
  obtain r w1 where o: "once bs w = (r, w1)" by force
  from once_round[of w bs] o obtain M where M: "sent w1 = sent w + M" "M \<subseteq># ?R"
    and full: "\<And>results err. r = Ok (results, err) \<Longrightarrow> (case err of None \<Rightarrow> True | Some e \<Rightarrow> isPartial e) \<Longrightarrow> M = ?R"
    by (fastforce simp: roundSpec_def split: option.splits)
  have step: "M \<subseteq># repeat_mset (Suc n) ?R" using M(2) by (simp add: subset_mset.add_increasing2)
  show ?case
  proof (cases r)
    case (Ok x)
    then obtain results err where x: "r = Ok (results, err)" by (cases x) auto
    from attempts_Suc[OF o[unfolded x] Suc.prems] consider
        (panic) "fst out = Panic" "sent (snd out) = sent w1"
      | (stop) rs' err' where "fst out = Ok (rs', err')" "sent (snd out) = sent w1"
          "err' = None \<longrightarrow> (case err of None \<Rightarrow> True | Some e \<Rightarrow> isPartial e)"
      | (again) bs' rs' w2 where "out = attempts n bs' rs' w2" "n > 0" "sent w2 = sent w1"
          "mset (map reqOf bs') \<subseteq># ?R" "(case err of None \<Rightarrow> True | Some e \<Rightarrow> isPartial e) \<or> bs' = bs"
      by blast
    then show ?thesis
    proof cases
      case panic
      with M step show ?thesis by (intro exI[of _ M]) auto
    next
      case stop
      with M step full[OF x] show ?thesis by (intro exI[of _ M]) auto
    next
      case again
      from Suc.IH[OF again(1)[symmetric]] obtain N where N: "sent (snd out) = sent w2 + N"
        "N \<subseteq># repeat_mset n (mset (map reqOf bs'))"
        "\<forall>rs'. fst out = Ok (rs', None) \<longrightarrow> mset (map reqOf bs') \<subseteq># N" using again(2) by auto
      have "repeat_mset n (mset (map reqOf bs')) \<subseteq># repeat_mset n ?R"
        using again(4) by (simp add: subseteq_mset_def mult_le_mono2)
      with N(2) have "N \<subseteq># repeat_mset n ?R" by (rule subset_mset.order_trans)
      with M(2) have "M + N \<subseteq># repeat_mset (Suc n) ?R" by (simp add: subset_mset.add_mono)
      moreover have "?R \<subseteq># M + N" if "fst out = Ok (rs', None)" for rs'
        using again(5)
      proof
        assume "case err of None \<Rightarrow> True | Some e \<Rightarrow> isPartial e"
        then show ?thesis using full[OF x] by simp
      next
        assume "bs' = bs"
        then have "?R \<subseteq># N" using N(3) that by blast
        then show ?thesis by (simp add: subset_mset.add_increasing)
      qed
      ultimately show ?thesis using M(1) N(1) again(3) by (intro exI[of _ "M + N"]) (auto simp: add.assoc)
    qed
  next
    case (Fail e)
    with o Suc.prems have "out = (Fail e, w1)" by auto
    with M step show ?thesis by (intro exI[of _ M]) auto
  next
    case Panic
    with o Suc.prems have "out = (Panic, w1)" by auto
    with M step show ?thesis by (intro exI[of _ M]) auto
  qed
qed

end

text \<open>The branches of an attempt that ends with failed buckets.\<close>

lemma attempts_retry:
  assumes "once bs w = (Ok (r1, Some (PartialWriteError op f1)), w1)"
    and "splitBucketWriteFailures op f1 = (ret, None)" and "ret \<noteq> []" and "refresh w1 = (Ok (), w2)"
    and "filterBucketRecordBatchesByFailure bs ret = bs'" and "bs' \<noteq> []"
  shows "writeAttempts 2 once refresh merge fin bs rs w = writeAttempts 1 once refresh merge fin bs' (merge rs r1) w2"
  using assms by (simp add: numeral_2_eq_2 bindA_def catchA_def Let_def)

lemma attempts_last:
  assumes "once bs w = (Ok (r1, Some (PartialWriteError op f1)), w1)"
    and "splitBucketWriteFailures op f1 = (ret, t)"
  shows "writeAttempts 1 once refresh merge fin bs rs w = (Ok (sortByBucket (merge rs r1), t), w1)"
  using assms by (simp add: bindA_def Let_def)

lemma attempts_mixed:
  assumes "once bs w = (Ok (r1, Some (PartialWriteError op f1)), w1)"
    and "splitBucketWriteFailures op f1 = (ret, Some t)" and "length ret \<noteq> length f1" and "refresh w1 = (Ok (), w2)"
  shows "fst (writeAttempts 2 once refresh merge fin bs rs w) = Ok (sortByBucket (merge rs r1), Some t)"
  using assms by (simp add: numeral_2_eq_2 bindA_def catchA_def Let_def)

text \<open>
  Both write calls provide the interface. (The hypotheses on the network are part of the
  interpretation: \<open>rpcOf\<close> turns any network into one with plain errors, and is the identity
  on networks that have them.)
\<close>

definition rpcOf :: "'v network \<Rightarrow> 'v network" where
  "rpcOf rpc n a q = (case rpc n a q of
      (Fail (PartialWriteError op fs), v) \<Rightarrow> (Fail (External []), v) | x \<Rightarrow> x)"

definition ordOf :: "((string \<times> 'b list) list \<Rightarrow> (string \<times> 'b list) list) \<Rightarrow> (string \<times> 'b list) list \<Rightarrow> (string \<times> 'b list) list" where
  "ordOf ord gs = (if mset (ord gs) = mset gs then ord gs else gs)"

lemma plainErrors_rpcOf [simp]: "plainErrors (rpcOf rpc)"
  by (auto simp: plainErrors_def rpcOf_def split: prod.splits res.splits goerr.splits)

lemma rpcOf_plain: "plainErrors rpc \<Longrightarrow> rpcOf rpc = rpc"
  by (auto simp: plainErrors_def rpcOf_def fun_eq_iff split: prod.splits res.splits goerr.splits) (metis fst_conv)+

lemma permutes_ordOf [simp]: "permutes (ordOf ord)"
  by (simp add: permutes_def ordOf_def)

lemma ordOf_permutes: "permutes ord \<Longrightarrow> ordOf ord = ord"
  by (simp add: permutes_def ordOf_def fun_eq_iff)

interpretation appends: write_api "appendLogOnce (logged (rpcOf rpc)) (ordOf ord) path acks ms"
    "RefreshMetadata (logged (rpcOf rpc)) [path] []" mergeProduceResults sortByBucket
  for rpc ord path acks ms
  by unfold_locales (simp_all only: appendLogOnce_round quiet_Refresh plainErrors_rpcOf permutes_ordOf)

interpretation upserts: write_api "upsertKVOnce (logged (rpcOf rpc)) (ordOf ord) path acks ms cols agg"
    "RefreshMetadata (logged (rpcOf rpc)) [path] []" mergePutResults "\<lambda>out. out"
  for rpc ord path acks ms cols agg
  by unfold_locales (simp_all only: upsertKVOnce_round quiet_Refresh plainErrors_rpcOf permutes_ordOf)

end
