(* ===== verification/Client_Admin.thy ===== *)
theory Client_Admin
  imports Client_Laws
begin

text \<open>
  The admin client (\<open>client/admin.go\<close>): every operation as the request it builds, the
  address it goes to and the reading of the response. Reads go to the coordinator when it
  is known and to the first endpoint otherwise (\<open>invokeAny\<close>); changes refresh the metadata
  first when the coordinator is unknown (\<open>invokeCoordinator\<close>).
\<close>

definition expect :: "string \<Rightarrow> (Response \<Rightarrow> 'a option) \<Rightarrow> Response \<Rightarrow> ('w, 'a) act" where
  "expect msg sel resp = liftA (case sel resp of Some a \<Rightarrow> Ok a | None \<Rightarrow> Fail (Errf msg))"

definition ignoreResponse :: "('w, Response) act \<Rightarrow> ('w, unit) act" where
  "ignoreResponse m = bindA m (\<lambda>_. liftA (Ok ()))"

subsection \<open>Builders and readers\<close>

record TableConfigChange =
  ConfigKey :: string
  ConfigValue :: "string option"
  ConfigOp :: int32

record AddColumnChange =
  AddColumnName :: string
  AddDataTypeJSON :: bytes
  AddColumnComment :: "string option"
  AddColumnPosition :: int32

record ModifyColumnChange =
  ModColumnName :: string
  ModDataTypeJSON :: "bytes option"
  ModComment :: "string option"
  ModPosition :: "int32 option"

text \<open>\<open>OtherChange\<close> is any other implementation of the \<open>AlterTableChange\<close> interface.\<close>

datatype AlterTableChange =
    ConfigChange TableConfigChange
  | AddColumn AddColumnChange
  | DropColumn string
  | RenameColumn string string
  | ModifyColumn ModifyColumnChange
  | OtherChange

record ACLBinding =
  ResourceName :: string
  ResourceType :: int32
  PrincipalName :: string
  PrincipalType :: string
  AclHost :: string
  OperationType :: int32
  PermissionType :: int32

record ACLFilter =
  FResourceName :: "string option"
  FResourceType :: int32
  FPrincipalName :: "string option"
  FPrincipalType :: "string option"
  FHost :: "string option"
  FOperationType :: int32
  FPermissionType :: int32

text \<open>A nil partition spec is \<open>None\<close>; key and value pairs keep their order.\<close>

definition buildPartitionSpec :: "(string \<times> string) list option \<Rightarrow> (string \<times> string) list option" where
  "buildPartitionSpec spec = spec"

definition buildAlterConfig :: "TableConfigChange \<Rightarrow> PbAlterConfig" where
  "buildAlterConfig c = PbAlterConfig (ConfigKey c) (ConfigValue c) (ConfigOp c)"

definition buildAddColumn :: "AddColumnChange \<Rightarrow> PbAddColumn" where
  "buildAddColumn c = PbAddColumn (AddColumnName c) (AddDataTypeJSON c) (AddColumnComment c) (AddColumnPosition c)"

definition buildModifyColumn :: "ModifyColumnChange \<Rightarrow> PbModifyColumn" where
  "buildModifyColumn c = PbModifyColumn (ModColumnName c) (ModDataTypeJSON c) (ModComment c) (ModPosition c)"

definition buildACLBinding :: "ACLBinding \<Rightarrow> PbAclInfo" where
  "buildACLBinding b = PbAclInfo (ResourceName b) (ResourceType b) (PrincipalName b) (PrincipalType b)
     (AclHost b) (OperationType b) (PermissionType b)"

definition buildACLFilter :: "ACLFilter \<Rightarrow> PbAclFilter" where
  "buildACLFilter f = PbAclFilter (FResourceName f) (FResourceType f) (FPrincipalName f) (FPrincipalType f)
     (FHost f) (FOperationType f) (FPermissionType f)"

definition parseACLBinding :: "PbAclInfo \<Rightarrow> ACLBinding" where
  "parseACLBinding i = \<lparr>ResourceName = aclResourceName i, ResourceType = aclResourceType i,
     PrincipalName = aclPrincipalName i, PrincipalType = aclPrincipalType i, AclHost = aclHost i,
     OperationType = aclOperation i, PermissionType = aclPermission i\<rparr>"

record RebalanceBucketPlan =
  PlanPartitionID :: "int64 option"
  PlanBucketID :: int32
  OriginalLeader :: "int32 option"
  NewLeader :: "int32 option"
  OriginalReplicas :: "int32 list"
  NewReplicas :: "int32 list"

definition parseRebalancePlan :: "PbRebalancePlan \<Rightarrow> RebalanceBucketPlan" where
  "parseRebalancePlan i = \<lparr>PlanPartitionID = rpPartition i, PlanBucketID = rpBucket i,
     OriginalLeader = rpOriginalLeader i, NewLeader = rpNewLeader i,
     OriginalReplicas = rpOriginalReplicas i, NewReplicas = rpNewReplicas i\<rparr>"

subsection \<open>Databases\<close>

record DatabaseInfo =
  DatabaseJSON :: bytes
  DatabaseCreated :: int64
  DatabaseModified :: int64

record DatabaseSummary =
  SummaryName :: string
  SummaryCreated :: int64
  TableCount :: int32

definition ListDatabases :: "'w network \<Rightarrow> bool \<Rightarrow> ('w, string list \<times> DatabaseSummary list) act" where
  "ListDatabases rpc includeSummary =
     bindA (invokeAny rpc (ListDatabasesRequest (Some includeSummary)))
       (expect ''fluss: unexpected list databases response type %T''
         (\<lambda>r. case r of
            ListDatabasesResponse names sums \<Rightarrow> Some (names, map (\<lambda>(n, c, k).
              \<lparr>SummaryName = n, SummaryCreated = c, TableCount = k\<rparr>) sums)
          | _ \<Rightarrow> None))"

definition DatabaseExists :: "'w network \<Rightarrow> string \<Rightarrow> ('w, bool) act" where
  "DatabaseExists rpc name =
     bindA (invokeAny rpc (DatabaseExistsRequest name))
       (expect ''fluss: unexpected database exists response type %T''
         (\<lambda>r. case r of DatabaseExistsResponse b \<Rightarrow> Some b | _ \<Rightarrow> None))"

definition CreateDatabase :: "'w network \<Rightarrow> string \<Rightarrow> bytes \<Rightarrow> bool \<Rightarrow> ('w, unit) act" where
  "CreateDatabase rpc name databaseJSON ignoreIfExists =
     ignoreResponse (invokeCoordinator rpc
       (CreateDatabaseRequest name ignoreIfExists (if databaseJSON = [] then None else Some databaseJSON)))"

definition DropDatabase :: "'w network \<Rightarrow> string \<Rightarrow> bool \<Rightarrow> bool \<Rightarrow> ('w, unit) act" where
  "DropDatabase rpc name ignoreIfNotExists cascade =
     ignoreResponse (invokeCoordinator rpc (DropDatabaseRequest name ignoreIfNotExists cascade))"

definition GetDatabaseInfo :: "'w network \<Rightarrow> string \<Rightarrow> ('w, DatabaseInfo) act" where
  "GetDatabaseInfo rpc name =
     bindA (invokeAny rpc (GetDatabaseInfoRequest name))
       (expect ''fluss: unexpected get database info response type %T''
         (\<lambda>r. case r of
            GetDatabaseInfoResponse j c m \<Rightarrow>
              Some \<lparr>DatabaseJSON = j, DatabaseCreated = c, DatabaseModified = m\<rparr>
          | _ \<Rightarrow> None))"

subsection \<open>Tables and partitions\<close>

definition ListTables :: "'w network \<Rightarrow> string \<Rightarrow> ('w, string list) act" where
  "ListTables rpc database =
     bindA (invokeAny rpc (ListTablesRequest database))
       (expect ''fluss: unexpected list tables response type %T''
         (\<lambda>r. case r of ListTablesResponse ts \<Rightarrow> Some ts | _ \<Rightarrow> None))"

definition TableExists :: "'w network \<Rightarrow> TablePath \<Rightarrow> ('w, bool) act" where
  "TableExists rpc path =
     bindA (invokeAny rpc (TableExistsRequest (buildTablePath path)))
       (expect ''fluss: unexpected table exists response type %T''
         (\<lambda>r. case r of TableExistsResponse b \<Rightarrow> Some b | _ \<Rightarrow> None))"

definition CreateTable :: "'w network \<Rightarrow> TablePath \<Rightarrow> bytes \<Rightarrow> bool \<Rightarrow> ('w, unit) act" where
  "CreateTable rpc path tableJSON ignoreIfExists =
     ignoreResponse (invokeCoordinator rpc (CreateTableRequest (buildTablePath path) tableJSON ignoreIfExists))"

text \<open>The loop over the changes appends each one to the list of its kind.\<close>

fun addChange :: "AlterTableRequest \<Rightarrow> AlterTableChange \<Rightarrow> AlterTableRequest res" where
  "addChange (AlterTableRequest p i cs as ds rs ms) (ConfigChange v) =
     Ok (AlterTableRequest p i (cs @ [buildAlterConfig v]) as ds rs ms)"
| "addChange (AlterTableRequest p i cs as ds rs ms) (AddColumn v) =
     Ok (AlterTableRequest p i cs (as @ [buildAddColumn v]) ds rs ms)"
| "addChange (AlterTableRequest p i cs as ds rs ms) (DropColumn n) =
     Ok (AlterTableRequest p i cs as (ds @ [n]) rs ms)"
| "addChange (AlterTableRequest p i cs as ds rs ms) (RenameColumn old new) =
     Ok (AlterTableRequest p i cs as ds (rs @ [(old, new)]) ms)"
| "addChange (AlterTableRequest p i cs as ds rs ms) (ModifyColumn v) =
     Ok (AlterTableRequest p i cs as ds rs (ms @ [buildModifyColumn v]))"
| "addChange req OtherChange = Fail (Errf ''fluss: unsupported alter table change type %T'')"

fun addChanges :: "AlterTableRequest \<Rightarrow> AlterTableChange list \<Rightarrow> AlterTableRequest res" where
  "addChanges req [] = Ok req"
| "addChanges req (c # cs) = andThen (addChange req c) (\<lambda>req'. addChanges req' cs)"

text \<open>The request is built inside \<open>Invoke\<close>: after the coordinator is known, before anything is sent.\<close>

definition AlterTable :: "'w network \<Rightarrow> TablePath \<Rightarrow> AlterTableChange list \<Rightarrow> bool \<Rightarrow> ('w, unit) act" where
  "AlterTable rpc path changes ignoreIfNotExists w =
     bindA (if Coordinator (cache w) = None then RefreshMetadata rpc [] [] else liftA (Ok ())) (\<lambda>_.
       bindA anyAddress (\<lambda>addr.
         bindA (liftA (addChanges (AlterTableRequest (buildTablePath path) ignoreIfNotExists [] [] [] [] []) changes))
           (\<lambda>req. ignoreResponse (invokeA rpc addr (AlterTableReq req))))) w"

definition DropTable :: "'w network \<Rightarrow> TablePath \<Rightarrow> bool \<Rightarrow> ('w, unit) act" where
  "DropTable rpc path ignoreIfNotExists =
     ignoreResponse (invokeCoordinator rpc (DropTableRequest (buildTablePath path) ignoreIfNotExists))"

record SchemaInfo =
  InfoSchemaID :: int32
  SchemaJSON :: bytes

definition GetTableSchema :: "'w network \<Rightarrow> TablePath \<Rightarrow> int32 option \<Rightarrow> ('w, SchemaInfo) act" where
  "GetTableSchema rpc path schemaID =
     bindA (invokeAny rpc (GetTableSchemaRequest (buildTablePath path) schemaID))
       (expect ''fluss: unexpected get table schema response type %T''
         (\<lambda>r. case r of GetTableSchemaResponse i j \<Rightarrow> Some \<lparr>InfoSchemaID = i, SchemaJSON = j\<rparr> | _ \<Rightarrow> None))"

record PartitionInfo =
  PartitionID :: int64
  PartitionSpec :: "(string \<times> string) list"
  RemoteDataDir :: string

definition ListPartitionInfosWithSpec ::
  "'w network \<Rightarrow> TablePath \<Rightarrow> (string \<times> string) list option \<Rightarrow> ('w, PartitionInfo list) act" where
  "ListPartitionInfosWithSpec rpc path spec =
     bindA (invokeAny rpc (ListPartitionInfosRequest (buildTablePath path) (buildPartitionSpec spec)))
       (expect ''fluss: unexpected list partition infos response type %T''
         (\<lambda>r. case r of
            ListPartitionInfosResponse items \<Rightarrow> Some (map (\<lambda>(i, kvs, dir).
              \<lparr>PartitionID = i, PartitionSpec = getOr [] kvs, RemoteDataDir = getOr [] dir\<rparr>) items)
          | _ \<Rightarrow> None))"

definition ListPartitionInfos :: "'w network \<Rightarrow> TablePath \<Rightarrow> ('w, PartitionInfo list) act" where
  "ListPartitionInfos rpc path = ListPartitionInfosWithSpec rpc path None"

definition CreatePartition :: "'w network \<Rightarrow> TablePath \<Rightarrow> (string \<times> string) list option \<Rightarrow> bool \<Rightarrow> ('w, unit) act" where
  "CreatePartition rpc path spec ignoreIfNotExists =
     ignoreResponse (invokeCoordinator rpc
       (CreatePartitionRequest (buildTablePath path) (buildPartitionSpec spec) ignoreIfNotExists))"

definition DropPartition :: "'w network \<Rightarrow> TablePath \<Rightarrow> (string \<times> string) list option \<Rightarrow> bool \<Rightarrow> ('w, unit) act" where
  "DropPartition rpc path spec ignoreIfNotExists =
     ignoreResponse (invokeCoordinator rpc
       (DropPartitionRequest (buildTablePath path) (buildPartitionSpec spec) ignoreIfNotExists))"

subsection \<open>Snapshots\<close>

record KvSnapshots =
  SnapTableID :: int64
  SnapPartitionID :: "int64 option"
  SnapshotIDs :: "int32 \<rightharpoonup> int64 option"
  LogOffsets :: "int32 \<rightharpoonup> int64 option"

definition GetLatestKvSnapshots :: "'w network \<Rightarrow> TablePath \<Rightarrow> string option \<Rightarrow> ('w, KvSnapshots) act" where
  "GetLatestKvSnapshots rpc path partitionName =
     bindA (invokeAny rpc (GetLatestKvSnapshotsRequest (buildTablePath path) partitionName))
       (expect ''fluss: unexpected get latest kv snapshots response type %T''
         (\<lambda>r. case r of
            GetLatestKvSnapshotsResponse tableID partitionID snaps \<Rightarrow> Some
              \<lparr>SnapTableID = tableID, SnapPartitionID = partitionID,
               SnapshotIDs = fold (\<lambda>(b, s, l) m. m(b \<mapsto> s)) snaps Map.empty,
               LogOffsets = fold (\<lambda>(b, s, l) m. m(b \<mapsto> l)) snaps Map.empty\<rparr>
          | _ \<Rightarrow> None))"

record SnapshotFile =
  RemotePath :: string
  LocalFileName :: string

record KvSnapshotMetadata =
  SnapLogOffset :: int64
  SnapshotFiles :: "SnapshotFile list"

definition GetKvSnapshotMetadata ::
  "'w network \<Rightarrow> int64 \<Rightarrow> int64 option \<Rightarrow> int32 \<Rightarrow> int64 \<Rightarrow> ('w, KvSnapshotMetadata) act" where
  "GetKvSnapshotMetadata rpc tableID partitionID bucketID snapshotID =
     bindA (invokeAny rpc (GetKvSnapshotMetadataRequest tableID partitionID bucketID snapshotID))
       (expect ''fluss: unexpected get kv snapshot metadata response type %T''
         (\<lambda>r. case r of
            GetKvSnapshotMetadataResponse off fs \<Rightarrow> Some
              \<lparr>SnapLogOffset = off, SnapshotFiles = map (\<lambda>(r, l). \<lparr>RemotePath = r, LocalFileName = l\<rparr>) fs\<rparr>
          | _ \<Rightarrow> None))"

record LakeSnapshotBucket =
  LakePartitionID :: "int64 option"
  LakeBucketID :: int32
  LakeLogOffset :: int64

record LakeSnapshot =
  LakeTableID :: int64
  LakeSnapshotID :: int64
  LakeBuckets :: "LakeSnapshotBucket list"

definition getLakeSnapshot ::
  "'w network \<Rightarrow> TablePath \<Rightarrow> int64 option \<Rightarrow> bool option \<Rightarrow> ('w, LakeSnapshot) act" where
  "getLakeSnapshot rpc path snapshotID readable =
     bindA (invokeAny rpc (GetLakeSnapshotRequest (buildTablePath path) snapshotID readable))
       (expect ''fluss: unexpected get lake snapshot response type %T''
         (\<lambda>r. case r of
            GetLakeSnapshotResponse t s bs \<Rightarrow> Some \<lparr>LakeTableID = t, LakeSnapshotID = s,
              LakeBuckets = map (\<lambda>(p, b, l). \<lparr>LakePartitionID = p, LakeBucketID = b, LakeLogOffset = l\<rparr>) bs\<rparr>
          | _ \<Rightarrow> None))"

definition GetLatestLakeSnapshot where
  "GetLatestLakeSnapshot rpc path = getLakeSnapshot rpc path None None"

definition GetLakeSnapshot where
  "GetLakeSnapshot rpc path snapshotID = getLakeSnapshot rpc path (Some snapshotID) None"

definition GetReadableLakeSnapshot where
  "GetReadableLakeSnapshot rpc path = getLakeSnapshot rpc path None (Some True)"

subsection \<open>Access control\<close>

definition ListACLs :: "'w network \<Rightarrow> ACLFilter \<Rightarrow> ('w, ACLBinding list) act" where
  "ListACLs rpc filt =
     bindA (invokeCoordinator rpc (ListAclsRequest (buildACLFilter filt)))
       (expect ''fluss: unexpected list acls response type %T''
         (\<lambda>r. case r of ListAclsResponse items \<Rightarrow> Some (map parseACLBinding items) | _ \<Rightarrow> None))"

text \<open>\<open>CreateACLResult\<close> and \<open>DropACLMatchingResult\<close> have the same fields.\<close>

record CreateACLResult =
  ResultACL :: ACLBinding
  ACLErrorCode :: "int32 option"
  ACLErrorMessage :: "string option"

type_synonym DropACLMatchingResult = CreateACLResult

record DropACLFilterResult =
  MatchingACLs :: "DropACLMatchingResult list"
  FilterErrorCode :: "int32 option"
  FilterErrorMessage :: "string option"

definition aclResult :: "PbAclInfo \<times> int32 option \<times> string option \<Rightarrow> CreateACLResult" where
  "aclResult item = (case item of (a, c, m) \<Rightarrow>
     \<lparr>ResultACL = parseACLBinding a, ACLErrorCode = c, ACLErrorMessage = m\<rparr>)"

definition CreateACLs :: "'w network \<Rightarrow> ACLBinding list \<Rightarrow> ('w, CreateACLResult list) act" where
  "CreateACLs rpc bindings =
     bindA (invokeCoordinator rpc (CreateAclsRequest (map buildACLBinding bindings)))
       (expect ''fluss: unexpected create acls response type %T''
         (\<lambda>r. case r of
            CreateAclsResponse items \<Rightarrow> Some (map aclResult items)
          | _ \<Rightarrow> None))"

definition DropACLs :: "'w network \<Rightarrow> ACLFilter list \<Rightarrow> ('w, DropACLFilterResult list) act" where
  "DropACLs rpc filters =
     bindA (invokeCoordinator rpc (DropAclsRequest (map buildACLFilter filters)))
       (expect ''fluss: unexpected drop acls response type %T''
         (\<lambda>r. case r of
            DropAclsResponse items \<Rightarrow> Some (map (\<lambda>(ms, c, m).
              \<lparr>MatchingACLs = map aclResult ms, FilterErrorCode = c, FilterErrorMessage = m\<rparr>) items)
          | _ \<Rightarrow> None))"

subsection \<open>Cluster configuration and rebalancing\<close>

record ClusterConfigEntry =
  EntryKey :: string
  EntryValue :: "string option"
  EntrySource :: string

definition DescribeClusterConfigs :: "'w network \<Rightarrow> ('w, ClusterConfigEntry list) act" where
  "DescribeClusterConfigs rpc =
     bindA (invokeCoordinator rpc DescribeClusterConfigsRequest)
       (expect ''fluss: unexpected describe cluster configs response type %T''
         (\<lambda>r. case r of
            DescribeClusterConfigsResponse items \<Rightarrow> Some (map (\<lambda>(k, v, src).
              \<lparr>EntryKey = k, EntryValue = v, EntrySource = src\<rparr>) items)
          | _ \<Rightarrow> None))"

definition AlterClusterConfigs :: "'w network \<Rightarrow> TableConfigChange list \<Rightarrow> ('w, unit) act" where
  "AlterClusterConfigs rpc changes =
     ignoreResponse (invokeCoordinator rpc (AlterClusterConfigsRequest (map buildAlterConfig changes)))"

definition AddServerTag :: "'w network \<Rightarrow> int32 list \<Rightarrow> int32 \<Rightarrow> ('w, unit) act" where
  "AddServerTag rpc serverIDs tag = ignoreResponse (invokeCoordinator rpc (AddServerTagRequest serverIDs tag))"

definition RemoveServerTag :: "'w network \<Rightarrow> int32 list \<Rightarrow> int32 \<Rightarrow> ('w, unit) act" where
  "RemoveServerTag rpc serverIDs tag = ignoreResponse (invokeCoordinator rpc (RemoveServerTagRequest serverIDs tag))"

definition Rebalance :: "'w network \<Rightarrow> int32 list \<Rightarrow> ('w, string) act" where
  "Rebalance rpc goals =
     bindA (invokeCoordinator rpc (RebalanceRequest goals))
       (expect ''fluss: unexpected rebalance response type %T''
         (\<lambda>r. case r of RebalanceResponse i \<Rightarrow> Some i | _ \<Rightarrow> None))"

record RebalanceBucketProgress =
  ProgressPlan :: RebalanceBucketPlan
  ProgressStatus :: int32

record RebalanceTableProgress =
  ProgressTableID :: int64
  ProgressBuckets :: "RebalanceBucketProgress list"

record RebalanceProgress =
  RebalanceID :: string
  RebalanceStatus :: "int32 option"
  RebalanceTables :: "RebalanceTableProgress list"

definition ListRebalanceProgress :: "'w network \<Rightarrow> string option \<Rightarrow> ('w, RebalanceProgress option) act" where
  "ListRebalanceProgress rpc rebalanceID =
     bindA (invokeCoordinator rpc (ListRebalanceProgressRequest rebalanceID))
       (expect ''fluss: unexpected list rebalance progress response type %T''
         (\<lambda>r. case r of
            ListRebalanceProgressResponse None status ts \<Rightarrow> Some None
          | ListRebalanceProgressResponse (Some i) status ts \<Rightarrow> Some (Some
              \<lparr>RebalanceID = i, RebalanceStatus = status,
               RebalanceTables = map (\<lambda>(t, bs). \<lparr>ProgressTableID = t,
                 ProgressBuckets = map (\<lambda>(p, s). \<lparr>ProgressPlan = parseRebalancePlan p, ProgressStatus = s\<rparr>) bs\<rparr>) ts\<rparr>)
          | _ \<Rightarrow> None))"

definition CancelRebalance :: "'w network \<Rightarrow> string option \<Rightarrow> ('w, unit) act" where
  "CancelRebalance rpc rebalanceID = ignoreResponse (invokeCoordinator rpc (CancelRebalanceRequest rebalanceID))"

record InitWriterResult =
  WriterID :: int64

definition InitWriter :: "'w network \<Rightarrow> TablePath list \<Rightarrow> ('w, InitWriterResult) act" where
  "InitWriter rpc tablePaths =
     bindA (invokeCoordinator rpc (InitWriterRequest (map buildTablePath tablePaths)))
       (expect ''fluss: unexpected init writer response type %T''
         (\<lambda>r. case r of InitWriterResponse i \<Rightarrow> Some \<lparr>WriterID = i\<rparr> | _ \<Rightarrow> None))"

subsection \<open>Laws\<close>

lemma keeps_expect [keeps_intros]: "keeps I (expect msg sel resp)"
  by (simp add: expect_def keeps_liftA)

lemma keeps_ignoreResponse [keeps_intros]: "keeps I m \<Longrightarrow> keeps I (ignoreResponse m)"
  unfolding ignoreResponse_def by (intro keeps_intros)

text \<open>An access rule survives the trip through its message.\<close>

lemma parse_build_ACL [simp]: "parseACLBinding (buildACLBinding b) = b"
  by (cases b) (simp add: parseACLBinding_def buildACLBinding_def)

text \<open>The request of \<open>AlterTable\<close> holds the changes of each kind in their order.\<close>

definition configsOf where "configsOf cs = List.map_filter (\<lambda>c. case c of ConfigChange v \<Rightarrow> Some (buildAlterConfig v) | _ \<Rightarrow> None) cs"
definition addsOf where "addsOf cs = List.map_filter (\<lambda>c. case c of AddColumn v \<Rightarrow> Some (buildAddColumn v) | _ \<Rightarrow> None) cs"
definition dropsOf where "dropsOf cs = List.map_filter (\<lambda>c. case c of DropColumn n \<Rightarrow> Some n | _ \<Rightarrow> None) cs"
definition renamesOf where "renamesOf cs = List.map_filter (\<lambda>c. case c of RenameColumn a b \<Rightarrow> Some (a, b) | _ \<Rightarrow> None) cs"
definition modifiesOf where "modifiesOf cs = List.map_filter (\<lambda>c. case c of ModifyColumn v \<Rightarrow> Some (buildModifyColumn v) | _ \<Rightarrow> None) cs"

lemmas kinds_of = configsOf_def addsOf_def dropsOf_def renamesOf_def modifiesOf_def

lemma addChanges_kinds:
  "OtherChange \<notin> set cs \<Longrightarrow> addChanges (AlterTableRequest p i c a d r m) cs =
     Ok (AlterTableRequest p i (c @ configsOf cs) (a @ addsOf cs) (d @ dropsOf cs) (r @ renamesOf cs) (m @ modifiesOf cs))"
proof (induction cs arbitrary: c a d r m)
  case Nil
  then show ?case by (simp add: kinds_of List.map_filter_simps)
next
  case (Cons x cs)
  then show ?case by (cases x) (simp_all add: kinds_of List.map_filter_simps)
qed

lemma addChanges_other: "OtherChange \<in> set cs \<Longrightarrow> \<exists>e. addChanges req cs = Fail e"
proof (induction cs arbitrary: req)
  case (Cons x cs)
  then show ?case by (cases req; cases x) auto
qed simp

end
