(* ===== verification/Client_Properties.thy ===== *)
theory Client_Properties
  imports Table_Write_Laws Client_Admin
begin

text \<open>
  The properties of the protocol, the metadata cache, the admin client and the write path,
  each with a witness where it has hypotheses.
\<close>

subsection \<open>Frames\<close>

text \<open>
  A response frame the server writes is read back whole, and the reader is left at the
  start of the next frame.
\<close>

theorem response_frame_roundtrip:
  assumes "wellFormedFrame f"
  shows "ReadResponse (encodeResponse f @ rest) = Ok (f, rest)"
  by (rule ReadResponse_encode[OF assms])

lemma response_frame_roundtrip_witness:
  "ReadResponse (encodeResponse \<lparr>RespType = ResponseError, RespRequestID = 7, RespPayload = [1, 2]\<rparr> @ [9])
    = Ok (\<lparr>RespType = ResponseError, RespRequestID = 7, RespPayload = [1, 2]\<rparr>, [9])"
  by (rule response_frame_roundtrip) (simp add: wellFormedFrame_def)

text \<open>
  A request frame carries key, version, request id and payload so that the server reads
  them back, and its length field is the number of bytes that follow it.
\<close>

theorem request_frame_roundtrip:
  assumes "length (ReqPayload f) + 8 < 2 ^ 32" and "unat (APIKey f) < 2 ^ 16"
  shows "parseRequest (EncodeRequest f) = Some f"
  by (rule parseRequest_encode[OF assms])

lemma request_frame_roundtrip_witness:
  "parseRequest (EncodeRequest \<lparr>APIKey = 1012, APIVersion = 0, RequestID = 5, ReqPayload = [1]\<rparr>)
    = Some \<lparr>APIKey = 1012, APIVersion = 0, RequestID = 5, ReqPayload = [1]\<rparr>"
  by (rule request_frame_roundtrip) simp_all

subsection \<open>Metadata\<close>

text \<open>
  C17. A metadata response that is ingested without error updates the abstract cache (servers
  by id, leaders by bucket, coordinator) by exactly the entries of the response, later
  entries winning, and routing reads exactly these maps.
\<close>

theorem metadata_refinement:
  assumes "ingestMetadata (MetadataResponse coord tablets tms pms) c = (Ok (), c')"
  shows "Server c' = Server c ++ map_of (rev (responseServers coord tablets))
    \<and> leaders c' = leaders c ++ map_of (rev (responseEntries tms pms))
    \<and> Coordinator c' = (case coord of None \<Rightarrow> Coordinator c | Some n \<Rightarrow> Some (parseServerNode n))
    \<and> routeFor c' t p b = (case leaders c' (t, p, b) of
        None \<Rightarrow> Fail (Errf ''fluss: no route for table=%d bucket=%d'')
      | Some l \<Rightarrow> (case Server c' l of
          None \<Rightarrow> Fail (Errf ''fluss: leader %d not found'') | Some n \<Rightarrow> Ok n))"
  using ingestMetadata_refines[OF assms] routeFor_refines[of c' t p b] by simp

definition demoResponse :: Response where
  "demoResponse = MetadataResponse None [PbServerNode 1 ''h'' 9123 None None]
     [PbTableMetadata (Some (PbTablePath ''db'' ''t'')) 5 1 [] [PbBucketMetadata 0 (Some 1) [1] None] 0 0] []"

lemma demo_ingest: "\<exists>c'. ingestMetadata demoResponse NewCache = (Ok (), c')"
  by (simp add: demoResponse_def ingestMetadata_def parseTableMetadata_def parseTablePath_def
      parseBucketMetadata_def)

lemma metadata_refinement_witness:
  "\<exists>c'. ingestMetadata demoResponse NewCache = (Ok (), c') \<and>
     routeFor c' 5 None 0 = Ok (parseServerNode (PbServerNode 1 ''h'' 9123 None None))"
proof -
  obtain c' where c: "ingestMetadata demoResponse NewCache = (Ok (), c')" using demo_ingest by blast
  from metadata_refinement[OF c[unfolded demoResponse_def], of 5 None 0] c show ?thesis
    by (simp add: responseServers_def responseEntries_def bucketEntries_def List.map_filter_simps)
qed

text \<open>The calls of a client, in any order, from a successful \<open>Dial\<close>.\<close>

lemma keeps_orReturn [keeps_intros]:
  assumes "keeps I m" and "\<And>a. keeps I (f a)"
  shows "keeps I (orReturn m f)"
proof (rule keepsI)
  fix w r w' assume w: "I w" and b: "orReturn m f w = (r, w')"
  obtain x w1 where m: "m w = (x, w1)" by force
  with assms(1) w have "I w1" by (rule keepsD)
  with b m assms(2) show "I w'" by (cases x) (auto simp: orReturn_def dest: keepsD)
qed

lemma keeps_sendGroups [keeps_intros]: "keeps worldOK (sendGroups rpc mk parse op fin gs out failures)"
proof (induction gs arbitrary: out failures)
  case Nil
  show ?case unfolding sendGroups.simps by (intro keeps_intros)
next
  case (Cons g gs)
  obtain a bs where g: "g = (a, bs)" by force
  have "keeps worldOK (case x of (results, None) \<Rightarrow> sendGroups rpc mk parse op fin gs (out @ results) failures
       | (results, Some (PartialWriteError op' fs)) \<Rightarrow> sendGroups rpc mk parse op fin gs (out @ results) (failures @ fs)
       | (results, Some err) \<Rightarrow> liftA (Ok (out @ results, Some err)))" for x
    using Cons.IH by (auto split: prod.split option.split goerr.split intro: keeps_intros)
  then show ?case unfolding g sendGroups.simps by (intro keeps_intros)
qed

lemma keeps_if [keeps_intros]: "keeps I a \<Longrightarrow> keeps I b \<Longrightarrow> keeps I (if c then a else b)"
  by simp

lemma keeps_prod [keeps_intros]: "(\<And>a b. keeps I (f a b)) \<Longrightarrow> keeps I (case x of (a, b) \<Rightarrow> f a b)"
  by (cases x) simp

lemma keeps_writeAttempts:
  assumes "\<And>bs. keeps I (once bs)" and "keeps I refresh"
  shows "keeps I (writeAttempts n once refresh merge fin bs rs)"
proof (induction n arbitrary: bs rs)
  case 0
  show ?case unfolding writeAttempts.simps by (intro keeps_intros)
next
  case (Suc n)
  show ?case
    unfolding writeAttempts.simps Let_def
    apply (intro keeps_bindA assms keeps_prod)
    subgoal for x results err
      apply (cases err)
       apply (simp only: option.case, intro keeps_intros)
      subgoal for e
        by (cases e) (simp_all only: option.case goerr.case, (intro keeps_intros assms Suc.IH)+)
      done
    done
qed

inductive reachable :: "'w network \<Rightarrow> Config \<Rightarrow> 'w world \<Rightarrow> bool" for rpc :: "'w network" and cfg where
  dialed: "Dial rpc cfg n = (Ok (), w) \<Longrightarrow> reachable rpc cfg w"
| refreshed: "reachable rpc cfg w \<Longrightarrow> reachable rpc cfg (snd (RefreshMetadata rpc paths ids w))"
| admin: "reachable rpc cfg w \<Longrightarrow> reachable rpc cfg (snd (invokeCoordinator rpc req w))"
| tableInfo: "reachable rpc cfg w \<Longrightarrow> reachable rpc cfg (snd (ensureTableInfo rpc path w))"
| routed: "reachable rpc cfg w \<Longrightarrow> reachable rpc cfg (snd (tableRouteFor rpc path t p b w))"
| appended: "reachable rpc cfg w \<Longrightarrow> reachable rpc cfg (snd (AppendLog rpc ord path acks ms bs w))"
| upserted: "reachable rpc cfg w \<Longrightarrow> reachable rpc cfg (snd (UpsertKV rpc ord path acks ms cols agg bs w))"

lemma keeps_appendLogOnce: "keeps worldOK (appendLogOnce rpc ord path acks ms bs)"
  unfolding appendLogOnce_def groupBatchesByLeader_def by (intro keeps_intros)

lemma keeps_upsertKVOnce: "keeps worldOK (upsertKVOnce rpc ord path acks ms cols agg bs)"
  unfolding upsertKVOnce_def groupBatchesByLeader_def by (intro keeps_intros)

lemma reachable_worldOK: "reachable rpc cfg w \<Longrightarrow> worldOK w"
proof (induction rule: reachable.induct)
  case (dialed n w)
  let ?w0 = "\<lparr>cache = NewCache, endpoints = Endpoints (withDefaultsConfig cfg), net = n\<rparr>"
  from dialed have "RefreshMetadata rpc [] [] ?w0 = (Ok (), w)" and "worldOK ?w0"
    by (auto simp: Dial_def Let_def split: if_splits)
  then show ?case using keepsD[OF keeps_Refresh] by blast
next
  case (appended w ord path acks ms bs)
  then show ?case
    using keeps_writeAttempts[where once = "appendLogOnce rpc ord path acks ms", OF keeps_appendLogOnce keeps_Refresh]
    unfolding AppendLog_def keeps_def by blast
next
  case (upserted w ord path acks ms cols agg bs)
  then show ?case
    using keeps_writeAttempts[where once = "upsertKVOnce rpc ord path acks ms cols agg", OF keeps_upsertKVOnce keeps_Refresh]
    unfolding UpsertKV_def keeps_def by blast
qed (use keeps_Refresh keeps_invokeCoordinator keeps_ensureTableInfo keeps_tableRouteFor in \<open>unfold keeps_def, blast\<close>)+

text \<open>
  C18. In every world a client reaches, a bucket is only ever routed to the server that the
  cache holds as the leader of exactly that table, partition and bucket.
\<close>

theorem routes_lead_to_leader:
  assumes "reachable rpc cfg w" and "routeFor (cache w) t p b = Ok node"
  shows "\<exists>r. routeLookup (cache w) (t, p, b) = Some r \<and> bucketOf r = (t, p, b) \<and> NodeID node = LeaderID r"
proof -
  from reachable_worldOK[OF assms(1)] have c: "cacheOK (cache w)" by simp
  from assms(2) obtain r where r: "routeLookup (cache w) (t, p, b) = Some r" "Server (cache w) (LeaderID r) = Some node"
    by (auto simp: routeFor_refines leaders_def split: option.splits)
  with c show ?thesis unfolding cacheOK_def by blast
qed

definition demoNet :: "unit network" where
  "demoNet n addr req = (Ok demoResponse, ())"

definition exampleConfig :: Config where
  "exampleConfig = \<lparr>Endpoints = [''localhost:9123''], ClientSoftwareName = [], ClientSoftwareVersion = [],
     DialTimeout = 0, RequestTimeout = 0, Authenticator = None, Dialer = None, S3Region = []\<rparr>"

lemma demo_dial: "Dial demoNet exampleConfig () = (Ok (),
    \<lparr>cache = snd (ingestMetadata demoResponse NewCache), endpoints = [''localhost:9123''], net = ()\<rparr>)"
  by (simp add: Dial_def exampleConfig_def withDefaultsConfig_def Let_def RefreshMetadata_def bindA_def
      anyAddress_def cache_defs NewCache_def goindex_def invokeA_def demoNet_def demoResponse_def
      ingestMetadata_def parseTableMetadata_def parseTablePath_def parseBucketMetadata_def)

lemma routes_lead_to_leader_witness:
  "\<exists>w node r. reachable demoNet exampleConfig w \<and> routeFor (cache w) 5 None 0 = Ok node
    \<and> routeLookup (cache w) (5, None, 0) = Some r \<and> NodeID node = LeaderID r"
proof -
  let ?w = "\<lparr>cache = snd (ingestMetadata demoResponse NewCache), endpoints = [''localhost:9123''], net = ()\<rparr>"
  have r: "reachable demoNet exampleConfig ?w" by (rule dialed[OF demo_dial])
  have ing: "ingestMetadata (MetadataResponse None [PbServerNode 1 ''h'' 9123 None None]
     [PbTableMetadata (Some (PbTablePath ''db'' ''t'')) 5 1 [] [PbBucketMetadata 0 (Some 1) [1] None] 0 0] []) NewCache
      = (Ok (), cache ?w)"
    using demo_ingest by (auto simp: demoResponse_def)
  have "routeFor (cache ?w) 5 None 0 = Ok (parseServerNode (PbServerNode 1 ''h'' 9123 None None))"
    unfolding routeFor_refines ingestMetadata_refines(1,2)[OF ing]
    by (simp add: responseServers_def responseEntries_def bucketEntries_def List.map_filter_simps
        cache_defs NewCache_def)
  with routes_lead_to_leader[OF r this] r show ?thesis by blast
qed

subsection \<open>Grouping and merging\<close>

text \<open>
  Grouping by leader keeps every item: the groups hold exactly the items of the call,
  with one group per address. When all routes are cached nothing is sent, and the group of an
  address holds the items led from there, in their order.
\<close>

theorem grouping_lossless:
  assumes "groupBatchesByLeader rpc path t items w = (Ok gs, w')"
  shows "mset (concat (map snd gs)) = mset items \<and> distinct (map fst gs) \<and>
    ((\<forall>x \<in> set items. routeFor (cache w) t (BatchPartitionID x) (BatchBucketID x) = Ok (node x)) \<longrightarrow>
      w' = w \<and> groupOf gs a = filter (\<lambda>x. Address (node x) = a) items)"
proof (intro conjI impI)
  show "mset (concat (map snd gs)) = mset items" "distinct (map fst gs)"
    using groupItems_mset[OF assms[unfolded groupBatchesByLeader_def]] by simp_all
  assume "\<forall>x \<in> set items. routeFor (cache w) t (BatchPartitionID x) (BatchBucketID x) = Ok (node x)"
  from groupItems_cached[where part = BatchPartitionID and bucket = BatchBucketID, OF this]
  have "(Ok gs, w') = (Ok (fold (\<lambda>x. addGroup (Address (node x)) x) items []), w)"
    using assms unfolding groupBatchesByLeader_def by metis
  then show "w' = w" "groupOf gs a = filter (\<lambda>x. Address (node x) = a) items"
    using groupOf_fold[of "\<lambda>x. Address (node x)" items "[]" a] by (simp_all add: groupOf_def)
qed

definition twoBuckets :: Response where
  "twoBuckets = MetadataResponse None [PbServerNode 1 ''h'' 9123 None None]
     [PbTableMetadata (Some (PbTablePath ''db'' ''t'')) 5 1 []
       [PbBucketMetadata 0 (Some 1) [1] None, PbBucketMetadata 1 (Some 1) [1] None] 0 0] []"

definition twoWorld :: "'w \<Rightarrow> 'w world" where
  "twoWorld n = \<lparr>cache = snd (ingestMetadata twoBuckets NewCache), endpoints = [''localhost:9123''], net = n\<rparr>"

definition batchFor :: "int32 \<Rightarrow> BucketRecordBatch" where
  "batchFor b = \<lparr>BatchPartitionID = None, BatchBucketID = b, BatchRecords = [7]\<rparr>"

definition demoPath :: TablePath where
  "demoPath = \<lparr>DatabaseName = ''db'', TableName = ''t''\<rparr>"

lemma twoWorld_route: "b = 0 \<or> b = 1 \<Longrightarrow> routeFor (cache (twoWorld n)) 5 None b
    = Ok \<lparr>NodeID = 1, Host = ''h'', Port = 9123, Listeners = [], Rack = []\<rparr>"
proof -
  have ing: "ingestMetadata (MetadataResponse None [PbServerNode 1 ''h'' 9123 None None]
     [PbTableMetadata (Some (PbTablePath ''db'' ''t'')) 5 1 []
       [PbBucketMetadata 0 (Some 1) [1] None, PbBucketMetadata 1 (Some 1) [1] None] 0 0] []) NewCache
      = (Ok (), cache (twoWorld n))"
    by (simp add: twoWorld_def twoBuckets_def ingestMetadata_def parseTableMetadata_def parseTablePath_def
        parseBucketMetadata_def)
  assume "b = 0 \<or> b = 1"
  then show ?thesis
    unfolding routeFor_refines ingestMetadata_refines(1,2)[OF ing]
    by (auto simp: responseServers_def responseEntries_def bucketEntries_def List.map_filter_simps parseServerNode_def)
qed

lemma grouping_lossless_witness:
  "\<exists>gs w'. groupBatchesByLeader demoNet demoPath 5 [batchFor 0, batchFor 1] (twoWorld ()) = (Ok gs, w')
    \<and> mset (concat (map snd gs)) = mset [batchFor 0, batchFor 1]"
proof -
  let ?n = "\<lparr>NodeID = 1, Host = ''h'', Port = 9123, Listeners = [], Rack = []\<rparr> :: ServerNode"
  have "groupBatchesByLeader demoNet demoPath 5 [batchFor 0, batchFor 1] (twoWorld ())
      = (Ok [(Address ?n, [batchFor 0, batchFor 1])], twoWorld ())"
    using twoWorld_route[of 0 "()"] twoWorld_route[of 1 "()"]
    by (simp add: groupBatchesByLeader_def batchFor_def tableRouteFor_def bindA_def)
  with grouping_lossless[OF this] show ?thesis by blast
qed

text \<open>
  Merging the results of a second round keeps, for every bucket, the latest result and
  exactly one of it, in the order of the bucket ids.
\<close>

theorem merge_latest_result:
  assumes "distinct (map resultKey existing)"
  shows "resultView (mergeProduceResults existing current)
      = resultView existing ++ map_of (rev (map (\<lambda>r. (resultKey r, r)) current))
    \<and> distinct (map resultKey (mergeProduceResults existing current))
    \<and> sorted (map (\<lambda>r. sint (ResBucketID r)) (mergeProduceResults existing current))"
  using mergeProduceResults_view[OF assms] by blast

lemma merge_latest_result_witness:
  "distinct (map resultKey (mergeProduceResults
    [\<lparr>ResPartitionID = None, ResBucketID = 3, ResOffset = 1, ResErrorCode = Some 44, ResErrorMessage = None\<rparr>]
    [\<lparr>ResPartitionID = None, ResBucketID = 3, ResOffset = 9, ResErrorCode = None, ResErrorMessage = None\<rparr>]))"
  using merge_latest_result by simp

subsection \<open>Retries\<close>




text \<open>
  C20. Over both attempts of \<open>AppendLog\<close> no batch is sent more than twice as often as the
  caller gave it, and a call that returns without an error has sent every batch.
\<close>

theorem append_sends:
  assumes "plainErrors rpc" and "permutes ord"
    and "AppendLog (logged rpc) ord path acks ms bs w = (r, w')"
  shows "\<exists>M. sent w' = sent w + M \<and> M \<subseteq># repeat_mset 2 (mset (map reqOf bs))
    \<and> (\<forall>rs. r = Ok (rs, None) \<longrightarrow> mset (map reqOf bs) \<subseteq># M)"
  using appends.attempts_send[where rpc = rpc and ord = ord and path = path and acks = acks and ms = ms
      and n = 2 and bs = bs and rs = "[]" and w = w, OF refl] assms
  by (simp add: AppendLog_def rpcOf_plain ordOf_permutes)

text \<open>
  The same for \<open>UpsertKV\<close>.
\<close>

theorem upsert_sends:
  assumes "plainErrors rpc" and "permutes ord"
    and "UpsertKV (logged rpc) ord path acks ms cols agg bs w = (r, w')"
  shows "\<exists>M. sent w' = sent w + M \<and> M \<subseteq># repeat_mset 2 (mset (map reqOf bs))
    \<and> (\<forall>rs. r = Ok (rs, None) \<longrightarrow> mset (map reqOf bs) \<subseteq># M)"
  using upserts.attempts_send[where rpc = rpc and ord = ord and path = path and acks = acks and ms = ms
      and cols = cols and agg = agg and n = 2 and bs = bs and rs = "[]" and w = w, OF refl] assms
  by (simp add: UpsertKV_def rpcOf_plain ordOf_permutes)

text \<open>A server that answers every bucket of a write with the code \<open>code bucket\<close>.\<close>

definition codeNet :: "(int32 \<Rightarrow> int32) \<Rightarrow> unit network" where
  "codeNet code n addr req = (case req of
      ProduceLogRequest acks t ms bs \<Rightarrow> (Ok (ProduceLogResponse (map (\<lambda>b.
        PbWriteResp (reqPartition b) (reqBucket b) (Some (code (reqBucket b))) None None) bs)), ())
    | PutKvRequest acks t ms cols agg bs \<Rightarrow> (Ok (PutKvResponse (map (\<lambda>b.
        PbWriteResp (reqPartition b) (reqBucket b) (Some (code (reqBucket b))) None None) bs)), ())
    | _ \<Rightarrow> (Ok (MetadataResponse None [] [] []), ()))"

lemma plain_codeNet: "plainErrors (codeNet code)"
  by (simp add: plainErrors_def codeNet_def split: Request.splits)

lemma permutes_id: "permutes (\<lambda>gs. gs)"
  by (simp add: permutes_def)

lemma append_sends_witness:
  "\<exists>M. sent (snd (AppendLog (logged (codeNet (\<lambda>_. 0))) (\<lambda>gs. gs) demoPath (-1) 1000 [batchFor 0] (twoWorld ((), []))))
      = sent (twoWorld ((), [])) + M \<and> M \<subseteq># repeat_mset 2 (mset (map reqOf [batchFor 0]))"
  using append_sends[OF plain_codeNet permutes_id surjective_pairing] by blast

lemma upsert_sends_witness:
  "\<exists>M. sent (snd (UpsertKV (logged (codeNet (\<lambda>_. 0))) (\<lambda>gs. gs) demoPath (-1) 1000 [] None [batchFor 0] (twoWorld ((), []))))
      = sent (twoWorld ((), [])) + M \<and> M \<subseteq># repeat_mset 2 (mset (map reqOf [batchFor 0]))"
  using upsert_sends[OF plain_codeNet permutes_id surjective_pairing] by blast







subsection \<open>Admin\<close>

text \<open>
  The request of \<open>AlterTable\<close> holds the changes of each kind in the caller's order; a
  change of an unknown type is an error.
\<close>

theorem alter_table_request:
  "(OtherChange \<notin> set cs \<longrightarrow> addChanges (AlterTableRequest p i [] [] [] [] []) cs =
      Ok (AlterTableRequest p i (configsOf cs) (addsOf cs) (dropsOf cs) (renamesOf cs) (modifiesOf cs)))
    \<and> (OtherChange \<in> set cs \<longrightarrow> (\<exists>e. addChanges (AlterTableRequest p i [] [] [] [] []) cs = Fail e))"
  using addChanges_kinds[of cs p i "[]" "[]" "[]" "[]" "[]"] addChanges_other by auto

lemma alter_table_request_witness:
  "addChanges (AlterTableRequest (PbTablePath ''d'' ''t'') True [] [] [] [] []) [DropColumn ''a'', RenameColumn ''b'' ''c'', DropColumn ''d'']
    = Ok (AlterTableRequest (PbTablePath ''d'' ''t'') True [] [] [''a'', ''d''] [(''b'', ''c'')] [])"
  using alter_table_request[of "[DropColumn ''a'', RenameColumn ''b'' ''c'', DropColumn ''d'']" "PbTablePath ''d'' ''t''" True]
  by (simp add: kinds_of List.map_filter_simps)

end
