(* ===== verification/Writer.thy ===== *)
theory Writer
  imports Table_Write_Laws
begin

text \<open>
  The buffered writers (\<open>client/writer.go\<close>). Every critical section of the code (what runs
  between taking and releasing the writer's mutex) is one function on the writer state;
  \<open>Write\<close> and \<open>Flush\<close> are sequences of them with the network call in between. The two
  writers have the same state machine; \<open>UpsertOptions\<close> extends \<open>AppendOptions\<close>, and the
  shared sections are polymorphic in the extension.

  \<open>timer\<close> says whether a linger timer is armed; a condition-variable broadcast has no state.
\<close>

record AppendOptions =
  Acks :: int32
  TimeoutMs :: int32
  MaxBufferedBatches :: int
  MaxBufferedBytes :: int
  Linger :: int
  BlockOnBufferFull :: bool
  FlushOnClose :: "bool option"

record UpsertOptions = AppendOptions +
  TargetColumns :: "int32 list option"
  AggMode :: "int32 option"

record 'o writerState =
  opts :: 'o
  pending :: "BucketRecordBatch list"
  pendingBytes :: int
  closed :: bool
  timer :: bool
  flushInFlight :: bool

type_synonym appendWriterState = "AppendOptions writerState"
type_synonym upsertWriterState = "UpsertOptions writerState"

subsection \<open>Options\<close>

definition withDefaults :: "'a AppendOptions_scheme \<Rightarrow> 'a AppendOptions_scheme" where
  "withDefaults o1 =
     (let o2 = (if Acks o1 = 0 then o1\<lparr>Acks := - 1\<rparr> else o1);
          o3 = (if sint (TimeoutMs o2) \<le> 0 then o2\<lparr>TimeoutMs := 15000\<rparr> else o2)
      in if MaxBufferedBatches o3 \<le> 0 then o3\<lparr>MaxBufferedBatches := 1\<rparr> else o3)"

definition withDefaultsUpsert :: "UpsertOptions \<Rightarrow> UpsertOptions" where
  "withDefaultsUpsert o1 =
     (let o2 = (if Acks o1 = 0 then o1\<lparr>Acks := - 1\<rparr> else o1);
          o3 = (if sint (TimeoutMs o2) \<le> 0 then o2\<lparr>TimeoutMs := 15000\<rparr> else o2);
          o4 = (if TargetColumns o3 = None then o3\<lparr>TargetColumns := Some []\<rparr> else o3)
      in if MaxBufferedBatches o4 \<le> 0 then o4\<lparr>MaxBufferedBatches := 1\<rparr> else o4)"

definition cloneBucketRecordBatches :: "BucketRecordBatch list \<Rightarrow> BucketRecordBatch list" where
  "cloneBucketRecordBatches batches = map (\<lambda>batch.
     \<lparr>BatchPartitionID = (case BatchPartitionID batch of None \<Rightarrow> None | Some p \<Rightarrow> Some p),
      BatchBucketID = BatchBucketID batch, BatchRecords = [] @ BatchRecords batch\<rparr>) batches"

definition flushOnClose :: "'a AppendOptions_scheme \<Rightarrow> bool" where
  "flushOnClose o1 = (case FlushOnClose o1 of None \<Rightarrow> True | Some b \<Rightarrow> b)"

definition shouldFlushImmediately :: "'a AppendOptions_scheme \<Rightarrow> bool" where
  "shouldFlushImmediately o1 \<longleftrightarrow> MaxBufferedBatches o1 \<le> 1 \<and> MaxBufferedBytes o1 \<le> 0 \<and> Linger o1 \<le> 0"

definition shouldFlushImmediatelyUpsert :: "UpsertOptions \<Rightarrow> bool" where
  "shouldFlushImmediatelyUpsert o1 \<longleftrightarrow> MaxBufferedBatches o1 \<le> 1 \<and> MaxBufferedBytes o1 \<le> 0 \<and> Linger o1 \<le> 0"

definition bucketRecordBatchBytes :: "BucketRecordBatch list \<Rightarrow> int" where
  "bucketRecordBatchBytes batches = foldl (\<lambda>total b. total + int (length (BatchRecords b))) 0 batches"

subsection \<open>Critical sections\<close>

definition hasCapacityLocked :: "'a AppendOptions_scheme \<Rightarrow> 'o writerState \<Rightarrow> int \<Rightarrow> int \<Rightarrow> bool" where
  "hasCapacityLocked o1 s batchCount bytesAdded =
     (if MaxBufferedBatches o1 > 0 \<and> int (length (pending s)) + batchCount > MaxBufferedBatches o1 then False
      else if MaxBufferedBytes o1 > 0 \<and> pendingBytes s + bytesAdded > MaxBufferedBytes o1 then False
      else True)"

definition stopTimerLocked :: "'o writerState \<Rightarrow> 'o writerState" where
  "stopTimerLocked s = s\<lparr>timer := False\<rparr>"

definition resetTimerLocked :: "'a AppendOptions_scheme writerState \<Rightarrow> 'a AppendOptions_scheme writerState" where
  "resetTimerLocked s =
     (let s1 = stopTimerLocked s in
      if Linger (withDefaults (opts s1)) \<le> 0 then s1 else s1\<lparr>timer := True\<rparr>)"

definition beginFlush :: "'a AppendOptions_scheme writerState \<Rightarrow>
    (BucketRecordBatch list \<times> int) res \<times> 'a AppendOptions_scheme writerState" where
  "beginFlush s =
     (if closed s then (Fail ErrClosed, s)
      else let s1 = stopTimerLocked s in
        if flushInFlight s1 then (Fail DeadlineExceeded, s1)
        else (Ok (pending s1, pendingBytes s1),
              s1\<lparr>pending := [], pendingBytes := 0, flushInFlight := True\<rparr>))"

definition restorePending :: "BucketRecordBatch list \<Rightarrow> int \<Rightarrow> 'a AppendOptions_scheme writerState \<Rightarrow>
    'a AppendOptions_scheme writerState" where
  "restorePending batches n s =
     (let s1 = s\<lparr>pending := batches @ pending s, pendingBytes := pendingBytes s + n, flushInFlight := False\<rparr> in
      if Linger (withDefaults (opts s1)) > 0 \<and> \<not> closed s1 then resetTimerLocked s1 else s1)"

definition finishFlush :: "'a AppendOptions_scheme writerState \<Rightarrow> 'a AppendOptions_scheme writerState" where
  "finishFlush s =
     (let s1 = s\<lparr>flushInFlight := False\<rparr> in
      if Linger (withDefaults (opts s1)) > 0 \<and> length (pending s1) > 0 \<and> \<not> closed s1
      then resetTimerLocked s1 else s1)"

definition Close :: "'o writerState \<Rightarrow> 'o writerState" where
  "Close s = (stopTimerLocked (s\<lparr>closed := True\<rparr>))\<lparr>pending := [], pendingBytes := 0\<rparr>"

definition BufferedLen :: "'o writerState \<Rightarrow> nat" where "BufferedLen s = length (pending s)"
definition BufferedBytes :: "'o writerState \<Rightarrow> int" where "BufferedBytes s = pendingBytes s"

text \<open>
  One iteration of the loop of \<open>Write\<close>: the call is refused with an error, sends the
  batches itself (without the buffer), has buffered them, or waits for a broadcast.
\<close>

datatype writeStep = Refused goerr | SendNow | Buffered | Waits

definition writeTry :: "BucketRecordBatch list \<Rightarrow> 'a AppendOptions_scheme writerState \<Rightarrow>
    writeStep \<times> 'a AppendOptions_scheme writerState" where
  "writeTry batches s =
     (let o1 = withDefaults (opts s); bytesAdded = bucketRecordBatchBytes batches in
      if closed s then (Refused ErrClosed, s)
      else if shouldFlushImmediately o1 then (SendNow, s)
      else if hasCapacityLocked o1 s (int (length batches)) bytesAdded then
        (let s1 = s\<lparr>pending := pending s @ batches, pendingBytes := pendingBytes s + bytesAdded\<rparr> in
         (Buffered, if Linger o1 > 0 \<and> \<not> flushInFlight s1 then resetTimerLocked s1 else s1))
      else if \<not> BlockOnBufferFull o1 then (Refused ErrBufferFull, s)
      else (Waits, s))"

text \<open>
  The loop of \<open>Write\<close>. While a call waits it does not hold the mutex, so each wake-up comes
  with the state it finds and with the error of its context; when the wake-ups run out the
  call is still waiting, the value \<open>None\<close>.
\<close>

definition waitOnAppendCond :: "goerr option \<times> 'o writerState \<Rightarrow> unit res \<times> 'o writerState" where
  "waitOnAppendCond wake = (case wake of (None, s) \<Rightarrow> (Ok (), s) | (Some e, s) \<Rightarrow> (Fail e, s))"

fun writeLoop :: "BucketRecordBatch list \<Rightarrow> (goerr option \<times> 'a AppendOptions_scheme writerState) list \<Rightarrow>
    'a AppendOptions_scheme writerState \<Rightarrow> (writeStep \<times> 'a AppendOptions_scheme writerState) option" where
  "writeLoop batches wakes s = (case writeTry batches s of
      (Waits, s1) \<Rightarrow> (case wakes of
          [] \<Rightarrow> None
        | wake # wakes1 \<Rightarrow> (case waitOnAppendCond wake of
            (Fail e, s2) \<Rightarrow> Some (Refused e, s2)
          | (_, s2) \<Rightarrow> writeLoop batches wakes1 s2))
    | stop \<Rightarrow> Some stop)"

text \<open>\<open>writeFn\<close> stands for \<open>AppendLog\<close> of the table, on the world of its client.\<close>

type_synonym ('w, 'o) called = "write_outcome res \<times> 'o writerState \<times> 'w world"

type_synonym 'w appendWriteFn = "int32 \<Rightarrow> int32 \<Rightarrow> BucketRecordBatch list \<Rightarrow> ('w, write_outcome) act"

definition AppendWriter_Write :: "'w appendWriteFn \<Rightarrow> goerr option \<Rightarrow> BucketRecordBatch list \<Rightarrow>
    (goerr option \<times> appendWriterState) list \<Rightarrow> appendWriterState \<Rightarrow> 'w world \<Rightarrow> ('w, AppendOptions) called option" where
  "AppendWriter_Write writeFn ctxErr batches wakes s w = (case ctxErr of
      Some e \<Rightarrow> Some (Ok ([], Some e), s, w)
    | None \<Rightarrow>
        if batches = [] then Some (Ok ([], None), s, w)
        else (let o1 = withDefaults (opts s); cloned = cloneBucketRecordBatches batches in
          case writeLoop cloned wakes s of
            None \<Rightarrow> None
          | Some (SendNow, s1) \<Rightarrow> (case writeFn (Acks o1) (TimeoutMs o1) cloned w of (r, w1) \<Rightarrow> Some (r, s1, w1))
          | Some (Refused e, s1) \<Rightarrow> Some (Ok ([], Some e), s1, w)
          | Some (_, s1) \<Rightarrow> Some (Ok ([], None), s1, w)))"

text \<open>\<open>Flush\<close> without other calls in between; \<open>ctxErr\<close> is the error of its context.\<close>

definition AppendWriter_Flush :: "'w appendWriteFn \<Rightarrow> goerr option \<Rightarrow> appendWriterState \<Rightarrow> 'w world \<Rightarrow>
    ('w, AppendOptions) called" where
  "AppendWriter_Flush writeFn ctxErr s w = (case ctxErr of
      Some e \<Rightarrow> (Ok ([], Some e), s, w)
    | None \<Rightarrow> (let o1 = withDefaults (opts s) in case beginFlush s of
        (Fail e, s1) \<Rightarrow> (Ok ([], Some e), s1, w)
      | (Panic, s1) \<Rightarrow> (Panic, s1, w)
      | (Ok (batches, n), s1) \<Rightarrow>
          if batches = [] then (Ok ([], None), finishFlush s1, w)
          else (case writeFn (Acks o1) (TimeoutMs o1) batches w of
            (Ok (results, None), w1) \<Rightarrow> (Ok (results, None), finishFlush s1, w1)
          | (Ok (results, Some e), w1) \<Rightarrow> (Ok (results, Some e), restorePending batches n s1, w1)
          | (Fail e, w1) \<Rightarrow> (Fail e, s1, w1)
          | (Panic, w1) \<Rightarrow> (Panic, s1, w1))))"

definition AppendWriter_CloseWithContext :: "'w appendWriteFn \<Rightarrow> goerr option \<Rightarrow> appendWriterState \<Rightarrow> 'w world \<Rightarrow>
    unit res \<times> appendWriterState \<times> 'w world" where
  "AppendWriter_CloseWithContext writeFn ctxErr s w =
     (if closed s then (Ok (), s, w)
      else if flushOnClose (withDefaults (opts s)) then
        (case AppendWriter_Flush writeFn ctxErr s w of
          (Ok (_, Some e), s1, w1) \<Rightarrow> (Fail e, s1, w1)
        | (Ok (_, None), s1, w1) \<Rightarrow> (Ok (), Close s1, w1)
        | (Fail e, s1, w1) \<Rightarrow> (Fail e, s1, w1)
        | (Panic, s1, w1) \<Rightarrow> (Panic, s1, w1))
      else (Ok (), Close s, w))"

definition NewAppendWriter :: "AppendOptions \<Rightarrow> appendWriterState" where
  "NewAppendWriter o1 = \<lparr>opts = o1, pending = [], pendingBytes = 0, closed = False, timer = False, flushInFlight = False\<rparr>"

end
