(* ===== verification/Upsert_Writer.thy ===== *)
theory Upsert_Writer
  imports Writer
begin

text \<open>
  The upsert writer (\<open>client/writer.go\<close>, second half): its own copy of every critical
  section, over \<open>UpsertOptions\<close>. \<open>upsert_sections\<close> shows that each copy is the section of
  the append writer, so that the state machine of \<open>Writer_Laws\<close> covers both writers.
\<close>

definition upsertFlushOnClose :: "UpsertOptions \<Rightarrow> bool" where
  "upsertFlushOnClose o1 = (case FlushOnClose o1 of None \<Rightarrow> True | Some b \<Rightarrow> b)"

definition upsert_hasCapacityLocked :: "UpsertOptions \<Rightarrow> upsertWriterState \<Rightarrow> int \<Rightarrow> int \<Rightarrow> bool" where
  "upsert_hasCapacityLocked o1 s batchCount bytesAdded =
     (if MaxBufferedBatches o1 > 0 \<and> int (length (pending s)) + batchCount > MaxBufferedBatches o1 then False
      else if MaxBufferedBytes o1 > 0 \<and> pendingBytes s + bytesAdded > MaxBufferedBytes o1 then False
      else True)"

definition upsert_stopTimerLocked :: "upsertWriterState \<Rightarrow> upsertWriterState" where
  "upsert_stopTimerLocked s = s\<lparr>timer := False\<rparr>"

definition upsert_resetTimerLocked :: "upsertWriterState \<Rightarrow> upsertWriterState" where
  "upsert_resetTimerLocked s =
     (let s1 = upsert_stopTimerLocked s in
      if Linger (withDefaultsUpsert (opts s1)) \<le> 0 then s1 else s1\<lparr>timer := True\<rparr>)"

definition upsert_beginFlush :: "upsertWriterState \<Rightarrow> (BucketRecordBatch list \<times> int) res \<times> upsertWriterState" where
  "upsert_beginFlush s =
     (if closed s then (Fail ErrClosed, s)
      else let s1 = upsert_stopTimerLocked s in
        if flushInFlight s1 then (Fail DeadlineExceeded, s1)
        else (Ok (pending s1, pendingBytes s1),
              s1\<lparr>pending := [], pendingBytes := 0, flushInFlight := True\<rparr>))"

definition upsert_restorePending :: "BucketRecordBatch list \<Rightarrow> int \<Rightarrow> upsertWriterState \<Rightarrow> upsertWriterState" where
  "upsert_restorePending batches n s =
     (let s1 = s\<lparr>pending := batches @ pending s, pendingBytes := pendingBytes s + n, flushInFlight := False\<rparr> in
      if Linger (withDefaultsUpsert (opts s1)) > 0 \<and> \<not> closed s1 then upsert_resetTimerLocked s1 else s1)"

definition upsert_finishFlush :: "upsertWriterState \<Rightarrow> upsertWriterState" where
  "upsert_finishFlush s =
     (let s1 = s\<lparr>flushInFlight := False\<rparr> in
      if Linger (withDefaultsUpsert (opts s1)) > 0 \<and> length (pending s1) > 0 \<and> \<not> closed s1
      then upsert_resetTimerLocked s1 else s1)"

definition UpsertWriter_Close :: "upsertWriterState \<Rightarrow> upsertWriterState" where
  "UpsertWriter_Close s = (upsert_stopTimerLocked (s\<lparr>closed := True\<rparr>))\<lparr>pending := [], pendingBytes := 0\<rparr>"

definition upsert_writeTry :: "BucketRecordBatch list \<Rightarrow> upsertWriterState \<Rightarrow> writeStep \<times> upsertWriterState" where
  "upsert_writeTry batches s =
     (let o1 = withDefaultsUpsert (opts s); bytesAdded = bucketRecordBatchBytes batches in
      if closed s then (Refused ErrClosed, s)
      else if shouldFlushImmediatelyUpsert o1 then (SendNow, s)
      else if upsert_hasCapacityLocked o1 s (int (length batches)) bytesAdded then
        (let s1 = s\<lparr>pending := pending s @ batches, pendingBytes := pendingBytes s + bytesAdded\<rparr> in
         (Buffered, if Linger o1 > 0 \<and> \<not> flushInFlight s1 then upsert_resetTimerLocked s1 else s1))
      else if \<not> BlockOnBufferFull o1 then (Refused ErrBufferFull, s)
      else (Waits, s))"

definition waitOnUpsertCond :: "goerr option \<times> upsertWriterState \<Rightarrow> unit res \<times> upsertWriterState" where
  "waitOnUpsertCond wake = (case wake of (None, s) \<Rightarrow> (Ok (), s) | (Some e, s) \<Rightarrow> (Fail e, s))"

fun upsert_writeLoop :: "BucketRecordBatch list \<Rightarrow> (goerr option \<times> upsertWriterState) list \<Rightarrow>
    upsertWriterState \<Rightarrow> (writeStep \<times> upsertWriterState) option" where
  "upsert_writeLoop batches wakes s = (case upsert_writeTry batches s of
      (Waits, s1) \<Rightarrow> (case wakes of
          [] \<Rightarrow> None
        | wake # wakes1 \<Rightarrow> (case waitOnUpsertCond wake of
            (Fail e, s2) \<Rightarrow> Some (Refused e, s2)
          | (_, s2) \<Rightarrow> upsert_writeLoop batches wakes1 s2))
    | stop \<Rightarrow> Some stop)"

type_synonym 'w upsertWriteFn =
  "int32 \<Rightarrow> int32 \<Rightarrow> int32 list \<Rightarrow> int32 option \<Rightarrow> BucketRecordBatch list \<Rightarrow> ('w, write_outcome) act"

definition UpsertWriter_Write :: "'w upsertWriteFn \<Rightarrow> goerr option \<Rightarrow> BucketRecordBatch list \<Rightarrow>
    (goerr option \<times> upsertWriterState) list \<Rightarrow> upsertWriterState \<Rightarrow> 'w world \<Rightarrow> ('w, UpsertOptions) called option" where
  "UpsertWriter_Write writeFn ctxErr batches wakes s w = (case ctxErr of
      Some e \<Rightarrow> Some (Ok ([], Some e), s, w)
    | None \<Rightarrow>
        if batches = [] then Some (Ok ([], None), s, w)
        else (let o1 = withDefaultsUpsert (opts s); cloned = cloneBucketRecordBatches batches in
          case upsert_writeLoop cloned wakes s of
            None \<Rightarrow> None
          | Some (SendNow, s1) \<Rightarrow>
              (case writeFn (Acks o1) (TimeoutMs o1) (getOr [] (TargetColumns o1)) (AggMode o1) cloned w of
                (r, w1) \<Rightarrow> Some (r, s1, w1))
          | Some (Refused e, s1) \<Rightarrow> Some (Ok ([], Some e), s1, w)
          | Some (_, s1) \<Rightarrow> Some (Ok ([], None), s1, w)))"

definition UpsertWriter_Flush :: "'w upsertWriteFn \<Rightarrow> goerr option \<Rightarrow> upsertWriterState \<Rightarrow> 'w world \<Rightarrow>
    ('w, UpsertOptions) called" where
  "UpsertWriter_Flush writeFn ctxErr s w = (case ctxErr of
      Some e \<Rightarrow> (Ok ([], Some e), s, w)
    | None \<Rightarrow> (let o1 = withDefaultsUpsert (opts s) in case upsert_beginFlush s of
        (Fail e, s1) \<Rightarrow> (Ok ([], Some e), s1, w)
      | (Panic, s1) \<Rightarrow> (Panic, s1, w)
      | (Ok (batches, n), s1) \<Rightarrow>
          if batches = [] then (Ok ([], None), upsert_finishFlush s1, w)
          else (case writeFn (Acks o1) (TimeoutMs o1) (getOr [] (TargetColumns o1)) (AggMode o1) batches w of
            (Ok (results, None), w1) \<Rightarrow> (Ok (results, None), upsert_finishFlush s1, w1)
          | (Ok (results, Some e), w1) \<Rightarrow> (Ok (results, Some e), upsert_restorePending batches n s1, w1)
          | (Fail e, w1) \<Rightarrow> (Fail e, s1, w1)
          | (Panic, w1) \<Rightarrow> (Panic, s1, w1))))"

definition UpsertWriter_CloseWithContext :: "'w upsertWriteFn \<Rightarrow> goerr option \<Rightarrow> upsertWriterState \<Rightarrow> 'w world \<Rightarrow>
    unit res \<times> upsertWriterState \<times> 'w world" where
  "UpsertWriter_CloseWithContext writeFn ctxErr s w =
     (if closed s then (Ok (), s, w)
      else if upsertFlushOnClose (withDefaultsUpsert (opts s)) then
        (case UpsertWriter_Flush writeFn ctxErr s w of
          (Ok (_, Some e), s1, w1) \<Rightarrow> (Fail e, s1, w1)
        | (Ok (_, None), s1, w1) \<Rightarrow> (Ok (), UpsertWriter_Close s1, w1)
        | (Fail e, s1, w1) \<Rightarrow> (Fail e, s1, w1)
        | (Panic, s1, w1) \<Rightarrow> (Panic, s1, w1))
      else (Ok (), UpsertWriter_Close s, w))"

definition NewUpsertWriter :: "UpsertOptions \<Rightarrow> upsertWriterState" where
  "NewUpsertWriter o1 = \<lparr>opts = o1, pending = [], pendingBytes = 0, closed = False, timer = False, flushInFlight = False\<rparr>"

definition UpsertWriter_BufferedLen :: "upsertWriterState \<Rightarrow> nat" where "UpsertWriter_BufferedLen s = length (pending s)"
definition UpsertWriter_BufferedBytes :: "upsertWriterState \<Rightarrow> int" where "UpsertWriter_BufferedBytes s = pendingBytes s"

subsection \<open>The two copies are the same state machine\<close>

lemma withDefaultsUpsert_base [simp]:
  "Linger (withDefaultsUpsert o1) = Linger (withDefaults o1)"
  "MaxBufferedBatches (withDefaultsUpsert o1) = MaxBufferedBatches (withDefaults o1)"
  "MaxBufferedBytes (withDefaultsUpsert o1) = MaxBufferedBytes (withDefaults o1)"
  "BlockOnBufferFull (withDefaultsUpsert o1) = BlockOnBufferFull (withDefaults o1)"
  by (auto simp: withDefaultsUpsert_def withDefaults_def Let_def)

lemma capacity_upsert: "hasCapacityLocked (withDefaultsUpsert o1) = hasCapacityLocked (withDefaults o1)"
  by (intro ext) (simp add: hasCapacityLocked_def)

lemma upsert_sections:
  "upsert_hasCapacityLocked = hasCapacityLocked" "upsert_stopTimerLocked = stopTimerLocked"
  "upsert_resetTimerLocked = resetTimerLocked" "upsert_beginFlush = beginFlush"
  "upsert_restorePending = restorePending" "upsert_finishFlush = finishFlush"
  "UpsertWriter_Close = Close" "upsert_writeTry = writeTry"
proof -
  show c: "upsert_hasCapacityLocked = hasCapacityLocked"
    by (intro ext) (simp add: upsert_hasCapacityLocked_def hasCapacityLocked_def)
  show t: "upsert_stopTimerLocked = stopTimerLocked"
    by (intro ext) (simp add: upsert_stopTimerLocked_def stopTimerLocked_def)
  show r: "upsert_resetTimerLocked = resetTimerLocked"
    by (intro ext) (simp add: upsert_resetTimerLocked_def resetTimerLocked_def t Let_def)
  show "upsert_beginFlush = beginFlush"
    by (intro ext) (simp add: upsert_beginFlush_def beginFlush_def t)
  show "upsert_restorePending = restorePending"
    by (intro ext) (simp add: upsert_restorePending_def restorePending_def r Let_def)
  show "upsert_finishFlush = finishFlush"
    by (intro ext) (simp add: upsert_finishFlush_def finishFlush_def r Let_def)
  show "UpsertWriter_Close = Close"
    by (intro ext) (simp add: UpsertWriter_Close_def Close_def t)
  show "upsert_writeTry = writeTry"
    by (intro ext) (simp add: upsert_writeTry_def writeTry_def c capacity_upsert r Let_def
        shouldFlushImmediately_def shouldFlushImmediatelyUpsert_def)
qed

lemma upsert_writeLoop_same: "upsert_writeLoop batches wakes s = writeLoop batches wakes s"
  by (induction wakes arbitrary: s)
    (auto simp: upsert_sections waitOnUpsertCond_def waitOnAppendCond_def split: prod.splits writeStep.splits option.splits res.splits)

end
