(* ===== verification/Writer_Laws.thy ===== *)
theory Writer_Laws
  imports Upsert_Writer
begin

text \<open>
  The writers under concurrent calls: a step relation at the grain of the critical sections,
  its invariant, and the facts about single calls the properties use.
\<close>

lemmas section_defs = stopTimerLocked_def resetTimerLocked_def beginFlush_def restorePending_def
  finishFlush_def Close_def Let_def

lemma bytes_foldl: "foldl (\<lambda>total b. total + int (length (BatchRecords b))) a xs
    = a + foldl (\<lambda>total b. total + int (length (BatchRecords b))) 0 xs"
proof (induction xs arbitrary: a)
  case (Cons x xs)
  show ?case
    unfolding foldl_Cons Cons.IH [of "a + _"] Cons.IH [of "0 + _"] by simp
qed simp

lemma bytes_append [simp]: "bucketRecordBatchBytes (xs @ ys) = bucketRecordBatchBytes xs + bucketRecordBatchBytes ys"
  unfolding bucketRecordBatchBytes_def foldl_append by (rule bytes_foldl)

lemma bytes_nil [simp]: "bucketRecordBatchBytes [] = 0"
  by (simp add: bucketRecordBatchBytes_def)

subsection \<open>Concurrent calls\<close>

text \<open>
  A system of one writer and any number of callers, at the grain of the critical sections.
  \<open>inflight\<close> is what a \<open>Flush\<close> has taken and is sending; \<open>accepted\<close>, \<open>delivered\<close> and
  \<open>discarded\<close> record the batches \<open>Write\<close> has buffered, a flush has written and \<open>Close\<close> has
  thrown away. A flush the timer starts is a flush like any other.
\<close>

record 'o system =
  st :: "'o writerState"
  inflight :: "(BucketRecordBatch list \<times> int) option"
  accepted :: "BucketRecordBatch list"
  delivered :: "BucketRecordBatch list"
  discarded :: "BucketRecordBatch list"

inductive sysStep :: "'a AppendOptions_scheme system \<Rightarrow> 'a AppendOptions_scheme system \<Rightarrow> bool" where
  buffered: "writeTry batches (st y) = (Buffered, s') \<Longrightarrow>
    sysStep y (y\<lparr>st := s', accepted := accepted y @ batches\<rparr>)"
| refused: "writeTry batches (st y) = (step, s') \<Longrightarrow> step \<noteq> Buffered \<Longrightarrow> sysStep y (y\<lparr>st := s'\<rparr>)"
| begins: "beginFlush (st y) = (Ok p, s') \<Longrightarrow> sysStep y (y\<lparr>st := s', inflight := Some p\<rparr>)"
| busy: "beginFlush (st y) = (Fail e, s') \<Longrightarrow> sysStep y (y\<lparr>st := s'\<rparr>)"
| succeeds: "inflight y = Some (batches, n) \<Longrightarrow>
    sysStep y (y\<lparr>st := finishFlush (st y), inflight := None, delivered := delivered y @ batches\<rparr>)"
| fails: "inflight y = Some (batches, n) \<Longrightarrow> batches \<noteq> [] \<Longrightarrow>
    sysStep y (y\<lparr>st := restorePending batches n (st y), inflight := None\<rparr>)"
| closes: "sysStep y (y\<lparr>st := Close (st y), discarded := discarded y @ pending (st y)\<rparr>)"



definition initSystem :: "'o \<Rightarrow> 'o system" where
  "initSystem o1 = \<lparr>st = \<lparr>opts = o1, pending = [], pendingBytes = 0, closed = False, timer = False, flushInFlight = False\<rparr>,
     inflight = None, accepted = [], delivered = [], discarded = []\<rparr>"

definition sysReach :: "'a AppendOptions_scheme \<Rightarrow> 'a AppendOptions_scheme system \<Rightarrow> bool" where
  "sysReach o1 y \<longleftrightarrow> sysStep\<^sup>*\<^sup>* (initSystem o1) y"

definition inflightBatches :: "'o system \<Rightarrow> BucketRecordBatch list" where
  "inflightBatches y = (case inflight y of None \<Rightarrow> [] | Some (bs, n) \<Rightarrow> bs)"

subsection \<open>The invariant\<close>

definition sysInv :: "'a AppendOptions_scheme \<Rightarrow> 'a AppendOptions_scheme system \<Rightarrow> bool" where
  "sysInv o1 y \<longleftrightarrow> opts (st y) = o1
     \<and> pendingBytes (st y) = bucketRecordBatchBytes (pending (st y))
     \<and> (flushInFlight (st y) \<longleftrightarrow> inflight y \<noteq> None)
     \<and> (\<forall>bs n. inflight y = Some (bs, n) \<longrightarrow> n = bucketRecordBatchBytes bs)
     \<and> (\<not> closed (st y) \<longrightarrow> discarded y = [] \<and> accepted y = delivered y @ inflightBatches y @ pending (st y))
     \<and> mset (accepted y) = mset (delivered y) + mset (inflightBatches y) + mset (pending (st y)) + mset (discarded y)
     \<and> (Linger (withDefaults o1) > 0 \<and> \<not> closed (st y) \<and> \<not> flushInFlight (st y) \<and> pending (st y) \<noteq> [] \<longrightarrow> timer (st y))"

lemma sysInv_init: "sysInv o1 (initSystem o1)"
  by (simp add: sysInv_def initSystem_def inflightBatches_def)

lemma sysInv_step:
  assumes "sysStep y y'" and "sysInv o1 y"
  shows "sysInv o1 y'"
  using assms(1)
proof (cases rule: sysStep.cases)
  case (buffered batches s')
  with assms(2) show ?thesis
    by (auto simp: sysInv_def writeTry_def section_defs inflightBatches_def split: if_splits option.splits)
next
  case (refused batches step s')
  then have "s' = st y" by (auto simp: writeTry_def Let_def split: if_splits option.splits)
  with refused assms(2) show ?thesis by (simp add: sysInv_def inflightBatches_def)
next
  case (begins p s')
  with assms(2) show ?thesis
    by (auto simp: sysInv_def section_defs inflightBatches_def split: if_splits option.splits)
next
  case (busy e s')
  with assms(2) show ?thesis
    by (auto simp: sysInv_def section_defs inflightBatches_def split: if_splits option.splits)
next
  case (succeeds batches n)
  with assms(2) show ?thesis
    by (auto simp: sysInv_def section_defs inflightBatches_def split: if_splits option.splits)
next
  case (fails batches n)
  with assms(2) show ?thesis
    by (auto simp: sysInv_def section_defs inflightBatches_def split: if_splits option.splits)
next
  case closes
  with assms(2) show ?thesis
    by (auto simp: sysInv_def section_defs inflightBatches_def split: if_splits option.splits)
qed

lemma sysReach_inv: "sysReach o1 y \<Longrightarrow> sysInv o1 y"
  unfolding sysReach_def by (induction rule: rtranclp_induct) (auto intro: sysInv_init sysInv_step)

subsection \<open>Single calls\<close>

lemma clone_same [simp]: "cloneBucketRecordBatches batches = batches"
  by (induction batches) (auto simp: cloneBucketRecordBatches_def split: option.splits)

lemma withDefaults_limits:
  "MaxBufferedBatches (withDefaults o1) = max 1 (MaxBufferedBatches o1)"
  "MaxBufferedBytes (withDefaults o1) = MaxBufferedBytes o1" "Linger (withDefaults o1) = Linger o1"
  "BlockOnBufferFull (withDefaults o1) = BlockOnBufferFull o1"
  by (auto simp: withDefaults_def Let_def)

lemma reset_keeps [simp]:
  "pending (resetTimerLocked s) = pending s" "pendingBytes (resetTimerLocked s) = pendingBytes s"
  "closed (resetTimerLocked s) = closed s" "flushInFlight (resetTimerLocked s) = flushInFlight s"
  "opts (resetTimerLocked s) = opts s"
  by (simp_all add: resetTimerLocked_def stopTimerLocked_def Let_def)

lemma writeTry_buffered:
  assumes "writeTry batches s = (Buffered, s')"
  shows "pending s' = pending s @ batches" and "pendingBytes s' = pendingBytes s + bucketRecordBatchBytes batches"
    and "hasCapacityLocked (withDefaults (opts s)) s (int (length batches)) (bucketRecordBatchBytes batches)"
    and "opts s' = opts s" and "\<not> closed s"
  using assms by (auto simp: writeTry_def Let_def split: if_splits)

lemma writeTry_oversized:
  assumes "\<not> closed s" and "\<not> shouldFlushImmediately (withDefaults (opts s))"
    and "BlockOnBufferFull (opts s)" and "MaxBufferedBatches (withDefaults (opts s)) < int (length batches)"
  shows "writeTry batches s = (Waits, s)"
proof -
  have "\<not> hasCapacityLocked (withDefaults (opts s)) s (int (length batches)) n" for n
    using assms(4) by (auto simp: hasCapacityLocked_def withDefaults_limits)
  with assms show ?thesis by (simp add: writeTry_def withDefaults_limits)
qed

lemma writeLoop_oversized:
  assumes "\<forall>wake\<in>set wakes. fst wake = None \<and> opts (snd wake) = opts s \<and> \<not> closed (snd wake)"
    and "\<not> closed s" and "\<not> shouldFlushImmediately (withDefaults (opts s))"
    and "BlockOnBufferFull (opts s)" and "MaxBufferedBatches (withDefaults (opts s)) < int (length batches)"
  shows "writeLoop batches wakes s = None"
  using assms
proof (induction wakes arbitrary: s)
  case Nil
  then show ?case by (simp add: writeTry_oversized)
next
  case (Cons wake wakes)
  then have "writeTry batches s = (Waits, s)" by (simp add: writeTry_oversized)
  moreover from Cons.prems have "waitOnAppendCond wake = (Ok (), snd wake)"
    by (auto simp: waitOnAppendCond_def split: prod.splits option.splits)
  moreover have "writeLoop batches wakes (snd wake) = None" using Cons.prems by (intro Cons.IH) auto
  ultimately show ?case by simp
qed

text \<open>A call that is buffered has found room in the state that let it through.\<close>

lemma writeLoop_buffered:
  assumes "writeLoop batches wakes s = Some (Buffered, s')"
  shows "\<exists>s0 \<in> insert s (snd ` set wakes). writeTry batches s0 = (Buffered, s')"
  using assms
proof (induction wakes arbitrary: s)
  case Nil
  then show ?case by (auto split: prod.splits writeStep.splits)
next
  case (Cons wake wakes)
  then show ?case
    by (fastforce simp: waitOnAppendCond_def split: prod.splits writeStep.splits option.splits)
qed

subsection \<open>Growth\<close>

lemma sysReach_step: "sysReach o1 y \<Longrightarrow> sysStep y y' \<Longrightarrow> sysReach o1 y'"
  unfolding sysReach_def by (rule rtranclp.rtrancl_into_rtrancl)

text \<open>One write while a flush is under way, and the flush fails: the buffer has one more batch.\<close>

lemma grow_once:
  assumes reach: "sysReach o1 y" and idle: "inflight y = None" and "\<not> closed (st y)"
    and "pending (st y) \<noteq> []" and lim: "0 < Linger o1" "MaxBufferedBytes o1 \<le> 0"
  shows "\<exists>y'. sysReach o1 y' \<and> inflight y' = None \<and> \<not> closed (st y') \<and>
    length (pending (st y')) = Suc (length (pending (st y)))"
proof -
  from sysReach_inv[OF reach] idle have o: "opts (st y) = o1" and f: "\<not> flushInFlight (st y)"
    by (auto simp: sysInv_def)
  obtain s1 where b: "beginFlush (st y) = (Ok (pending (st y), pendingBytes (st y)), s1)"
    and s1: "pending s1 = []" "\<not> closed s1" "opts s1 = o1" "pendingBytes s1 = 0" "flushInFlight s1"
    using assms f o by (auto simp: beginFlush_def Let_def stopTimerLocked_def)
  define y1 where "y1 = y\<lparr>st := s1, inflight := Some (pending (st y), pendingBytes (st y))\<rparr>"
  have r1: "sysReach o1 y1" unfolding y1_def by (rule sysReach_step[OF reach begins[OF b]])
  let ?x = "[\<lparr>BatchPartitionID = None, BatchBucketID = 0, BatchRecords = []\<rparr>]"
  obtain s2 where w: "writeTry ?x s1 = (Buffered, s2)"
    using s1 lim by (auto simp: writeTry_def Let_def shouldFlushImmediately_def hasCapacityLocked_def
        withDefaults_limits bucketRecordBatchBytes_def)
  note s2 = writeTry_buffered[OF w]
  define y2 where "y2 = y1\<lparr>st := s2, accepted := accepted y1 @ ?x\<rparr>"
  have r2: "sysReach o1 y2" unfolding y2_def
    by (rule sysReach_step[OF r1 buffered]) (simp add: y1_def w)
  have "closed s2 = closed s1" using w by (auto simp: writeTry_def Let_def split: if_splits)
  moreover have i2: "inflight y2 = Some (pending (st y), pendingBytes (st y))" by (simp add: y2_def y1_def)
  moreover define y3 where "y3 = y2\<lparr>st := restorePending (pending (st y)) (pendingBytes (st y)) (st y2), inflight := None\<rparr>"
  ultimately have "sysReach o1 y3"
    using sysReach_step[OF r2 fails[OF i2 assms(4)]] by simp
  moreover have "inflight y3 = None \<and> \<not> closed (st y3) \<and> length (pending (st y3)) = Suc (length (pending (st y)))"
    using s1 s2 \<open>closed s2 = closed s1\<close> by (auto simp: y3_def y2_def restorePending_def Let_def)
  ultimately show ?thesis by blast
qed

end
