(* ===== verification/Writer_Properties.thy ===== *)
theory Writer_Properties
  imports Writer_Laws
begin

text \<open>The properties of the buffered writers.\<close>

text \<open>
  C23. Whatever calls of \<open>Write\<close>, \<open>Flush\<close> and timer flushes interleave on an open writer, no
  accepted batch is lost, duplicated or reordered: the accepted batches are the delivered
  ones, then those in flight, then those in the buffer. The byte counter is exact, at most
  one flush is in flight, and with a linger time a non-empty buffer always has a timer or
  a flush that will take it.
\<close>

theorem writer_no_loss:
  assumes "sysReach o1 y" and "\<not> closed (st y)"
  shows "accepted y = delivered y @ inflightBatches y @ pending (st y)
    \<and> pendingBytes (st y) = bucketRecordBatchBytes (pending (st y))
    \<and> (flushInFlight (st y) \<longleftrightarrow> inflight y \<noteq> None)
    \<and> (Linger (withDefaults o1) \<le> 0 \<or> pending (st y) = [] \<or> timer (st y) \<or> inflight y \<noteq> None)"
  using sysReach_inv[OF assms(1)] assms(2) by (auto simp: sysInv_def)

definition lingerOptions :: AppendOptions where
  "lingerOptions = \<lparr>Acks = 0, TimeoutMs = 0, MaxBufferedBatches = 0, MaxBufferedBytes = 0, Linger = 20,
     BlockOnBufferFull = True, FlushOnClose = None\<rparr>"

definition batchOf :: "nat \<Rightarrow> BucketRecordBatch" where
  "batchOf n = \<lparr>BatchPartitionID = None, BatchBucketID = word_of_nat n, BatchRecords = [7, 7]\<rparr>"

lemmas linger_simps = lingerOptions_def initSystem_def writeTry_def withDefaults_def shouldFlushImmediately_def
  hasCapacityLocked_def resetTimerLocked_def stopTimerLocked_def bucketRecordBatchBytes_def batchOf_def Let_def

lemma one_buffered:
  "\<exists>y. sysReach lingerOptions y \<and> \<not> closed (st y) \<and> inflight y = None \<and> pending (st y) = [batchOf 3] \<and> accepted y = [batchOf 3]"
proof -
  obtain s' where w: "writeTry [batchOf 3] (st (initSystem lingerOptions)) = (Buffered, s')"
    by (simp add: linger_simps)
  from writeTry_buffered[OF w] have "pending s' = [batchOf 3]" by (simp add: initSystem_def)
  moreover from w have "\<not> closed s'" by (auto simp: linger_simps)
  moreover have "sysReach lingerOptions (initSystem lingerOptions)" by (simp add: sysReach_def)
  ultimately show ?thesis
    using sysReach_step[OF _ buffered[OF w]] by (fastforce simp: initSystem_def)
qed

lemma writer_no_loss_witness:
  "\<exists>y. sysReach lingerOptions y \<and> pending (st y) = [batchOf 3] \<and> pendingBytes (st y) = 2 \<and> timer (st y)"
proof -
  from one_buffered obtain y where y: "sysReach lingerOptions y" "\<not> closed (st y)" "inflight y = None"
    "pending (st y) = [batchOf 3]" by blast
  from writer_no_loss[OF y(1,2)] y show ?thesis
    by (intro exI[of _ y]) (auto simp: lingerOptions_def withDefaults_def bucketRecordBatchBytes_def batchOf_def)
qed

text \<open>
  C24. \<open>Write\<close> never takes the buffer over its limits: when a call returns having buffered its
  batches, after any number of waits, the buffer has at most \<open>MaxBufferedBatches\<close> batches
  (at least one) and, if a byte limit is set, at most that many bytes.
\<close>

theorem write_within_limits:
  assumes "writeLoop batches wakes s = Some (Buffered, s')"
  shows "int (BufferedLen s') \<le> MaxBufferedBatches (withDefaults (opts s'))
    \<and> (MaxBufferedBytes (opts s') \<le> 0 \<or> BufferedBytes s' \<le> MaxBufferedBytes (opts s'))"
proof -
  from writeLoop_buffered[OF assms] obtain s0 where w: "writeTry batches s0 = (Buffered, s')" by blast
  from writeTry_buffered[OF w] show ?thesis
    by (auto simp: hasCapacityLocked_def withDefaults_limits BufferedLen_def BufferedBytes_def split: if_splits)
qed

lemma write_within_limits_witness:
  "\<exists>s'. writeLoop [batchOf 1] [(None, NewAppendWriter lingerOptions)]
      ((NewAppendWriter lingerOptions)\<lparr>pending := [batchOf 0], pendingBytes := 2\<rparr>) = Some (Buffered, s')
    \<and> BufferedLen s' \<le> 1"
proof -
  obtain s' where w: "writeLoop [batchOf 1] [(None, NewAppendWriter lingerOptions)]
      ((NewAppendWriter lingerOptions)\<lparr>pending := [batchOf 0], pendingBytes := 2\<rparr>) = Some (Buffered, s')"
    by (simp add: linger_simps NewAppendWriter_def waitOnAppendCond_def)
  then have "opts s' = lingerOptions" by (auto simp: linger_simps NewAppendWriter_def waitOnAppendCond_def)
  with write_within_limits[OF w] w show ?thesis by (auto simp: lingerOptions_def withDefaults_def)
qed

text \<open>
  C26. With \<open>BlockOnBufferFull\<close>, a \<open>Write\<close> of more batches than \<open>MaxBufferedBatches\<close> is never let
  through: however often it is woken, as long as its context lives and the writer is open,
  it waits again, an empty buffer included. The default limit is one batch, so a writer with
  only a linger time or a byte limit blocks for ever on any \<open>Write\<close> of two batches.
\<close>

theorem oversized_write_waits:
  assumes "\<not> shouldFlushImmediately (withDefaults o1)" and "BlockOnBufferFull o1"
    and "max 1 (MaxBufferedBatches o1) < int (length batches)"
    and "opts s = o1" and "\<not> closed s"
    and "\<forall>wake\<in>set wakes. fst wake = None \<and> opts (snd wake) = o1 \<and> \<not> closed (snd wake)"
  shows "AppendWriter_Write writeFn None batches wakes s w = None"
proof -
  have "batches \<noteq> []" using assms(3) by auto
  moreover have "writeLoop batches wakes s = None"
    by (rule writeLoop_oversized) (use assms in \<open>auto simp: withDefaults_limits\<close>)
  ultimately show ?thesis by (simp add: AppendWriter_Write_def Let_def)
qed

lemma oversized_write_waits_witness:
  "\<forall>w. AppendWriter_Write (\<lambda>acks tmo bs w. (Ok ([], None), w)) None [batchOf 0, batchOf 1] [(None, NewAppendWriter lingerOptions)]
    (NewAppendWriter lingerOptions) w = None"
  by (intro allI, rule oversized_write_waits[of lingerOptions])
    (simp_all add: lingerOptions_def NewAppendWriter_def shouldFlushImmediately_def withDefaults_def)

text \<open>
  C25. \<open>CloseWithContext\<close> of a writer that flushes on close sends everything in the buffer in
  one call, in order, with the configured acks and timeout. When the write succeeds the
  writer is closed and empty; when it fails the writer stays open with the same buffer.
\<close>

theorem close_flushes_or_keeps:
  assumes "\<not> closed s" and "\<not> flushInFlight s" and "pending s \<noteq> []" and "flushOnClose (opts s)"
    and "writeFn (Acks (withDefaults (opts s))) (TimeoutMs (withDefaults (opts s))) (pending s) w = (Ok (results, failure), w1)"
  shows "\<exists>s'. AppendWriter_CloseWithContext writeFn None s w
      = ((case failure of None \<Rightarrow> Ok () | Some e \<Rightarrow> Fail e), s', w1)
    \<and> closed s' = (failure = None) \<and> \<not> flushInFlight s'
    \<and> (case failure of None \<Rightarrow> pending s' = [] \<and> pendingBytes s' = 0
       | Some e \<Rightarrow> pending s' = pending s \<and> pendingBytes s' = pendingBytes s)"
proof -
  have "flushOnClose (withDefaults (opts s))"
    using assms(4) by (auto simp: flushOnClose_def withDefaults_def Let_def)
  with assms show ?thesis
    by (cases failure) (auto simp: AppendWriter_CloseWithContext_def AppendWriter_Flush_def beginFlush_def
        stopTimerLocked_def finishFlush_def restorePending_def Close_def Let_def)
qed

lemma close_flushes_or_keeps_witness:
  "\<forall>w. \<exists>s'. AppendWriter_CloseWithContext (\<lambda>acks tmo bs w. (Ok ([], if tmo = 15000 then Some ErrBufferFull else None), w)) None
      ((NewAppendWriter lingerOptions)\<lparr>pending := [batchOf 0], pendingBytes := 2\<rparr>) w = (Fail ErrBufferFull, s', w)
    \<and> \<not> closed s' \<and> pending s' = [batchOf 0]"
proof
  fix w :: "'w world"
  show "\<exists>s'. AppendWriter_CloseWithContext (\<lambda>acks tmo bs w. (Ok ([], if tmo = 15000 then Some ErrBufferFull else None), w)) None
      ((NewAppendWriter lingerOptions)\<lparr>pending := [batchOf 0], pendingBytes := 2\<rparr>) w = (Fail ErrBufferFull, s', w)
    \<and> \<not> closed s' \<and> pending s' = [batchOf 0]"
  using close_flushes_or_keeps[of "(NewAppendWriter lingerOptions)\<lparr>pending := [batchOf 0], pendingBytes := 2\<rparr>"
      "\<lambda>acks tmo bs w. (Ok ([], if tmo = 15000 then Some ErrBufferFull else None), w)" w "[]" "Some ErrBufferFull" w]
  by (auto simp: NewAppendWriter_def lingerOptions_def flushOnClose_def withDefaults_def)
qed

text \<open>
  C27. The limit on buffered batches holds only while flushes succeed: with a linger time,
  failing flushes that overlap with writes bring the buffer to any length.
\<close>

theorem failing_flushes_exceed_limit:
  assumes "0 < Linger o1" and "MaxBufferedBytes o1 \<le> 0"
  shows "\<exists>y. sysReach o1 y \<and> \<not> closed (st y) \<and> BufferedLen (st y) = Suc n"
proof -
  have "\<exists>y. sysReach o1 y \<and> inflight y = None \<and> \<not> closed (st y) \<and> length (pending (st y)) = Suc n"
  proof (induction n)
    case 0
    obtain s' where w: "writeTry [batchOf 0] (st (initSystem o1)) = (Buffered, s')"
      using assms by (auto simp: writeTry_def Let_def shouldFlushImmediately_def hasCapacityLocked_def
          withDefaults_limits bucketRecordBatchBytes_def initSystem_def)
    moreover have "closed s' = closed (st (initSystem o1))"
      using w by (auto simp: writeTry_def Let_def split: if_splits)
    moreover have "sysReach o1 (initSystem o1)" by (simp add: sysReach_def)
    ultimately show ?case
      using sysReach_step[OF _ buffered[OF w]] writeTry_buffered(1)[OF w] by (fastforce simp: initSystem_def)
  next
    case (Suc n)
    then obtain y where "sysReach o1 y" "inflight y = None" "\<not> closed (st y)" "length (pending (st y)) = Suc n" by blast
    with grow_once[of o1 y] assms show ?case by (metis list.size(3) nat.distinct(1))
  qed
  then show ?thesis by (auto simp: BufferedLen_def)
qed

lemma failing_flushes_exceed_limit_witness:
  "MaxBufferedBatches (withDefaults lingerOptions) = 1 \<and>
   (\<exists>y. sysReach lingerOptions y \<and> \<not> closed (st y) \<and> BufferedLen (st y) = 5)"
  using failing_flushes_exceed_limit[of lingerOptions 4] by (simp add: lingerOptions_def withDefaults_def)

text \<open>
  The upsert writer is the same state machine as the append writer: each of its sections
  and its write loop is the section of the append writer, so that every fact about the
  shared sections holds for it.
\<close>

theorem upsert_writer_equivalent:
  "upsert_beginFlush = beginFlush \<and> upsert_restorePending = restorePending \<and> upsert_finishFlush = finishFlush
    \<and> UpsertWriter_Close = Close \<and> upsert_writeTry = writeTry \<and> upsert_writeLoop = writeLoop"
  using upsert_sections upsert_writeLoop_same by (simp add: fun_eq_iff)

end
