(* ===== verification/Table_Read.thy ===== *)
theory Table_Read
  imports Client_Laws
begin

text \<open>
  The read path of \<open>client/table.go\<close> and the scanner of \<open>client/scanner.go\<close>. A read groups
  its requests by leader, sends one request to each and concatenates the parsed results; the
  first error ends it without results. \<open>ord\<close> is the order of the \<open>range\<close> over the groups.
\<close>

type_synonym 'b groups = "(string \<times> 'b list) list"

text \<open>The loop over the groups; \<open>mk\<close> builds the request of a group, \<open>parse\<close> reads its response.\<close>

fun readGroups :: "'w network \<Rightarrow> ('b list \<Rightarrow> Request) \<Rightarrow> (Response \<Rightarrow> 'c list res) \<Rightarrow> 'b groups \<Rightarrow>
    'c list \<Rightarrow> ('w, 'c list) act" where
  "readGroups rpc mk parse [] out = liftA (Ok out)"
| "readGroups rpc mk parse ((addr, items) # groups) out =
     bindA (invokeA rpc addr (mk items)) (\<lambda>resp.
       bindA (liftA (parse resp)) (\<lambda>results. readGroups rpc mk parse groups (out @ results)))"

definition lookupCommon :: "'w network \<Rightarrow> (LookupBucketRequest groups \<Rightarrow> LookupBucketRequest groups) \<Rightarrow> TablePath \<Rightarrow>
    LookupBucketRequest list \<Rightarrow> bool option \<Rightarrow> int32 option \<Rightarrow> int32 option \<Rightarrow> ('w, LookupBucketValues list) act" where
  "lookupCommon rpc ord path reqs insertIfNotExists acks timeoutMs =
     bindA (ensureTableInfo rpc path) (\<lambda>info.
       bindA (groupLookupsByLeader rpc path (TableID info) reqs) (\<lambda>grouped.
         readGroups rpc
           (\<lambda>items. LookupRequest (TableID info) insertIfNotExists acks timeoutMs (map buildLookupBucket items))
           parseLookupResults (ord grouped) []))"

definition Lookup where
  "Lookup rpc ord path reqs insertIfNotExists acks timeoutMs =
     lookupCommon rpc ord path reqs insertIfNotExists acks timeoutMs"

definition PrefixLookup :: "'w network \<Rightarrow> (LookupBucketRequest groups \<Rightarrow> LookupBucketRequest groups) \<Rightarrow> TablePath \<Rightarrow>
    LookupBucketRequest list \<Rightarrow> ('w, PrefixLookupBucketValues list) act" where
  "PrefixLookup rpc ord path reqs =
     bindA (ensureTableInfo rpc path) (\<lambda>info.
       bindA (groupLookupsByLeader rpc path (TableID info) reqs) (\<lambda>grouped.
         readGroups rpc (\<lambda>items. PrefixLookupRequest (TableID info) (map buildPrefixLookupBucket items))
           parsePrefixLookupResults (ord grouped) []))"

record FetchLogOptions =
  ProjectedFields :: "int32 list"

text \<open>The request of one leader: one table request, with projection when fields are named.\<close>

definition fetchRequest :: "int64 \<Rightarrow> int32 \<Rightarrow> int32 \<Rightarrow> int32 option \<Rightarrow> int32 option \<Rightarrow> FetchLogOptions \<Rightarrow>
    FetchBucketRequest list \<Rightarrow> Request" where
  "fetchRequest tableID followerServerID maxBytes maxWaitMs minBytes opts1 items =
     (let projectionEnabled = length (ProjectedFields opts1) > 0;
          projected = (if projectionEnabled then ProjectedFields opts1 else []) in
      FetchLogRequest followerServerID maxBytes maxWaitMs minBytes
        [PbFetchTableReq tableID projectionEnabled projected (map buildFetchLogBucket items)])"

definition FetchLogWithOptions :: "'w network \<Rightarrow> (FetchBucketRequest groups \<Rightarrow> FetchBucketRequest groups) \<Rightarrow> TablePath \<Rightarrow>
    int32 \<Rightarrow> int32 \<Rightarrow> int32 option \<Rightarrow> int32 option \<Rightarrow> FetchBucketRequest list \<Rightarrow> FetchLogOptions \<Rightarrow>
    ('w, FetchedBucket list) act" where
  "FetchLogWithOptions rpc ord path followerServerID maxBytes maxWaitMs minBytes buckets opts1 =
     bindA (ensureTableInfo rpc path) (\<lambda>info.
       bindA (groupFetchesByLeader rpc path (TableID info) buckets) (\<lambda>grouped.
         readGroups rpc (fetchRequest (TableID info) followerServerID maxBytes maxWaitMs minBytes opts1)
           parseFetchResults (ord grouped) []))"

definition FetchLog where
  "FetchLog rpc ord path followerServerID maxBytes maxWaitMs minBytes buckets =
     FetchLogWithOptions rpc ord path followerServerID maxBytes maxWaitMs minBytes buckets \<lparr>ProjectedFields = []\<rparr>"

definition LimitScan :: "'w network \<Rightarrow> TablePath \<Rightarrow> int64 option \<Rightarrow> int32 \<Rightarrow> int32 \<Rightarrow> ('w, LimitScanResult) act" where
  "LimitScan rpc path partitionID bucketID limit =
     bindA (ensureTableInfo rpc path) (\<lambda>info.
       bindA (tableRouteFor rpc path (TableID info) partitionID bucketID) (\<lambda>node.
         bindA (invokeA rpc (Address node) (LimitScanRequest (TableID info) partitionID bucketID limit)) (\<lambda>resp.
           liftA (case resp of
             LimitScanResponse code message isLog records \<Rightarrow>
               if getOr 0 code \<noteq> 0 then Fail (APIError (getOr 0 code) (getOr [] message))
               else Ok \<lparr>IsLogTable = getOr False isLog, LimitRecords = getOr [] records\<rparr>
           | _ \<Rightarrow> Fail (Errf ''fluss: unexpected limit scan response type %T'')))))"

subsection \<open>The scanner\<close>

record KVScanner =
  ScanPartitionID :: "int64 option"
  ScanBucketID :: int32
  ScanLimit :: "int64 option"
  BatchSizeBytes :: int32
  scannerID :: bytes
  callSeqID :: int32
  hasMore :: bool
  started :: bool

definition NewKVScanner :: "int64 option \<Rightarrow> int32 \<Rightarrow> int64 option \<Rightarrow> int32 \<Rightarrow> KVScanner" where
  "NewKVScanner partitionID bucketID limit batchSizeBytes =
     \<lparr>ScanPartitionID = partitionID, ScanBucketID = bucketID, ScanLimit = limit, BatchSizeBytes = batchSizeBytes,
      scannerID = [], callSeqID = 0, hasMore = False, started = False\<rparr>"

definition nextRequest :: "KVScanner \<Rightarrow> int64 \<Rightarrow> ScanKvRequest" where
  "nextRequest s tableID = ScanKvRequest
     (if started s then Some (scannerID s) else None)
     (if started s then None
      else Some (PbScanBucket tableID (ScanPartitionID s) (ScanBucketID s) (ScanLimit s)))
     (Some (callSeqID s))
     (if sint (BatchSizeBytes s) > 0 then Some (BatchSizeBytes s) else None) None"

text \<open>What \<open>Next\<close> does with a response: the scanner advances even when the response is an error.\<close>

definition nextResult :: "KVScanner \<Rightarrow> Response \<Rightarrow> ScanKVResult res \<times> KVScanner" where
  "nextResult s resp =
     (let s1 = s\<lparr>started := True, callSeqID := callSeqID s + 1\<rparr> in
      case resp of
        ScanKvResp r \<Rightarrow>
          if getOr 0 (srErrorCode r) \<noteq> 0
          then (Fail (APIError (getOr 0 (srErrorCode r)) (getOr [] (srErrorMessage r))), s1)
          else let sid = getOr [] (srScannerId r);
                   s2 = (if length sid > 0 then s1\<lparr>scannerID := sid\<rparr> else s1);
                   more = getOr False (srHasMore r) in
            (Ok \<lparr>ScannerID = sid, HasMoreResults = more, ScanRecords = getOr [] (srRecords r),
                 ScanLogOffset = srLogOffset r\<rparr>,
             s2\<lparr>hasMore := more\<rparr>)
      | _ \<Rightarrow> (Fail (Errf ''fluss: unexpected scan kv response type %T''), s1))"

definition KVScanner_Next :: "'w network \<Rightarrow> TablePath \<Rightarrow> KVScanner \<Rightarrow> ('w, ScanKVResult res \<times> KVScanner) act" where
  "KVScanner_Next rpc path s w =
     (case bindA (ensureTableInfo rpc path) (\<lambda>info.
        bindA (tableRouteFor rpc path (TableID info) (ScanPartitionID s) (ScanBucketID s)) (\<lambda>node.
          invokeA rpc (Address node) (ScanKvReq (nextRequest s (TableID info))))) w of
        (Ok resp, w1) \<Rightarrow> (Ok (nextResult s resp), w1)
      | (Fail e, w1) \<Rightarrow> (Ok (Fail e, s), w1)
      | (Panic, w1) \<Rightarrow> (Panic, w1))"

definition KVScanner_Close :: "'w network \<Rightarrow> TablePath \<Rightarrow> KVScanner \<Rightarrow> ('w, unit) act" where
  "KVScanner_Close rpc path s =
     (if length (scannerID s) = 0 then liftA (Ok ())
      else bindA (ensureTableInfo rpc path) (\<lambda>info.
        bindA (tableRouteFor rpc path (TableID info) (ScanPartitionID s) (ScanBucketID s)) (\<lambda>node.
          bindA (invokeA rpc (Address node)
              (ScanKvReq (ScanKvRequest (Some (scannerID s)) None None None (Some True)))) (\<lambda>_. liftA (Ok ())))))"

subsection \<open>Reads against servers that answer from a store\<close>

text \<open>
  \<open>serves rpc mk answer\<close>: whatever its state, every server answers the request \<open>mk items\<close>
  with a response that parses to one result \<open>answer x\<close> per item, in order.
\<close>

definition serves :: "'w network \<Rightarrow> ('b list \<Rightarrow> Request) \<Rightarrow> (Response \<Rightarrow> 'c list res) \<Rightarrow> ('b \<Rightarrow> 'c) \<Rightarrow> bool" where
  "serves rpc mk parse answer \<longleftrightarrow> (\<forall>n addr items. \<exists>resp n'. rpc n addr (mk items) = (Ok resp, n')
     \<and> parse resp = Ok (map answer items))"

lemma readGroups_serves:
  assumes "serves rpc mk parse answer"
  shows "\<exists>n. readGroups rpc mk parse gs out w = (Ok (out @ concat (map (\<lambda>(a, xs). map answer xs) gs)), w\<lparr>net := n\<rparr>)"
proof (induction gs arbitrary: out w)
  case Nil
  show ?case by (rule exI[of _ "net w"]) simp
next
  case (Cons g gs)
  obtain a xs where g: "g = (a, xs)" by force
  from assms obtain resp n' where r: "rpc (net w) a (mk xs) = (Ok resp, n')" "parse resp = Ok (map answer xs)"
    unfolding serves_def by blast
  then have "invokeA rpc a (mk xs) w = (Ok resp, w\<lparr>net := n'\<rparr>)" by (simp add: invokeA_def)
  moreover from Cons[of "out @ map answer xs" "w\<lparr>net := n'\<rparr>"] obtain n where
    "readGroups rpc mk parse gs (out @ map answer xs) (w\<lparr>net := n'\<rparr>)
      = (Ok ((out @ map answer xs) @ concat (map (\<lambda>(a, xs). map answer xs) gs)), w\<lparr>net := n\<rparr>)" by auto
  ultimately show ?case using r(2) by (intro exI[of _ n]) (simp add: g)
qed

lemma mset_groups: "mset (concat (map (\<lambda>(a, xs). map f xs) gs)) = image_mset f (mset (concat (map snd gs)))"
  by (induction gs) auto

text \<open>
  A grouped read with the table and all routes in the cache returns exactly the answers to its
  items, whatever the order of the groups; only the network has moved.
\<close>

lemma grouped_read:
  assumes "serves rpc mk parse answer" and "\<And>gs. mset (ord gs) = mset gs"
    and "\<forall>x \<in> set xs. routeFor (cache w) t (part x) (bucket x) = Ok (node x)"
  shows "\<exists>out n. bindA (groupItems rpc path t part bucket xs []) (\<lambda>grouped. readGroups rpc mk parse (ord grouped) []) w
      = (Ok out, w\<lparr>net := n\<rparr>) \<and> mset out = image_mset answer (mset xs)"
proof -
  define gs where "gs = fold (\<lambda>x. addGroup (Address (node x)) x) xs []"
  have g: "groupItems rpc path t part bucket xs [] w = (Ok gs, w)"
    unfolding gs_def using assms(3) by (rule groupItems_cached)
  from groupItems_mset[OF g] have "mset (concat (map snd gs)) = mset xs" by simp
  moreover have "mset (concat (map snd (ord gs))) = mset (concat (map snd gs))"
    unfolding mset_concat using assms(2)[of gs] by (simp add: mset_map flip: sum_mset_sum_list)
  ultimately show ?thesis
    using readGroups_serves[OF assms(1), of "ord gs" "[]" w] g by (auto simp: mset_groups)
qed

end
