(* ===== verification/Table_Descriptor.thy ===== *)
theory Table_Descriptor
  imports Go_Strings
begin

text \<open>
  The table descriptor (\<open>internal/metadata/table_descriptor.go\<close>). \<open>json.Unmarshal\<close> into the
  descriptor struct is the parameter \<open>unmarshal\<close>; a nil map of properties is \<open>None\<close>.
\<close>

record tableDescriptorJSON =
  SchemaColumns :: "string list"
  SchemaPrimaryKey :: "string list"
  PartitionKeyNames :: "string list"
  BucketKeyNames :: "string list"
  DescProperties :: "(string \<rightharpoonup> string) option"

type_synonym unmarshal_table = "bytes \<Rightarrow> tableDescriptorJSON res"

definition ParseTableDescriptor :: "unmarshal_table \<Rightarrow> bytes \<Rightarrow>
    (string list \<times> string list \<times> string list \<times> string list) res" where
  "ParseTableDescriptor unmarshal tableJSON =
     andThen (unmarshal tableJSON) (\<lambda>desc.
       Ok (SchemaColumns desc, PartitionKeyNames desc, SchemaPrimaryKey desc, BucketKeyNames desc))"

definition ParseTableKeys :: "unmarshal_table \<Rightarrow> bytes \<Rightarrow> (string list \<times> string list) res" where
  "ParseTableKeys unmarshal tableJSON =
     andThen (ParseTableDescriptor unmarshal tableJSON) (\<lambda>(_, _, primaryKeys, bucketKeys). Ok (primaryKeys, bucketKeys))"

definition ParseTableProperties :: "unmarshal_table \<Rightarrow> bytes \<Rightarrow> (string \<rightharpoonup> string) res" where
  "ParseTableProperties unmarshal tableJSON =
     andThen (unmarshal tableJSON) (\<lambda>desc.
       Ok (case DescProperties desc of None \<Rightarrow> Map.empty | Some m \<Rightarrow> m))"

text \<open>Reading a missing key of a Go map gives the empty string.\<close>

definition property :: "(string \<rightharpoonup> string) \<Rightarrow> string \<Rightarrow> string" where
  "property m k = (case m k of None \<Rightarrow> [] | Some v \<Rightarrow> v)"

end
