(* ===== verification/Arrow_Codec.thy ===== *)
theory Arrow_Codec
  imports Batch_Laws Go_Strings "HOL-Library.Signed_Division"
begin

text \<open>
  The Arrow codec (\<open>internal/codec/arrow\<close>): Arrow schemas of row schemas, the conversion of
  values to and from Arrow columns, record batches, and log batches around them. The Arrow
  library is a parameter, the record \<open>arrowLib\<close> of the functions the code calls. A column
  entry is a \<open>cell\<close>, by the builder that appended it or the array that holds it;
  \<open>'d\<close> is the library's 128-bit decimal.
\<close>

subsection \<open>Schemas\<close>

datatype timeUnit = Second | ArrowMillisecond | Microsecond | Nanosecond

datatype arrowType =
    ArrowBoolean | ArrowInt8 | ArrowInt16 | ArrowInt32 | ArrowInt64 | ArrowFloat32 | ArrowFloat64
  | ArrowString | ArrowBinary | ArrowDecimal128 int32 int32 | ArrowDate32 | ArrowTime32ms
  | ArrowTimestamp timeUnit string
  | ArrowListOf arrowType | ArrowMapOf arrowType arrowType | ArrowStructOf "(string \<times> arrowType \<times> bool) list"

type_synonym arrowField = "string \<times> arrowType \<times> bool"
type_synonym arrowSchema = "arrowField list"

definition timestampTypeForPrecision :: "int \<Rightarrow> arrowType" where
  "timestampTypeForPrecision precision =
     (if precision \<le> 0 then ArrowTimestamp Second []
      else if precision \<le> 3 then ArrowTimestamp ArrowMillisecond []
      else if precision \<le> 6 then ArrowTimestamp Microsecond []
      else ArrowTimestamp Nanosecond [])"

text \<open>The field at position \<open>i\<close> is named \<open>f<i>\<close> and nullable.\<close>

definition arrowFieldAt :: "nat \<Rightarrow> arrowType \<Rightarrow> arrowField" where
  "arrowFieldAt i dataType = (CHR ''f'' # itoa (int i), dataType, True)"

fun dataTypeFromFieldType :: "FieldType \<Rightarrow> arrowType res"
and arrowFields :: "string \<Rightarrow> nat \<Rightarrow> FieldType list \<Rightarrow> arrowField list res" where
  "dataTypeFromFieldType (FieldType k len sc el ke va fs) = (case k of
      TypeBool \<Rightarrow> Ok ArrowBoolean
    | TypeInt8 \<Rightarrow> Ok ArrowInt8 | TypeInt16 \<Rightarrow> Ok ArrowInt16
    | TypeInt32 \<Rightarrow> Ok ArrowInt32 | TypeInt64 \<Rightarrow> Ok ArrowInt64
    | TypeFloat32 \<Rightarrow> Ok ArrowFloat32 | TypeFloat64 \<Rightarrow> Ok ArrowFloat64
    | TypeString \<Rightarrow> Ok ArrowString | TypeBytes \<Rightarrow> Ok ArrowBinary
    | TypeDecimal \<Rightarrow> Ok (ArrowDecimal128 (word_of_int len) (word_of_int sc))
    | TypeDate \<Rightarrow> Ok ArrowDate32 | TypeTime \<Rightarrow> Ok ArrowTime32ms
    | TypeTimestampNtz \<Rightarrow> Ok (timestampTypeForPrecision len)
    | TypeTimestampLtz \<Rightarrow> (case timestampTypeForPrecision len of
          ArrowTimestamp u tz \<Rightarrow> Ok (ArrowTimestamp u ''UTC'')
        | _ \<Rightarrow> Fail (Errf ''arrowcodec: unexpected timestamp type %T''))
    | TypeArray \<Rightarrow> (case el of
          None \<Rightarrow> Fail (Errf ''arrowcodec: array element type is required'')
        | Some e \<Rightarrow> mapRes ArrowListOf (dataTypeFromFieldType e))
    | TypeMap \<Rightarrow> (case ke of
          None \<Rightarrow> Fail (Errf ''arrowcodec: map key/value types are required'')
        | Some kt \<Rightarrow> (case va of
            None \<Rightarrow> Fail (Errf ''arrowcodec: map key/value types are required'')
          | Some vt \<Rightarrow> andThen (dataTypeFromFieldType kt) (\<lambda>keyType.
              mapRes (ArrowMapOf keyType) (dataTypeFromFieldType vt))))
    | TypeRow \<Rightarrow> mapRes ArrowStructOf (arrowFields ''arrowcodec: row field %d: %w'' 0 fs)
    | TypeOther s \<Rightarrow> Fail (Errf ''arrowcodec: unsupported type %q''))"
| "arrowFields msg i [] = Ok []"
| "arrowFields msg i (f # fs) =
     andThen (wrapErr msg (dataTypeFromFieldType f)) (\<lambda>dataType.
       mapRes ((#) (arrowFieldAt i dataType)) (arrowFields msg (Suc i) fs))"

definition SchemaFromRowSchema :: "Schema \<Rightarrow> arrowSchema res" where
  "SchemaFromRowSchema schema =
     andThen (SchemaValidate schema) (\<lambda>_. arrowFields ''arrowcodec: field %d: %w'' 0 schema)"

subsection \<open>The library\<close>

datatype builder = BooleanBuilder | Int8Builder | Int16Builder | Int32Builder | Int64Builder
  | Float32Builder | Float64Builder | StringBuilder | BinaryBuilder | Decimal128Builder
  | Date32Builder | Time32Builder | TimestampBuilder | OtherBuilder string

datatype 'd cell = CNull | CBoolean bool | CInt8 int8 | CInt16 int16 | CInt32 int32 | CInt64 int64
  | CFloat32 "32 word" | CFloat64 "64 word" | CString bytes | CBinary bytes | CDecimal128 'd
  | CDate32 int32 | CTime32 int32 | CTimestamp int64 | COther string

datatype compression = NoCompression | ZstdCompression | LZ4Compression

text \<open>\<open>staticMessageReader\<close>: the messages of the schema and of the batch, then \<open>io.EOF\<close>.\<close>

record 'm staticMessageReader =
  refCount :: int64
  msgs :: "'m list"
  msgIdx :: nat

definition newStaticMessageReader :: "'m list \<Rightarrow> 'm staticMessageReader" where
  "newStaticMessageReader ms = \<lparr>refCount = 1, msgs = ms, msgIdx = 0\<rparr>"

definition Message :: "'m staticMessageReader \<Rightarrow> 'm res \<times> 'm staticMessageReader" where
  "Message r = (if msgIdx r \<ge> length (msgs r) then (Fail ErrEOF, r)
     else (Ok (msgs r ! msgIdx r), r\<lparr>msgIdx := msgIdx r + 1\<rparr>))"

definition Retain :: "'m staticMessageReader \<Rightarrow> 'm staticMessageReader" where
  "Retain r = r\<lparr>refCount := refCount r + 1\<rparr>"

definition Release :: "'m staticMessageReader \<Rightarrow> 'm staticMessageReader" where
  "Release r = (let r1 = r\<lparr>refCount := refCount r - 1\<rparr> in if refCount r1 = 0 then r1\<lparr>msgs := []\<rparr> else r1)"

text \<open>
  \<open>fieldBuilder\<close>: the builder \<open>array.NewRecordBuilder\<close> makes for a column type.
  \<open>encodePayload\<close> and \<open>writePayload\<close>: \<open>ipc.GetRecordBatchPayload\<close> of the rows built and
  \<open>WritePayload\<close>. \<open>schemaPayload\<close>: the written schema message. \<open>readMessage\<close>: the first
  message of a byte stream. \<open>newReader\<close>, \<open>nextBatch\<close>: an IPC reader over a message reader
  and its first record batch, as its number of rows and its columns.
\<close>

record ('d, 'm, 'p, 'r) arrowLib =
  fieldBuilder :: "arrowType \<Rightarrow> builder"
  fromBigInt :: "int \<Rightarrow> 'd res"
  bigInt :: "'d \<Rightarrow> int"
  encodePayload :: "arrowSchema \<Rightarrow> 'd cell list list \<Rightarrow> compression \<Rightarrow> 'p res"
  writePayload :: "'p \<Rightarrow> bytes res"
  schemaPayload :: "arrowSchema \<Rightarrow> bytes res"
  readMessage :: "bytes \<Rightarrow> 'm res"
  newReader :: "'m staticMessageReader \<Rightarrow> 'r res"
  nextBatch :: "'r \<Rightarrow> (nat \<times> 'd cell list list) option res"

subsection \<open>Values\<close>

definition arrow_asBool :: "gval \<Rightarrow> bool res" where
  "arrow_asBool v = (case v of VBool x \<Rightarrow> Ok x | _ \<Rightarrow> Fail (Errf ''expected bool, got %T''))"
definition arrow_asInt8 :: "gval \<Rightarrow> int8 res" where
  "arrow_asInt8 v = (case v of VInt8 x \<Rightarrow> Ok x | _ \<Rightarrow> Fail (Errf ''expected int8, got %T''))"
definition arrow_asInt16 :: "gval \<Rightarrow> int16 res" where
  "arrow_asInt16 v = (case v of VInt16 x \<Rightarrow> Ok x | _ \<Rightarrow> Fail (Errf ''expected int16, got %T''))"
definition arrow_asInt32 :: "gval \<Rightarrow> int32 res" where
  "arrow_asInt32 v = (case v of VInt32 x \<Rightarrow> Ok x | _ \<Rightarrow> Fail (Errf ''expected int32, got %T''))"
definition arrow_asInt64 :: "gval \<Rightarrow> int64 res" where
  "arrow_asInt64 v = (case v of VInt64 x \<Rightarrow> Ok x | _ \<Rightarrow> Fail (Errf ''expected int64, got %T''))"
definition arrow_asFloat32 :: "gval \<Rightarrow> 32 word res" where
  "arrow_asFloat32 v = (case v of VFloat32 x \<Rightarrow> Ok x | _ \<Rightarrow> Fail (Errf ''expected float32, got %T''))"
definition arrow_asFloat64 :: "gval \<Rightarrow> 64 word res" where
  "arrow_asFloat64 v = (case v of VFloat64 x \<Rightarrow> Ok x | _ \<Rightarrow> Fail (Errf ''expected float64, got %T''))"
definition arrow_asString :: "gval \<Rightarrow> bytes res" where
  "arrow_asString v = (case v of VString x \<Rightarrow> Ok x | _ \<Rightarrow> Fail (Errf ''expected string, got %T''))"
definition arrow_asBytes :: "gval \<Rightarrow> bytes res" where
  "arrow_asBytes v = (case v of VBytes x \<Rightarrow> Ok x | _ \<Rightarrow> Fail (Errf ''expected []byte, got %T''))"
definition arrow_asTimestampNtz :: "gval \<Rightarrow> TimestampNtz res" where
  "arrow_asTimestampNtz v = (case v of VTimestampNtz x \<Rightarrow> Ok x | _ \<Rightarrow> Fail (Errf ''expected TimestampNtz, got %T''))"
definition arrow_asTimestampLtz :: "gval \<Rightarrow> TimestampLtz res" where
  "arrow_asTimestampLtz v = (case v of VTimestampLtz x \<Rightarrow> Ok x | _ \<Rightarrow> Fail (Errf ''expected TimestampLtz, got %T''))"

definition arrow_asDecimal :: "gval \<Rightarrow> FieldType \<Rightarrow> (int \<times> int) res" where
  "arrow_asDecimal v field = (case v of
      VDecimal x \<Rightarrow> (case Unscaled x of
          None \<Rightarrow> Fail (Errf ''decimal unscaled is nil'')
        | Some u \<Rightarrow>
            if DecScale x \<noteq> Scale field then Fail (Errf ''decimal scale %d, want %d'')
            else if int (length (itoa \<bar>u\<bar>)) > Length field then Fail (Errf ''decimal precision %d exceeds limit %d'')
            else Ok (u, DecScale x))
    | _ \<Rightarrow> Fail (Errf ''expected Decimal, got %T''))"

text \<open>
  \<open>time.UnixMilli(millis).UTC().Add(nanos)\<close> as nanoseconds since the epoch, exact;
  \<open>Unix\<close>, \<open>UnixMilli\<close>, \<open>UnixMicro\<close> and \<open>UnixNano\<close> round down and wrap at 64 bits.
\<close>

definition timeNanos :: "int64 \<Rightarrow> int32 \<Rightarrow> int" where
  "timeNanos millis nanosOfMilli = sint millis * 1000000 + sint nanosOfMilli"

definition timestampValueForField :: "FieldType \<Rightarrow> int64 \<Rightarrow> int32 \<Rightarrow> int64" where
  "timestampValueForField field millis nanosOfMilli =
     (let t = timeNanos millis nanosOfMilli in
      if Length field \<le> 0 then word_of_int (t div 1000000000)
      else if Length field \<le> 3 then word_of_int (t div 1000000)
      else if Length field \<le> 6 then word_of_int (t div 1000)
      else word_of_int t)"

text \<open>Go's \<open>/\<close> and \<open>%\<close> on signed integers round towards zero.\<close>

definition timestampParts :: "FieldType \<Rightarrow> int64 \<Rightarrow> int64 \<times> int32" where
  "timestampParts field ts =
     (if Length field \<le> 0 then (ts * 1000, 0)
      else if Length field \<le> 3 then (ts, 0)
      else if Length field \<le> 6 then
        (word_of_int (sint ts sdiv 1000), word_of_int ((sint ts smod 1000) * 1000))
      else (word_of_int (sint ts sdiv 1000000), word_of_int (sint ts smod 1000000)))"

definition arrow_decodeTimestampNtz :: "FieldType \<Rightarrow> int64 \<Rightarrow> TimestampNtz" where
  "arrow_decodeTimestampNtz field ts = (case timestampParts field ts of (millis, nanos) \<Rightarrow>
     \<lparr>Millisecond = millis, NtzNanos = nanos\<rparr>)"

definition arrow_decodeTimestampLtz :: "FieldType \<Rightarrow> int64 \<Rightarrow> TimestampLtz" where
  "arrow_decodeTimestampLtz field ts = (case timestampParts field ts of (millis, nanos) \<Rightarrow>
     \<lparr>EpochMillisecond = millis, LtzNanos = nanos\<rparr>)"

text \<open>The type assertion on the builder, then the conversion and the append.\<close>

definition builderTypeError :: "'a res" where
  "builderTypeError = Fail (Errf ''arrowcodec: builder %T, want %s'')"

definition appendTo :: "builder \<Rightarrow> builder \<Rightarrow> 'a res \<Rightarrow> 'a res" where
  "appendTo b want v = (if b = want then v else builderTypeError)"

definition appendValue :: "('d, 'm, 'p, 'r) arrowLib \<Rightarrow> builder \<Rightarrow> FieldType \<Rightarrow> gval \<Rightarrow> 'd cell res" where
  "appendValue lib b field value =
     (if value = VNil then Ok CNull else case Kind field of
      TypeBool \<Rightarrow> appendTo b BooleanBuilder (mapRes CBoolean (arrow_asBool value))
    | TypeInt8 \<Rightarrow> appendTo b Int8Builder (mapRes CInt8 (arrow_asInt8 value))
    | TypeInt16 \<Rightarrow> appendTo b Int16Builder (mapRes CInt16 (arrow_asInt16 value))
    | TypeInt32 \<Rightarrow> appendTo b Int32Builder (mapRes CInt32 (arrow_asInt32 value))
    | TypeInt64 \<Rightarrow> appendTo b Int64Builder (mapRes CInt64 (arrow_asInt64 value))
    | TypeFloat32 \<Rightarrow> appendTo b Float32Builder (mapRes CFloat32 (arrow_asFloat32 value))
    | TypeFloat64 \<Rightarrow> appendTo b Float64Builder (mapRes CFloat64 (arrow_asFloat64 value))
    | TypeString \<Rightarrow> appendTo b StringBuilder (mapRes CString (arrow_asString value))
    | TypeBytes \<Rightarrow> appendTo b BinaryBuilder (mapRes CBinary (arrow_asBytes value))
    | TypeDecimal \<Rightarrow> appendTo b Decimal128Builder
        (andThen (arrow_asDecimal value field) (\<lambda>(u, sc). mapRes CDecimal128 (fromBigInt lib u)))
    | TypeDate \<Rightarrow> appendTo b Date32Builder (mapRes CDate32 (arrow_asInt32 value))
    | TypeTime \<Rightarrow> appendTo b Time32Builder (mapRes CTime32 (arrow_asInt32 value))
    | TypeTimestampNtz \<Rightarrow> appendTo b TimestampBuilder (mapRes
        (\<lambda>v. CTimestamp (timestampValueForField field (Millisecond v) (NtzNanos v))) (arrow_asTimestampNtz value))
    | TypeTimestampLtz \<Rightarrow> appendTo b TimestampBuilder (mapRes
        (\<lambda>v. CTimestamp (timestampValueForField field (EpochMillisecond v) (LtzNanos v))) (arrow_asTimestampLtz value))
    | _ \<Rightarrow> Fail (Errf ''arrowcodec: unsupported type %q''))"

text \<open>Reading a cell back; an array of another type fails the type assertion, a panic.\<close>

definition extractValue :: "('d, 'm, 'p, 'r) arrowLib \<Rightarrow> 'd cell \<Rightarrow> FieldType \<Rightarrow> gval res" where
  "extractValue lib c field =
     (if c = CNull then Ok VNil else case Kind field of
      TypeBool \<Rightarrow> (case c of CBoolean x \<Rightarrow> Ok (VBool x) | _ \<Rightarrow> Panic)
    | TypeInt8 \<Rightarrow> (case c of CInt8 x \<Rightarrow> Ok (VInt8 x) | _ \<Rightarrow> Panic)
    | TypeInt16 \<Rightarrow> (case c of CInt16 x \<Rightarrow> Ok (VInt16 x) | _ \<Rightarrow> Panic)
    | TypeInt32 \<Rightarrow> (case c of CInt32 x \<Rightarrow> Ok (VInt32 x) | _ \<Rightarrow> Panic)
    | TypeInt64 \<Rightarrow> (case c of CInt64 x \<Rightarrow> Ok (VInt64 x) | _ \<Rightarrow> Panic)
    | TypeFloat32 \<Rightarrow> (case c of CFloat32 x \<Rightarrow> Ok (VFloat32 x) | _ \<Rightarrow> Panic)
    | TypeFloat64 \<Rightarrow> (case c of CFloat64 x \<Rightarrow> Ok (VFloat64 x) | _ \<Rightarrow> Panic)
    | TypeString \<Rightarrow> (case c of CString x \<Rightarrow> Ok (VString x) | _ \<Rightarrow> Panic)
    | TypeBytes \<Rightarrow> (case c of CBinary x \<Rightarrow> Ok (VBytes x) | _ \<Rightarrow> Panic)
    | TypeDecimal \<Rightarrow> (case c of
          CDecimal128 x \<Rightarrow> Ok (VDecimal \<lparr>Unscaled = Some (bigInt lib x), DecScale = Scale field\<rparr>) | _ \<Rightarrow> Panic)
    | TypeDate \<Rightarrow> (case c of CDate32 x \<Rightarrow> Ok (VInt32 x) | _ \<Rightarrow> Panic)
    | TypeTime \<Rightarrow> (case c of CTime32 x \<Rightarrow> Ok (VInt32 x) | _ \<Rightarrow> Panic)
    | TypeTimestampNtz \<Rightarrow> (case c of
          CTimestamp x \<Rightarrow> Ok (VTimestampNtz (arrow_decodeTimestampNtz field x)) | _ \<Rightarrow> Panic)
    | TypeTimestampLtz \<Rightarrow> (case c of
          CTimestamp x \<Rightarrow> Ok (VTimestampLtz (arrow_decodeTimestampLtz field x)) | _ \<Rightarrow> Panic)
    | _ \<Rightarrow> Fail (Errf ''arrowcodec: unsupported type %q''))"

end
