(* ===== verification/Arrow_Batch.thy ===== *)
theory Arrow_Batch
  imports Arrow_Codec
begin

text \<open>
  Arrow record batches (\<open>record_batch.go\<close>) and the log batches that carry them
  (\<open>log_batch.go\<close>).
\<close>

subsection \<open>Record batches\<close>

text \<open>The cells of one row, column by column, then of all rows.\<close>

fun appendRow :: "('d, 'm, 'p, 'r) arrowLib \<Rightarrow> arrowSchema \<Rightarrow> Schema \<Rightarrow> gval list \<Rightarrow> 'd cell list res" where
  "appendRow lib (a # as) (f # fs) (v # vs) =
     andThen (wrapErr ''arrowcodec: row %d field %d: %w'' (appendValue lib (fieldBuilder lib (fst (snd a))) f v)) (\<lambda>c.
       mapRes ((#) c) (appendRow lib as fs vs))"
| "appendRow lib _ _ _ = Ok []"

fun appendRows :: "('d, 'm, 'p, 'r) arrowLib \<Rightarrow> arrowSchema \<Rightarrow> Schema \<Rightarrow> gval list list \<Rightarrow> 'd cell list list res" where
  "appendRows lib sch schema [] = Ok []"
| "appendRows lib sch schema (vals # rows) =
     guard (length vals = length schema) ''arrowcodec: row %d: expected %d values, got %d''
       (andThen (appendRow lib sch schema vals) (\<lambda>cs. mapRes ((#) cs) (appendRows lib sch schema rows)))"

record RecordBatchEncodeOptions =
  OptZstd :: bool
  OptLZ4 :: bool

definition compressionOf :: "RecordBatchEncodeOptions list \<Rightarrow> compression" where
  "compressionOf opts = (case opts of
      [] \<Rightarrow> NoCompression
    | o1 # _ \<Rightarrow> if OptZstd o1 then ZstdCompression else if OptLZ4 o1 then LZ4Compression else NoCompression)"

definition EncodeRecordBatchWithOptions :: "('d, 'm, 'p, 'r) arrowLib \<Rightarrow> Schema \<Rightarrow> gval list list \<Rightarrow>
    RecordBatchEncodeOptions list \<Rightarrow> bytes res" where
  "EncodeRecordBatchWithOptions lib schema rows opts =
     andThen (SchemaFromRowSchema schema) (\<lambda>sch.
       andThen (appendRows lib sch schema rows) (\<lambda>cells.
         andThen (wrapErr ''arrowcodec: encode record batch payload: %w''
             (encodePayload lib sch cells (compressionOf opts))) (\<lambda>payload.
           wrapErr ''arrowcodec: serialize record batch payload: %w'' (writePayload lib payload))))"

definition EncodeRecordBatch where
  "EncodeRecordBatch lib schema rows = EncodeRecordBatchWithOptions lib schema rows []"

fun extractRow :: "('d, 'm, 'p, 'r) arrowLib \<Rightarrow> 'd cell list list \<Rightarrow> nat \<Rightarrow> nat \<Rightarrow> Schema \<Rightarrow> gval list res" where
  "extractRow lib columns rowIdx colIdx [] = Ok []"
| "extractRow lib columns rowIdx colIdx (f # fs) =
     andThen (goindex columns colIdx) (\<lambda>col. andThen (goindex col rowIdx) (\<lambda>c.
       andThen (wrapErr ''arrowcodec: row %d field %d: %w'' (extractValue lib c f)) (\<lambda>v.
         mapRes ((#) v) (extractRow lib columns rowIdx (Suc colIdx) fs))))"

fun extractRows :: "('d, 'm, 'p, 'r) arrowLib \<Rightarrow> 'd cell list list \<Rightarrow> Schema \<Rightarrow> nat list \<Rightarrow> gval list list res" where
  "extractRows lib columns schema [] = Ok []"
| "extractRows lib columns schema (i # is) =
     andThen (extractRow lib columns i 0 schema) (\<lambda>vals. mapRes ((#) vals) (extractRows lib columns schema is))"

definition DecodeRecordBatch :: "('d, 'm, 'p, 'r) arrowLib \<Rightarrow> Schema \<Rightarrow> bytes \<Rightarrow> gval list list res" where
  "DecodeRecordBatch lib schema payload =
     andThen (SchemaFromRowSchema schema) (\<lambda>sch.
       andThen (wrapErr ''arrowcodec: serialize schema payload: %w'' (schemaPayload lib sch)) (\<lambda>schemaBuf.
         andThen (wrapErr ''arrowcodec: read schema message: %w'' (readMessage lib schemaBuf)) (\<lambda>schemaMsg.
           andThen (wrapErr ''arrowcodec: read record batch message: %w'' (readMessage lib payload)) (\<lambda>recordMsg.
             andThen (wrapErr ''arrowcodec: open record batch reader: %w''
                 (newReader lib (newStaticMessageReader [schemaMsg, recordMsg]))) (\<lambda>reader.
               andThen (wrapErr ''arrowcodec: read record batch: %w'' (nextBatch lib reader)) (\<lambda>batch.
                 case batch of
                   None \<Rightarrow> Ok []
                 | Some (numRows, columns) \<Rightarrow> extractRows lib columns schema [0..<numRows]))))))"

subsection \<open>Log batches\<close>

record ArrowLogBatchOptions =
  ArrowSchemaID :: int32
  AppendOnly :: bool
  UseZstd :: bool
  UseLZ4 :: bool
  ArrowWriterState :: "WriterState option"

definition arrow_encodedWriterID :: "WriterState option \<Rightarrow> 64 word" where
  "arrow_encodedWriterID ws = (case ws of None \<Rightarrow> - 1 | Some s \<Rightarrow> WriterID s)"

definition arrow_encodedBatchSequence :: "WriterState option \<Rightarrow> 32 word" where
  "arrow_encodedBatchSequence ws = (case ws of None \<Rightarrow> - 1 | Some s \<Rightarrow> BatchSequence s)"

definition arrow_encodeLogBatch :: "bytes \<Rightarrow> nat \<Rightarrow> ArrowLogBatchOptions \<Rightarrow> bytes" where
  "arrow_encodeLogBatch recordPayload recordCount opts =
     (let buf = putU64 0
            @ putU32 (word_of_nat (36 + length recordPayload))
            @ [0]
            @ putU64 0
            @ putU32 0
            @ putU16 (ucast (ArrowSchemaID opts))
            @ [if AppendOnly opts then 1 else 0]
            @ putU32 0
            @ putU64 (arrow_encodedWriterID (ArrowWriterState opts))
            @ putU32 (arrow_encodedBatchSequence (ArrowWriterState opts))
            @ putU32 (word_of_nat recordCount)
            @ recordPayload
      in patchU32 21 (crc32c (drop 25 buf)) buf)"

text \<open>
  As in the row codec, slices of the batch below its capacity do not panic. The record count
  and the append-only flag are read from the batch; without the flag the change types, one
  byte a record, are cut off the payload.
\<close>

unbundle bit_operations_syntax

definition arrow_decodeLogBatch :: "bytes \<Rightarrow> bool \<Rightarrow> (nat \<times> bytes \<times> bool) res" where
  "arrow_decodeLogBatch payload validateCRC =
     (if length payload < 48 then Fail (Errf ''arrowcodec: log batch payload too short'')
      else if payload ! 12 \<noteq> 0 then Fail (Errf ''arrowcodec: unsupported log batch magic %d'')
      else let batchSize = unat (getU32 (drop 8 payload)) + 12 in
        if batchSize > length payload then Fail (Errf ''arrowcodec: log batch payload truncated'')
        else let batch = take batchSize payload in
          andThen (if validateCRC then
              andThen (goslice batch 25 batchSize) (\<lambda>body.
                if getU32 (drop 21 payload) \<noteq> crc32c body then Fail (Errf ''arrowcodec: invalid log batch crc'')
                else Ok ())
            else Ok ()) (\<lambda>_.
            let recordCount = unat (getU32 (drop 44 payload)) in
            andThen (goindex batch 27) (\<lambda>attributes.
              let appendOnly = (attributes AND 1 \<noteq> 0) in
              andThen (goslice batch 48 batchSize) (\<lambda>recordPayload.
                if \<not> appendOnly \<and> recordCount > 0 then
                  if length recordPayload < recordCount
                  then Fail (Errf ''arrowcodec: log batch change-type vector truncated'')
                  else Ok (batchSize, drop recordCount recordPayload, appendOnly)
                else Ok (batchSize, recordPayload, appendOnly)))))"


definition arrow_EncodeLogRecordBatch :: "('d, 'm, 'p, 'r) arrowLib \<Rightarrow> Schema \<Rightarrow> gval list list \<Rightarrow>
    ArrowLogBatchOptions \<Rightarrow> bytes res" where
  "arrow_EncodeLogRecordBatch lib schema rows opts =
     andThen (SchemaValidate schema) (\<lambda>_.
       if length rows = 0 then Fail (Errf ''arrowcodec: at least one row is required'')
       else andThen (EncodeRecordBatchWithOptions lib schema rows [\<lparr>OptZstd = UseZstd opts, OptLZ4 = UseLZ4 opts\<rparr>])
         (\<lambda>recordPayload. Ok (arrow_encodeLogBatch recordPayload (length rows) opts)))"

lemma arrow_decodeLogBatch_size:
  "arrow_decodeLogBatch p v = Ok (n, r, a) \<Longrightarrow> 12 \<le> n \<and> n \<le> length p"
  by (auto simp: arrow_decodeLogBatch_def Let_def res_elims split: if_splits)

text \<open>The loop over the batches of a payload.\<close>

function arrowBatchRows :: "('d, 'm, 'p, 'r) arrowLib \<Rightarrow> Schema \<Rightarrow> bool \<Rightarrow> bytes \<Rightarrow> gval list list res" where
  "arrowBatchRows lib schema validateCRC payload =
     (if payload = [] then Ok []
      else andThen (arrow_decodeLogBatch payload validateCRC) (\<lambda>(batchSize, recordPayload, _).
        andThen (DecodeRecordBatch lib schema recordPayload) (\<lambda>decoded.
          mapRes ((@) decoded) (arrowBatchRows lib schema validateCRC (drop batchSize payload)))))"
  by pat_completeness auto
termination
  by (relation "measure (\<lambda>(lib, schema, v, payload). length payload)") (auto dest: arrow_decodeLogBatch_size)

declare arrowBatchRows.simps [simp del]

definition decodeLogRecordBatchRows where
  "decodeLogRecordBatchRows lib schema payload validateCRC =
     andThen (SchemaValidate schema) (\<lambda>_. arrowBatchRows lib schema validateCRC payload)"

definition arrow_DecodeLogRecordBatchRows where
  "arrow_DecodeLogRecordBatchRows lib schema payload = decodeLogRecordBatchRows lib schema payload True"

definition DecodeProjectedLogRecordBatchRows where
  "DecodeProjectedLogRecordBatchRows lib schema payload = decodeLogRecordBatchRows lib schema payload False"

subsection \<open>Timestamps\<close>

text \<open>
  The values a timestamp column carries without loss: not before the epoch when it has a part
  below the millisecond, and a multiple of the column's unit.
\<close>

definition timestampFits :: "FieldType \<Rightarrow> int64 \<Rightarrow> int32 \<Rightarrow> bool" where
  "timestampFits f ms ns \<longleftrightarrow> 0 \<le> sint ns \<and> sint ns < 1000000 \<and>
     (if Length f \<le> 0 then 1000 dvd sint ms \<and> sint ns = 0
      else if Length f \<le> 3 then sint ns = 0
      else if Length f \<le> 6 then 1000 dvd sint ns \<and> \<bar>sint ms\<bar> < 2 ^ 53 \<and> (0 \<le> sint ms \<or> sint ns = 0)
      else \<bar>sint ms\<bar> < 2 ^ 43 \<and> (0 \<le> sint ms \<or> sint ns = 0))"

end
