(* ===== verification/Client_Row.thy ===== *)
theory Client_Row
  imports Table_Read Table_Write Table_Descriptor Arrow_Batch Row_Laws
begin

text \<open>
  Rows on top of the table client (\<open>client/row.go\<close>): encoding rows for a log or key-value
  table, looking rows up and scanning them. The format of a table comes from its descriptor.
\<close>

subsection \<open>Writing\<close>

type_synonym batch_order = "BucketRecordBatch groups \<Rightarrow> BucketRecordBatch groups"

definition AppendIndexedRow :: "'w network \<Rightarrow> batch_order \<Rightarrow> rat_parser \<Rightarrow> TablePath \<Rightarrow> int32 \<Rightarrow> Row \<Rightarrow>
    ('w, write_outcome) act" where
  "AppendIndexedRow rpc ord rp path bucketID row =
     orReturn (ensureTableInfo rpc path) (\<lambda>info.
       orReturn (liftA (EncodeLogRecordBatch rp (RowSchema row) (RowValues row)
           \<lparr>LogSchemaID = SchemaID info, LogIndexed = True, LogWriterState = None\<rparr>)) (\<lambda>payload.
         AppendLog rpc ord path (- 1) 15000
           [\<lparr>BatchPartitionID = None, BatchBucketID = bucketID, BatchRecords = payload\<rparr>]))"

text \<open>The loop that checks the rows and collects their values.\<close>

fun arrowRowValues :: "Schema \<Rightarrow> Row list \<Rightarrow> gval list list res" where
  "arrowRowValues schema [] = Ok []"
| "arrowRowValues schema (row # rows) =
     guard (length (RowSchema row) = length schema) ''fluss: append arrow rows: row %d schema field count mismatch''
       (andThen (wrapErr ''fluss: append arrow rows: row %d schema invalid: %w'' (SchemaValidate (RowSchema row))) (\<lambda>_.
         mapRes ((#) (RowValues row)) (arrowRowValues schema rows)))"

definition arrowOptions :: "int32 \<Rightarrow> (string \<rightharpoonup> string) \<Rightarrow> ArrowLogBatchOptions res" where
  "arrowOptions schemaID properties =
     (let opts = \<lparr>ArrowSchemaID = schemaID, AppendOnly = True, UseZstd = False, UseLZ4 = False, ArrowWriterState = None\<rparr>;
          kind = toUpper (property properties ''table.log.arrow.compression.type'') in
      if kind = '''' \<or> kind = ''ZSTD'' then Ok (opts\<lparr>UseZstd := True\<rparr>)
      else if kind = ''LZ4_FRAME'' then Ok (opts\<lparr>UseLZ4 := True\<rparr>)
      else if kind = ''NONE'' then Ok opts
      else Fail (Errf ''fluss: append arrow rows: unsupported arrow compression type %q''))"

definition AppendArrowRows :: "'w network \<Rightarrow> batch_order \<Rightarrow> ('d, 'm, 'p, 'r) arrowLib \<Rightarrow> unmarshal_table \<Rightarrow> TablePath \<Rightarrow>
    int32 \<Rightarrow> Row list \<Rightarrow> ('w, write_outcome) act" where
  "AppendArrowRows rpc ord lib unmarshal path bucketID rows =
     (case rows of
        [] \<Rightarrow> liftA (Ok ([], Some (Errf ''fluss: append arrow rows: at least one row is required'')))
      | first # _ \<Rightarrow>
        orReturn (ensureTableInfo rpc path) (\<lambda>info.
          orReturn (liftA (arrowRowValues (RowSchema first) rows)) (\<lambda>vals.
            orReturn (liftA (wrapErr ''fluss: append arrow rows: parse table properties: %w''
                (ParseTableProperties unmarshal (TableJSON info)))) (\<lambda>properties.
              orReturn (liftA (arrowOptions (SchemaID info) properties)) (\<lambda>logOpts.
                orReturn (liftA (arrow_EncodeLogRecordBatch lib (RowSchema first) vals logOpts)) (\<lambda>payload.
                  AppendLog rpc ord path (- 1) 15000
                    [\<lparr>BatchPartitionID = None, BatchBucketID = bucketID, BatchRecords = payload\<rparr>]))))))"

text \<open>The position of the first column with a name.\<close>

fun columnIndex :: "string list \<Rightarrow> string \<Rightarrow> int option" where
  "columnIndex [] keyName = None"
| "columnIndex (c # cs) keyName = (if c = keyName then Some 0 else map_option ((+) 1) (columnIndex cs keyName))"

fun keyColumnsByName :: "string list \<Rightarrow> string list \<Rightarrow> int list res" where
  "keyColumnsByName columnNames [] = Ok []"
| "keyColumnsByName columnNames (keyName # keyNames) = (case columnIndex columnNames keyName of
      None \<Rightarrow> Fail (Errf ''fluss: key column %q not found in table schema %s'')
    | Some idx \<Rightarrow> mapRes ((#) idx) (keyColumnsByName columnNames keyNames))"

definition kvEncoding :: "'w network \<Rightarrow> unmarshal_table \<Rightarrow> TablePath \<Rightarrow> ('w, int32 \<times> int list \<times> bool) act" where
  "kvEncoding rpc unmarshal path =
     bindA (ensureTableInfo rpc path) (\<lambda>info.
       bindA (liftA (wrapErr ''fluss: parse table keys: %w'' (ParseTableDescriptor unmarshal (TableJSON info))))
         (\<lambda>(columnNames, _, primaryKeys, _).
           bindA (liftA (keyColumnsByName columnNames primaryKeys)) (\<lambda>keyColumns.
             bindA (liftA (wrapErr ''fluss: parse table properties: %w'' (ParseTableProperties unmarshal (TableJSON info))))
               (\<lambda>properties. liftA (Ok (SchemaID info, keyColumns,
                  \<not> equalFold (property properties ''table.kv.format'') ''compacted''))))))"

definition encodeKVRow :: "'w network \<Rightarrow> unmarshal_table \<Rightarrow> rat_parser \<Rightarrow> TablePath \<Rightarrow> Row \<Rightarrow> ('w, bytes \<times> bool) act" where
  "encodeKVRow rpc unmarshal rp path row =
     bindA (kvEncoding rpc unmarshal path) (\<lambda>(schemaID, keyColumns, indexed).
       bindA (liftA (EncodeKvRecordBatch rp (RowSchema row) (RowValues row)
           \<lparr>KvSchemaID = schemaID, KvIndexed = indexed, KeyColumns = keyColumns, KvWriterState = None\<rparr>))
         (\<lambda>payload. liftA (Ok (payload, indexed))))"

definition encodeKVDeleteRow :: "'w network \<Rightarrow> unmarshal_table \<Rightarrow> rat_parser \<Rightarrow> TablePath \<Rightarrow> Row \<Rightarrow> ('w, bytes \<times> bool) act" where
  "encodeKVDeleteRow rpc unmarshal rp path row =
     bindA (kvEncoding rpc unmarshal path) (\<lambda>(schemaID, keyColumns, indexed).
       bindA (liftA (EncodeKvDeleteRecordBatch rp (RowSchema row) (RowValues row)
           \<lparr>KvSchemaID = schemaID, KvIndexed = indexed, KeyColumns = keyColumns, KvWriterState = None\<rparr>))
         (\<lambda>payload. liftA (Ok (payload, indexed))))"

text \<open>All columns in their order is the same as no target columns, the value nil.\<close>

definition normalizeTargetColumns :: "int32 list \<Rightarrow> nat \<Rightarrow> int32 list" where
  "normalizeTargetColumns targetColumns fieldCount =
     (if length targetColumns = 0 then []
      else if length targetColumns \<noteq> fieldCount then targetColumns
      else if \<exists>i \<in> set [0..<length targetColumns]. targetColumns ! i \<noteq> word_of_nat i then targetColumns
      else [])"

definition UpsertRow :: "'w network \<Rightarrow> batch_order \<Rightarrow> unmarshal_table \<Rightarrow> rat_parser \<Rightarrow> TablePath \<Rightarrow> int32 \<Rightarrow> Row \<Rightarrow>
    int32 list \<Rightarrow> ('w, write_outcome) act" where
  "UpsertRow rpc ord unmarshal rp path bucketID row targetColumns =
     orReturn (encodeKVRow rpc unmarshal rp path row) (\<lambda>(payload, _).
       UpsertKV rpc ord path (- 1) 15000 (normalizeTargetColumns targetColumns (length (RowSchema row))) None
         [\<lparr>BatchPartitionID = None, BatchBucketID = bucketID, BatchRecords = payload\<rparr>])"

definition UpsertIndexedRow where
  "UpsertIndexedRow rpc ord unmarshal rp path bucketID row targetColumns =
     UpsertRow rpc ord unmarshal rp path bucketID row targetColumns"

definition PartialUpdateRow where
  "PartialUpdateRow rpc ord unmarshal rp path bucketID row targetColumns =
     (if length targetColumns = 0
      then liftA (Ok ([], Some (Errf ''fluss: partial update row: at least one target column is required'')))
      else UpsertRow rpc ord unmarshal rp path bucketID row targetColumns)"

definition PartialUpdateIndexedRow where
  "PartialUpdateIndexedRow rpc ord unmarshal rp path bucketID row targetColumns =
     PartialUpdateRow rpc ord unmarshal rp path bucketID row targetColumns"

definition DeleteRow :: "'w network \<Rightarrow> batch_order \<Rightarrow> unmarshal_table \<Rightarrow> rat_parser \<Rightarrow> TablePath \<Rightarrow> int32 \<Rightarrow> Row \<Rightarrow>
    int32 list \<Rightarrow> ('w, write_outcome) act" where
  "DeleteRow rpc ord unmarshal rp path bucketID row targetColumns =
     orReturn (encodeKVDeleteRow rpc unmarshal rp path row) (\<lambda>(payload, _).
       UpsertKV rpc ord path (- 1) 15000 (normalizeTargetColumns targetColumns (length (RowSchema row))) None
         [\<lparr>BatchPartitionID = None, BatchBucketID = bucketID, BatchRecords = payload\<rparr>])"

definition DeleteIndexedRow where
  "DeleteIndexedRow rpc ord unmarshal rp path bucketID row targetColumns =
     DeleteRow rpc ord unmarshal rp path bucketID row targetColumns"

subsection \<open>Decoding payloads\<close>

definition DecodeIndexedRowPayload where
  "DecodeIndexedRowPayload schema payload =
     wrapErr ''fluss: decode indexed row payload: %w'' (DecodeIndexed schema payload)"

definition DecodeIndexedLogBatchPayload where
  "DecodeIndexedLogBatchPayload schema payload =
     wrapErr ''fluss: decode indexed log batch payload: %w'' (DecodeLogRecordBatch schema payload)"

definition DecodeIndexedLogBatchRows where
  "DecodeIndexedLogBatchRows schema payload =
     wrapErr ''fluss: decode indexed log batch rows: %w'' (DecodeLogRecordBatchRows schema payload)"

definition DecodeArrowLogBatchRows where
  "DecodeArrowLogBatchRows lib schema payload =
     wrapErr ''fluss: decode arrow log batch rows: %w'' (arrow_DecodeLogRecordBatchRows lib schema payload)"

definition DecodeProjectedArrowLogBatchRows where
  "DecodeProjectedArrowLogBatchRows lib schema payload =
     wrapErr ''fluss: decode projected arrow log batch rows: %w'' (DecodeProjectedLogRecordBatchRows lib schema payload)"

definition DecodeIndexedValueBatchRows where
  "DecodeIndexedValueBatchRows schema payload =
     wrapErr ''fluss: decode indexed value batch rows: %w'' (DecodeValueRecordBatchRows schema payload True)"

definition DecodeIndexedLimitScanRows where
  "DecodeIndexedLimitScanRows schema result =
     (if IsLogTable result then DecodeIndexedLogBatchRows schema (LimitRecords result)
      else DecodeIndexedValueBatchRows schema (LimitRecords result))"

definition DecodeIndexedLookupValuePayload where
  "DecodeIndexedLookupValuePayload schema payload =
     (if length payload < 2 then Fail (Errf ''fluss: decode indexed lookup value payload: data: payload too short'')
      else wrapErr ''fluss: decode indexed lookup value payload: %w'' (DecodeIndexed schema (drop 2 payload)))"

definition DecodeLookupValuePayload :: "Schema \<Rightarrow> bytes \<Rightarrow> bool \<Rightarrow> gval list res" where
  "DecodeLookupValuePayload schema payload indexed =
     (if length payload < 2 then Fail (Errf ''fluss: decode lookup value payload: data: payload too short'')
      else wrapErr ''fluss: decode lookup value payload: %w''
        (if indexed then DecodeIndexed schema (drop 2 payload) else DecodeCompacted schema (drop 2 payload)))"

definition DecodeValueBatchRows :: "Schema \<Rightarrow> bytes \<Rightarrow> bool \<Rightarrow> gval list list res" where
  "DecodeValueBatchRows schema payload indexed =
     wrapErr (if indexed then ''fluss: decode indexed value batch rows: %w''
              else ''fluss: decode compacted value batch rows: %w'')
       (DecodeValueRecordBatchRows schema payload indexed)"

definition DecodeLimitScanRows where
  "DecodeLimitScanRows schema result indexed =
     (if IsLogTable result then DecodeIndexedLogBatchRows schema (LimitRecords result)
      else DecodeValueBatchRows schema (LimitRecords result) indexed)"

subsection \<open>Lookups\<close>

fun encodeKeys :: "rat_parser \<Rightarrow> int list \<Rightarrow> Row list \<Rightarrow> bytes list res" where
  "encodeKeys rp cols [] = Ok []"
| "encodeKeys rp cols (row # rows) =
     andThen (wrapErr ''fluss: lookup indexed rows: encode row %d key: %w'' (EncodeLookupKey rp row cols)) (\<lambda>key.
       mapRes ((#) key) (encodeKeys rp cols rows))"

text \<open>A nil value is a nil row.\<close>

fun lookupDecode :: "Schema \<Rightarrow> bool \<Rightarrow> bytes option list \<Rightarrow> gval list option list res" where
  "lookupDecode schema indexed [] = Ok []"
| "lookupDecode schema indexed (None # ps) = mapRes ((#) None) (lookupDecode schema indexed ps)"
| "lookupDecode schema indexed (Some p # ps) =
     andThen (wrapErr ''fluss: lookup rows: decode row %d: %w'' (DecodeLookupValuePayload schema p indexed)) (\<lambda>vals.
       mapRes ((#) (Some vals)) (lookupDecode schema indexed ps))"

type_synonym lookup_order = "LookupBucketRequest groups \<Rightarrow> LookupBucketRequest groups"

definition LookupRows :: "'w network \<Rightarrow> lookup_order \<Rightarrow> unmarshal_table \<Rightarrow> rat_parser \<Rightarrow> TablePath \<Rightarrow>
    int32 \<Rightarrow> Schema \<Rightarrow> Row list \<Rightarrow> int list \<Rightarrow> ('w, gval list option list) act" where
  "LookupRows rpc ord unmarshal rp path bucketID schema rows keyColumns =
     bindA (kvEncoding rpc unmarshal path) (\<lambda>(_, _, indexed).
       bindA (liftA (encodeKeys rp keyColumns rows)) (\<lambda>keys.
         bindA (Lookup rpc ord path [\<lparr>ReqPartitionID = None, ReqBucketID = bucketID, ReqKeys = keys\<rparr>] None None None)
           (\<lambda>result. liftA (case result of
              [r] \<Rightarrow>
                if length (Values r) \<noteq> length rows
                then Fail (Errf ''fluss: lookup indexed rows: unexpected value count %d'')
                else lookupDecode schema indexed (Values r)
            | _ \<Rightarrow> Fail (Errf ''fluss: lookup indexed rows: unexpected result count %d'')))))"

definition LookupIndexedRows where
  "LookupIndexedRows rpc ord unmarshal rp path bucketID schema rows keyColumns =
     LookupRows rpc ord unmarshal rp path bucketID schema rows keyColumns"

definition LookupRow where
  "LookupRow rpc ord unmarshal rp path bucketID schema row keyColumns =
     bindA (LookupRows rpc ord unmarshal rp path bucketID schema [row] keyColumns) (\<lambda>vals.
       liftA (case vals of
         [v] \<Rightarrow> Ok v | _ \<Rightarrow> Fail (Errf ''fluss: lookup row: unexpected result count %d'')))"

definition LookupIndexedRow where
  "LookupIndexedRow rpc ord unmarshal rp path bucketID schema row keyColumns =
     LookupRow rpc ord unmarshal rp path bucketID schema row keyColumns"

subsection \<open>Scans\<close>

text \<open>
  The loop of \<open>ScanRows\<close>, with fuel: the number of pages it may still read; \<open>None\<close> when
  the fuel is spent before the server says there is no more.
\<close>

fun scanLoop :: "nat \<Rightarrow> 'w network \<Rightarrow> TablePath \<Rightarrow> Schema \<Rightarrow> bool \<Rightarrow> nat \<Rightarrow> gval list list \<Rightarrow> KVScanner \<Rightarrow>
    'w world \<Rightarrow> (gval list list res \<times> KVScanner \<times> 'w world) option" where
  "scanLoop 0 rpc path schema indexed emptyPages out s w = None"
| "scanLoop (Suc fuel) rpc path schema indexed emptyPages out s w =
     (case KVScanner_Next rpc path s w of
        (Ok (Ok result, s1), w1) \<Rightarrow>
          if ScanRecords result = [] then
            if \<not> HasMoreResults result then Some (Ok out, s1, w1)
            else if emptyPages + 1 \<ge> 2
              then Some (Fail (Errf ''fluss: scan indexed rows: scanner made no progress after %d empty pages''), s1, w1)
            else scanLoop fuel rpc path schema indexed (emptyPages + 1) out s1 w1
          else (case wrapErr ''fluss: scan rows: decode batch: %w''
                  (DecodeValueBatchRows schema (ScanRecords result) indexed) of
              Ok rows \<Rightarrow>
                if \<not> HasMoreResults result then Some (Ok (out @ rows), s1, w1)
                else scanLoop fuel rpc path schema indexed 0 (out @ rows) s1 w1
            | Fail e \<Rightarrow> Some (Fail e, s1, w1)
            | Panic \<Rightarrow> Some (Panic, s1, w1))
      | (Ok (Fail e, s1), w1) \<Rightarrow> Some (Fail e, s1, w1)
      | (Ok (Panic, s1), w1) \<Rightarrow> Some (Panic, s1, w1)
      | (Fail e, w1) \<Rightarrow> Some (Fail e, s, w1)
      | (Panic, w1) \<Rightarrow> Some (Panic, s, w1))"

text \<open>The deferred \<open>Close\<close> runs on every return; its error is dropped.\<close>

definition ScanRows :: "nat \<Rightarrow> 'w network \<Rightarrow> unmarshal_table \<Rightarrow> TablePath \<Rightarrow> int64 option \<Rightarrow> int32 \<Rightarrow> int64 option \<Rightarrow>
    int32 \<Rightarrow> Schema \<Rightarrow> 'w world \<Rightarrow> (gval list list res \<times> 'w world) option" where
  "ScanRows fuel rpc unmarshal path partitionID bucketID limit batchSizeBytes schema w =
     (case kvEncoding rpc unmarshal path w of
        (Ok (_, _, indexed), w1) \<Rightarrow>
          (case scanLoop fuel rpc path schema indexed 0 [] (NewKVScanner partitionID bucketID limit batchSizeBytes) w1 of
             None \<Rightarrow> None
           | Some (r, s, w2) \<Rightarrow> (case KVScanner_Close rpc path s w2 of
               (Panic, w3) \<Rightarrow> Some (Panic, w3)
             | (_, w3) \<Rightarrow> Some (r, w3)))
      | (Fail e, w1) \<Rightarrow> Some (Fail e, w1)
      | (Panic, w1) \<Rightarrow> Some (Panic, w1))"

definition ScanIndexedRows where
  "ScanIndexedRows fuel rpc unmarshal path partitionID bucketID limit batchSizeBytes schema w =
     ScanRows fuel rpc unmarshal path partitionID bucketID limit batchSizeBytes schema w"

end
