(* ===== verification/Table_Format.thy ===== *)
theory Table_Format
  imports Client_Row Row_Compact
begin

text \<open>
  The stored form of the rows of a key-value table, in the indexed or the compacted format:
  what a server keeps for a row, and that the client decodes it to the row. The compacted
  format is limited to the kinds it carries without loss (\<open>compactable\<close>).
\<close>

definition rowFormat :: "bool \<Rightarrow> Schema \<Rightarrow> bool" where
  "rowFormat indexed schema \<longleftrightarrow> SchemaValidate schema = Ok () \<and> (indexed \<or> list_all compactable schema)"

lemma row_decode:
  assumes "rowFormat indexed schema" and "conformsRow schema vals"
    and "encodeRow rp schema vals indexed = Ok enc" and "length enc < 2 ^ 32"
  shows "decodeRow schema enc indexed = Ok vals"
proof (cases indexed)
  case True
  have "list_all2 (\<lambda>f v. v = VNil \<or> (Validate f = Ok () \<and> conforms f v)) schema vals"
    using assms(1,2) by (auto simp: rowFormat_def SchemaValidate_Ok_iff list_all2_conv_all_nth)
  with indexed.row_roundtrip assms(3,4) True show ?thesis by (simp del: decodeRow.simps encodeRow.simps)
next
  case False
  have "list_all2 (\<lambda>f v. v = VNil \<or> (compactable f \<and> conforms f v)) schema vals"
    using assms(1,2) False by (auto simp: rowFormat_def list_all_length list_all2_conv_all_nth)
  with compacted.row_roundtrip assms(3,4) False show ?thesis by (simp del: decodeRow.simps encodeRow.simps)
qed

text \<open>A stored row as the server keeps it: the schema id in two bytes, then the encoded row.\<close>

definition storedRow :: "rat_parser \<Rightarrow> Schema \<Rightarrow> 16 word \<Rightarrow> bool \<Rightarrow> (bytes \<rightharpoonup> gval list) \<Rightarrow> bytes \<Rightarrow> bytes option" where
  "storedRow rp schema sid indexed content key = (case content key of
      None \<Rightarrow> None
    | Some vals \<Rightarrow> (case encodeRow rp schema vals indexed of Ok enc \<Rightarrow> Some (putU16 sid @ enc) | _ \<Rightarrow> None))"

definition contentFits :: "rat_parser \<Rightarrow> Schema \<Rightarrow> bool \<Rightarrow> (bytes \<rightharpoonup> gval list) \<Rightarrow> bool" where
  "contentFits rp schema indexed content \<longleftrightarrow> (\<forall>key vals. content key = Some vals \<longrightarrow> conformsRow schema vals
     \<and> (\<forall>enc. encodeRow rp schema vals indexed = Ok enc \<longrightarrow> length enc < 2 ^ 32))"

lemma lookupDecode_stored:
  assumes "rowFormat indexed schema" and "contentFits rp schema indexed content"
  shows "lookupDecode schema indexed (map (storedRow rp schema sid indexed content) keys) = Ok (map content keys)"
proof (induction keys)
  case (Cons key keys)
  show ?case
  proof (cases "content key")
    case None
    with Cons show ?thesis by (simp add: storedRow_def)
  next
    case (Some vals)
    with assms(2) have v: "conformsRow schema vals" by (auto simp: contentFits_def)
    from assms(1) have "SchemaValidate schema = Ok ()" by (simp add: rowFormat_def)
    from encodeRow_total[OF this v] obtain enc where enc: "encodeRow rp schema vals indexed = Ok enc" by blast
    with Some assms(2) have "length enc < 2 ^ 32" by (auto simp: contentFits_def)
    from row_decode[OF assms(1) v enc this] Some enc Cons show ?thesis
      by (cases indexed) (simp_all add: storedRow_def DecodeLookupValuePayload_def DecodeIndexed_def DecodeCompacted_def
          del: decodeRow.simps encodeRow.simps)
  qed
qed simp

text \<open>The descriptor of a table names its key columns and its format.\<close>

definition kvTable :: "unmarshal_table \<Rightarrow> TableInfo \<Rightarrow> int list \<Rightarrow> bool \<Rightarrow> bool" where
  "kvTable unmarshal info ks indexed \<longleftrightarrow> (\<exists>desc. unmarshal (TableJSON info) = Ok desc
     \<and> keyColumnsByName (SchemaColumns desc) (SchemaPrimaryKey desc) = Ok ks
     \<and> indexed = (\<not> equalFold (property (case DescProperties desc of None \<Rightarrow> Map.empty | Some m \<Rightarrow> m) ''table.kv.format'') ''compacted''))"

lemma kvEncoding_table:
  assumes "Table (cache w) path = Some info" and "kvTable unmarshal info ks indexed"
  shows "kvEncoding rpc unmarshal path w = (Ok (SchemaID info, ks, indexed), w)"
  using assms by (auto simp: kvTable_def kvEncoding_def ensureTableInfo_def ParseTableDescriptor_def ParseTableProperties_def)

end
