(* ===== verification/Read_Properties.thy ===== *)
theory Read_Properties
  imports Table_Format
begin

text \<open>The properties of the read path: lookups, lookups of rows, and scans.\<close>

subsection \<open>Lookups\<close>

definition lookupRequest :: "int64 \<Rightarrow> bool option \<Rightarrow> int32 option \<Rightarrow> int32 option \<Rightarrow> LookupBucketRequest list \<Rightarrow> Request" where
  "lookupRequest t ins acks tmo items = LookupRequest t ins acks tmo (map buildLookupBucket items)"

text \<open>The answer of a server that keeps, per partition and bucket, a map from keys to values.\<close>

definition answerFrom :: "(int64 option \<Rightarrow> int32 \<Rightarrow> bytes \<Rightarrow> bytes option) \<Rightarrow> LookupBucketRequest \<Rightarrow> LookupBucketValues" where
  "answerFrom kept req = \<lparr>ValPartitionID = ReqPartitionID req, ValBucketID = ReqBucketID req,
     Values = map (kept (ReqPartitionID req) (ReqBucketID req)) (ReqKeys req)\<rparr>"

lemma Lookup_cached:
  assumes "Table (cache w) path = Some info"
    and "serves rpc (lookupRequest (TableID info) ins acks tmo) parseLookupResults (answerFrom kept)"
    and "\<And>gs. mset (ord gs) = mset gs"
    and "\<forall>r \<in> set reqs. routeFor (cache w) (TableID info) (ReqPartitionID r) (ReqBucketID r) = Ok (node r)"
  shows "\<exists>out n. Lookup rpc ord path reqs ins acks tmo w = (Ok out, w\<lparr>net := n\<rparr>)
    \<and> mset out = image_mset (answerFrom kept) (mset reqs)"
proof -
  have "ensureTableInfo rpc path w = (Ok info, w)" using assms(1) by (simp add: ensureTableInfo_def)
  then show ?thesis
    using grouped_read[where part = ReqPartitionID and bucket = ReqBucketID, OF assms(2) assms(3) assms(4)]
    by (simp add: Lookup_def lookupCommon_def groupLookupsByLeader_def lookupRequest_def[abs_def])
qed


text \<open>A world with one table, two buckets led by two servers, and servers that answer from a kept.\<close>

definition twoCache :: Cache where
  "twoCache = SetTable \<lparr>Path = \<lparr>DatabaseName = ''d'', TableName = ''t''\<rparr>, TableID = 5, SchemaID = 1, TableJSON = [1],
       CreatedTime = 0, ModifiedTime = 0\<rparr>
     (SetRoute \<lparr>RouteTableID = 5, RoutePartitionID = 0, HasPartition = False, RouteBucketID = 0, LeaderID = 1,
       LeaderEpoch = 0, Replicas = []\<rparr>
     (SetRoute \<lparr>RouteTableID = 5, RoutePartitionID = 0, HasPartition = False, RouteBucketID = 1, LeaderID = 2,
       LeaderEpoch = 0, Replicas = []\<rparr>
     (UpsertServer \<lparr>NodeID = 1, Host = ''a'', Port = 1, Listeners = [], Rack = []\<rparr>
     (UpsertServer \<lparr>NodeID = 2, Host = ''b'', Port = 1, Listeners = [], Rack = []\<rparr> NewCache))))"

definition readPath :: TablePath where "readPath = \<lparr>DatabaseName = ''d'', TableName = ''t''\<rparr>"

definition readWorld :: "unit world" where
  "readWorld = \<lparr>cache = twoCache, endpoints = [''e''], net = ()\<rparr>"

definition readNode :: "int32 \<Rightarrow> ServerNode" where
  "readNode b = (if b = 0 then \<lparr>NodeID = 1, Host = ''a'', Port = 1, Listeners = [], Rack = []\<rparr>
     else \<lparr>NodeID = 2, Host = ''b'', Port = 1, Listeners = [], Rack = []\<rparr>)"

definition storeNet :: "(int64 option \<Rightarrow> int32 \<Rightarrow> bytes \<Rightarrow> bytes option) \<Rightarrow> unit network" where
  "storeNet kept n addr req = (case req of
      LookupRequest t ins acks tmo items \<Rightarrow>
        (Ok (LookupResponse (map (\<lambda>i. PbLookupResp (lookupPartition i) (lookupBucket i) None None
           (map (kept (lookupPartition i) (lookupBucket i)) (lookupKeys i))) items)), ())
    | _ \<Rightarrow> (Fail ErrEOF, ()))"

lemma parse_answers:
  "parseLookupItems (map (\<lambda>i. PbLookupResp (lookupPartition i) (lookupBucket i) None None
     (map (kept (lookupPartition i) (lookupBucket i)) (lookupKeys i))) (map buildLookupBucket reqs))
   = Ok (map (answerFrom kept) reqs)"
  by (induction reqs) (simp_all add: buildLookupBucket_def answerFrom_def bucketAPIError_def)

lemma storeNet_serves:
  "serves (storeNet kept) (lookupRequest t ins acks tmo) parseLookupResults (answerFrom kept)"
  unfolding serves_def lookupRequest_def storeNet_def
  by (auto simp: parseLookupResults_def parse_answers simp del: map_map)

lemma readWorld_cached:
  "Table (cache readWorld) readPath = Some \<lparr>Path = readPath, TableID = 5, SchemaID = 1, TableJSON = [1],
     CreatedTime = 0, ModifiedTime = 0\<rparr>"
  "routeFor (cache readWorld) 5 None 0 = Ok (readNode 0)" "routeFor (cache readWorld) 5 None 1 = Ok (readNode 1)"
  unfolding readWorld_def readPath_def readNode_def by code_simp+



subsection \<open>Rows\<close>

lemma mset_eq_singleton: "mset xs = {#x#} \<Longrightarrow> xs = [x]"
  by (cases xs; cases "tl xs") auto

text \<open>
  \<open>LookupRows\<close> refines the lookup of a row in an abstract table: against servers that keep
  the rows of a map from keys to rows, in the format of the table, it returns, for each queried row,
  the row of the map under its encoded key, or nil where the map has none, in the order of the
  query. This composes the key encoding, routing, the request, parsing and the row decoder.
\<close>

theorem lookup_rows_refines:
  assumes "Table (cache w) path = Some info" and "kvTable unmarshal info ks indexed"
    and "routeFor (cache w) (TableID info) None bucketID = Ok node"
    and "serves rpc (lookupRequest (TableID info) None None None) parseLookupResults
      (answerFrom (\<lambda>p b. storedRow rp schema sid indexed content))"
    and "\<And>gs. mset (ord gs) = mset gs"
    and "rowFormat indexed schema" and "contentFits rp schema indexed content"
    and "encodeKeys rp cols rows = Ok keys"
  shows "\<exists>n. LookupRows rpc ord unmarshal rp path bucketID schema rows cols w = (Ok (map content keys), w\<lparr>net := n\<rparr>)"
proof -
  let ?req = "\<lparr>ReqPartitionID = None, ReqBucketID = bucketID, ReqKeys = keys\<rparr>"
  note k = kvEncoding_table[OF assms(1,2)]
  have "\<forall>r \<in> set [?req]. routeFor (cache w) (TableID info) (ReqPartitionID r) (ReqBucketID r) = Ok node"
    using assms(3) by simp
  from Lookup_cached[OF assms(1,4,5), where node = "\<lambda>_. node", OF this] obtain out n where
    l: "Lookup rpc ord path [?req] None None None w = (Ok out, w\<lparr>net := n\<rparr>)"
    and o: "out = [answerFrom (\<lambda>p b. storedRow rp schema sid indexed content) ?req]"
    by (auto dest!: mset_eq_singleton)
  have "length keys = length rows"
    using assms(8) by (induction rows arbitrary: keys) (auto simp: res_elims)
  with k l o show ?thesis
    by (intro exI[of _ n]) (simp add: LookupRows_def assms(8) answerFrom_def lookupDecode_stored[OF assms(6,7)])
qed

definition demoTable :: unmarshal_table where
  "demoTable json = Ok \<lparr>SchemaColumns = [''id'', ''name''], SchemaPrimaryKey = [''id''], PartitionKeyNames = [],
     BucketKeyNames = [], DescProperties = None\<rparr>"

definition twoColumns :: Schema where "twoColumns = [Int32Type, StringType]"

definition demoContent :: "bytes \<rightharpoonup> gval list" where
  "demoContent k = (if k = [7] then Some [VInt32 7, VString [104]] else None)"

definition queryRow :: "int32 \<Rightarrow> Row" where
  "queryRow i = \<lparr>RowSchema = twoColumns, RowValues = [VInt32 i, VNil]\<rparr>"

lemma demo_keys: "encodeKeys (\<lambda>_. None) [0] [queryRow 7, queryRow 8] = Ok [[7], [8]]"
  by (simp add: queryRow_def twoColumns_def EncodeLookupKey_def type_constructors encodeCompactedKeyValue_def
      coerce_simps goindex_def encodeSignedVarint32_def putUvarint_def putUvarintNat.simps)

lemma demo_content: "rowFormat True twoColumns" "contentFits (\<lambda>_. None) twoColumns True demoContent"
  by (simp_all add: rowFormat_def twoColumns_def SchemaValidate_def type_constructors contentFits_def demoContent_def coerce_simps
      nullBitsSize_def IsFixed_def encodeLengthPrefixedBytes_def)

lemma demo_indexed: "kvTable demoTable info [0] True"
  by (simp add: kvTable_def demoTable_def property_def equalFold_def toUpper_def upperChar_def Let_def)

lemma lookup_rows_refines_witness:
  "\<exists>n. LookupRows (storeNet (\<lambda>p b. storedRow (\<lambda>_. None) twoColumns 1 True demoContent)) (\<lambda>gs. gs) demoTable (\<lambda>_. None) readPath 1
      twoColumns [queryRow 7, queryRow 8] [0] readWorld
    = (Ok [Some [VInt32 7, VString [104]], None], n)"
  using lookup_rows_refines[where ord = "\<lambda>gs. gs" and rpc = "storeNet (\<lambda>p b. storedRow (\<lambda>_. None) twoColumns 1 True demoContent)",
      OF readWorld_cached(1) demo_indexed _ storeNet_serves refl demo_content demo_keys] readWorld_cached(3)
  by (fastforce simp: demoContent_def)

subsection \<open>Scans\<close>

text \<open>The pages that successive calls of \<open>Next\<close> return, and the scanner and world they leave.\<close>

inductive pagesOf :: "'w network \<Rightarrow> TablePath \<Rightarrow> KVScanner \<Rightarrow> 'w world \<Rightarrow> ScanKVResult list \<Rightarrow> KVScanner \<Rightarrow>
    'w world \<Rightarrow> bool" for rpc path where
  noPage: "pagesOf rpc path s w [] s w"
| page: "KVScanner_Next rpc path s w = (Ok (Ok r, s1), w1) \<Longrightarrow> pagesOf rpc path s1 w1 rs s2 w2 \<Longrightarrow>
    pagesOf rpc path s w (r # rs) s2 w2"

inductive_cases pagesOf_NilE: "pagesOf rpc path s w [] s2 w2"
inductive_cases pagesOf_ConsE: "pagesOf rpc path s w (r # rs) s2 w2"

text \<open>A page decodes to its rows; an empty page has none.\<close>

definition pageRows :: "Schema \<Rightarrow> bool \<Rightarrow> ScanKVResult \<Rightarrow> gval list list \<Rightarrow> bool" where
  "pageRows schema indexed r rows \<longleftrightarrow>
     (if ScanRecords r = [] then rows = [] else DecodeValueRecordBatchRows schema (ScanRecords r) indexed = Ok rows)"

text \<open>No two empty pages in a row, counting the empty pages just seen.\<close>

fun calm :: "nat \<Rightarrow> ScanKVResult list \<Rightarrow> bool" where
  "calm n [] \<longleftrightarrow> True"
| "calm n (r # rs) \<longleftrightarrow> (if ScanRecords r = [] then n = 0 \<and> calm 1 rs else calm 0 rs)"

lemma scanLoop_pages:
  assumes "pagesOf rpc path s w (rs @ [final]) s2 w2"
    and "\<forall>r \<in> set rs. HasMoreResults r" and "\<not> HasMoreResults final"
    and "list_all2 (pageRows schema indexed) rs rows" and "pageRows schema indexed final lastRows"
    and "calm n rs" and "length rs < fuel"
  shows "scanLoop fuel rpc path schema indexed n out s w = Some (Ok (out @ concat rows @ lastRows), s2, w2)"
  using assms
proof (induction rs arbitrary: s w rows fuel n out)
  case Nil
  then obtain f where f: "fuel = Suc f" by (cases fuel) auto
  from Nil.prems(1) have "KVScanner_Next rpc path s w = (Ok (Ok final, s2), w2)"
    by (auto elim!: pagesOf_ConsE pagesOf_NilE)
  with Nil f show ?case by (auto simp: pageRows_def DecodeValueBatchRows_def)
next
  case (Cons r rs)
  then obtain f where f: "fuel = Suc f" by (cases fuel) auto
  from Cons.prems(1) obtain s1 w1 where nx: "KVScanner_Next rpc path s w = (Ok (Ok r, s1), w1)"
    and rest: "pagesOf rpc path s1 w1 (rs @ [final]) s2 w2" by (auto elim!: pagesOf_ConsE)
  from Cons.prems(4) obtain x xs where rows: "rows = x # xs" "pageRows schema indexed r x"
    "list_all2 (pageRows schema indexed) rs xs" by (auto simp: list_all2_Cons1)
  have IH: "scanLoop f rpc path schema indexed m out' s1 w1 = Some (Ok (out' @ concat xs @ lastRows), s2, w2)"
    if "calm m rs" for m out'
    using Cons.IH[OF rest _ Cons.prems(3) rows(3) Cons.prems(5) that] Cons.prems(2,7) f by simp
  show ?case
  proof (cases "ScanRecords r = []")
    case True
    with Cons.prems(2,6) rows IH[of 1 out] nx f show ?thesis by (simp add: pageRows_def)
  next
    case False
    with Cons.prems(2,6) rows IH[of 0 "out @ x"] nx f show ?thesis
      by (simp add: pageRows_def DecodeValueBatchRows_def)
  qed
qed

text \<open>The call sequence id counts the calls, and the scanner has started after the first.\<close>

lemma Next_advances:
  assumes "KVScanner_Next rpc path s w = (Ok (Ok r, s1), w1)"
  shows "callSeqID s1 = callSeqID s + 1 \<and> started s1 \<and> hasMore s1 = HasMoreResults r"
proof -
  from assms obtain resp where "nextResult s resp = (Ok r, s1)"
    by (auto simp: KVScanner_Next_def split: res.splits prod.splits)
  then show ?thesis
    by (auto simp: nextResult_def Let_def split: Response.splits if_splits)
qed

lemma pages_advance:
  "pagesOf rpc path s w rs s2 w2 \<Longrightarrow> callSeqID s2 = callSeqID s + word_of_nat (length rs)"
  by (induction rule: pagesOf.induct) (auto dest: Next_advances simp: algebra_simps)

text \<open>
  C29. \<open>ScanRows\<close> returns the rows of all pages, in order, once the server says there is no
  more: when the pages decode, only the last one is final and no two empty pages follow each
  other, as many iterations as there are pages are enough, and the scanner has numbered its
  calls from 0.
\<close>

theorem scan_rows_complete:
  assumes "kvEncoding rpc unmarshal path w = (Ok (sid, ks, indexed), w1)"
    and "pagesOf rpc path (NewKVScanner partitionID bucketID limit pageSize) w1 (rs @ [final]) s2 w2"
    and "\<forall>r \<in> set rs. HasMoreResults r" and "\<not> HasMoreResults final"
    and "list_all2 (pageRows schema indexed) rs rows" and "pageRows schema indexed final lastRows"
    and "calm 0 rs" and "length rs < fuel" and "fst (KVScanner_Close rpc path s2 w2) \<noteq> Panic"
  shows "map_option fst (ScanRows fuel rpc unmarshal path partitionID bucketID limit pageSize schema w)
      = Some (Ok (concat rows @ lastRows))
    \<and> callSeqID s2 = word_of_nat (length rs + 1)"
proof -
  from scanLoop_pages[OF assms(2-8)] assms(1,9) show ?thesis
    using pages_advance[OF assms(2)]
    by (cases "KVScanner_Close rpc path s2 w2") (auto simp: ScanRows_def NewKVScanner_def split: res.splits)
qed

text \<open>A server that counts the calls: one page with a value batch, then an empty final page.\<close>

definition demoPage :: bytes where "demoPage = valueBatchOf [(1, [0, 1])]"

definition scanNet :: "nat network" where
  "scanNet n addr req = (Ok (ScanKvResp (if n = 0 then ScanKvResponse None None (Some [9]) (Some True) (Some demoPage) None
     else ScanKvResponse None None None (Some False) None None)), Suc n)"

definition scanWorld :: "nat \<Rightarrow> nat world" where
  "scanWorld n = \<lparr>cache = twoCache, endpoints = [''e''], net = n\<rparr>"

lemma scanWorld_cached:
  "Table (cache (scanWorld n)) readPath = Some \<lparr>Path = readPath, TableID = 5, SchemaID = 1, TableJSON = [1],
     CreatedTime = 0, ModifiedTime = 0\<rparr>"
  "routeFor (cache (scanWorld n)) 5 None 0 = Ok (readNode 0)" "(scanWorld n)\<lparr>net := m\<rparr> = scanWorld m" "net (scanWorld n) = n"
  using readWorld_cached by (simp_all add: readWorld_def scanWorld_def)

lemma demo_page: "DecodeValueRecordBatchRows [BoolType] demoPage True = Ok [[VBool True]]" "demoPage \<noteq> []"
proof -
  show "DecodeValueRecordBatchRows [BoolType] demoPage True = Ok [[VBool True]]"
    unfolding demoPage_def
    by (rule decodeValueBatch_encode)
      (simp_all add: SchemaValidate_def type_constructors nullBitsSize_def nullBitSet_def goindex_def IsFixed_def
        fixedSize_def goslice_def valueBatchOf_def valueRecordOf_def Let_def)
qed (simp add: demoPage_def valueBatchOf_def Let_def)

definition firstPage :: ScanKVResult where
  "firstPage = \<lparr>ScannerID = [9], HasMoreResults = True, ScanRecords = demoPage, ScanLogOffset = None\<rparr>"

definition lastPage :: ScanKVResult where
  "lastPage = \<lparr>ScannerID = [], HasMoreResults = False, ScanRecords = [], ScanLogOffset = None\<rparr>"

definition scanReply :: "nat \<Rightarrow> Response" where
  "scanReply n = ScanKvResp (if n = 0 then ScanKvResponse None None (Some [9]) (Some True) (Some demoPage) None
     else ScanKvResponse None None None (Some False) None None)"

lemma scan_step:
  assumes "ScanBucketID s = 0" and "ScanPartitionID s = None"
  shows "KVScanner_Next scanNet readPath s (scanWorld n) = (Ok (nextResult s (scanReply n)), scanWorld (Suc n))"
  using assms by (simp add: KVScanner_Next_def ensureTableInfo_def tableRouteFor_def invokeA_def scanNet_def
      scanReply_def scanWorld_cached)

definition scannerAfter :: KVScanner where
  "scannerAfter = (NewKVScanner None 0 None 0)\<lparr>scannerID := [9], callSeqID := 2, started := True\<rparr>"

lemma demo_pages:
  "pagesOf scanNet readPath (NewKVScanner None 0 None 0) (scanWorld 0) ([firstPage] @ [lastPage]) scannerAfter (scanWorld 2)"
proof -
  let ?s = "NewKVScanner None 0 None 0"
  let ?s1 = "?s\<lparr>scannerID := [9], callSeqID := 1, started := True, hasMore := True\<rparr>"
  have "KVScanner_Next scanNet readPath ?s (scanWorld 0) = (Ok (Ok firstPage, ?s1), scanWorld 1)"
    by (subst scan_step) (simp_all add: NewKVScanner_def nextResult_def scanReply_def firstPage_def Let_def)
  moreover have "KVScanner_Next scanNet readPath ?s1 (scanWorld 1) = (Ok (Ok lastPage, scannerAfter), scanWorld 2)"
    by (subst scan_step)
      (simp_all add: NewKVScanner_def nextResult_def scanReply_def lastPage_def scannerAfter_def Let_def numeral_2_eq_2)
  ultimately show ?thesis by (auto intro: pagesOf.intros)
qed

lemma demo_close: "fst (KVScanner_Close scanNet readPath scannerAfter (scanWorld 2)) \<noteq> Panic"
  by (simp add: KVScanner_Close_def scannerAfter_def NewKVScanner_def ensureTableInfo_def tableRouteFor_def invokeA_def
      scanNet_def scanWorld_cached)

lemma scan_rows_complete_witness:
  "map_option fst (ScanRows 2 scanNet demoTable readPath None 0 None 0 [BoolType] (scanWorld 0)) = Some (Ok [[VBool True]])"
proof -
  have k: "kvEncoding scanNet demoTable readPath (scanWorld 0) = (Ok (1, [0], True), scanWorld 0)"
    using kvEncoding_table[OF scanWorld_cached(1)[of 0] demo_indexed] by simp
  have "map_option fst (ScanRows 2 scanNet demoTable readPath None 0 None 0 [BoolType] (scanWorld 0))
      = Some (Ok (concat [[[VBool True]]] @ [])) \<and> callSeqID scannerAfter = word_of_nat (length [firstPage] + 1)"
    by (rule scan_rows_complete[OF k demo_pages])
      (simp_all add: pageRows_def demo_page demo_close firstPage_def lastPage_def)
  then show ?thesis by simp
qed

end
