(* ===== verification/Arrow_Laws.thy ===== *)
theory Arrow_Laws
  imports Arrow_Batch
begin

text \<open>The laws of the Arrow codec: timestamps, cells, rows, record batches and log batches.\<close>

subsection \<open>Timestamps\<close>

lemma sdiv_exact: "0 < c \<Longrightarrow> (k * c) sdiv c = (k :: int)" "0 < c \<Longrightarrow> (k * c) smod c = (0 :: int)"
  by (simp_all add: signed_divide_int_def signed_modulo_int_def abs_mult sgn_mult sgn_mult_abs)

lemma sdiv_nonneg: "0 \<le> a \<Longrightarrow> 0 < c \<Longrightarrow> a sdiv c = a div (c :: int)" "0 \<le> a \<Longrightarrow> 0 < c \<Longrightarrow> a smod c = a mod (c :: int)"
  by (cases "a = 0"; simp add: signed_divide_int_def signed_modulo_int_def minus_div_mult_eq_mod)+

lemma sdiv_parts:
  assumes "0 \<le> q" and "q < c" and "0 \<le> k \<or> q = 0"
  shows "(k * c + q) sdiv c = (k :: int) \<and> (k * c + q) smod c = q"
  using assms sdiv_exact[of c k] sdiv_nonneg[of "k * c + q" c] by auto

lemma sint_word_of_int_small: "\<bar>x\<bar> < 2 ^ 63 \<Longrightarrow> sint (word_of_int x :: int64) = x"
  by (simp add: sint_sbintrunc' signed_take_bit_int_eq_self)

lemma timestamp_parts:
  assumes "timestampFits f ms ns"
  shows "timestampParts f (timestampValueForField f ms ns) = (ms, ns)"
proof -
  let ?m = "sint ms" and ?n = "sint ns"
  have bounds: "0 \<le> ?n" "?n < 1000000" using assms by (auto simp: timestampFits_def)
  have ms: "word_of_int ?m = ms" and ns: "word_of_int ?n = ns" by simp_all
  consider "Length f \<le> 0" | "0 < Length f" "Length f \<le> 3" | "3 < Length f" "Length f \<le> 6" | "6 < Length f"
    by linarith
  then show ?thesis
  proof cases
    case 1
    with assms obtain k where k: "?m = 1000 * k" and n0: "?n = 0" by (auto simp: timestampFits_def)
    have "(word_of_int k * 1000 :: int64) = word_of_int (k * 1000)" by simp
    then have "(word_of_int k * 1000 :: int64) = ms" using k ms by (simp only: mult.commute)
    moreover have "ns = 0" using n0 by (metis sint_0 signed_word_eqI)
    ultimately show ?thesis using 1 k by (simp add: timestampParts_def timestampValueForField_def timeNanos_def Let_def n0)
  next
    case 2
    with assms have n0: "?n = 0" by (auto simp: timestampFits_def)
    then have "ns = 0" by (metis sint_0 signed_word_eqI)
    with 2 n0 show ?thesis by (simp add: timestampParts_def timestampValueForField_def timeNanos_def Let_def)
  next
    case 3
    with assms obtain q where q: "?n = 1000 * q" and m: "\<bar>?m\<bar> < 2 ^ 53" and s: "0 \<le> ?m \<or> ?n = 0"
      by (auto simp: timestampFits_def)
    have d: "timeNanos ms ns div 1000 = ?m * 1000 + q" by (simp add: timeNanos_def q)
    have qb: "0 \<le> q" "q < 1000" using bounds q by auto
    have "sint (word_of_int (?m * 1000 + q) :: int64) = ?m * 1000 + q"
      by (rule sint_word_of_int_small) (use m qb in auto)
    moreover have "(?m * 1000 + q) sdiv 1000 = ?m \<and> (?m * 1000 + q) smod 1000 = q"
      by (rule sdiv_parts) (use qb s q in auto)
    ultimately show ?thesis using 3 q ms ns
      by (simp add: timestampParts_def timestampValueForField_def Let_def d mult.commute)
  next
    case 4
    with assms have m: "\<bar>?m\<bar> < 2 ^ 43" and s: "0 \<le> ?m \<or> ?n = 0" by (auto simp: timestampFits_def)
    have "sint (word_of_int (?m * 1000000 + ?n) :: int64) = ?m * 1000000 + ?n"
      by (rule sint_word_of_int_small) (use m bounds in auto)
    moreover have "(?m * 1000000 + ?n) sdiv 1000000 = ?m \<and> (?m * 1000000 + ?n) smod 1000000 = ?n"
      by (rule sdiv_parts) (use bounds s in auto)
    ultimately show ?thesis using 4 ms ns
      by (simp add: timestampParts_def timestampValueForField_def Let_def timeNanos_def)
  qed
qed

lemma sdiv_below_zero:
  assumes "m < 0" and "0 < q" and "q < d"
  shows "(m * d + q) sdiv d = m + 1" and "(m * d + q) smod d = q - (d :: int)"
proof -
  have x: "\<bar>m * d + q\<bar> = (- m - 1) * d + (d - q)" and neg: "m * d + q < 0"
    using assms mult_right_mono[of m "- 1" d] by (auto simp: algebra_simps)
  have "((- m - 1) * d + (d - q)) div d = - m - 1" using assms by (simp add: div_add1_eq)
  with assms neg show "(m * d + q) sdiv d = m + 1"
    by (simp add: signed_divide_int_def x)
  have "((- m - 1) * d + (d - q)) mod d = d - q" unfolding mod_mult_self3 using assms by (intro mod_pos_pos_trivial) simp_all
  with assms neg show "(m * d + q) smod d = q - d"
    by (simp add: signed_modulo_int_def x)
qed

lemma before_epoch:
  assumes "3 < Length f" and "- (2 ^ 43) < sint ms" and "sint ms < 0"
    and "0 < sint ns" and "sint ns < 1000000" and "Length f \<le> 6 \<Longrightarrow> 1000 \<le> sint ns"
  shows "timestampParts f (timestampValueForField f ms ns)
    = (ms + 1, word_of_int (if Length f \<le> 6 then sint ns div 1000 * 1000 - 1000000 else sint ns - 1000000))"
proof -
  let ?m = "sint ms" and ?n = "sint ns"
  have ms: "word_of_int (?m + 1) = ms + 1" by simp
  show ?thesis
  proof (cases "Length f \<le> 6")
    case True
    let ?q = "?n div 1000"
    have q: "0 < ?q" "?q < 1000" using assms True by (simp_all add: pos_imp_zdiv_pos_iff)
    have d: "timeNanos ms ns div 1000 = ?m * 1000 + ?q" by (simp add: timeNanos_def)
    have "sint (word_of_int (?m * 1000 + ?q) :: int64) = ?m * 1000 + ?q"
      by (rule sint_word_of_int_small) (use assms q in auto)
    moreover have "(?q - 1000) * 1000 = ?q * 1000 - 1000000" by simp
    ultimately show ?thesis using True assms(1) sdiv_below_zero[OF assms(3) q]
      by (simp only: timestampParts_def timestampValueForField_def Let_def d ms) simp
  next
    case False
    have "sint (word_of_int (?m * 1000000 + ?n) :: int64) = ?m * 1000000 + ?n"
      by (rule sint_word_of_int_small) (use assms in auto)
    with False sdiv_below_zero[OF assms(3,4,5)] ms show ?thesis
      by (simp add: timestampParts_def timestampValueForField_def Let_def timeNanos_def)
  qed
qed

subsection \<open>Cells\<close>

text \<open>The documented behaviour of the library that the conversion of values relies on.\<close>

definition builders :: "(arrowType \<Rightarrow> builder) \<Rightarrow> bool" where
  "builders fb \<longleftrightarrow> fb ArrowBoolean = BooleanBuilder \<and> fb ArrowInt8 = Int8Builder \<and> fb ArrowInt16 = Int16Builder
     \<and> fb ArrowInt32 = Int32Builder \<and> fb ArrowInt64 = Int64Builder \<and> fb ArrowFloat32 = Float32Builder
     \<and> fb ArrowFloat64 = Float64Builder \<and> fb ArrowString = StringBuilder \<and> fb ArrowBinary = BinaryBuilder
     \<and> (\<forall>p s. fb (ArrowDecimal128 p s) = Decimal128Builder) \<and> fb ArrowDate32 = Date32Builder
     \<and> fb ArrowTime32ms = Time32Builder \<and> (\<forall>u z. fb (ArrowTimestamp u z) = TimestampBuilder)"

definition decimals :: "(int \<Rightarrow> 'd res) \<Rightarrow> ('d \<Rightarrow> int) \<Rightarrow> bool" where
  "decimals from big \<longleftrightarrow> (\<forall>u. \<bar>u\<bar> < 2 ^ 127 \<longrightarrow> (\<exists>d. from u = Ok d \<and> big d = u))"

definition arrowFits :: "FieldType \<Rightarrow> gval \<Rightarrow> bool" where
  "arrowFits f v = (case (Kind f, v) of
      (_, VNil) \<Rightarrow> True
    | (TypeBool, VBool x) \<Rightarrow> True | (TypeInt8, VInt8 x) \<Rightarrow> True | (TypeInt16, VInt16 x) \<Rightarrow> True
    | (TypeInt32, VInt32 x) \<Rightarrow> True | (TypeInt64, VInt64 x) \<Rightarrow> True
    | (TypeFloat32, VFloat32 x) \<Rightarrow> True | (TypeFloat64, VFloat64 x) \<Rightarrow> True
    | (TypeString, VString x) \<Rightarrow> True | (TypeBytes, VBytes x) \<Rightarrow> True
    | (TypeDate, VInt32 x) \<Rightarrow> True | (TypeTime, VInt32 x) \<Rightarrow> True
    | (TypeDecimal, VDecimal x) \<Rightarrow> (case Unscaled x of
          None \<Rightarrow> False
        | Some u \<Rightarrow> x = \<lparr>Unscaled = Some u, DecScale = Scale f\<rparr> \<and> int (length (itoa \<bar>u\<bar>)) \<le> Length f \<and> \<bar>u\<bar> < 2 ^ 127)
    | (TypeTimestampNtz, VTimestampNtz x) \<Rightarrow> timestampFits f (Millisecond x) (NtzNanos x)
    | (TypeTimestampLtz, VTimestampLtz x) \<Rightarrow> timestampFits f (EpochMillisecond x) (LtzNanos x)
    | _ \<Rightarrow> False)"

lemmas arrow_conversions = arrow_asBool_def arrow_asInt8_def arrow_asInt16_def arrow_asInt32_def arrow_asInt64_def
  arrow_asFloat32_def arrow_asFloat64_def arrow_asString_def arrow_asBytes_def arrow_asTimestampNtz_def
  arrow_asTimestampLtz_def arrow_asDecimal_def appendTo_def

definition builderOfKind :: "TypeKind \<Rightarrow> builder option" where
  "builderOfKind k = (case k of
      TypeBool \<Rightarrow> Some BooleanBuilder | TypeInt8 \<Rightarrow> Some Int8Builder | TypeInt16 \<Rightarrow> Some Int16Builder
    | TypeInt32 \<Rightarrow> Some Int32Builder | TypeInt64 \<Rightarrow> Some Int64Builder | TypeFloat32 \<Rightarrow> Some Float32Builder
    | TypeFloat64 \<Rightarrow> Some Float64Builder | TypeString \<Rightarrow> Some StringBuilder | TypeBytes \<Rightarrow> Some BinaryBuilder
    | TypeDecimal \<Rightarrow> Some Decimal128Builder | TypeDate \<Rightarrow> Some Date32Builder | TypeTime \<Rightarrow> Some Time32Builder
    | TypeTimestampNtz \<Rightarrow> Some TimestampBuilder | TypeTimestampLtz \<Rightarrow> Some TimestampBuilder | _ \<Rightarrow> None)"

lemma dataType_builder:
  assumes "dataTypeFromFieldType f = Ok t" and "builders fb" and "builderOfKind (Kind f) = Some b"
  shows "fb t = b"
proof -
  obtain k len sc el ke va fs where f: "f = FieldType k len sc el ke va fs" by (cases f)
  show ?thesis
    using assms unfolding f
    by (cases k) (auto simp: builderOfKind_def builders_def timestampTypeForPrecision_def split: if_splits)
qed

text \<open>A value that fits its column is appended as one cell and read back from it.\<close>

lemma cell_roundtrip:
  assumes "dataTypeFromFieldType f = Ok t" and "builders (fieldBuilder lib)"
    and "decimals (fromBigInt lib) (bigInt lib)" and "arrowFits f v"
  shows "\<exists>c. appendValue lib (fieldBuilder lib t) f v = Ok c \<and> extractValue lib c f = Ok v"
proof (cases "v = VNil")
  case True
  then show ?thesis by (simp add: appendValue_def extractValue_def)
next
  case False
  note b = dataType_builder[OF assms(1,2), unfolded builderOfKind_def]
  show ?thesis
  proof (cases "Kind f = TypeDecimal")
    case True
    with assms(4) False obtain u where v: "v = VDecimal \<lparr>Unscaled = Some u, DecScale = Scale f\<rparr>"
      and u: "int (length (itoa \<bar>u\<bar>)) \<le> Length f" "\<bar>u\<bar> < 2 ^ 127"
      by (auto simp: arrowFits_def split: gval.splits option.splits)
    from assms(3) u(2) obtain d where "fromBigInt lib u = Ok d" "bigInt lib d = u" by (auto simp: decimals_def)
    with True v u(1) b show ?thesis
      by (intro exI[of _ "CDecimal128 d"]) (simp add: appendValue_def extractValue_def arrow_conversions)
  next
    case nd: False
    show ?thesis
    proof (cases "Kind f")
      case TypeBool
      with assms(4) False b show ?thesis
        by (cases v) (auto simp: arrowFits_def appendValue_def extractValue_def arrow_conversions)
    next
      case TypeTimestampNtz
      with assms(4) False obtain x where "v = VTimestampNtz x" "timestampFits f (Millisecond x) (NtzNanos x)"
        by (auto simp: arrowFits_def split: gval.splits)
      with TypeTimestampNtz b show ?thesis
        by (simp add: appendValue_def extractValue_def arrow_conversions timestamp_parts arrow_decodeTimestampNtz_def)
    next
      case TypeTimestampLtz
      with assms(4) False obtain x where "v = VTimestampLtz x" "timestampFits f (EpochMillisecond x) (LtzNanos x)"
        by (auto simp: arrowFits_def split: gval.splits)
      with TypeTimestampLtz b show ?thesis
        by (simp add: appendValue_def extractValue_def arrow_conversions timestamp_parts arrow_decodeTimestampLtz_def)
    qed (use assms(4) False b nd in \<open>cases v; simp add: arrowFits_def appendValue_def extractValue_def arrow_conversions\<close>)+
  qed
qed

subsection \<open>Rows and record batches\<close>

lemma arrowFields_Ok:
  "arrowFields msg i fs = Ok sch \<Longrightarrow> list_all2 (\<lambda>a f. dataTypeFromFieldType f = Ok (fst (snd a))) sch fs"
  by (induction msg i fs arbitrary: sch rule: dataTypeFromFieldType_arrowFields.induct(2)[where P = "\<lambda>_. True"])
    (auto simp: res_elims arrowFieldAt_def)

text \<open>Every valid schema has an Arrow schema.\<close>

lemma dataType_total: "Validate f = Ok () \<Longrightarrow> \<exists>t. dataTypeFromFieldType f = Ok t"
  and arrowFields_total: "(\<forall>f \<in> set fs. Validate f = Ok ()) \<Longrightarrow> \<exists>sch. arrowFields msg i fs = Ok sch"
proof (induction f and msg i fs rule: dataTypeFromFieldType_arrowFields.induct)
  case (1 k len sc el ke va fs)
  show ?case
  proof (cases k)
    case TypeArray
    with 1 show ?thesis by (cases el) auto
  next
    case TypeMap
    with 1 show ?thesis by (cases ke; cases va) (fastforce simp: res_elims)+
  next
    case TypeRow
    with 1 show ?thesis by (auto simp: validateFields_Ok_iff)
  qed (use 1 in \<open>auto simp: timestampTypeForPrecision_def\<close>)
next
  case (3 msg i f fs)
  then obtain t sch where "dataTypeFromFieldType f = Ok t" "arrowFields msg (Suc i) fs = Ok sch" by auto
  then show ?case by simp
qed auto

definition rowCells :: "('d, 'm, 'p, 'r) arrowLib \<Rightarrow> Schema \<Rightarrow> 'd cell list \<Rightarrow> gval list \<Rightarrow> bool" where
  "rowCells lib schema cs vals \<longleftrightarrow> length cs = length schema \<and> length vals = length schema
     \<and> (\<forall>j < length schema. extractValue lib (cs ! j) (schema ! j) = Ok (vals ! j))"

lemma appendRow_cells:
  assumes "list_all2 (\<lambda>a f. dataTypeFromFieldType f = Ok (fst (snd a))) sch schema"
    and "list_all2 arrowFits schema vals" and "builders (fieldBuilder lib)"
    and "decimals (fromBigInt lib) (bigInt lib)"
  shows "\<exists>cs. appendRow lib sch schema vals = Ok cs \<and> rowCells lib schema cs vals"
  using assms(1,2)
proof (induction sch schema arbitrary: vals rule: list_all2_induct)
  case Nil
  then show ?case by (simp add: rowCells_def)
next
  case (Cons a as f fs)
  then obtain v vs where vals: "vals = v # vs" "arrowFits f v" "list_all2 arrowFits fs vs"
    by (auto simp: list_all2_Cons1)
  from Cons.IH[OF this(3)] obtain cs where cs: "appendRow lib as fs vs = Ok cs" "rowCells lib fs cs vs" by blast
  from cell_roundtrip[OF Cons.hyps(1) assms(3,4) vals(2)] obtain c where
    "appendValue lib (fieldBuilder lib (fst (snd a))) f v = Ok c" "extractValue lib c f = Ok v" by blast
  with cs vals show ?case by (auto simp: rowCells_def nth_Cons split: nat.splits)
qed

lemma appendRows_cells:
  assumes "list_all2 (\<lambda>a f. dataTypeFromFieldType f = Ok (fst (snd a))) sch schema"
    and "list_all (list_all2 arrowFits schema) rows" and "builders (fieldBuilder lib)"
    and "decimals (fromBigInt lib) (bigInt lib)"
  shows "\<exists>cells. appendRows lib sch schema rows = Ok cells \<and> list_all2 (rowCells lib schema) cells rows"
  using assms(2)
proof (induction rows)
  case (Cons vals rows)
  then obtain cells where "appendRows lib sch schema rows = Ok cells" "list_all2 (rowCells lib schema) cells rows" by auto
  moreover from Cons.prems have "list_all2 arrowFits schema vals" by simp
  from appendRow_cells[OF assms(1) this assms(3,4)] obtain cs where
    "appendRow lib sch schema vals = Ok cs" "rowCells lib schema cs vals" by blast
  moreover from \<open>rowCells lib schema cs vals\<close> have "length vals = length schema" by (simp add: rowCells_def)
  ultimately show ?case by simp
qed simp

definition columnsOf :: "nat \<Rightarrow> 'd cell list list \<Rightarrow> 'd cell list list" where
  "columnsOf n cells = map (\<lambda>j. map (\<lambda>row. row ! j) cells) [0..<n]"

lemma extractRow_cells:
  assumes "list_all2 (rowCells lib schema) cells rows" and "i < length rows"
  shows "extractRow lib (columnsOf (length schema) cells) i j (drop j schema) = Ok (drop j (rows ! i))"
proof (induction "length schema - j" arbitrary: j)
  case 0
  from assms have "length (rows ! i) = length schema" by (auto simp: list_all2_conv_all_nth rowCells_def)
  with 0 show ?case by simp
next
  case (Suc n)
  from assms have len: "length cells = length rows" and r: "rowCells lib schema (cells ! i) (rows ! i)"
    by (auto simp: list_all2_conv_all_nth)
  from Suc have j: "j < length schema" by simp
  with r have "drop j (rows ! i) = (rows ! i) ! j # drop (Suc j) (rows ! i)"
    by (intro Cons_nth_drop_Suc[symmetric]) (simp add: rowCells_def)
  moreover have "drop j schema = schema ! j # drop (Suc j) schema" using j by (rule Cons_nth_drop_Suc[symmetric])
  moreover have "extractRow lib (columnsOf (length schema) cells) i (Suc j) (drop (Suc j) schema)
      = Ok (drop (Suc j) (rows ! i))" using Suc by simp
  ultimately show ?case using j r len assms(2) by (simp add: columnsOf_def goindex_Ok rowCells_def)
qed

lemma extractRows_cells:
  assumes "list_all2 (rowCells lib schema) cells rows" and "\<forall>i \<in> set is. i < length rows"
  shows "extractRows lib (columnsOf (length schema) cells) schema is = Ok (map (\<lambda>i. rows ! i) is)"
  using assms(2) extractRow_cells[OF assms(1), of _ 0] by (induction "is") auto

text \<open>
  The documented round trip of an IPC record batch, for the given rows: the payload of a record
  batch reads back, after the schema message, as one batch with the same columns.
\<close>

definition ipcCarries :: "('d, 'm, 'p, 'r) arrowLib \<Rightarrow> arrowSchema \<Rightarrow> 'd cell list list \<Rightarrow> compression \<Rightarrow> bool" where
  "ipcCarries lib sch cells cmp \<longleftrightarrow> (\<exists>p b sb sm rm r.
     encodePayload lib sch cells cmp = Ok p \<and> writePayload lib p = Ok b \<and> schemaPayload lib sch = Ok sb
     \<and> readMessage lib sb = Ok sm \<and> readMessage lib b = Ok rm
     \<and> newReader lib (newStaticMessageReader [sm, rm]) = Ok r
     \<and> nextBatch lib r = Ok (Some (length cells, columnsOf (length sch) cells)))"

definition arrowLawful :: "('d, 'm, 'p, 'r) arrowLib \<Rightarrow> Schema \<Rightarrow> gval list list \<Rightarrow> compression \<Rightarrow> bool" where
  "arrowLawful lib schema rows cmp \<longleftrightarrow> builders (fieldBuilder lib) \<and> decimals (fromBigInt lib) (bigInt lib)
     \<and> (\<forall>sch cells. SchemaFromRowSchema schema = Ok sch \<and> appendRows lib sch schema rows = Ok cells
          \<longrightarrow> ipcCarries lib sch cells cmp)"

lemma record_batch_roundtrip:
  assumes "SchemaValidate schema = Ok ()" and "list_all (list_all2 arrowFits schema) rows"
    and "arrowLawful lib schema rows (compressionOf opts)"
  shows "\<exists>b. EncodeRecordBatchWithOptions lib schema rows opts = Ok b \<and> DecodeRecordBatch lib schema b = Ok rows"
proof -
  from arrowFields_total[of schema "''arrowcodec: field %d: %w''" 0] assms(1) obtain sch where
    sch: "arrowFields ''arrowcodec: field %d: %w'' 0 schema = Ok sch" by (auto simp: SchemaValidate_Ok_iff)
  then have s: "SchemaFromRowSchema schema = Ok sch" using assms(1) by (simp add: SchemaFromRowSchema_def)
  note types = arrowFields_Ok[OF sch]
  from appendRows_cells[OF types assms(2), of lib] assms(3) obtain cells where
    c: "appendRows lib sch schema rows = Ok cells" "list_all2 (rowCells lib schema) cells rows"
    by (auto simp: arrowLawful_def)
  with assms(3) s have "ipcCarries lib sch cells (compressionOf opts)" by (auto simp: arrowLawful_def)
  moreover have "length sch = length schema" "length cells = length rows"
    using types c(2) by (auto dest: list_all2_lengthD)
  moreover have "extractRows lib (columnsOf (length schema) cells) schema [0..<length rows] = Ok rows"
    using extractRows_cells[OF c(2), of "[0..<length rows]"] by (simp add: map_nth)
  ultimately show ?thesis using s c(1)
    by (auto simp: ipcCarries_def EncodeRecordBatchWithOptions_def DecodeRecordBatch_def)
qed

subsection \<open>Log batches\<close>

lemma arrow_encodeLogBatch_eq:
  "arrow_encodeLogBatch payload n opts =
     (let body = putU16 (ucast (ArrowSchemaID opts)) @ [if AppendOnly opts then 1 else 0] @ putU32 0
            @ putU64 (arrow_encodedWriterID (ArrowWriterState opts))
            @ putU32 (arrow_encodedBatchSequence (ArrowWriterState opts)) @ putU32 (word_of_nat n) @ payload
      in putU64 0 @ putU32 (word_of_nat (36 + length payload)) @ [0] @ putU64 0 @ putU32 (crc32c body) @ body)"
  unfolding arrow_encodeLogBatch_def Let_def patchU32_def by simp

lemma length_arrow_encodeLogBatch [simp]: "length (arrow_encodeLogBatch payload n opts) = 48 + length payload"
  by (simp add: arrow_encodeLogBatch_eq Let_def)

lemma arrowBatch_fields:
  assumes "bs = arrow_encodeLogBatch payload n opts @ rest"
  shows "getU32 (drop 8 bs) = word_of_nat (36 + length payload)" and "bs ! 12 = 0"
    and "bs ! 27 = (if AppendOnly opts then 1 else 0)" and "getU32 (drop 44 bs) = word_of_nat n"
    and "drop 48 bs = payload @ rest" and "getU32 (drop 21 bs) = crc32c (take (23 + length payload) (drop 25 bs))"
proof -
  let ?body = "putU16 (ucast (ArrowSchemaID opts)) @ [if AppendOnly opts then 1 else 0] @ putU32 0
            @ putU64 (arrow_encodedWriterID (ArrowWriterState opts))
            @ putU32 (arrow_encodedBatchSequence (ArrowWriterState opts)) @ putU32 (word_of_nat n) @ payload"
  have d: "drop 25 bs = ?body @ rest"
    unfolding assms by (simp add: arrow_encodeLogBatch_eq Let_def)
  have b: "take (23 + length payload) (?body @ rest) = ?body"
    by (rule take_append_exact) simp
  have c: "getU32 (drop 21 bs) = crc32c ?body"
    unfolding assms by (simp add: arrow_encodeLogBatch_eq Let_def)
  show "getU32 (drop 21 bs) = crc32c (take (23 + length payload) (drop 25 bs))"
    unfolding c d b ..
qed (use assms in \<open>simp_all add: arrow_encodeLogBatch_eq Let_def nth_append\<close>)

lemma arrow_decodeLogBatch_encode:
  assumes "36 + length payload < 2 ^ 32" and "AppendOnly opts"
  shows "arrow_decodeLogBatch (arrow_encodeLogBatch payload n opts @ rest) v = Ok (48 + length payload, payload, True)"
proof -
  let ?bs = "arrow_encodeLogBatch payload n opts @ rest"
  note f = arrowBatch_fields[of ?bs payload n opts rest, OF refl]
  have size: "unat (getU32 (drop 8 ?bs)) + 12 = 48 + length payload"
    using assms(1) unfolding f(1) by (simp add: unat_of_nat del: of_nat_add)
  have body: "drop 48 (arrow_encodeLogBatch payload n opts) = payload"
    using arrowBatch_fields(5)[of "arrow_encodeLogBatch payload n opts" payload n opts "[]"] by simp
  have attrs: "goindex (take (48 + length payload) ?bs) 27 = Ok 1"
    using f(3) assms(2) by (simp add: goindex_Ok nth_append)
  show ?thesis
    unfolding arrow_decodeLogBatch_def Let_def size f(2,6) attrs
    by (simp add: goslice_Ok body)
qed

definition arrowBatchStep :: "('d, 'm, 'p, 'r) arrowLib \<Rightarrow> Schema \<Rightarrow> bool \<Rightarrow> bytes \<Rightarrow> (gval list list \<times> nat) res" where
  "arrowBatchStep lib schema v payload =
     andThen (arrow_decodeLogBatch payload v) (\<lambda>(batchSize, recordPayload, _).
       andThen (DecodeRecordBatch lib schema recordPayload) (\<lambda>decoded. Ok (decoded, batchSize)))"

interpretation arrow_batches: batch_stream "arrowBatchStep lib schema v" "arrowBatchRows lib schema v"
  for lib :: "('d, 'm, 'p, 'r) arrowLib" and schema v
  by unfold_locales
    (subst arrowBatchRows.simps, simp add: arrowBatchStep_def andThen_assoc split_def)+

lemma arrow_batch_unit:
  assumes "SchemaValidate schema = Ok ()" and "rows \<noteq> []" and "list_all (list_all2 arrowFits schema) rows"
    and "arrowLawful lib schema rows (compressionOf [\<lparr>OptZstd = UseZstd opts, OptLZ4 = UseLZ4 opts\<rparr>])" and "AppendOnly opts"
  shows "\<exists>b. arrow_EncodeLogRecordBatch lib schema rows opts = Ok b
    \<and> (length b < 2 ^ 32 \<longrightarrow> batch_stream.unit_of (arrowBatchStep lib schema v) b rows)"
proof -
  from record_batch_roundtrip[OF assms(1,3,4)] obtain p where
    p: "EncodeRecordBatchWithOptions lib schema rows [\<lparr>OptZstd = UseZstd opts, OptLZ4 = UseLZ4 opts\<rparr>] = Ok p"
      "DecodeRecordBatch lib schema p = Ok rows" by blast
  define b where "b = arrow_encodeLogBatch p (length rows) opts"
  have "b \<noteq> []" unfolding b_def using length_arrow_encodeLogBatch by (metis add_is_0 list.size(3) zero_neq_numeral)
  moreover have "arrow_EncodeLogRecordBatch lib schema rows opts = Ok b"
    using assms(1,2) p(1) by (simp add: arrow_EncodeLogRecordBatch_def b_def)
  moreover have "arrow_decodeLogBatch (b @ rest) v = Ok (length b, p, True)" if "length b < 2 ^ 32" for rest
    using that unfolding b_def by (subst arrow_decodeLogBatch_encode) (simp_all add: assms(5))
  ultimately show ?thesis
    using p(2) by (intro exI[of _ b]) (auto simp: arrow_batches.unit_of_def arrowBatchStep_def)
qed

end
