(* ===== verification/Arrow_Properties.thy ===== *)
theory Arrow_Properties
  imports Arrow_Laws
begin

text \<open>The properties of the Arrow codec, and an instance of the library that satisfies its laws.\<close>

text \<open>
  C30. Arrow log batches round trip. On a valid schema and rows whose values fit their columns
  the encoder succeeds, and a payload of any number of its append-only batches decodes to all
  rows in order, with and without the CRC check, provided the Arrow library reads back the
  record batches it writes.
\<close>

theorem arrow_log_roundtrip:
  assumes "SchemaValidate schema = Ok ()" and "AppendOnly opts"
    and "\<forall>rows \<in> set batches. rows \<noteq> [] \<and> list_all (list_all2 arrowFits schema) rows
      \<and> arrowLawful lib schema rows (compressionOf [\<lparr>OptZstd = UseZstd opts, OptLZ4 = UseLZ4 opts\<rparr>])"
  shows "\<exists>bs. list_all2 (\<lambda>rows b. arrow_EncodeLogRecordBatch lib schema rows opts = Ok b) batches bs
    \<and> ((\<forall>b \<in> set bs. length b < 2 ^ 32) \<longrightarrow>
        arrow_DecodeLogRecordBatchRows lib schema (concat bs) = Ok (concat batches)
      \<and> DecodeProjectedLogRecordBatchRows lib schema (concat bs) = Ok (concat batches))"
proof -
  have "\<exists>b. arrow_EncodeLogRecordBatch lib schema rows opts = Ok b" if "rows \<in> set batches" for rows
    using arrow_batch_unit[OF assms(1), of rows lib opts True] assms(2,3) that by blast
  then obtain enc where enc: "\<forall>rows \<in> set batches. arrow_EncodeLogRecordBatch lib schema rows opts = Ok (enc rows)"
    by metis
  have unit: "batch_stream.unit_of (arrowBatchStep lib schema v) (enc rows) rows"
    if "rows \<in> set batches" "length (enc rows) < 2 ^ 32" for rows v
    using arrow_batch_unit[OF assms(1), of rows lib opts v] assms(2,3) that enc by fastforce
  have "arrowBatchRows lib schema v (concat (map enc batches)) = Ok (concat batches)"
    if "\<forall>b \<in> set (map enc batches). length b < 2 ^ 32" for v
  proof -
    have "list_all2 (batch_stream.unit_of (arrowBatchStep lib schema v)) (map enc batches) batches"
      using unit that by (auto simp: list_all2_conv_all_nth)
    then show ?thesis by (rule arrow_batches.loop_concat)
  qed
  moreover have "list_all2 (\<lambda>rows b. arrow_EncodeLogRecordBatch lib schema rows opts = Ok b) batches (map enc batches)"
    using enc by (auto simp: list_all2_conv_all_nth)
  ultimately show ?thesis
    using assms(1) by (intro exI[of _ "map enc batches"])
      (simp add: arrow_DecodeLogRecordBatchRows_def DecodeProjectedLogRecordBatchRows_def decodeLogRecordBatchRows_def)
qed

text \<open>A library with one builder per type, decimals that are integers, and one record batch.\<close>

fun demoBuilder :: "arrowType \<Rightarrow> builder" where
  "demoBuilder ArrowBoolean = BooleanBuilder" | "demoBuilder ArrowInt8 = Int8Builder"
| "demoBuilder ArrowInt16 = Int16Builder" | "demoBuilder ArrowInt32 = Int32Builder"
| "demoBuilder ArrowInt64 = Int64Builder" | "demoBuilder ArrowFloat32 = Float32Builder"
| "demoBuilder ArrowFloat64 = Float64Builder" | "demoBuilder ArrowString = StringBuilder"
| "demoBuilder ArrowBinary = BinaryBuilder" | "demoBuilder (ArrowDecimal128 p s) = Decimal128Builder"
| "demoBuilder ArrowDate32 = Date32Builder" | "demoBuilder ArrowTime32ms = Time32Builder"
| "demoBuilder (ArrowTimestamp u z) = TimestampBuilder" | "demoBuilder _ = OtherBuilder []"

definition demoLib :: "(int, nat, unit, unit) arrowLib" where
  "demoLib = \<lparr>fieldBuilder = demoBuilder, fromBigInt = Ok, bigInt = (\<lambda>x. x),
     encodePayload = (\<lambda>sch cells cmp. Ok ()), writePayload = (\<lambda>p. Ok [1, 2]), schemaPayload = (\<lambda>sch. Ok []),
     readMessage = (\<lambda>b. Ok (length b)), newReader = (\<lambda>r. Ok ()),
     nextBatch = (\<lambda>r. Ok (Some (1, [[CInt32 7], [CTimestamp 2500]])))\<rparr>"

definition demoArrowSchema :: Schema where
  "demoArrowSchema = [Int32Type, TimestampNtzType 6]"

definition demoArrowRow :: "gval list" where
  "demoArrowRow = [VInt32 7, VTimestampNtz \<lparr>Millisecond = 2, NtzNanos = 500000\<rparr>]"

definition demoArrowOptions :: ArrowLogBatchOptions where
  "demoArrowOptions = \<lparr>ArrowSchemaID = 1, AppendOnly = True, UseZstd = True, UseLZ4 = False, ArrowWriterState = None\<rparr>"

lemma demo_lawful: "arrowLawful demoLib demoArrowSchema [demoArrowRow] cmp"
proof -
  have "appendRows demoLib sch demoArrowSchema [demoArrowRow] = Ok [[CInt32 7, CTimestamp 2500]]"
    if "SchemaFromRowSchema demoArrowSchema = Ok sch" for sch
    using that by (auto simp: SchemaFromRowSchema_def demoArrowSchema_def type_constructors SchemaValidate_def
        timestampTypeForPrecision_def arrowFieldAt_def demoLib_def demoArrowRow_def appendValue_def arrow_conversions
        timestampValueForField_def timeNanos_def)
  moreover have "length sch = 2" if "SchemaFromRowSchema demoArrowSchema = Ok sch" for sch
    using that by (auto simp: SchemaFromRowSchema_def demoArrowSchema_def type_constructors SchemaValidate_def
        timestampTypeForPrecision_def)
  ultimately show ?thesis
    by (auto simp: arrowLawful_def ipcCarries_def columnsOf_def builders_def decimals_def demoLib_def upt_rec)
qed

lemma demo_fits: "SchemaValidate demoArrowSchema = Ok ()" "list_all2 arrowFits demoArrowSchema demoArrowRow"
  by (simp_all add: demoArrowSchema_def demoArrowRow_def SchemaValidate_def type_constructors arrowFits_def timestampFits_def)

lemma demo_encoded:
  "arrow_EncodeLogRecordBatch demoLib demoArrowSchema [demoArrowRow] demoArrowOptions = Ok b \<Longrightarrow> length b = 50"
  by (auto simp: arrow_EncodeLogRecordBatch_def EncodeRecordBatchWithOptions_def demoLib_def res_elims split: if_splits)

lemma arrow_log_roundtrip_witness:
  "\<exists>b. arrow_EncodeLogRecordBatch demoLib demoArrowSchema [demoArrowRow] demoArrowOptions = Ok b
    \<and> arrow_DecodeLogRecordBatchRows demoLib demoArrowSchema (b @ b) = Ok [demoArrowRow, demoArrowRow]"
proof -
  have "AppendOnly demoArrowOptions" by (simp add: demoArrowOptions_def)
  from arrow_log_roundtrip[OF demo_fits(1) this, of "[[demoArrowRow], [demoArrowRow]]" demoLib] demo_lawful demo_fits(2)
  obtain bs where bs: "list_all2 (\<lambda>rows b. arrow_EncodeLogRecordBatch demoLib demoArrowSchema rows demoArrowOptions = Ok b)
      [[demoArrowRow], [demoArrowRow]] bs"
    "(\<forall>b \<in> set bs. length b < 2 ^ 32) \<longrightarrow> arrow_DecodeLogRecordBatchRows demoLib demoArrowSchema (concat bs)
      = Ok (concat [[demoArrowRow], [demoArrowRow]])" by auto
  from bs(1) obtain b where b: "bs = [b, b]"
    "arrow_EncodeLogRecordBatch demoLib demoArrowSchema [demoArrowRow] demoArrowOptions = Ok b"
    by (auto simp: list_all2_Cons1)
  with demo_encoded[OF b(2)] bs(2) show ?thesis by auto
qed



end
