(* ===== verification/Proto_Factory.thy ===== *)
theory Proto_Factory
  imports Go_Base
begin

text \<open>
  The message factory (\<open>internal/proto/factory.go\<close>): a message is made by its name, and only
  registered names have one. A message without any field set is its name. \<open>usedNames\<close> lists
  the request and response names the client passes to \<open>Invoke\<close>.
\<close>

definition registered :: "string list" where
  "registered =
    [''ErrorResponse'', ''ApiVersionsRequest'', ''ApiVersionsResponse'', ''AuthenticateRequest'',
     ''AuthenticateResponse'', ''ListAclsRequest'', ''ListAclsResponse'', ''CreateAclsRequest'',
     ''CreateAclsResponse'', ''DropAclsRequest'', ''DropAclsResponse'', ''DescribeClusterConfigsRequest'',
     ''DescribeClusterConfigsResponse'', ''AlterClusterConfigsRequest'', ''AlterClusterConfigsResponse'', ''AddServerTagRequest'',
     ''AddServerTagResponse'', ''RemoveServerTagRequest'', ''RemoveServerTagResponse'', ''RebalanceRequest'',
     ''RebalanceResponse'', ''ListRebalanceProgressRequest'', ''ListRebalanceProgressResponse'', ''CancelRebalanceRequest'',
     ''CancelRebalanceResponse'', ''MetadataRequest'', ''MetadataResponse'', ''ListDatabasesRequest'',
     ''ListDatabasesResponse'', ''DatabaseExistsRequest'', ''DatabaseExistsResponse'', ''CreateDatabaseRequest'',
     ''CreateDatabaseResponse'', ''DropDatabaseRequest'', ''DropDatabaseResponse'', ''GetDatabaseInfoRequest'',
     ''GetDatabaseInfoResponse'', ''ListTablesRequest'', ''ListTablesResponse'', ''TableExistsRequest'',
     ''TableExistsResponse'', ''CreateTableRequest'', ''CreateTableResponse'', ''AlterTableRequest'',
     ''AlterTableResponse'', ''DropTableRequest'', ''DropTableResponse'', ''GetTableInfoRequest'',
     ''GetTableInfoResponse'', ''GetTableSchemaRequest'', ''GetTableSchemaResponse'', ''ListPartitionInfosRequest'',
     ''ListPartitionInfosResponse'', ''CreatePartitionRequest'', ''CreatePartitionResponse'', ''DropPartitionRequest'',
     ''DropPartitionResponse'', ''ProduceLogRequest'', ''ProduceLogResponse'', ''PutKvRequest'',
     ''PutKvResponse'', ''LookupRequest'', ''LookupResponse'', ''PrefixLookupRequest'',
     ''PrefixLookupResponse'', ''FetchLogRequest'', ''FetchLogResponse'', ''GetLatestKvSnapshotsRequest'',
     ''GetLatestKvSnapshotsResponse'', ''GetKvSnapshotMetadataRequest'', ''GetKvSnapshotMetadataResponse'', ''GetLakeSnapshotRequest'',
     ''GetLakeSnapshotResponse'', ''LimitScanRequest'', ''LimitScanResponse'', ''ScanKvRequest'',
     ''ScanKvResponse'', ''InitWriterRequest'', ''InitWriterResponse'']"

definition New :: "string \<Rightarrow> string res" where
  "New name = (if name \<in> set registered then Ok name
     else Fail (Errf ''generated proto message not registered: %s''))"

definition usedNames :: "string list" where
  "usedNames =
    [''AddServerTagRequest'', ''AddServerTagResponse'', ''AlterClusterConfigsRequest'', ''AlterClusterConfigsResponse'',
     ''AlterTableRequest'', ''AlterTableResponse'', ''ApiVersionsResponse'', ''AuthenticateResponse'',
     ''CancelRebalanceRequest'', ''CancelRebalanceResponse'', ''CreateAclsRequest'', ''CreateAclsResponse'',
     ''CreateDatabaseRequest'', ''CreateDatabaseResponse'', ''CreatePartitionRequest'', ''CreatePartitionResponse'',
     ''CreateTableRequest'', ''CreateTableResponse'', ''DatabaseExistsRequest'', ''DatabaseExistsResponse'',
     ''DescribeClusterConfigsRequest'', ''DescribeClusterConfigsResponse'', ''DropAclsRequest'', ''DropAclsResponse'',
     ''DropDatabaseRequest'', ''DropDatabaseResponse'', ''DropPartitionRequest'', ''DropPartitionResponse'',
     ''DropTableRequest'', ''DropTableResponse'', ''FetchLogRequest'', ''FetchLogResponse'',
     ''GetDatabaseInfoRequest'', ''GetDatabaseInfoResponse'', ''GetKvSnapshotMetadataRequest'', ''GetKvSnapshotMetadataResponse'',
     ''GetLakeSnapshotRequest'', ''GetLakeSnapshotResponse'', ''GetLatestKvSnapshotsRequest'', ''GetLatestKvSnapshotsResponse'',
     ''GetTableInfoRequest'', ''GetTableInfoResponse'', ''GetTableSchemaRequest'', ''GetTableSchemaResponse'',
     ''InitWriterRequest'', ''InitWriterResponse'', ''LimitScanRequest'', ''LimitScanResponse'',
     ''ListAclsRequest'', ''ListAclsResponse'', ''ListDatabasesRequest'', ''ListDatabasesResponse'',
     ''ListPartitionInfosRequest'', ''ListPartitionInfosResponse'', ''ListRebalanceProgressRequest'', ''ListRebalanceProgressResponse'',
     ''ListTablesRequest'', ''ListTablesResponse'', ''LookupRequest'', ''LookupResponse'',
     ''MetadataRequest'', ''MetadataResponse'', ''PrefixLookupRequest'', ''PrefixLookupResponse'',
     ''ProduceLogRequest'', ''ProduceLogResponse'', ''PutKvRequest'', ''PutKvResponse'',
     ''RebalanceRequest'', ''RebalanceResponse'', ''RemoveServerTagRequest'', ''RemoveServerTagResponse'',
     ''ScanKvRequest'', ''ScanKvResponse'', ''TableExistsRequest'', ''TableExistsResponse'']"

lemma usedNames_registered: "set usedNames \<subseteq> set registered"
  unfolding usedNames_def registered_def by simp

lemma New_used: "name \<in> set usedNames \<Longrightarrow> New name = Ok name"
  using usedNames_registered by (auto simp: New_def)

end
