(* ===== verification/Transport.thy ===== *)
theory Transport
  imports Proto_Factory Protocol
begin

unbundle bit_operations_syntax

text \<open>
  The RPC transport (\<open>internal/transport/client.go\<close>): connections by address, version
  negotiation and authentication when one is opened, and the concurrent part of a connection,
  as a step relation between the callers of \<open>invoke\<close> and the goroutine of \<open>readLoop\<close>.

  The calls of a client are numbered from 0 by its counter \<open>requests\<close>; call \<open>k\<close> has the
  request id \<open>reqID k\<close>, and its channel, a buffer for one result, is named by its number.
  Sending to a full channel blocks. \<open>unmarshal\<close> and \<open>unmarshalError\<close> stand for
  \<open>proto.Unmarshal\<close> into a message of the given name and into an \<open>ErrorResponse\<close>.
\<close>

subsection \<open>State\<close>

record pendingCall =
  respName :: string
  callChan :: nat

text \<open>
  What the reader is doing: reading the next frame, sending a result to a channel, ranging
  over the pending calls to fail them (\<open>stop\<close> when it ends the loop afterwards), sending to
  one of them, or nothing any more.
\<close>

datatype 'm readerState =
    Reading
  | Sending nat "'m res"
  | FailingAll "int32 list" goerr bool
  | FailSend nat int32 "int32 list" goerr bool
  | Stopped
  | Panicked

datatype 'm callStatus = Idle | Waiting | Returned "'m res"

text \<open>
  \<open>framesRead\<close> and \<open>broadcast\<close> record the frames that were read and the errors of \<open>failAll\<close>;
  \<open>nameOf\<close> the response name of a call.
\<close>

record 'm connection =
  pendingCalls :: "int32 \<rightharpoonup> pendingCall"
  chans :: "nat \<rightharpoonup> 'm res"
  connClosed :: bool
  reader :: "'m readerState"
  requests :: nat
  status :: "nat \<Rightarrow> 'm callStatus"
  nameOf :: "nat \<Rightarrow> string"
  framesRead :: "ResponseFrame list"
  broadcast :: "goerr list"

definition reqID :: "nat \<Rightarrow> int32" where "reqID k = word_of_nat (Suc k)"

definition newConnection :: "'m connection" where
  "newConnection = \<lparr>pendingCalls = Map.empty, chans = Map.empty, connClosed = False, reader = Reading, requests = 0,
     status = (\<lambda>_. Idle), nameOf = (\<lambda>_. []), framesRead = [], broadcast = []\<rparr>"

subsection \<open>The callers\<close>

text \<open>\<open>invoke\<close> up to the write: the call is stored before anything is sent.\<close>

definition storeCall :: "string \<Rightarrow> 'm connection \<Rightarrow> 'm connection" where
  "storeCall name c = (let k = requests c in
     c\<lparr>requests := Suc k, pendingCalls := (pendingCalls c)(reqID k \<mapsto> \<lparr>respName = name, callChan = k\<rparr>),
       status := (status c)(k := Waiting), nameOf := (nameOf c)(k := name)\<rparr>)"

text \<open>Every return of \<open>invoke\<close> deletes the id of the call (the deferred \<open>Delete\<close>).\<close>

definition returnCall :: "nat \<Rightarrow> 'm res \<Rightarrow> 'm connection \<Rightarrow> 'm connection" where
  "returnCall k r c = c\<lparr>status := (status c)(k := Returned r), pendingCalls := (pendingCalls c)(reqID k := None)\<rparr>"

subsection \<open>The reader\<close>

text \<open>
  The keys a \<open>Range\<close> over the pending calls visits, in some order: every key of the map when
  it starts, and possibly keys that are stored later.
\<close>

definition rangeKeys :: "'m connection \<Rightarrow> int32 list \<Rightarrow> bool" where
  "rangeKeys c keys \<longleftrightarrow> distinct keys \<and> dom (pendingCalls c) \<subseteq> set keys"

text \<open>The start of \<open>failAll\<close>; \<open>stop\<close> when the loop ends after it.\<close>

definition failAll :: "goerr \<Rightarrow> int32 list \<Rightarrow> bool \<Rightarrow> 'm connection \<Rightarrow> 'm connection" where
  "failAll e keys stop c = c\<lparr>reader := FailingAll keys e stop, broadcast := broadcast c @ [e]\<rparr>"

definition resolve :: "(string \<Rightarrow> bytes \<Rightarrow> 'm res) \<Rightarrow> int32 \<Rightarrow> bytes \<Rightarrow> 'm connection \<Rightarrow> 'm connection" where
  "resolve unmarshal rid payload c = (case pendingCalls c rid of
      None \<Rightarrow> c
    | Some call \<Rightarrow> (case New (respName call) of
        Ok name \<Rightarrow> c\<lparr>reader := Sending (callChan call) (unmarshal name payload)\<rparr>
      | _ \<Rightarrow> c\<lparr>reader := Panicked\<rparr>))"

definition resolveError :: "(bytes \<Rightarrow> (int32 \<times> string option) res) \<Rightarrow> int32 \<Rightarrow> bytes \<Rightarrow> int32 list \<Rightarrow>
    'm connection \<Rightarrow> 'm connection" where
  "resolveError unmarshalError rid payload keys c = (case unmarshalError payload of
      Ok (code, message) \<Rightarrow>
        (let apiErr = APIError code (case message of None \<Rightarrow> [] | Some m \<Rightarrow> m) in
         if rid = 0 then failAll apiErr keys False c
         else (case pendingCalls c rid of
             None \<Rightarrow> c
           | Some call \<Rightarrow> c\<lparr>reader := Sending (callChan call) (Fail apiErr)\<rparr>))
    | Fail e \<Rightarrow> failAll e keys False c
    | Panic \<Rightarrow> c\<lparr>reader := Panicked\<rparr>)"

text \<open>One turn of \<open>readLoop\<close>: the frame that was read goes to \<open>resolve\<close> or \<open>resolveError\<close>.\<close>

definition readFrame :: "(string \<Rightarrow> bytes \<Rightarrow> 'm res) \<Rightarrow> (bytes \<Rightarrow> (int32 \<times> string option) res) \<Rightarrow> ResponseFrame \<Rightarrow>
    int32 list \<Rightarrow> 'm connection \<Rightarrow> 'm connection" where
  "readFrame unmarshal unmarshalError f keys c =
     (let c1 = c\<lparr>framesRead := framesRead c @ [f]\<rparr> in
      if RespType f = ResponseSuccess then resolve unmarshal (RespRequestID f) (RespPayload f) c1
      else resolveError unmarshalError (RespRequestID f) (RespPayload f) keys c1)"

text \<open>A send to the channel of call \<open>k\<close>, when there is room.\<close>

definition sendTo :: "nat \<Rightarrow> 'm res \<Rightarrow> 'm connection \<Rightarrow> 'm connection option" where
  "sendTo k r c = (if chans c k = None then Some (c\<lparr>chans := (chans c)(k \<mapsto> r)\<rparr>) else None)"

text \<open>One step of the range in \<open>failAll\<close>: load the next key, or finish.\<close>

definition failNext :: "'m connection \<Rightarrow> int32 list \<Rightarrow> goerr \<Rightarrow> bool \<Rightarrow> 'm connection" where
  "failNext c keys e stop = (case keys of
      [] \<Rightarrow> if stop then c\<lparr>reader := Stopped, connClosed := True\<rparr> else c\<lparr>reader := Reading\<rparr>
    | i # rest \<Rightarrow> (case pendingCalls c i of
        None \<Rightarrow> c\<lparr>reader := FailingAll rest e stop\<rparr>
      | Some call \<Rightarrow> c\<lparr>reader := FailSend (callChan call) i rest e stop\<rparr>))"

subsection \<open>Steps\<close>

inductive connStep :: "(string \<Rightarrow> bytes \<Rightarrow> 'm res) \<Rightarrow> (bytes \<Rightarrow> (int32 \<times> string option) res) \<Rightarrow>
    'm connection \<Rightarrow> 'm connection \<Rightarrow> bool" for unmarshal unmarshalError where
  invoke: "name \<in> set usedNames \<Longrightarrow> connStep unmarshal unmarshalError c (storeCall name c)"
| otherConnection: "connStep unmarshal unmarshalError c (c\<lparr>requests := Suc (requests c)\<rparr>)"
| writeFails: "status c k = Waiting \<Longrightarrow> connStep unmarshal unmarshalError c (returnCall k (Fail e) c)"
| receive: "status c k = Waiting \<Longrightarrow> chans c k = Some r \<Longrightarrow>
    connStep unmarshal unmarshalError c (returnCall k r (c\<lparr>chans := (chans c)(k := None)\<rparr>))"
| cancel: "status c k = Waiting \<Longrightarrow> e \<in> {Canceled, DeadlineExceeded} \<Longrightarrow>
    connStep unmarshal unmarshalError c (returnCall k (Fail e) c)"
| seesClosed: "status c k = Waiting \<Longrightarrow> connClosed c \<Longrightarrow>
    connStep unmarshal unmarshalError c (returnCall k (Fail (Errf ''fluss: connection closed'')) c)"
| frame: "reader c = Reading \<Longrightarrow> rangeKeys c keys \<Longrightarrow>
    connStep unmarshal unmarshalError c (readFrame unmarshal unmarshalError f keys c)"
| readFails: "reader c = Reading \<Longrightarrow> rangeKeys c keys \<Longrightarrow> connStep unmarshal unmarshalError c (failAll e keys True c)"
| sends: "reader c = Sending k r \<Longrightarrow> sendTo k r c = Some c' \<Longrightarrow>
    connStep unmarshal unmarshalError c (c'\<lparr>reader := Reading\<rparr>)"
| failLoads: "reader c = FailingAll keys e stop \<Longrightarrow> connStep unmarshal unmarshalError c (failNext c keys e stop)"
| failSends: "reader c = FailSend k i keys e stop \<Longrightarrow> sendTo k (Fail e) c = Some c' \<Longrightarrow>
    connStep unmarshal unmarshalError c
      (c'\<lparr>pendingCalls := (pendingCalls c')(i := None), reader := FailingAll keys e stop\<rparr>)"

definition connReach where
  "connReach unmarshal unmarshalError c \<longleftrightarrow> (connStep unmarshal unmarshalError)\<^sup>*\<^sup>* newConnection c"

subsection \<open>Writing a request\<close>

text \<open>
  \<open>nextRequestID\<close> of the clock in nanoseconds, for the calls that open a connection. A key
  that was not negotiated has version 0.
\<close>

definition nextRequestID :: "int64 \<Rightarrow> int32" where
  "nextRequestID nanos = ucast (nanos AND 0x7fffffff)"

definition requestFrame :: "(int32 \<rightharpoonup> int16) \<Rightarrow> int32 \<Rightarrow> int32 \<Rightarrow> bytes \<Rightarrow> bytes" where
  "requestFrame vs apiKey reqId payload = EncodeRequest \<lparr>APIKey = apiKey,
     APIVersion = (case vs apiKey of None \<Rightarrow> 0 | Some v \<Rightarrow> v), RequestID = reqId, ReqPayload = payload\<rparr>"

text \<open>The deadline of the write: of the context, or of the configured timeout; none is given for the answer.\<close>

definition writeDeadline :: "int option \<Rightarrow> int \<Rightarrow> int \<Rightarrow> int option" where
  "writeDeadline ctxDeadline now timeout =
     (if ctxDeadline = None \<and> timeout > 0 then Some (now + timeout) else ctxDeadline)"

subsection \<open>Opening a connection\<close>

text \<open>
  \<open>ask\<close> is \<open>connection.invoke\<close> of the calls that open a connection, on the state \<open>'w\<close> of the
  world: the versions a server answers, or its challenge to a token. An authenticator is its
  protocol name, its initial token and its answers to a challenge (\<open>internal/auth\<close>).
\<close>

record 'w authenticator =
  authProtocol :: string
  InitialToken :: "'w \<Rightarrow> bytes res \<times> 'w"
  NextToken :: "'w \<Rightarrow> bytes \<Rightarrow> (bytes \<times> bool) res \<times> 'w"

definition NoopAuthenticator :: "'w authenticator" where
  "NoopAuthenticator = \<lparr>authProtocol = ''none'', InitialToken = (\<lambda>w. (Ok [], w)), NextToken = (\<lambda>w _. (Ok ([], False), w))\<rparr>"

record 'w endpoint =
  DialContext :: "'w \<Rightarrow> string \<Rightarrow> nat res \<times> 'w"
  apiVersions :: "'w \<Rightarrow> nat \<Rightarrow> (int32 \<times> int32) list res \<times> 'w"
  authenticateCall :: "'w \<Rightarrow> nat \<Rightarrow> string \<Rightarrow> bytes \<Rightarrow> bytes res \<times> 'w"
  closeConn :: "'w \<Rightarrow> nat \<Rightarrow> goerr option \<times> 'w"

record openConnection =
  connHandle :: nat
  versions :: "int32 \<rightharpoonup> int16"

fun negotiated :: "(int32 \<times> int32) list \<Rightarrow> (int32 \<rightharpoonup> int16) \<Rightarrow> (int32 \<rightharpoonup> int16)" where
  "negotiated [] vs = vs"
| "negotiated ((k, maxVersion) # items) vs = negotiated items (vs(k \<mapsto> ucast maxVersion))"

definition negotiate :: "'w endpoint \<Rightarrow> 'w \<Rightarrow> nat \<Rightarrow> (int32 \<rightharpoonup> int16) res \<times> 'w" where
  "negotiate E w h = (case apiVersions E w h of
      (Ok items, w') \<Rightarrow> (Ok (negotiated items Map.empty), w')
    | (Fail e, w') \<Rightarrow> (Fail e, w')
    | (Panic, w') \<Rightarrow> (Panic, w'))"

text \<open>The loop of \<open>authenticate\<close> runs as long as the server answers with challenges.\<close>

partial_function (option) authLoop :: "'w endpoint \<Rightarrow> 'w authenticator \<Rightarrow> nat \<Rightarrow> bytes \<Rightarrow> 'w \<Rightarrow> (unit res \<times> 'w) option" where
  "authLoop E a h token w = (case authenticateCall E w h (authProtocol a) token of
      (Ok challenge, w1) \<Rightarrow>
        (if challenge = [] then Some (Ok (), w1)
         else (case NextToken a w1 challenge of
             (Ok (token', ok), w2) \<Rightarrow> if ok then authLoop E a h token' w2 else Some (Ok (), w2)
           | (Fail e, w2) \<Rightarrow> Some (Fail e, w2)
           | (Panic, w2) \<Rightarrow> Some (Panic, w2)))
    | (Fail e, w1) \<Rightarrow> Some (Fail e, w1)
    | (Panic, w1) \<Rightarrow> Some (Panic, w1))"

definition authenticate :: "'w endpoint \<Rightarrow> 'w authenticator option \<Rightarrow> nat \<Rightarrow> 'w \<Rightarrow> (unit res \<times> 'w) option" where
  "authenticate E auth h w = (case auth of
      None \<Rightarrow> Some (Ok (), w)
    | Some a \<Rightarrow> if authProtocol a = ''none'' then Some (Ok (), w)
        else (case InitialToken a w of
            (Ok token, w1) \<Rightarrow> authLoop E a h token w1
          | (Fail e, w1) \<Rightarrow> Some (Fail e, w1)
          | (Panic, w1) \<Rightarrow> Some (Panic, w1)))"

subsection \<open>The client\<close>

text \<open>
  \<open>conns\<close> holds the open connections by address. \<open>getConn\<close> is None when authentication does
  not end; a connection whose handshake fails is closed and not kept.
\<close>

record transport =
  conns :: "(string \<times> openConnection) list"

definition NewTransport :: transport where "NewTransport = \<lparr>conns = []\<rparr>"

definition getConn :: "'w endpoint \<Rightarrow> 'w authenticator option \<Rightarrow> string \<Rightarrow> transport \<times> 'w \<Rightarrow>
    (openConnection res \<times> transport \<times> 'w) option" where
  "getConn E auth addr = (\<lambda>(c, w). case map_of (conns c) addr of
      Some conn \<Rightarrow> Some (Ok conn, c, w)
    | None \<Rightarrow> (case DialContext E w addr of
        (Fail e, w1) \<Rightarrow> Some (Fail e, c, w1)
      | (Panic, w1) \<Rightarrow> Some (Panic, c, w1)
      | (Ok h, w1) \<Rightarrow> (case negotiate E w1 h of
          (Fail e, w2) \<Rightarrow> Some (Fail e, c, snd (closeConn E w2 h))
        | (Panic, w2) \<Rightarrow> Some (Panic, c, w2)
        | (Ok vs, w2) \<Rightarrow> (case authenticate E auth h w2 of
            None \<Rightarrow> None
          | Some (Fail e, w3) \<Rightarrow> Some (Fail e, c, snd (closeConn E w3 h))
          | Some (Panic, w3) \<Rightarrow> Some (Panic, c, w3)
          | Some (Ok _, w3) \<Rightarrow>
              (let conn = \<lparr>connHandle = h, versions = vs\<rparr> in
               Some (Ok conn, c\<lparr>conns := (addr, conn) # conns c\<rparr>, w3))))))"

text \<open>
  \<open>Invoke\<close> up to the call on the connection: the connection, the request that \<open>build\<close> filled
  in and the number of the call.
\<close>

definition Invoke :: "'w endpoint \<Rightarrow> 'w authenticator option \<Rightarrow> string \<Rightarrow> string \<Rightarrow> (string \<Rightarrow> 'q res) \<Rightarrow> nat \<Rightarrow>
    transport \<times> 'w \<Rightarrow> ((openConnection \<times> 'q \<times> int32) res \<times> nat \<times> transport \<times> 'w) option" where
  "Invoke E auth addr reqName build n s = (case getConn E auth addr s of
      None \<Rightarrow> None
    | Some (Fail e, s') \<Rightarrow> Some (Fail e, n, s')
    | Some (Panic, s') \<Rightarrow> Some (Panic, n, s')
    | Some (Ok conn, s') \<Rightarrow> (case andThen (New reqName) build of
        Fail e \<Rightarrow> Some (Fail e, n, s')
      | Panic \<Rightarrow> Some (Panic, n, s')
      | Ok req \<Rightarrow> Some (Ok (conn, req, reqID n), Suc n, s')))"

text \<open>\<open>Close\<close> closes every connection, in the order of the map, and returns the first error.\<close>

fun closeAll :: "'w endpoint \<Rightarrow> (string \<times> openConnection) list \<Rightarrow> goerr option \<Rightarrow> 'w \<Rightarrow> goerr option \<times> 'w" where
  "closeAll E [] err w = (err, w)"
| "closeAll E ((addr, conn) # rest) err w = (case closeConn E w (connHandle conn) of
      (Some e, w1) \<Rightarrow> closeAll E rest (if err = None then Some (Wrapf (addr @ '': %w'') e) else err) w1
    | (None, w1) \<Rightarrow> closeAll E rest err w1)"

definition CloseTransport :: "'w endpoint \<Rightarrow> transport \<times> 'w \<Rightarrow> goerr option \<times> transport \<times> 'w" where
  "CloseTransport E = (\<lambda>(c, w). let (err, w') = closeAll E (conns c) None w in (err, c\<lparr>conns := []\<rparr>, w'))"

end
