(* ===== verification/Transport_Laws.thy ===== *)
theory Transport_Laws
  imports Transport
begin

text \<open>
  Invariants of a connection: every entry of the pending map belongs to the call whose id is its
  key; every result in a channel, or on its way to one, comes from a frame with the id of the call
  or from a broadcast failure; and, as long as no id is used twice, a waiting call is in the
  pending map or has its result.
\<close>

subsection \<open>Where results come from\<close>

definition answers :: "(string \<Rightarrow> bytes \<Rightarrow> 'm res) \<Rightarrow> (bytes \<Rightarrow> (int32 \<times> string option) res) \<Rightarrow> string \<Rightarrow> ResponseFrame \<Rightarrow>
    'm res \<Rightarrow> bool" where
  "answers unmarshal unmarshalError name f r =
     (if RespType f = ResponseSuccess then r = unmarshal name (RespPayload f)
      else (case unmarshalError (RespPayload f) of
          Ok (code, message) \<Rightarrow> r = Fail (APIError code (case message of None \<Rightarrow> [] | Some m \<Rightarrow> m))
        | _ \<Rightarrow> False))"

definition justified where
  "justified unmarshal unmarshalError c k r \<longleftrightarrow>
     (\<exists>f\<in>set (framesRead c). RespRequestID f = reqID k \<and> answers unmarshal unmarshalError (nameOf c k) f r)
     \<or> (\<exists>e\<in>set (broadcast c). r = Fail e)"

definition pendingInv :: "'m connection \<Rightarrow> bool" where
  "pendingInv c \<longleftrightarrow> (\<forall>i call. pendingCalls c i = Some call \<longrightarrow> callChan call < requests c \<and>
     i = reqID (callChan call) \<and> respName call = nameOf c (callChan call) \<and> respName call \<in> set usedNames)"

text \<open>What the reader holds: a result for a call, or an error that is being broadcast.\<close>

fun readerInv :: "(nat \<Rightarrow> 'm res \<Rightarrow> bool) \<Rightarrow> goerr list \<Rightarrow> nat \<Rightarrow> 'm readerState \<Rightarrow> bool" where
  "readerInv J es n (Sending k r) \<longleftrightarrow> k < n \<and> J k r"
| "readerInv J es n (FailingAll keys e stop) \<longleftrightarrow> e \<in> set es"
| "readerInv J es n (FailSend k i keys e stop) \<longleftrightarrow> k < n \<and> i = reqID k \<and> e \<in> set es"
| "readerInv J es n Reading \<longleftrightarrow> True"
| "readerInv J es n Stopped \<longleftrightarrow> True"
| "readerInv J es n Panicked \<longleftrightarrow> False"

definition resultInv where
  "resultInv unmarshal unmarshalError c \<longleftrightarrow>
     (\<forall>k r. chans c k = Some r \<longrightarrow> k < requests c \<and> justified unmarshal unmarshalError c k r)
     \<and> readerInv (justified unmarshal unmarshalError c) (broadcast c) (requests c) (reader c)
     \<and> (\<forall>k. status c k \<noteq> Idle \<longrightarrow> k < requests c)
     \<and> (\<forall>k m. status c k = Returned (Ok m) \<longrightarrow> justified unmarshal unmarshalError c k (Ok m))"

text \<open>\<open>proto.Unmarshal\<close> returns an error on bytes it cannot read; it does not panic.\<close>

definition noPanic :: "(string \<Rightarrow> bytes \<Rightarrow> 'm res) \<Rightarrow> (bytes \<Rightarrow> (int32 \<times> string option) res) \<Rightarrow> bool" where
  "noPanic unmarshal unmarshalError \<longleftrightarrow> (\<forall>name p. unmarshal name p \<noteq> Panic) \<and> (\<forall>p. unmarshalError p \<noteq> Panic)"

lemma readFrame_simps [simp]:
  "pendingCalls (readFrame u ue f keys c) = pendingCalls c" "chans (readFrame u ue f keys c) = chans c"
  "requests (readFrame u ue f keys c) = requests c" "status (readFrame u ue f keys c) = status c"
  "nameOf (readFrame u ue f keys c) = nameOf c" "connClosed (readFrame u ue f keys c) = connClosed c"
  "framesRead (readFrame u ue f keys c) = framesRead c @ [f]"
  by (auto simp: readFrame_def resolve_def resolveError_def failAll_def Let_def split: option.splits res.splits)

lemma readFrame_broadcast: "set (broadcast c) \<subseteq> set (broadcast (readFrame u ue f keys c))"
  by (auto simp: readFrame_def resolve_def resolveError_def failAll_def Let_def split: option.splits res.splits)

lemma failNext_simps [simp]:
  "pendingCalls (failNext c keys e stop) = pendingCalls c" "chans (failNext c keys e stop) = chans c"
  "requests (failNext c keys e stop) = requests c" "status (failNext c keys e stop) = status c"
  "nameOf (failNext c keys e stop) = nameOf c" "framesRead (failNext c keys e stop) = framesRead c"
  "broadcast (failNext c keys e stop) = broadcast c"
  by (auto simp: failNext_def split: list.splits option.splits)

lemma pendingInvI:
  "pendingInv c \<Longrightarrow> pendingCalls c' = pendingCalls c \<Longrightarrow> requests c \<le> requests c' \<Longrightarrow> nameOf c' = nameOf c \<Longrightarrow> pendingInv c'"
  unfolding pendingInv_def by (metis less_le_trans)

lemma pendingInv_delete: "pendingInv c \<Longrightarrow> pendingCalls c' = (pendingCalls c)(i := None) \<Longrightarrow>
    requests c' = requests c \<Longrightarrow> nameOf c' = nameOf c \<Longrightarrow> pendingInv c'"
  unfolding pendingInv_def by (metis fun_upd_apply option.distinct(1))

lemma pendingInv_step:
  assumes "connStep unmarshal unmarshalError c c'" "pendingInv c"
  shows "pendingInv c'"
  using assms
proof (cases rule: connStep.cases)
  case (invoke name)
  then show ?thesis
    using assms by (auto simp: pendingInv_def storeCall_def Let_def split: if_splits) (metis less_SucI less_irrefl)+
qed (auto simp: returnCall_def failAll_def sendTo_def split: if_splits intro: pendingInvI pendingInv_delete)

lemma justified_mono:
  "justified u ue c k r \<Longrightarrow> set (framesRead c) \<subseteq> set (framesRead c') \<Longrightarrow> set (broadcast c) \<subseteq> set (broadcast c') \<Longrightarrow>
    nameOf c' k = nameOf c k \<Longrightarrow> justified u ue c' k r"
  unfolding justified_def by auto

lemma readerInv_mono:
  "readerInv J es n s \<Longrightarrow> (\<And>k r. k < n \<Longrightarrow> J k r \<Longrightarrow> J' k r) \<Longrightarrow> set es \<subseteq> set es' \<Longrightarrow> n \<le> n' \<Longrightarrow> readerInv J' es' n' s"
  by (cases s) auto

text \<open>A step that keeps names, channels and calls, and only adds frames, keeps the invariant up to its reader.\<close>

lemma resultInv_grow:
  assumes "resultInv u ue c" "requests c \<le> requests c'" "\<And>k. k < requests c \<Longrightarrow> nameOf c' k = nameOf c k"
    "set (framesRead c) \<subseteq> set (framesRead c')" "set (broadcast c) \<subseteq> set (broadcast c')"
    "\<And>k r. chans c' k = Some r \<Longrightarrow> chans c k = Some r \<or> k < requests c \<and> justified u ue c k r"
    "\<And>k. status c' k \<noteq> Idle \<Longrightarrow> k < requests c'"
    "\<And>k m. status c' k = Returned (Ok m) \<Longrightarrow> k < requests c \<and> justified u ue c k (Ok m)"
    "reader c' = reader c \<or> readerInv (justified u ue c') (broadcast c') (requests c') (reader c')"
  shows "resultInv u ue c'"
proof -
  have mono: "justified u ue c' k r" if "justified u ue c k r" "k < requests c" for k r
    using that assms(3-5) by (auto intro: justified_mono)
  have "readerInv (justified u ue c') (broadcast c') (requests c') (reader c')"
    using assms(9)
  proof
    assume "reader c' = reader c"
    then show ?thesis
      using assms(1,2,5) mono unfolding resultInv_def by (auto elim!: readerInv_mono)
  qed
  moreover have "k < requests c' \<and> justified u ue c' k r" if "chans c' k = Some r" for k r
    using assms(6)[OF that] assms(1,2) mono unfolding resultInv_def by fastforce
  ultimately show ?thesis
    using assms(7,8) mono unfolding resultInv_def by blast
qed

text \<open>A call and its answer meet in \<open>resolve\<close> and \<open>resolveError\<close>.\<close>

lemma readFrame_reader:
  assumes "pendingInv c" "noPanic u ue"
  shows "reader (readFrame u ue f keys c) = reader c \<or>
    readerInv (justified u ue (readFrame u ue f keys c)) (broadcast (readFrame u ue f keys c)) (requests c)
      (reader (readFrame u ue f keys c))"
proof -
  have call: "callChan call < requests c \<and> RespRequestID f = reqID (callChan call) \<and>
      respName call = nameOf c (callChan call) \<and> New (respName call) = Ok (nameOf c (callChan call))"
    if "pendingCalls c (RespRequestID f) = Some call" for call
    using that assms(1) New_used unfolding pendingInv_def by metis
  have just: "justified u ue (readFrame u ue f keys c) k r"
    if "RespRequestID f = reqID k" "answers u ue (nameOf c k) f r" for k r
    using that unfolding justified_def by (auto intro: bexI [of _ f])
  define c' where "c' = readFrame u ue f keys c"
  consider "reader c' = reader c"
    | call r where "pendingCalls c (RespRequestID f) = Some call" "reader c' = Sending (callChan call) r"
        "answers u ue (nameOf c (callChan call)) f r"
    | e where "reader c' = FailingAll keys e False" "e \<in> set (broadcast c')"
  proof (cases "RespType f = ResponseSuccess")
    case True
    then have "answers u ue n f (u n (RespPayload f))" for n
      by (simp add: answers_def)
    with True call that show ?thesis
      by (cases "pendingCalls c (RespRequestID f)") (auto simp: c'_def readFrame_def resolve_def)
  next
    case False
    then have "answers u ue n f (Fail (APIError code (case m of None \<Rightarrow> [] | Some m \<Rightarrow> m)))"
      if "ue (RespPayload f) = Ok (code, m)" for n code m
      using that by (simp add: answers_def)
    with False call assms(2) that show ?thesis
      by (cases "pendingCalls c (RespRequestID f)"; cases "ue (RespPayload f)"; cases "RespRequestID f = 0")
        (auto simp: c'_def readFrame_def resolveError_def failAll_def noPanic_def Let_def)
  qed
  then show ?thesis
    by cases (use call just in \<open>auto simp flip: c'_def\<close>)
qed

lemma resultInv_step:
  assumes step: "connStep u ue c c'" and p: "pendingInv c" and r: "resultInv u ue c" and np: "noPanic u ue"
  shows "resultInv u ue c'"
proof -
  have chan: "k < requests c \<and> justified u ue c k x" if "chans c k = Some x" for k x
    using r that unfolding resultInv_def by auto
  have stat: "status c k \<noteq> Idle \<Longrightarrow> k < requests c" "status c k = Returned (Ok m) \<Longrightarrow> k < requests c \<and> justified u ue c k (Ok m)" for k m
    using r unfolding resultInv_def by auto
  have read: "readerInv (justified u ue c) (broadcast c) (requests c) (reader c)"
    using r unfolding resultInv_def by auto
  show ?thesis
    using step
  proof (cases rule: connStep.cases)
    case (invoke name)
    then show ?thesis
      using stat by (intro resultInv_grow [OF r]) (auto simp: storeCall_def Let_def less_Suc_eq split: if_splits)
  next
    case (frame keys f)
    then show ?thesis
      using stat readFrame_reader [OF p np, of f keys]
      by (intro resultInv_grow [OF r]) (auto simp: readFrame_broadcast [THEN subsetD])
  next
    case (receive k x)
    then show ?thesis
      using stat chan by (intro resultInv_grow [OF r]) (auto simp: returnCall_def split: if_splits)
  next
    case (sends k x c1)
    then show ?thesis
      using stat read by (intro resultInv_grow [OF r]) (auto simp: sendTo_def split: if_splits)
  next
    case (failLoads keys e stop)
    then have "readerInv (justified u ue c') (broadcast c') (requests c') (reader c')"
      using read p unfolding pendingInv_def by (auto simp: failNext_def split: list.splits option.splits)
    with failLoads show ?thesis
      using stat by (intro resultInv_grow [OF r]) auto
  next
    case (failSends k i keys e stop c1)
    then show ?thesis
      using stat read by (intro resultInv_grow [OF r]) (auto simp: sendTo_def justified_def split: if_splits)
  qed (use stat in \<open>(intro resultInv_grow [OF r]; auto simp: returnCall_def failAll_def less_SucI split: if_splits)\<close>)+
qed

lemma connReach_inv:
  assumes "connReach u ue c" "noPanic u ue"
  shows "pendingInv c" "resultInv u ue c"
proof -
  have "(connStep u ue)\<^sup>*\<^sup>* newConnection c"
    using assms(1) by (simp add: connReach_def)
  then have "pendingInv c \<and> resultInv u ue c"
  proof induction
    case base
    show ?case
      by (simp add: pendingInv_def resultInv_def newConnection_def)
  next
    case (step c c')
    then show ?case
      using pendingInv_step resultInv_step [OF _ _ _ assms(2)] by blast
  qed
  then show "pendingInv c" "resultInv u ue c"
    by auto
qed

subsection \<open>No call is lost\<close>

text \<open>Below \<open>2\<^sup>3\<^sup>2\<close> calls of a client, no two have the same id.\<close>

lemma reqID_inj: "j < 2 ^ 32 \<Longrightarrow> k < 2 ^ 32 \<Longrightarrow> reqID j = reqID k \<Longrightarrow> j = k"
proof -
  assume *: "j < 2 ^ 32" "k < 2 ^ 32" "reqID j = reqID k"
  have "reqID j - 1 = word_of_nat j" "reqID k - 1 = word_of_nat k"
    by (simp_all add: reqID_def)
  with * have "unat (word_of_nat j :: 32 word) = unat (word_of_nat k :: 32 word)"
    by simp
  with * show ?thesis
    by (simp add: unat_of_nat)
qed

definition waitingInv :: "'m connection \<Rightarrow> bool" where
  "waitingInv c \<longleftrightarrow> (\<forall>k. status c k = Waiting \<longrightarrow>
     pendingCalls c (reqID k) = Some \<lparr>respName = nameOf c k, callChan = k\<rparr> \<or> chans c k \<noteq> None)"

lemma waitingInvI:
  assumes "waitingInv c" "\<And>k. status c' k = Waiting \<Longrightarrow> status c k = Waiting \<and> nameOf c' k = nameOf c k"
    "\<And>k. chans c k \<noteq> None \<Longrightarrow> status c' k = Waiting \<Longrightarrow> chans c' k \<noteq> None"
    "\<And>k. status c' k = Waiting \<Longrightarrow> pendingCalls c' (reqID k) = pendingCalls c (reqID k) \<or> chans c' k \<noteq> None"
  shows "waitingInv c'"
  using assms unfolding waitingInv_def by metis

lemma waitingInv_step:
  assumes step: "connStep u ue c c'" and inv: "pendingInv c" "resultInv u ue c" "waitingInv c" and few: "requests c' \<le> 2 ^ 32"
  shows "waitingInv c'"
proof -
  have lt: "status c k = Waiting \<Longrightarrow> k < requests c" for k
    using inv(2) unfolding resultInv_def by auto
  have rd: "readerInv (justified u ue c) (broadcast c) (requests c) (reader c)"
    using inv(2) unfolding resultInv_def by auto
  have inj: "j < requests c' \<Longrightarrow> k < requests c' \<Longrightarrow> reqID j = reqID k \<Longrightarrow> j = k" for j k
    using few by (auto intro: reqID_inj)
  show ?thesis
    using step
  proof (cases rule: connStep.cases)
    case (invoke name)
    then have "reqID k \<noteq> reqID (requests c) \<and> k \<noteq> requests c" if "status c k = Waiting" for k
      using lt [OF that] inj [of k "requests c"] by (auto simp: storeCall_def Let_def)
    with invoke inv(3) show ?thesis
      by (auto simp: storeCall_def waitingInv_def Let_def)
  next
    case (sends k x c1)
    then show ?thesis
      using inv(3) by (auto simp: sendTo_def waitingInv_def split: if_splits)
  next
    case (failSends k i keys e stop c1)
    then have "i = reqID k" "k < requests c'"
      using rd by (auto simp: sendTo_def split: if_splits)
    with failSends show ?thesis
      using inv(3) lt inj by (intro waitingInvI [OF inv(3)]) (auto simp: sendTo_def split: if_splits)
  next
    case (otherConnection)
    then show ?thesis using inv(3) by (simp add: waitingInv_def)
  next
    case (frame keys f)
    then show ?thesis using inv(3) by (simp add: waitingInv_def)
  next
    case (failLoads keys e stop)
    then show ?thesis using inv(3) by (simp add: waitingInv_def)
  qed (use lt inj in \<open>(intro waitingInvI [OF inv(3)]; auto simp: returnCall_def failAll_def split: if_splits)\<close>)+
qed

lemma requests_mono: "connStep u ue c c' \<Longrightarrow> requests c \<le> requests c'"
  by (cases rule: connStep.cases) (auto simp: storeCall_def returnCall_def failAll_def sendTo_def Let_def split: if_splits)

lemma connReach_waiting:
  assumes "connReach u ue c" "noPanic u ue" "requests c \<le> 2 ^ 32"
  shows "waitingInv c"
proof -
  have "(connStep u ue)\<^sup>*\<^sup>* newConnection c"
    using assms(1) by (simp add: connReach_def)
  from this assms(3) show ?thesis
  proof induction
    case base
    show ?case
      by (simp add: waitingInv_def newConnection_def)
  next
    case (step c c')
    have "connReach u ue c"
      using step(1) by (simp add: connReach_def)
    with step show ?case
      using connReach_inv [OF _ assms(2)] waitingInv_step requests_mono by (meson le_trans)
  qed
qed

end
