(* ===== verification/Transport_Stream.thy ===== *)
theory Transport_Stream
  imports Transport_Laws
begin

text \<open>
  The reader goroutine over the bytes of its socket: a turn of \<open>readLoop\<close> takes one frame off
  the stream (\<open>codec.ReadResponse\<close>) and handles it, or fails all calls and stops when the
  stream gives no frame. \<open>streamStep\<close> is a connection together with the bytes its socket has
  yet to yield; its steps are steps of \<open>connStep\<close>, so the laws of the connection hold for it.
\<close>

definition readTurn :: "(string \<Rightarrow> bytes \<Rightarrow> 'm res) \<Rightarrow> (bytes \<Rightarrow> (int32 \<times> string option) res) \<Rightarrow> int32 list \<Rightarrow>
    'm connection \<times> bytes \<Rightarrow> 'm connection \<times> bytes" where
  "readTurn unmarshal unmarshalError keys = (\<lambda>(c, bs). case ReadResponse bs of
      Ok (f, rest) \<Rightarrow> (readFrame unmarshal unmarshalError f keys c, rest)
    | Fail e \<Rightarrow> (failAll e keys True c, bs)
    | Panic \<Rightarrow> (c\<lparr>reader := Panicked\<rparr>, bs))"

text \<open>The second rule holds the steps that do not read: those of the callers and the sends.\<close>

inductive streamStep :: "(string \<Rightarrow> bytes \<Rightarrow> 'm res) \<Rightarrow> (bytes \<Rightarrow> (int32 \<times> string option) res) \<Rightarrow>
    'm connection \<times> bytes \<Rightarrow> 'm connection \<times> bytes \<Rightarrow> bool" for unmarshal unmarshalError where
  turn: "reader c = Reading \<Longrightarrow> rangeKeys c keys \<Longrightarrow>
    streamStep unmarshal unmarshalError (c, bs) (readTurn unmarshal unmarshalError keys (c, bs))"
| other: "connStep unmarshal unmarshalError c c' \<Longrightarrow> framesRead c' = framesRead c \<Longrightarrow>
    (reader c = Reading \<longrightarrow> reader c' = Reading) \<Longrightarrow> streamStep unmarshal unmarshalError (c, bs) (c', bs)"

definition streamReach where
  "streamReach unmarshal unmarshalError bs0 s \<longleftrightarrow> (streamStep unmarshal unmarshalError)\<^sup>*\<^sup>* (newConnection, bs0) s"

subsection \<open>Simulation\<close>

lemma streamStep_connStep:
  assumes "streamStep unmarshal unmarshalError s s'"
  shows "connStep unmarshal unmarshalError (fst s) (fst s')"
  using assms
proof cases
  case (turn c keys bs)
  then show ?thesis
    using ReadResponse_no_panic[of bs]
    by (auto simp: readTurn_def intro: connStep.frame connStep.readFails split: res.splits)
qed auto

lemma streamReach_connReach:
  assumes "streamReach unmarshal unmarshalError bs0 s"
  shows "connReach unmarshal unmarshalError (fst s)"
  using assms unfolding streamReach_def connReach_def
proof (induction rule: rtranclp_induct)
  case (step s s')
  from streamStep_connStep[OF step(2)] step(3) show ?case by simp
qed simp

subsection \<open>Frames come in the order of the stream\<close>

text \<open>The reader has met the end of its stream, or is about to stop because of it.\<close>

definition stopping :: "'m connection \<Rightarrow> bool" where
  "stopping c \<longleftrightarrow> connClosed c \<or> reader c = Stopped \<or> (\<exists>keys e. reader c = FailingAll keys e True)
     \<or> (\<exists>k i keys e. reader c = FailSend k i keys e True)"

lemma quietStep:
  assumes "connStep unmarshal unmarshalError c c'" and "framesRead c' = framesRead c"
    and "reader c = Reading \<longrightarrow> reader c' = Reading"
  shows "(stopping c' \<longrightarrow> stopping c) \<and> set (broadcast c) \<subseteq> set (broadcast c')"
  using assms(1)
proof cases
  case (frame keys f)
  have "framesRead c' = framesRead c @ [f]"
    unfolding frame(1) readFrame_def resolve_def resolveError_def failAll_def Let_def
    by (auto split: option.splits res.splits prod.splits)
  with assms(2) show ?thesis by simp
next
  case (sends k r d)
  then show ?thesis by (auto simp: stopping_def sendTo_def split: if_splits)
next
  case (failLoads keys e stop)
  then show ?thesis by (cases stop) (auto simp: stopping_def failNext_def split: list.splits option.splits)
next
  case (failSends k i keys e stop d)
  then show ?thesis by (cases stop) (auto simp: stopping_def sendTo_def split: if_splits)
next
  case (readFails keys e)
  with assms(3) show ?thesis by (simp add: failAll_def)
qed (auto simp: stopping_def storeCall_def returnCall_def Let_def)

text \<open>
  Of a stream that carries the frames \<open>fs\<close> and then no frame (its end, a truncated frame, or
  bytes that are none), the reader takes the frames one by one, and stops behind the last.
\<close>

definition inStream :: "ResponseFrame list \<Rightarrow> bytes \<Rightarrow> goerr \<Rightarrow> 'm connection \<times> bytes \<Rightarrow> bool" where
  "inStream fs rest e = (\<lambda>(c, bs). \<exists>n \<le> length fs. framesRead c = take n fs
     \<and> bs = concat (map encodeResponse (drop n fs)) @ rest
     \<and> (stopping c \<longrightarrow> n = length fs \<and> e \<in> set (broadcast c)))"

lemma framesRead_readFrame:
  "framesRead (readFrame unmarshal unmarshalError f keys c) = framesRead c @ [f]"
  unfolding readFrame_def resolve_def resolveError_def failAll_def Let_def
  by (auto split: option.splits res.splits prod.splits)

lemma stopping_readFrame:
  assumes "\<not> stopping c"
  shows "\<not> stopping (readFrame unmarshal unmarshalError f keys c)"
  using assms unfolding readFrame_def resolve_def resolveError_def failAll_def Let_def stopping_def
  by (auto split: option.splits res.splits prod.splits if_splits)

lemma inStream_turn:
  assumes "list_all wellFormedFrame fs" and "ReadResponse rest = Fail e" and "reader c = Reading"
    and "inStream fs rest e (c, bs)" and "\<not> connClosed c"
  shows "inStream fs rest e (readTurn unmarshal unmarshalError keys (c, bs))"
proof -
  from assms(4) obtain n where n: "n \<le> length fs" "framesRead c = take n fs"
    and bs: "bs = concat (map encodeResponse (drop n fs)) @ rest" by (auto simp: inStream_def)
  show ?thesis
  proof (cases "n = length fs")
    case True
    with n bs assms(2) show ?thesis
      by (auto simp: readTurn_def inStream_def failAll_def)
  next
    case False
    with n(1) have d: "drop n fs = fs ! n # drop (Suc n) fs" by (simp add: Cons_nth_drop_Suc)
    from False n(1) assms(1) have "wellFormedFrame (fs ! n)" by (simp add: list_all_length)
    from ReadResponse_encode[OF this] have "ReadResponse bs
        = Ok (fs ! n, concat (map encodeResponse (drop (Suc n) fs)) @ rest)"
      unfolding bs d by simp
    moreover have "\<not> stopping (readFrame unmarshal unmarshalError (fs ! n) keys c)"
      by (rule stopping_readFrame) (use assms(3,5) in \<open>simp add: stopping_def\<close>)
    moreover have "take n fs @ [fs ! n] = take (Suc n) fs" using False n(1) by (simp add: take_Suc_conv_app_nth)
    ultimately show ?thesis
      using False n by (auto simp: readTurn_def inStream_def framesRead_readFrame intro!: exI[of _ "Suc n"])
  qed
qed

lemma closed_reader:
  assumes "connStep unmarshal unmarshalError c c'" and "connClosed c \<longrightarrow> reader c = Stopped"
  shows "connClosed c' \<longrightarrow> reader c' = Stopped"
  using assms(1)
proof cases
  case (frame keys f)
  with assms(2) show ?thesis
    by (auto simp: readFrame_def resolve_def resolveError_def failAll_def Let_def split: option.splits res.splits prod.splits)
next
  case (failLoads keys e stop)
  with assms(2) show ?thesis by (auto simp: failNext_def split: list.splits option.splits)
qed (use assms(2) in \<open>auto simp: storeCall_def returnCall_def sendTo_def failAll_def Let_def split: if_splits\<close>)

lemma closed_reader_reach:
  assumes "connReach unmarshal unmarshalError c"
  shows "connClosed c \<longrightarrow> reader c = Stopped"
  using assms unfolding connReach_def
proof (induction rule: rtranclp_induct)
  case base
  show ?case by (simp add: newConnection_def)
next
  case (step c c')
  from closed_reader[OF step(2,3)] show ?case .
qed

lemma stream_in_order:
  assumes "list_all wellFormedFrame fs" and "ReadResponse rest = Fail e"
    and "streamReach unmarshal unmarshalError (concat (map encodeResponse fs) @ rest) s"
  shows "inStream fs rest e s"
  using assms(3) unfolding streamReach_def
proof (induction rule: rtranclp_induct)
  case base
  show ?case by (auto simp: inStream_def newConnection_def stopping_def)
next
  case (step s s')
  from step(2) show ?case
  proof cases
    case (turn c keys bs)
    have "connReach unmarshal unmarshalError c"
      using streamReach_connReach[of unmarshal unmarshalError _ s] step(1) turn(1) by (simp add: streamReach_def)
    from closed_reader_reach[OF this] turn(3) have "\<not> connClosed c" by auto
    with inStream_turn[OF assms(1,2)] turn step(3) show ?thesis by simp
  next
    case (other c c' bs)
    from quietStep[OF other(3,4,5)] step(3) other(1,2,4) show ?thesis by (auto simp: inStream_def)
  qed
qed

end
