(* ===== verification/Transport_Properties.thy ===== *)
theory Transport_Properties
  imports Transport_Stream
begin

text \<open>
  The properties of the transport: a call gets the answer of its own request, no waiting call is
  lost, and the two ways in which a connection stops to answer while the client keeps it.
\<close>

subsection \<open>A connection run by hand\<close>

definition echo :: "string \<Rightarrow> bytes \<Rightarrow> (string \<times> bytes) res" where "echo name p = Ok (name, p)"
definition noError :: "bytes \<Rightarrow> (int32 \<times> string option) res" where "noError p = Fail (External ''unmarshal'')"

lemma echo_noPanic: "noPanic echo noError"
  by (simp add: noPanic_def echo_def noError_def)

definition success :: "int32 \<Rightarrow> bytes \<Rightarrow> ResponseFrame" where
  "success i p = \<lparr>RespType = ResponseSuccess, RespRequestID = i, RespPayload = p\<rparr>"

definition asked :: "(string \<times> bytes) connection" where "asked = storeCall ''LookupResponse'' newConnection"

definition answered :: "(string \<times> bytes) connection" where
  "answered = asked\<lparr>framesRead := [success 1 [7]], chans := [0 \<mapsto> Ok (''LookupResponse'', [7])]\<rparr>"

lemma reach_step: "connReach u ue c \<Longrightarrow> connStep u ue c c' \<Longrightarrow> connReach u ue c'"
  by (auto simp: connReach_def)

lemma LookupResponse_used: "''LookupResponse'' \<in> set usedNames"
  unfolding usedNames_def by simp

lemma asked_reach: "connReach echo noError asked"
  unfolding asked_def by (rule reach_step [OF _ connStep.invoke [OF LookupResponse_used]]) (simp add: connReach_def)

lemma asked_simps:
  "reader asked = Reading" "status asked = (\<lambda>_. Idle)(0 := Waiting)" "chans asked = Map.empty" "connClosed asked = False"
  "pendingCalls asked = [1 \<mapsto> \<lparr>respName = ''LookupResponse'', callChan = 0\<rparr>]" "requests asked = 1"
  "nameOf asked = (\<lambda>_. [])(0 := ''LookupResponse'')" "framesRead asked = []" "broadcast asked = []"
  by (simp_all add: asked_def storeCall_def newConnection_def reqID_def Let_def)

lemma answered_reach: "connReach echo noError answered"
proof -
  let ?c = "readFrame echo noError (success 1 [7]) [1] asked"
  have read: "?c = asked\<lparr>framesRead := [success 1 [7]], reader := Sending 0 (Ok (''LookupResponse'', [7]))\<rparr>"
    using New_used [OF LookupResponse_used]
    by (simp add: readFrame_def resolve_def success_def asked_simps echo_def)
  have "connReach echo noError ?c"
    by (rule reach_step [OF asked_reach connStep.frame]) (simp_all add: asked_simps rangeKeys_def)
  then have "connReach echo noError (?c\<lparr>chans := (chans ?c)(0 \<mapsto> Ok (''LookupResponse'', [7])), reader := Reading\<rparr>)"
    by (rule reach_step) (rule connStep.sends [where k = 0], simp_all add: read sendTo_def asked_simps)
  also have "?c\<lparr>chans := (chans ?c)(0 \<mapsto> Ok (''LookupResponse'', [7])), reader := Reading\<rparr> = answered"
    by (simp add: read answered_def asked_simps)
  finally show ?thesis .
qed

lemma answers_Ok: "answers u ue n f (Ok m) \<longleftrightarrow> RespType f = ResponseSuccess \<and> u n (RespPayload f) = Ok m"
  by (cases "ue (RespPayload f)") (auto simp: answers_def)

subsection \<open>Properties\<close>

text \<open>
  C32. A call that returns a message got it from a success frame that carries its own request
  id, decoded as the response type of the call; below \<open>2\<^sup>3\<^sup>2\<close> calls no other call has that id.
  The reader does not panic.
\<close>

theorem answered_by_own_frame:
  assumes "connReach unmarshal unmarshalError c" and "noPanic unmarshal unmarshalError"
    and "status c k = Returned (Ok m)"
  shows "(\<exists>f\<in>set (framesRead c). RespType f = ResponseSuccess \<and> RespRequestID f = reqID k \<and>
      unmarshal (nameOf c k) (RespPayload f) = Ok m)
    \<and> (\<forall>j<requests c. requests c \<le> 2 ^ 32 \<longrightarrow> reqID j = reqID k \<longrightarrow> j = k)
    \<and> reader c \<noteq> Panicked"
proof (intro conjI)
  note inv = connReach_inv(2) [OF assms(1,2), unfolded resultInv_def]
  have "justified unmarshal unmarshalError c k (Ok m)"
    using inv assms(3) by blast
  then show "\<exists>f\<in>set (framesRead c). RespType f = ResponseSuccess \<and> RespRequestID f = reqID k \<and>
      unmarshal (nameOf c k) (RespPayload f) = Ok m"
    unfolding justified_def answers_Ok by auto
  have "k < requests c"
    using inv assms(3) by force
  then show "\<forall>j<requests c. requests c \<le> 2 ^ 32 \<longrightarrow> reqID j = reqID k \<longrightarrow> j = k"
    by (auto intro: reqID_inj)
  show "reader c \<noteq> Panicked"
    using inv by auto
qed

definition returned :: "(string \<times> bytes) connection" where
  "returned = returnCall 0 (Ok (''LookupResponse'', [7])) (answered\<lparr>chans := Map.empty\<rparr>)"

lemma returned_reach: "connReach echo noError returned"
proof -
  have "connStep echo noError answered (returnCall 0 (Ok (''LookupResponse'', [7])) (answered\<lparr>chans := (chans answered)(0 := None)\<rparr>))"
    by (rule connStep.receive) (simp_all add: answered_def asked_simps)
  then show ?thesis
    unfolding returned_def using reach_step [OF answered_reach] by (simp add: answered_def)
qed

lemma answered_by_own_frame_witness:
  "connReach echo noError returned \<and> (\<exists>f\<in>set (framesRead returned). RespType f = ResponseSuccess \<and>
    RespRequestID f = 1 \<and> echo ''LookupResponse'' (RespPayload f) = Ok (''LookupResponse'', [7]))"
  using answered_by_own_frame [OF returned_reach echo_noPanic, of 0 "(''LookupResponse'', [7])"] returned_reach
  by (simp add: returned_def returnCall_def answered_def asked_simps reqID_def)

text \<open>
  C33. As long as the ids of a client have not wrapped, a waiting call is never lost: a result in
  its channel is what its next step returns, and without one the success frame with its id,
  read by an idle reader, makes it return the decoded message.
\<close>

theorem waiting_call_answered:
  fixes f :: ResponseFrame
  assumes "connReach unmarshal unmarshalError c" and "noPanic unmarshal unmarshalError"
    and "requests c \<le> 2 ^ 32" and "status c k = Waiting" and "reader c = Reading"
    and "RespType f = ResponseSuccess" and "RespRequestID f = reqID k"
  shows "\<exists>c'. (connStep unmarshal unmarshalError)\<^sup>*\<^sup>* c c' \<and>
    status c' k = Returned (case chans c k of None \<Rightarrow> unmarshal (nameOf c k) (RespPayload f) | Some r \<Rightarrow> r)"
proof (cases "chans c k")
  case (Some r)
  then have "connStep unmarshal unmarshalError c (returnCall k r (c\<lparr>chans := (chans c)(k := None)\<rparr>))"
    using assms(4) by (intro connStep.receive)
  with Some show ?thesis
    by (intro exI [of _ "returnCall k r (c\<lparr>chans := (chans c)(k := None)\<rparr>)"]) (auto simp: returnCall_def)
next
  case None
  let ?r = "unmarshal (nameOf c k) (RespPayload f)"
  have call: "pendingCalls c (reqID k) = Some \<lparr>respName = nameOf c k, callChan = k\<rparr>"
    using connReach_waiting [OF assms(1-3)] assms(4) None unfolding waitingInv_def by auto
  then have "nameOf c k \<in> set usedNames"
    using connReach_inv(1) [OF assms(1,2)] unfolding pendingInv_def by (metis pendingCall.select_convs(1))
  obtain keys where keys: "rangeKeys c keys"
    using finite_distinct_list [of "dom (pendingCalls c)"] unfolding rangeKeys_def by auto
  let ?c1 = "readFrame unmarshal unmarshalError f keys c"
  let ?c2 = "?c1\<lparr>chans := (chans ?c1)(k \<mapsto> ?r)\<rparr>"
  let ?c3 = "?c2\<lparr>reader := Reading\<rparr>"
  have "reader ?c1 = Sending k ?r"
    using call New_used [OF \<open>nameOf c k \<in> set usedNames\<close>] assms(6,7) by (simp add: readFrame_def resolve_def)
  then have "connStep unmarshal unmarshalError ?c1 (?c2\<lparr>reader := Reading\<rparr>)"
    using None connStep.sends [of ?c1 k ?r ?c2] by (simp add: sendTo_def)
  moreover have "connStep unmarshal unmarshalError ?c3 (returnCall k ?r (?c3\<lparr>chans := (chans ?c3)(k := None)\<rparr>))"
    using assms(4) by (intro connStep.receive) simp_all
  moreover have "connStep unmarshal unmarshalError c ?c1"
    using assms(5) keys by (rule connStep.frame)
  ultimately have "(connStep unmarshal unmarshalError)\<^sup>*\<^sup>* c (returnCall k ?r (?c3\<lparr>chans := (chans ?c3)(k := None)\<rparr>))"
    by (meson rtranclp.rtrancl_into_rtrancl rtranclp.rtrancl_refl)
  moreover have "status (returnCall k ?r (?c3\<lparr>chans := (chans ?c3)(k := None)\<rparr>)) k = Returned ?r"
    by (simp add: returnCall_def)
  ultimately show ?thesis
    unfolding None option.case by blast
qed

lemma waiting_call_answered_witness:
  "\<exists>c'. (connStep echo noError)\<^sup>*\<^sup>* asked c' \<and> status c' 0 = Returned (Ok (''LookupResponse'', [7]))"
  using waiting_call_answered [OF asked_reach echo_noPanic, of 0 "success 1 [7]"]
  by (simp add: asked_simps success_def reqID_def echo_def)

text \<open>The call the reader is sending to, and a connection after its reader got stuck there.\<close>

fun wantsToSend :: "'m readerState \<Rightarrow> nat option" where
  "wantsToSend (Sending k r) = Some k"
| "wantsToSend (FailSend k i keys e stop) = Some k"
| "wantsToSend s = None"

definition stuckLike :: "'m connection \<Rightarrow> nat \<Rightarrow> 'm connection \<Rightarrow> bool" where
  "stuckLike c k c' \<longleftrightarrow> reader c' = reader c \<and> connClosed c' = connClosed c \<and> chans c' k \<noteq> None \<and> status c' k \<noteq> Waiting \<and>
     k < requests c' \<and> (\<forall>j r. chans c' j = Some r \<longrightarrow> chans c j = Some r) \<and>
     (\<forall>j m. status c' j = Returned (Ok m) \<longrightarrow> status c j = Returned (Ok m) \<or> chans c j = Some (Ok m))"

lemma stuckLike_step:
  assumes "connStep u ue c' c''" "stuckLike c k c'" "wantsToSend (reader c) = Some k"
  shows "stuckLike c k c''"
proof -
  have "(\<exists>r. reader c' = Sending k r) \<or> (\<exists>i keys e stop. reader c' = FailSend k i keys e stop)"
    using assms(2,3) by (cases "reader c") (auto simp: stuckLike_def)
  with assms(1,2) show ?thesis
    by (cases rule: connStep.cases)
      (auto simp: stuckLike_def storeCall_def returnCall_def sendTo_def Let_def split: if_splits)
qed

text \<open>
  C35. A result sent to a call that has returned on its context is never taken: when the reader
  wants to send to that channel again (a duplicate answer, or a failure of the whole connection),
  it is blocked for good. The connection is not closed, and no call gets an answer from then on
  that was not in its channel already.
\<close>

theorem abandoned_result_blocks_reader:
  assumes "connReach unmarshal unmarshalError c" and "noPanic unmarshal unmarshalError"
    and "wantsToSend (reader c) = Some k" and "chans c k \<noteq> None" and "status c k = Returned r"
    and "(connStep unmarshal unmarshalError)\<^sup>*\<^sup>* c c'"
  shows "reader c' = reader c \<and> connClosed c' = connClosed c \<and>
    (\<forall>j m. status c' j = Returned (Ok m) \<longrightarrow> status c j = Returned (Ok m) \<or> chans c j = Some (Ok m))"
proof -
  have "k < requests c"
    using connReach_inv(2) [OF assms(1,2)] assms(5) unfolding resultInv_def by force
  from assms(6) have "stuckLike c k c'"
  proof induction
    case base
    then show ?case
      using assms(4,5) \<open>k < requests c\<close> by (simp add: stuckLike_def)
  next
    case (step c1 c2)
    then show ?case
      using stuckLike_step assms(3) by blast
  qed
  then show ?thesis
    unfolding stuckLike_def by blast
qed

text \<open>The connection breaks after the answer is in the channel, and the caller leaves on its deadline.\<close>

definition abandoned :: "(string \<times> bytes) connection" where
  "abandoned = returnCall 0 (Fail DeadlineExceeded)
     (answered\<lparr>broadcast := [ErrEOF], reader := FailSend 0 1 [] ErrEOF True\<rparr>)"

lemma abandoned_reach: "connReach echo noError abandoned"
proof -
  have "connReach echo noError (failAll ErrEOF [1] True answered)"
    by (rule reach_step [OF answered_reach connStep.readFails]) (simp_all add: answered_def asked_simps rangeKeys_def)
  then have "connReach echo noError (failNext (failAll ErrEOF [1] True answered) [1] ErrEOF True)"
    by (rule reach_step) (rule connStep.failLoads, simp add: failAll_def)
  then have "connReach echo noError (answered\<lparr>broadcast := [ErrEOF], reader := FailSend 0 1 [] ErrEOF True\<rparr>)"
    by (simp add: failNext_def failAll_def answered_def asked_simps)
  then show ?thesis
    unfolding abandoned_def
    by (rule reach_step) (rule connStep.cancel, simp_all add: answered_def asked_simps)
qed

lemma abandoned_result_blocks_reader_witness:
  "connReach echo noError abandoned \<and> status abandoned 0 = Returned (Fail DeadlineExceeded) \<and>
    reader abandoned = FailSend 0 1 [] ErrEOF True \<and>
    (\<nexists>c'. (connStep echo noError)\<^sup>*\<^sup>* abandoned c' \<and> connClosed c') \<and>
    (\<nexists>c' j m. (connStep echo noError)\<^sup>*\<^sup>* abandoned c' \<and> j > 0 \<and> status c' j = Returned (Ok m))"
proof -
  have *: "wantsToSend (reader abandoned) = Some 0" "chans abandoned = [0 \<mapsto> Ok (''LookupResponse'', [7])]"
    "status abandoned = (\<lambda>_. Idle)(0 := Returned (Fail DeadlineExceeded))" "\<not> connClosed abandoned"
    "reader abandoned = FailSend 0 1 [] ErrEOF True"
    by (simp_all add: abandoned_def returnCall_def answered_def asked_simps)
  have "reader c' = FailSend 0 1 [] ErrEOF True \<and> \<not> connClosed c' \<and> (\<forall>j>0. \<forall>m. status c' j \<noteq> Returned (Ok m))"
    if "(connStep echo noError)\<^sup>*\<^sup>* abandoned c'" for c'
  proof -
    have "reader c' = reader abandoned \<and> connClosed c' = connClosed abandoned \<and> (\<forall>j m. status c' j = Returned (Ok m) \<longrightarrow>
        status abandoned j = Returned (Ok m) \<or> chans abandoned j = Some (Ok m))"
      by (rule abandoned_result_blocks_reader [OF abandoned_reach echo_noPanic *(1) _ _ that]) (simp_all add: *(2,3))
    with * show ?thesis
      by (metis callStatus.distinct(3) fun_upd_apply nat_less_le option.distinct(1))
  qed
  with * show ?thesis
    using abandoned_reach by (auto simp del: split_paired_Ex)
qed

text \<open>A connection after its reader stopped.\<close>

definition deadLike :: "'m connection \<Rightarrow> 'm connection \<Rightarrow> bool" where
  "deadLike c c' \<longleftrightarrow> reader c' = Stopped \<and> requests c \<le> requests c' \<and>
     (\<forall>k\<ge>requests c. chans c' k = None \<and> (\<forall>m. status c' k \<noteq> Returned (Ok m)))"

lemma deadLike_step: "connStep u ue c' c'' \<Longrightarrow> deadLike c c' \<Longrightarrow> deadLike c c''"
  by (cases rule: connStep.cases)
     (auto simp: deadLike_def storeCall_def returnCall_def sendTo_def Let_def split: if_splits)

text \<open>
  C36. A connection whose reader has stopped stays with the client: \<open>getConn\<close> hands it out for
  its address without dialling again, whatever the network does, until \<open>Close\<close>; and no call that
  is made on it from then on returns a message.
\<close>

theorem dead_connection_stays:
  assumes "connReach unmarshal unmarshalError c" and "noPanic unmarshal unmarshalError" and "reader c = Stopped"
    and "(connStep unmarshal unmarshalError)\<^sup>*\<^sup>* c c'" and "requests c \<le> k"
    and "getConn E auth addr (t, w) = Some (Ok conn, t', w')"
  shows "status c' k \<noteq> Returned (Ok m) \<and> getConn E' auth' addr (t', w'') = Some (Ok conn, t', w'')"
proof -
  have "k \<ge> requests c \<Longrightarrow> chans c k = None \<and> status c k = Idle" for k
    using connReach_inv(2) [OF assms(1,2)] unfolding resultInv_def
    by (metis linorder_not_less option.exhaust)
  with assms(3) have base: "deadLike c c"
    by (simp add: deadLike_def)
  from assms(4) have "deadLike c c'"
    by (induction rule: rtranclp_induct) (use base deadLike_step in blast)+
  moreover have "map_of (conns t') addr = Some conn"
    using assms(6) unfolding getConn_def
    by (auto simp: Let_def split: option.splits prod.splits res.splits)
  ultimately show ?thesis
    using assms(5) unfolding deadLike_def getConn_def by auto
qed

definition deadConn :: "(string \<times> bytes) connection" where
  "deadConn = newConnection\<lparr>broadcast := [ErrEOF], reader := Stopped, connClosed := True\<rparr>"

lemma deadConn_reach: "connReach echo noError deadConn"
proof -
  have "connReach echo noError (failAll ErrEOF [] True newConnection)"
    by (rule reach_step [OF _ connStep.readFails]) (simp_all add: connReach_def newConnection_def rangeKeys_def)
  then have "connReach echo noError (failNext (failAll ErrEOF [] True newConnection) [] ErrEOF True)"
    by (rule reach_step) (rule connStep.failLoads, simp add: failAll_def)
  then show ?thesis
    by (simp add: failNext_def failAll_def newConnection_def deadConn_def)
qed

definition server :: "unit endpoint" where
  "server = \<lparr>DialContext = (\<lambda>w a. (Ok 3, w)), apiVersions = (\<lambda>w h. (Ok [(1006, 2)], w)),
     authenticateCall = (\<lambda>w h p t. (Fail ErrEOF, w)), closeConn = (\<lambda>w h. (None, w))\<rparr>"

definition kept :: openConnection where "kept = \<lparr>connHandle = 3, versions = [1006 \<mapsto> 2]\<rparr>"

lemma server_getConn: "getConn server None addr (NewTransport, ()) = Some (Ok kept, \<lparr>conns = [(addr, kept)]\<rparr>, ())"
  by (simp add: getConn_def NewTransport_def server_def negotiate_def authenticate_def kept_def Let_def)

lemma dead_connection_stays_witness:
  "connReach echo noError deadConn \<and>
    (\<nexists>c' k m. (connStep echo noError)\<^sup>*\<^sup>* deadConn c' \<and> status c' k = Returned (Ok m)) \<and>
    getConn server (Some NoopAuthenticator) ''s:1'' (\<lparr>conns = [(''s:1'', kept)]\<rparr>, ()) =
        Some (Ok kept, \<lparr>conns = [(''s:1'', kept)]\<rparr>, ())"
proof -
  have *: "reader deadConn = Stopped" "requests deadConn \<le> k" for k
    by (simp_all add: deadConn_def newConnection_def)
  have "status c' k \<noteq> Returned (Ok m) \<and>
      getConn server (Some NoopAuthenticator) ''s:1'' (\<lparr>conns = [(''s:1'', kept)]\<rparr>, ()) =
        Some (Ok kept, \<lparr>conns = [(''s:1'', kept)]\<rparr>, ())"
    if "(connStep echo noError)\<^sup>*\<^sup>* deadConn c'" for c' k m
    by (rule dead_connection_stays [OF deadConn_reach echo_noPanic *(1) that *(2) server_getConn])
  then show ?thesis
    using deadConn_reach by blast
qed

subsection \<open>The stream of frames\<close>

text \<open>
  C34. The reader takes the frames off its socket whole and in their order. When the socket
  carries the encodings of well-formed frames and then no further frame (its end, a truncated
  or an unknown one), then in every reachable state the frames that were handled are the first
  of them and the bytes left are the encodings of the others; the connection is in a state of
  the step relation; and it closes only after all frames were handled, with the read error
  given to the calls that are waiting.
\<close>

theorem frames_read_in_order:
  assumes "list_all wellFormedFrame fs" and "ReadResponse rest = Fail e"
    and "streamReach unmarshal unmarshalError (concat (map encodeResponse fs) @ rest) (c, bs)"
  shows "connReach unmarshal unmarshalError c
    \<and> (\<exists>n \<le> length fs. framesRead c = take n fs \<and> bs = concat (map encodeResponse (drop n fs)) @ rest)
    \<and> (connClosed c \<longrightarrow> framesRead c = fs \<and> e \<in> set (broadcast c))"
proof (intro conjI)
  show "connReach unmarshal unmarshalError c" using streamReach_connReach[OF assms(3)] by simp
  from stream_in_order[OF assms] obtain n where n: "n \<le> length fs" "framesRead c = take n fs"
    "bs = concat (map encodeResponse (drop n fs)) @ rest"
    and stop: "stopping c \<longrightarrow> n = length fs \<and> e \<in> set (broadcast c)" by (auto simp: inStream_def)
  then show "\<exists>n \<le> length fs. framesRead c = take n fs \<and> bs = concat (map encodeResponse (drop n fs)) @ rest"
    by blast
  from n stop show "connClosed c \<longrightarrow> framesRead c = fs \<and> e \<in> set (broadcast c)" by (auto simp: stopping_def)
qed

definition strayFrame :: ResponseFrame where
  "strayFrame = \<lparr>RespType = ResponseError, RespRequestID = 7, RespPayload = [1]\<rparr>"

lemma stray_stream:
  "\<exists>c. streamReach (\<lambda>_ _. Ok ()) (\<lambda>_. Ok (44, None)) (concat (map encodeResponse [strayFrame]) @ [1]) (c, [1]) \<and> connClosed c"
proof -
  let ?u = "\<lambda>_ _. Ok ()" and ?ue = "\<lambda>_. Ok (44, None)"
  let ?c0 = "newConnection :: unit connection"
  let ?c1 = "?c0\<lparr>framesRead := [strayFrame]\<rparr>"
  let ?c2 = "failAll ErrUnexpectedEOF [] True ?c1"
  let ?c3 = "?c2\<lparr>reader := Stopped, connClosed := True\<rparr>"
  have "ReadResponse (encodeResponse strayFrame @ [1]) = Ok (strayFrame, [1])"
    by (rule ReadResponse_encode) (simp add: strayFrame_def wellFormedFrame_def)
  then have t1: "readTurn ?u ?ue [] (?c0, concat (map encodeResponse [strayFrame]) @ [1]) = (?c1, [1])"
    by (simp add: readTurn_def readFrame_def strayFrame_def resolveError_def newConnection_def Let_def)
  have t2: "readTurn ?u ?ue [] (?c1, [1]) = (?c2, [1])"
    by (simp add: readTurn_def ReadResponse_def ReadFull_def)
  have "streamStep ?u ?ue (?c0, concat (map encodeResponse [strayFrame]) @ [1]) (?c1, [1])"
    unfolding t1[symmetric] by (rule streamStep.turn) (simp_all add: newConnection_def rangeKeys_def)
  moreover have "streamStep ?u ?ue (?c1, [1]) (?c2, [1])"
    unfolding t2[symmetric] by (rule streamStep.turn) (simp_all add: newConnection_def rangeKeys_def)
  moreover have "connStep ?u ?ue ?c2 (failNext ?c2 [] ErrUnexpectedEOF True)"
    by (rule connStep.failLoads) (simp add: failAll_def)
  then have "streamStep ?u ?ue (?c2, [1]) (?c3, [1])"
    by (intro streamStep.other) (simp_all add: failNext_def failAll_def)
  ultimately have "streamReach ?u ?ue (concat (map encodeResponse [strayFrame]) @ [1]) (?c3, [1])"
    unfolding streamReach_def by (meson rtranclp.rtrancl_refl rtranclp.rtrancl_into_rtrancl)
  then show ?thesis by (intro exI[of _ ?c3]) simp
qed

lemma frames_read_in_order_witness:
  "\<exists>c. streamReach (\<lambda>_ _. Ok ()) (\<lambda>_. Ok (44, None)) (encodeResponse strayFrame @ [1]) (c, [1])
    \<and> framesRead c = [strayFrame] \<and> ErrUnexpectedEOF \<in> set (broadcast c)"
proof -
  from stray_stream obtain c where
    c: "streamReach (\<lambda>_ _. Ok ()) (\<lambda>_. Ok (44, None)) (concat (map encodeResponse [strayFrame]) @ [1]) (c, [1])" "connClosed c"
    by blast
  have "list_all wellFormedFrame [strayFrame]" "ReadResponse [1] = Fail ErrUnexpectedEOF"
    by (simp_all add: strayFrame_def wellFormedFrame_def ReadResponse_def ReadFull_def)
  from frames_read_in_order[OF this c(1)] c show ?thesis by auto
qed

end
