(* ===== verification/Schema_Descriptor.thy ===== *)
theory Schema_Descriptor
  imports Row_Types Go_Strings
begin

text \<open>
  The schema descriptor (\<open>internal/metadata/schema_descriptor.go\<close>): column types given as JSON
  objects or as text. \<open>json.Unmarshal\<close> into the descriptor struct is the parameter
  \<open>unmarshal\<close>; its strings are valid UTF-8, given by their bytes.

  The parser of the text works on the input from its position on, so that \<open>pos = len(input)\<close> is
  the empty rest. It looks at single bytes as runes. \<open>parseType\<close> and the loop over the fields
  of a row take fuel, and are None without; \<open>parseFieldType\<close> gives them the length of the
  input, which \<open>parseType_enough\<close> shows to be enough.
\<close>

subsection \<open>Strings\<close>

text \<open>
  \<open>strings.ToUpper\<close> as far as the comparison with the ASCII type names can see it: besides the
  ASCII letters, two characters (U+0131 and U+017F) have an ASCII upper case; all others are
  left as they are.
\<close>

fun upperText :: "string \<Rightarrow> string" where
  "upperText [] = []"
| "upperText [c] = [upperChar c]"
| "upperText (c # d # s) =
     (if c = CHR 0xC4 \<and> d = CHR 0xB1 then CHR ''I'' # upperText s
      else if c = CHR 0xC5 \<and> d = CHR 0xBF then CHR ''S'' # upperText s
      else upperChar c # upperText (d # s))"

text \<open>The UTF-8 forms of the white space characters, and \<open>strings.TrimSpace\<close>.\<close>

definition spaceRunes :: "string list" where
  "spaceRunes = map (\<lambda>n. [char_of n]) [9, 10, 11, 12, 13, 32 :: nat]
     @ map (map char_of) [[0xC2, 0x85], [0xC2, 0xA0], [0xE1, 0x9A, 0x80 :: nat]]
     @ map (\<lambda>n. [CHR 0xE2, CHR 0x80, char_of n]) ([0x80 ..< 0x8B] @ [0xA8, 0xA9, 0xAF])
     @ [[CHR 0xE2, CHR 0x81, CHR 0x9F], [CHR 0xE3, CHR 0x80, CHR 0x80]]"

function trimLeft :: "string list \<Rightarrow> string \<Rightarrow> string" where
  "trimLeft spaces s = (case find (\<lambda>p. p \<noteq> [] \<and> hasPrefix s p) spaces of
      None \<Rightarrow> s
    | Some p \<Rightarrow> trimLeft spaces (drop (length p) s))"
  by auto
termination
  by (relation "measure (length o snd)") (auto simp: find_Some_iff hasPrefix_iff)

declare trimLeft.simps [simp del]

definition TrimSpace :: "string \<Rightarrow> string" where
  "TrimSpace s = rev (trimLeft (map rev spaceRunes) (rev (trimLeft spaceRunes s)))"

text \<open>\<open>unicode.IsSpace\<close>, \<open>IsDigit\<close> and \<open>IsLetter\<close> of a byte.\<close>

definition isSpaceByte :: "char \<Rightarrow> bool" where
  "isSpaceByte c \<longleftrightarrow> (let n = of_char c :: nat in 9 \<le> n \<and> n \<le> 13 \<or> n = 32 \<or> n = 0x85 \<or> n = 0xA0)"

definition isLetterByte :: "char \<Rightarrow> bool" where
  "isLetterByte c \<longleftrightarrow> (let n = of_char c :: nat in
     65 \<le> n \<and> n \<le> 90 \<or> 97 \<le> n \<and> n \<le> 122 \<or> n \<in> {0xAA, 0xB5, 0xBA} \<or> 0xC0 \<le> n \<and> n \<noteq> 0xD7 \<and> n \<noteq> 0xF7)"

definition isIdentByte :: "char \<Rightarrow> bool" where
  "isIdentByte c \<longleftrightarrow> isLetterByte c \<or> isDigit c \<or> c = CHR ''_''"

text \<open>\<open>strconv.Atoi\<close> of digits.\<close>

definition Atoi :: "string \<Rightarrow> int res" where
  "Atoi ds = (if digitsValue ds < 2 ^ 63 then Ok (int (digitsValue ds)) else Fail (External ''strconv.Atoi: value out of range''))"

subsection \<open>The parser of type names\<close>

definition skipSpaces :: "string \<Rightarrow> string" where "skipSpaces = dropWhile isSpaceByte"

definition peek :: "string \<Rightarrow> char \<times> string" where
  "peek s = (case skipSpaces s of [] \<Rightarrow> (CHR 0x00, []) | c # r \<Rightarrow> (c, c # r))"

definition expectByte :: "char \<Rightarrow> string \<Rightarrow> string res" where
  "expectByte ch s = (case skipSpaces s of
      [] \<Rightarrow> Fail (Errf ''expected %q'')
    | c # r \<Rightarrow> if c = ch then Ok r else Fail (Errf ''expected %q''))"

definition parseIdentifier :: "string \<Rightarrow> string \<times> string" where
  "parseIdentifier s = (let s1 = skipSpaces s in (takeWhile isIdentByte s1, dropWhile isIdentByte s1))"

function argsLoop :: "string \<Rightarrow> int list \<Rightarrow> (int list \<times> string) res" where
  "argsLoop s args =
     (let s1 = skipSpaces s; ds = takeWhile isDigit s1; r = dropWhile isDigit s1 in
      if ds = [] then Fail (Errf ''expected integer argument'')
      else andThen (Atoi ds) (\<lambda>v.
        let (c, r1) = peek (skipSpaces r) in
        if c = CHR '')'' then Ok (args @ [v], r1)
        else (case expectByte CHR '','' r1 of
            Ok r2 \<Rightarrow> argsLoop r2 (args @ [v])
          | Fail e \<Rightarrow> Fail e
          | Panic \<Rightarrow> Panic)))"
  by auto

lemma skipSpaces_length: "length (skipSpaces s) \<le> length s"
  by (simp add: skipSpaces_def length_dropWhile_le)

lemma peek_length: "peek s = (c, r) \<Longrightarrow> length r \<le> length s"
  using skipSpaces_length [of s] by (cases "skipSpaces s") (auto simp: peek_def)

lemma expect_length: "expectByte ch s = Ok r \<Longrightarrow> length r < length s"
  using skipSpaces_length [of s] by (cases "skipSpaces s") (auto simp: expectByte_def split: if_splits)

termination argsLoop
proof (relation "measure (length o fst)", goal_cases)
  case (2 s args s1 ds r v x c r1 r2)
  then have "length r2 < length r1" "length r1 \<le> length (skipSpaces r)"
    using expect_length peek_length by metis+
  moreover have "length (skipSpaces r) \<le> length r" "length r \<le> length s1" "length s1 \<le> length s"
    using 2 by (auto simp: skipSpaces_length length_dropWhile_le)
  ultimately show ?case
    by simp
qed simp

declare argsLoop.simps [simp del]

definition parseIntArgs :: "nat \<Rightarrow> string \<Rightarrow> (int list \<times> string) res" where
  "parseIntArgs n s = andThen (expectByte CHR ''('' s) (\<lambda>s1.
     andThen (argsLoop s1 []) (\<lambda>(args, r).
     andThen (expectByte CHR '')'' r) (\<lambda>r1.
       if length args \<noteq> n then Fail (Errf ''expected %d integer arguments, got %d'') else Ok (args, r1))))"

text \<open>An argument list of length \<open>n\<close>, or the default when no parenthesis follows.\<close>

definition optIntArgs :: "nat \<Rightarrow> int list \<Rightarrow> string \<Rightarrow> (int list \<times> string) res" where
  "optIntArgs n def s = (let (c, s1) = peek s in if c = CHR ''('' then parseIntArgs n s1 else Ok (def, s1))"

fun thenF :: "'a res option \<Rightarrow> ('a \<Rightarrow> 'b res option) \<Rightarrow> 'b res option" where
  "thenF None f = None"
| "thenF (Some (Ok x)) f = f x"
| "thenF (Some (Fail e)) f = Some (Fail e)"
| "thenF (Some Panic) f = Some Panic"

fun parseType :: "nat \<Rightarrow> string \<Rightarrow> (FieldType \<times> string) res option"
and rowLoop :: "nat \<Rightarrow> string \<Rightarrow> FieldType list \<Rightarrow> (FieldType list \<times> string) res option" where
  "parseType 0 s = None"
| "parseType (Suc n) s =
     (let (name, r) = parseIdentifier (skipSpaces s); ident = upperText name in
      if ident = ''BOOLEAN'' then Some (Ok (BoolType, r))
      else if ident = ''TINYINT'' then Some (Ok (Int8Type, r))
      else if ident = ''SMALLINT'' then Some (Ok (Int16Type, r))
      else if ident \<in> {''INT'', ''INTEGER''} then Some (Ok (Int32Type, r))
      else if ident = ''BIGINT'' then Some (Ok (Int64Type, r))
      else if ident = ''FLOAT'' then Some (Ok (Float32Type, r))
      else if ident = ''DOUBLE'' then Some (Ok (Float64Type, r))
      else if ident \<in> {''STRING'', ''VARCHAR'', ''CHAR''} then
        Some (andThen (optIntArgs 1 [] r) (\<lambda>(_, r1). Ok (StringType, r1)))
      else if ident \<in> {''BYTES'', ''BINARY'', ''VARBINARY''} then
        Some (andThen (optIntArgs 1 [] r) (\<lambda>(_, r1). Ok (BytesType, r1)))
      else if ident = ''DECIMAL'' then
        Some (andThen (parseIntArgs 2 r) (\<lambda>(args, r1). Ok (DecimalType (args ! 0) (args ! 1), r1)))
      else if ident = ''DATE'' then Some (Ok (DateType, r))
      else if ident = ''TIME'' then
        Some (andThen (optIntArgs 1 [] r) (\<lambda>(_, r1). Ok (TimeType, r1)))
      else if ident = ''TIMESTAMP'' then
        Some (andThen (optIntArgs 1 [6] r) (\<lambda>(args, r1). Ok (TimestampNtzType (args ! 0), r1)))
      else if ident = ''TIMESTAMP_LTZ'' then
        Some (andThen (optIntArgs 1 [6] r) (\<lambda>(args, r1). Ok (TimestampLtzType (args ! 0), r1)))
      else if ident = ''ARRAY'' then
        thenF (Some (expectByte CHR ''<'' r)) (\<lambda>r1.
        thenF (parseType n r1) (\<lambda>(element, r2).
        thenF (Some (expectByte CHR ''>'' r2)) (\<lambda>r3. Some (Ok (ArrayType element, r3)))))
      else if ident = ''MAP'' then
        thenF (Some (expectByte CHR ''<'' r)) (\<lambda>r1.
        thenF (parseType n r1) (\<lambda>(keyType, r2).
        thenF (Some (expectByte CHR '','' r2)) (\<lambda>r3.
        thenF (parseType n r3) (\<lambda>(valueType, r4).
        thenF (Some (expectByte CHR ''>'' r4)) (\<lambda>r5. Some (Ok (MapType keyType valueType, r5)))))))
      else if ident = ''ROW'' then
        thenF (Some (expectByte CHR ''<'' r)) (\<lambda>r1.
        thenF (rowLoop n r1 []) (\<lambda>(fs, r2).
        thenF (Some (expectByte CHR ''>'' r2)) (\<lambda>r3. Some (Ok (RowType fs, r3)))))
      else Some (Fail (Errf ''unsupported type %q'')))"
| "rowLoop 0 s fs = None"
| "rowLoop (Suc n) s fs =
     thenF (parseType n (skipSpaces (snd (parseIdentifier (skipSpaces s))))) (\<lambda>(t, r).
       let (c, r1) = peek (skipSpaces r) in
       if c = CHR ''>'' then Some (Ok (fs @ [t], r1))
       else thenF (Some (expectByte CHR '','' r1)) (\<lambda>r2. rowLoop n r2 (fs @ [t])))"

declare parseType.simps(2) [simp del] rowLoop.simps(2) [simp del]

definition parseFieldType :: "string \<Rightarrow> FieldType res option" where
  "parseFieldType input = (let s = TrimSpace input in
     thenF (parseType (Suc (length s)) s) (\<lambda>(field, r).
       if skipSpaces r \<noteq> [] then Some (Fail (Errf ''unexpected trailing input %q'')) else Some (Ok field)))"

subsection \<open>The descriptor\<close>

datatype dataTypeJSON =
  DataTypeJSON (dtType: string) (dtNullable: "bool option") (dtLength: "int option") (dtPrecision: "int option")
    (dtScale: "int option") (dtElement: "dataTypeJSON option") (dtKey: "dataTypeJSON option")
    (dtValue: "dataTypeJSON option") (dtFields: "nestedFieldJSON list")
and nestedFieldJSON =
  NestedFieldJSON (nfName: string) (nfType: string) (nfDataType: "dataTypeJSON option") (nfFieldType: "dataTypeJSON option")

record schemaColumnJSON =
  colName :: string
  colType :: string
  colDataType :: "dataTypeJSON option"
  colFieldType :: "dataTypeJSON option"

record schemaDescriptorJSON =
  Columns :: "schemaColumnJSON list"

record SchemaColumn =
  ColumnName :: string
  ColumnType :: FieldType

fun valueOrDefault :: "int option \<Rightarrow> int \<Rightarrow> int" where
  "valueOrDefault None fallback = fallback"
| "valueOrDefault (Some v) fallback = v"

fun wrapF :: "string \<Rightarrow> 'a res option \<Rightarrow> 'a res option" where
  "wrapF msg (Some (Fail e)) = Some (Fail (Wrapf msg e))"
| "wrapF msg r = r"

fun toFieldType :: "dataTypeJSON \<Rightarrow> FieldType res option"
and nestedFieldType :: "nestedFieldJSON \<Rightarrow> FieldType res option"
and nestedFieldTypes :: "nestedFieldJSON list \<Rightarrow> FieldType list res option" where
  "toFieldType (DataTypeJSON type nullable len precision scale element key val fs) =
     (let name = upperText (TrimSpace type) in
      if name = ''BOOLEAN'' then Some (Ok BoolType)
      else if name = ''TINYINT'' then Some (Ok Int8Type)
      else if name = ''SMALLINT'' then Some (Ok Int16Type)
      else if name \<in> {''INT'', ''INTEGER''} then Some (Ok Int32Type)
      else if name = ''BIGINT'' then Some (Ok Int64Type)
      else if name = ''FLOAT'' then Some (Ok Float32Type)
      else if name = ''DOUBLE'' then Some (Ok Float64Type)
      else if name \<in> {''STRING'', ''VARCHAR'', ''CHAR''} then Some (Ok StringType)
      else if name \<in> {''BYTES'', ''BINARY'', ''VARBINARY''} then Some (Ok BytesType)
      else if name = ''DECIMAL'' then Some (Ok (DecimalType (valueOrDefault precision 0) (valueOrDefault scale 0)))
      else if name = ''DATE'' then Some (Ok DateType)
      else if name \<in> {''TIME'', ''TIME_WITHOUT_TIME_ZONE''} then Some (Ok TimeType)
      else if name \<in> {''TIMESTAMP'', ''TIMESTAMP_WITHOUT_TIME_ZONE''} then Some (Ok (TimestampNtzType (valueOrDefault precision 6)))
      else if name \<in> {''TIMESTAMP_LTZ'', ''TIMESTAMP_WITH_LOCAL_TIME_ZONE''} then Some (Ok (TimestampLtzType (valueOrDefault precision 6)))
      else if name = ''ARRAY'' then
        (case element of
          None \<Rightarrow> Some (Fail (Errf ''missing array element type''))
        | Some e \<Rightarrow> thenF (wrapF ''array element type: %w'' (toFieldType e)) (\<lambda>t. Some (Ok (ArrayType t))))
      else if name = ''MAP'' then
        (case key of
          None \<Rightarrow> Some (Fail (Errf ''missing map key/value type''))
        | Some k \<Rightarrow> (case val of
            None \<Rightarrow> Some (Fail (Errf ''missing map key/value type''))
          | Some v \<Rightarrow>
              thenF (wrapF ''map key type: %w'' (toFieldType k)) (\<lambda>kt.
              thenF (wrapF ''map value type: %w'' (toFieldType v)) (\<lambda>vt. Some (Ok (MapType kt vt))))))
      else if name = ''ROW'' then thenF (nestedFieldTypes fs) (\<lambda>ts. Some (Ok (RowType ts)))
      else Some (Fail (Errf ''unsupported type %q'')))"
| "nestedFieldType (NestedFieldJSON name type dataType fieldType) =
     (case fieldType of
        Some d \<Rightarrow> toFieldType d
      | None \<Rightarrow> (case dataType of
          Some d \<Rightarrow> toFieldType d
        | None \<Rightarrow> if TrimSpace type \<noteq> [] then parseFieldType type else Some (Fail (Errf ''unsupported type %q''))))"
| "nestedFieldTypes [] = Some (Ok [])"
| "nestedFieldTypes (f # fs) =
     thenF (wrapF ''row field %d %q: %w'' (nestedFieldType f)) (\<lambda>t.
     thenF (nestedFieldTypes fs) (\<lambda>ts. Some (Ok (t # ts))))"

declare toFieldType.simps [simp del]

definition columnFieldType :: "schemaColumnJSON \<Rightarrow> FieldType res option" where
  "columnFieldType c =
     (case colDataType c of
        Some d \<Rightarrow> toFieldType d
      | None \<Rightarrow> (case colFieldType c of
          Some d \<Rightarrow> toFieldType d
        | None \<Rightarrow> if TrimSpace (colType c) \<noteq> [] then parseFieldType (colType c)
            else Some (Fail (Errf ''unsupported type %q''))))"

text \<open>The name of the type in the error of a column; the texts of errors are modelled without their arguments.\<close>

definition typeLabel :: "schemaColumnJSON \<Rightarrow> string" where
  "typeLabel c =
     (if TrimSpace (colType c) \<noteq> [] then colType c
      else (case colDataType c of
          Some d \<Rightarrow> dtType d
        | None \<Rightarrow> (case colFieldType c of Some d \<Rightarrow> dtType d | None \<Rightarrow> [])))"

fun parseColumns :: "schemaColumnJSON list \<Rightarrow> SchemaColumn list res option" where
  "parseColumns [] = Some (Ok [])"
| "parseColumns (c # cs) =
     thenF (wrapF ''parse schema column %q type %q: %w'' (columnFieldType c)) (\<lambda>t.
     thenF (parseColumns cs) (\<lambda>columns. Some (Ok (\<lparr>ColumnName = colName c, ColumnType = t\<rparr> # columns))))"

definition ParseSchemaColumns :: "(bytes \<Rightarrow> schemaDescriptorJSON res) \<Rightarrow> bytes \<Rightarrow> SchemaColumn list res option" where
  "ParseSchemaColumns unmarshal schemaJSON = thenF (Some (unmarshal schemaJSON)) (\<lambda>desc. parseColumns (Columns desc))"

definition ParseSchema :: "(bytes \<Rightarrow> schemaDescriptorJSON res) \<Rightarrow> bytes \<Rightarrow> (Schema \<times> string list) res option" where
  "ParseSchema unmarshal schemaJSON = thenF (ParseSchemaColumns unmarshal schemaJSON) (\<lambda>columns.
     Some (Ok (map ColumnType columns, map ColumnName columns)))"

end
