(* ===== verification/Schema_Laws.thy ===== *)
theory Schema_Laws
  imports Schema_Descriptor
begin

text \<open>
  The parser of type names ends on every input, within the fuel it is given, and without a
  panic; types written as text or as JSON objects are read back.
\<close>

subsection \<open>Totality\<close>

text \<open>A run that ends without a panic, and after which the rest is shorter than \<open>m\<close>.\<close>

definition ends :: "nat \<Rightarrow> ('a \<times> string) res option \<Rightarrow> bool" where
  "ends m x \<longleftrightarrow> (\<exists>r. x = Some r \<and> r \<noteq> Panic \<and> (\<forall>t s. r = Ok (t, s) \<longrightarrow> length s < m))"

lemma ends_simps [simp]:
  "ends m (Some (Ok (t, s))) \<longleftrightarrow> length s < m" "ends m (Some (Fail e))" "\<not> ends m None" "\<not> ends m (Some Panic)"
  by (auto simp: ends_def)

lemma ends_then: "ends m x \<Longrightarrow> (\<And>t s. x = Some (Ok (t, s)) \<Longrightarrow> length s < m \<Longrightarrow> ends k (f (t, s))) \<Longrightarrow> ends k (thenF x f)"
  by (cases "(x, f)" rule: thenF.cases) auto

lemma ends_andThen: "ends m (Some x) \<Longrightarrow> (\<And>t s. length s < m \<Longrightarrow> ends k (Some (f (t, s)))) \<Longrightarrow> ends k (Some (andThen x f))"
  by (cases x) auto

lemma expect_no_panic: "expectByte c s \<noteq> Panic"
  by (simp add: expectByte_def split: list.splits)

lemma ends_expect: "(\<And>r. length r < length s \<Longrightarrow> ends k (f r)) \<Longrightarrow> ends k (thenF (Some (expectByte c s)) f)"
  using expect_no_panic [of c s] expect_length [of c s] by (cases "expectByte c s") auto

lemma Atoi_no_panic: "Atoi ds \<noteq> Panic"
  by (simp add: Atoi_def)

lemma argsLoop_ends: "ends (Suc (length s)) (Some (argsLoop s args))"
proof (induction s args rule: argsLoop.induct)
  case (1 s args)
  define s1 where "s1 = skipSpaces s"
  obtain c r1 where pk: "peek (skipSpaces (dropWhile isDigit s1)) = (c, r1)"
    by fastforce
  have le: "length r1 \<le> length s"
    using peek_length [OF pk] skipSpaces_length [of s] skipSpaces_length [of "dropWhile isDigit s1"] length_dropWhile_le [of isDigit s1]
    unfolding s1_def by linarith
  show ?case
  proof (cases "takeWhile isDigit s1 = [] \<or> c = CHR '')'' \<or> (\<exists>e. Atoi (takeWhile isDigit s1) = Fail e)")
    case True
    then show ?thesis
      using pk le Atoi_no_panic [of "takeWhile isDigit s1"]
      by (subst argsLoop.simps, cases "Atoi (takeWhile isDigit s1)") (auto simp: Let_def simp flip: s1_def)
  next
    case False
    then obtain v where v: "Atoi (takeWhile isDigit s1) = Ok v"
      using Atoi_no_panic by (metis res.exhaust)
    show ?thesis
    proof (cases "expectByte CHR '','' r1")
      case (Ok r2)
      then have "ends (Suc (length r2)) (Some (argsLoop r2 (args @ [v])))"
        using False v pk by (intro 1) (auto simp: s1_def)
      moreover have "length r2 < length s"
        using expect_length [OF Ok] le by simp
      ultimately show ?thesis
        using False v pk Ok by (subst argsLoop.simps) (auto simp: Let_def ends_def simp flip: s1_def)
    next
      case (Fail e)
      then show ?thesis
        using False v pk by (subst argsLoop.simps) (auto simp: Let_def simp flip: s1_def)
    qed (simp add: expect_no_panic)
  qed
qed

lemma parseIntArgs_ends: "ends (length s) (Some (parseIntArgs n s))"
proof (cases "expectByte CHR ''('' s")
  case (Ok s1)
  note l = expect_length [OF Ok]
  show ?thesis
    unfolding parseIntArgs_def Ok andThen.simps
  proof (rule ends_andThen [OF argsLoop_ends])
    fix args :: "int list" and r :: string
    assume "length r < Suc (length s1)"
    then show "ends (length s) (Some ((\<lambda>(args, r). andThen (expectByte CHR '')'' r)
       (\<lambda>r1. if length args \<noteq> n then Fail (Errf ''expected %d integer arguments, got %d'') else Ok (args, r1))) (args, r)))"
      using l expect_length [of "CHR '')''" r] expect_no_panic [of "CHR '')''" r]
      by (cases "expectByte CHR '')'' r") auto
  qed
qed (simp_all add: parseIntArgs_def expect_no_panic)

lemma optIntArgs_ends: "ends (Suc (length s)) (Some (optIntArgs n def s))"
proof -
  obtain c s1 where "peek s = (c, s1)"
    by fastforce
  with peek_length [OF this] parseIntArgs_ends [of s1 n] show ?thesis
    by (auto simp: optIntArgs_def ends_def)
qed

lemma parseIdentifier_length: "parseIdentifier s = (name, r) \<Longrightarrow> length name + length r \<le> length s"
proof -
  assume "parseIdentifier s = (name, r)"
  then have "name @ r = skipSpaces s"
    by (auto simp: parseIdentifier_def Let_def)
  then show ?thesis
    using skipSpaces_length [of s] by (metis length_append)
qed

lemma ends_if: "(P \<Longrightarrow> ends m x) \<Longrightarrow> (\<not> P \<Longrightarrow> ends m y) \<Longrightarrow> ends m (if P then x else y)"
  by simp

lemma ends_opt: "length r < m \<Longrightarrow> ends m (Some (andThen (optIntArgs n d r) (\<lambda>(args, r1). Ok (F args, r1))))"
  by (rule ends_andThen [OF optIntArgs_ends]) auto

lemma ends_args: "length r < m \<Longrightarrow> ends m (Some (andThen (parseIntArgs n r) (\<lambda>(args, r1). Ok (F args, r1))))"
  by (rule ends_andThen [OF parseIntArgs_ends]) auto

lemma upperText_length: "length (upperText s) \<le> length s"
  by (induction s rule: upperText.induct) auto

lemma parse_ends:
  "(length s < n \<longrightarrow> ends (length s) (parseType n s)) \<and> (Suc (length s) < n \<longrightarrow> ends (length s) (rowLoop n s fs))"
proof (induction n arbitrary: s fs)
  case (Suc n)
  have type: "ends (length s) (parseType n s)" if "length s < n" for s
    using Suc that by blast
  have loop: "ends (length s) (rowLoop n s fs)" if "Suc (length s) < n" for s fs
    using Suc that by blast
  have "ends (length s) (parseType (Suc n) s)" if n: "length s < Suc n"
  proof -
    obtain name r where pi: "parseIdentifier (skipSpaces s) = (name, r)"
      by fastforce
    have len: "length (upperText name) + length r \<le> length s"
      using parseIdentifier_length [OF pi] skipSpaces_length [of s] upperText_length [of name] by simp
    have array: "ends (length s) (thenF (Some (expectByte CHR ''<'' r)) (\<lambda>r1.
        thenF (parseType n r1) (\<lambda>(element, r2).
        thenF (Some (expectByte CHR ''>'' r2)) (\<lambda>r3. Some (Ok (ArrayType element, r3))))))"
      if "length r + 3 \<le> length s"
      using that n by (intro ends_expect) (force intro!: ends_then [OF type] ends_expect)
    have map: "ends (length s) (thenF (Some (expectByte CHR ''<'' r)) (\<lambda>r1.
        thenF (parseType n r1) (\<lambda>(keyType, r2).
        thenF (Some (expectByte CHR '','' r2)) (\<lambda>r3.
        thenF (parseType n r3) (\<lambda>(valueType, r4).
        thenF (Some (expectByte CHR ''>'' r4)) (\<lambda>r5. Some (Ok (MapType keyType valueType, r5))))))))"
      if "length r + 3 \<le> length s"
      using that n by (intro ends_expect) (force intro!: ends_then [OF type] ends_expect)
    have row: "ends (length s) (thenF (Some (expectByte CHR ''<'' r)) (\<lambda>r1.
        thenF (rowLoop n r1 []) (\<lambda>(fs, r2).
        thenF (Some (expectByte CHR ''>'' r2)) (\<lambda>r3. Some (Ok (RowType fs, r3))))))"
      if "length r + 3 \<le> length s"
      using that n by (intro ends_expect) (force intro!: ends_then [OF loop] ends_expect)
    show ?thesis
      unfolding parseType.simps Let_def pi prod.case
      by (intro ends_if array map row ends_opt ends_args ends_simps(1) [THEN iffD2] ends_simps(2)) (use len in auto)
  qed
  moreover have "ends (length s) (rowLoop (Suc n) s fs)" if n: "Suc (length s) < Suc n"
  proof -
    obtain name r0 where pi: "parseIdentifier (skipSpaces s) = (name, r0)"
      by fastforce
    have le: "length (skipSpaces r0) \<le> length s"
      using parseIdentifier_length [OF pi] skipSpaces_length [of s] skipSpaces_length [of r0] by simp
    have "ends (length s) (let (c, r1) = peek (skipSpaces r) in
        if c = CHR ''>'' then Some (Ok (fs @ [t], r1))
        else thenF (Some (expectByte CHR '','' r1)) (\<lambda>r2. rowLoop n r2 (fs @ [t])))"
      if "length r < length (skipSpaces r0)" for t r
    proof -
      obtain c r1 where pk: "peek (skipSpaces r) = (c, r1)"
        by fastforce
      have "length r1 < length s"
        using peek_length [OF pk] skipSpaces_length [of r] that le by simp
      moreover have "ends (length s) (rowLoop n r2 (fs @ [t]))" if "length r2 < length r1" for r2
        using loop [of r2 "fs @ [t]"] that n calculation by (auto simp: ends_def)
      ultimately show ?thesis
        by (auto simp: pk intro!: ends_expect)
    qed
    with type [of "skipSpaces r0"] le n show ?thesis
      by (auto simp: rowLoop.simps pi intro!: ends_then)
  qed
  ultimately show ?case by blast
qed simp

lemma parseType_enough: "length s < n \<Longrightarrow> ends (length s) (parseType n s)"
  using parse_ends by blast

lemma parseFieldType_total: "\<exists>r. parseFieldType input = Some r \<and> r \<noteq> Panic"
proof -
  define s where "s = TrimSpace input"
  have "ends (length s) (parseType (Suc (length s)) s)"
    by (rule parseType_enough) simp
  then show ?thesis
    unfolding parseFieldType_def Let_def s_def [symmetric]
    by (cases "(parseType (Suc (length s)) s, \<lambda>_ :: FieldType \<times> string. None :: FieldType res option)" rule: thenF.cases) auto
qed

text \<open>A run that ends without a panic.\<close>

definition finishes :: "'a res option \<Rightarrow> bool" where
  "finishes x \<longleftrightarrow> (\<exists>r. x = Some r \<and> r \<noteq> Panic)"

lemma finishes_Some: "finishes (Some (Ok a))" "finishes (Some (Fail e))"
  by (auto simp: finishes_def)

lemma finishes_then: "finishes x \<Longrightarrow> (\<And>a. x = Some (Ok a) \<Longrightarrow> finishes (f a)) \<Longrightarrow> finishes (thenF x f)"
  by (cases "(x, f)" rule: thenF.cases) (auto simp: finishes_def)

lemma finishes_wrap: "finishes x \<Longrightarrow> finishes (wrapF m x)"
  by (cases "(m, x)" rule: wrapF.cases) (auto simp: finishes_def)

lemma finishes_if: "(P \<Longrightarrow> finishes x) \<Longrightarrow> (\<not> P \<Longrightarrow> finishes y) \<Longrightarrow> finishes (if P then x else y)"
  by simp

lemma finishes_option: "(x = None \<Longrightarrow> finishes n) \<Longrightarrow> (\<And>a. x = Some a \<Longrightarrow> finishes (f a)) \<Longrightarrow>
    finishes (case x of None \<Rightarrow> n | Some a \<Rightarrow> f a)"
  by (cases x) auto

lemma finishes_parse: "finishes (parseFieldType s)"
  using parseFieldType_total by (auto simp: finishes_def)

lemmas finishes_intros = finishes_if finishes_option finishes_then finishes_wrap finishes_parse finishes_Some

lemma finishes_fields: "(\<And>f. f \<in> set fs \<Longrightarrow> finishes (nestedFieldType f)) \<Longrightarrow> finishes (nestedFieldTypes fs)"
proof (induction fs)
  case (Cons f fs)
  then show ?case
    unfolding nestedFieldTypes.simps by (intro finishes_intros) auto
qed (simp add: finishes_Some)

lemma finishes_toFieldType: "finishes (toFieldType d)" "finishes (nestedFieldType f)"
proof (induction d and f)
  case (DataTypeJSON type nullable len precision scale element key val fs)
  then show ?case
    unfolding toFieldType.simps Let_def by (intro finishes_intros finishes_fields) auto
next
  case (NestedFieldJSON name type dataType fieldType)
  then show ?case
    unfolding nestedFieldType.simps by (intro finishes_intros) auto
qed

lemma finishes_parseColumns: "finishes (parseColumns cs)"
proof (induction cs)
  case (Cons c cs)
  then show ?case
    unfolding parseColumns.simps columnFieldType_def by (intro finishes_intros finishes_toFieldType)
qed (simp add: finishes_Some)

subsection \<open>Types written as text and as JSON\<close>

text \<open>The types that have a text: every precision is an \<open>int\<close>, and a row has a field.\<close>

inductive textual :: "FieldType \<Rightarrow> bool" where
  scalar: "k \<in> {TypeBool, TypeInt8, TypeInt16, TypeInt32, TypeInt64, TypeFloat32, TypeFloat64, TypeString, TypeBytes,
    TypeDate, TypeTime} \<Longrightarrow> textual (scalarType k)"
| decimal: "0 \<le> p \<Longrightarrow> p < 2 ^ 63 \<Longrightarrow> 0 \<le> sc \<Longrightarrow> sc < 2 ^ 63 \<Longrightarrow> textual (DecimalType p sc)"
| ntz: "0 \<le> p \<Longrightarrow> p < 2 ^ 63 \<Longrightarrow> textual (TimestampNtzType p)"
| ltz: "0 \<le> p \<Longrightarrow> p < 2 ^ 63 \<Longrightarrow> textual (TimestampLtzType p)"
| array: "textual t \<Longrightarrow> textual (ArrayType t)"
| map: "textual kt \<Longrightarrow> textual vt \<Longrightarrow> textual (MapType kt vt)"
| row: "ts \<noteq> [] \<Longrightarrow> (\<And>t. t \<in> set ts \<Longrightarrow> textual t) \<Longrightarrow> textual (RowType ts)"

fun kindName :: "TypeKind \<Rightarrow> string" where
  "kindName TypeBool = ''BOOLEAN''"
| "kindName TypeInt8 = ''TINYINT''"
| "kindName TypeInt16 = ''SMALLINT''"
| "kindName TypeInt32 = ''INT''"
| "kindName TypeInt64 = ''BIGINT''"
| "kindName TypeFloat32 = ''FLOAT''"
| "kindName TypeFloat64 = ''DOUBLE''"
| "kindName TypeString = ''STRING''"
| "kindName TypeBytes = ''BYTES''"
| "kindName TypeDecimal = ''DECIMAL''"
| "kindName TypeDate = ''DATE''"
| "kindName TypeTime = ''TIME''"
| "kindName TypeTimestampNtz = ''TIMESTAMP''"
| "kindName TypeTimestampLtz = ''TIMESTAMP_LTZ''"
| "kindName TypeArray = ''ARRAY''"
| "kindName TypeMap = ''MAP''"
| "kindName TypeRow = ''ROW''"
| "kindName (TypeOther s) = s"

text \<open>The text of a type, where \<open>nm\<close> names the fields of a row.\<close>

fun showType :: "(nat \<Rightarrow> string) \<Rightarrow> FieldType \<Rightarrow> string"
and showFields :: "(nat \<Rightarrow> string) \<Rightarrow> nat \<Rightarrow> FieldType list \<Rightarrow> string" where
  "showType nm (FieldType k len sc el ke va fs) = kindName k @
     (case k of
        TypeDecimal \<Rightarrow> ''('' @ itoa len @ '', '' @ itoa sc @ '')''
      | TypeTimestampNtz \<Rightarrow> ''('' @ itoa len @ '')''
      | TypeTimestampLtz \<Rightarrow> ''('' @ itoa len @ '')''
      | TypeArray \<Rightarrow> ''<'' @ (case el of None \<Rightarrow> [] | Some e \<Rightarrow> showType nm e) @ ''>''
      | TypeMap \<Rightarrow> ''<'' @ (case ke of None \<Rightarrow> [] | Some k \<Rightarrow> showType nm k) @ '', ''
          @ (case va of None \<Rightarrow> [] | Some v \<Rightarrow> showType nm v) @ ''>''
      | TypeRow \<Rightarrow> ''<'' @ showFields nm 0 fs @ ''>''
      | _ \<Rightarrow> [])"
| "showFields nm i [] = []"
| "showFields nm i (t # ts) =
     (if i = 0 then [] else '', '') @ nm i @ '' '' @ showType nm t @ showFields nm (Suc i) ts"

text \<open>The JSON object of a type.\<close>

fun jsonType :: "(nat \<Rightarrow> string) \<Rightarrow> FieldType \<Rightarrow> dataTypeJSON"
and jsonFields :: "(nat \<Rightarrow> string) \<Rightarrow> nat \<Rightarrow> FieldType list \<Rightarrow> nestedFieldJSON list" where
  "jsonType nm (FieldType k len sc el ke va fs) = DataTypeJSON (kindName k) None None (Some len) (Some sc)
     (case el of None \<Rightarrow> None | Some e \<Rightarrow> Some (jsonType nm e)) (case ke of None \<Rightarrow> None | Some t \<Rightarrow> Some (jsonType nm t))
     (case va of None \<Rightarrow> None | Some v \<Rightarrow> Some (jsonType nm v)) (jsonFields nm 0 fs)"
| "jsonFields nm i [] = []"
| "jsonFields nm i (t # ts) = NestedFieldJSON (nm i) [] None (Some (jsonType nm t)) # jsonFields nm (Suc i) ts"

text \<open>Printable ASCII characters delimit no white space, also where it is longer than a byte.\<close>

definition visible :: "char \<Rightarrow> bool" where
  "visible c \<longleftrightarrow> 33 \<le> (of_char c :: nat) \<and> (of_char c :: nat) < 127"

lemma spaceRunes_invisible: "\<forall>p\<in>set (spaceRunes @ map rev spaceRunes). \<not> visible (hd p)"
  by code_simp

lemma trimLeft_id: "\<forall>p\<in>set ps. \<not> visible (hd p) \<Longrightarrow> visible c \<Longrightarrow> trimLeft ps (c # s) = c # s"
proof -
  assume *: "\<forall>p\<in>set ps. \<not> visible (hd p)" "visible c"
  then have "find (\<lambda>p. p \<noteq> [] \<and> hasPrefix (c # s) p) ps = None"
    by (fastforce simp: find_None_iff hasPrefix_iff Cons_eq_append_conv)
  then show ?thesis
    by (subst trimLeft.simps) simp
qed

lemma TrimSpace_id:
  assumes "s = c # r" "visible c" "s = r' @ [d]" "visible d"
  shows "TrimSpace s = s"
proof -
  have "trimLeft spaceRunes s = s" "trimLeft (map rev spaceRunes) (d # rev r') = d # rev r'"
    using spaceRunes_invisible assms(1,2,4) by (auto intro!: trimLeft_id)
  moreover have "rev s = d # rev r'"
    using assms(3) by simp
  ultimately show ?thesis
    using assms(3) by (simp add: TrimSpace_def)
qed

lemma isIdentByte_visible: "isIdentByte c \<Longrightarrow> \<not> isSpaceByte c"
  by (auto simp: isIdentByte_def isLetterByte_def isDigit_def isSpaceByte_def Let_def)

lemma dropWhile_idem: "dropWhile P (dropWhile P s) = dropWhile P s"
  by (induction s) auto

lemma skipSpaces_simps [simp]:
  "skipSpaces (CHR '' '' # s) = skipSpaces s" "skipSpaces (skipSpaces s) = skipSpaces s"
  "skipSpaces [] = []" "\<not> isSpaceByte c \<Longrightarrow> skipSpaces (c # s) = c # s"
  by (simp_all add: skipSpaces_def isSpaceByte_def dropWhile_idem)

lemma delim_bytes [simp]:
  "\<not> isSpaceByte CHR ''<''" "\<not> isSpaceByte CHR ''>''" "\<not> isSpaceByte CHR '',''" "\<not> isSpaceByte CHR ''(''" "\<not> isSpaceByte CHR '')''"
  "\<not> isIdentByte CHR ''<''" "\<not> isIdentByte CHR ''>''" "\<not> isIdentByte CHR '',''" "\<not> isIdentByte CHR ''(''" "\<not> isIdentByte CHR '')''"
  "\<not> isIdentByte CHR '' ''" "\<not> isDigit CHR '',''" "\<not> isDigit CHR '')''"
  by (simp_all add: isSpaceByte_def isIdentByte_def isLetterByte_def isDigit_def)

lemma expect_hit [simp]: "\<not> isSpaceByte c \<Longrightarrow> expectByte c (c # s) = Ok s"
  by (simp add: expectByte_def)

lemma peek_hit [simp]: "\<not> isSpaceByte c \<Longrightarrow> peek (c # s) = (c, c # s)"
  by (simp add: peek_def)

lemma skip_word: "\<forall>c\<in>set name. isIdentByte c \<Longrightarrow> name \<noteq> [] \<Longrightarrow> skipSpaces (name @ s) = name @ s"
  using isIdentByte_visible by (cases name) auto

lemma parseIdentifier_word:
  "\<forall>c\<in>set name. isIdentByte c \<Longrightarrow> name \<noteq> [] \<Longrightarrow> s = [] \<or> \<not> isIdentByte (hd s) \<Longrightarrow>
    parseIdentifier (skipSpaces (name @ s)) = (name, s)"
  using skip_word [of name s]
  by (cases s) (auto simp: parseIdentifier_def Let_def)

lemma itoa_digits: "0 \<le> p \<Longrightarrow> \<forall>c\<in>set (itoa p). isDigit c"
  by (simp add: itoa_def natDigits_digits)

lemma isDigit_not_space: "isDigit c \<Longrightarrow> \<not> isSpaceByte c"
  by (simp add: isDigit_def isSpaceByte_def Let_def)

lemma Atoi_itoa: "0 \<le> p \<Longrightarrow> p < 2 ^ 63 \<Longrightarrow> Atoi (itoa p) = Ok p"
  by (simp add: Atoi_def itoa_def)

text \<open>Integer arguments.\<close>

lemma span_itoa:
  assumes "skipSpaces s = itoa p @ c # r" "0 \<le> p" "\<not> isDigit c"
  shows "takeWhile isDigit (skipSpaces s) = itoa p" "dropWhile isDigit (skipSpaces s) = c # r"
  using assms itoa_digits [of p] by (simp_all add: takeWhile_append2 dropWhile_append2)

lemma itoa_not_nil [simp]: "itoa p \<noteq> []"
  by (simp add: itoa_def)

lemma argsLoop_last:
  "skipSpaces s = itoa p @ CHR '')'' # r \<Longrightarrow> 0 \<le> p \<Longrightarrow> p < 2 ^ 63 \<Longrightarrow> argsLoop s args = Ok (args @ [p], CHR '')'' # r)"
  using span_itoa [of s p "CHR '')''" r]
  by (subst argsLoop.simps) (simp add: Let_def Atoi_itoa)

lemma argsLoop_more:
  "skipSpaces s = itoa p @ CHR '','' # r \<Longrightarrow> 0 \<le> p \<Longrightarrow> p < 2 ^ 63 \<Longrightarrow> argsLoop s args = argsLoop r (args @ [p])"
  using span_itoa [of s p "CHR '',''" r]
  by (subst argsLoop.simps) (auto simp: Let_def Atoi_itoa split: res.splits)

lemma skip_itoa: "0 \<le> p \<Longrightarrow> skipSpaces (itoa p @ r) = itoa p @ r"
  using itoa_digits [of p] isDigit_not_space by (cases "itoa p") (auto simp: itoa_def)

lemma parse_one_arg:
  "0 \<le> p \<Longrightarrow> p < 2 ^ 63 \<Longrightarrow> parseIntArgs 1 (CHR ''('' # itoa p @ CHR '')'' # r) = Ok ([p], r)"
  by (simp add: parseIntArgs_def skip_itoa argsLoop_last)

lemma parse_two_args:
  assumes "0 \<le> p" "p < 2 ^ 63" "0 \<le> q" "q < 2 ^ 63"
  shows "parseIntArgs 2 (CHR ''('' # itoa p @ CHR '','' # CHR '' '' # itoa q @ CHR '')'' # r) = Ok ([p, q], r)"
proof -
  have "argsLoop (itoa p @ CHR '','' # CHR '' '' # itoa q @ CHR '')'' # r) [] = argsLoop (CHR '' '' # itoa q @ CHR '')'' # r) [p]"
    using assms by (simp add: argsLoop_more skip_itoa)
  also have "\<dots> = Ok ([p, q], CHR '')'' # r)"
    using assms by (simp add: argsLoop_last skip_itoa)
  finally show ?thesis
    by (simp add: parseIntArgs_def)
qed

text \<open>Keywords, and what follows a type.\<close>

lemma kindName_ident: "\<forall>s. k \<noteq> TypeOther s \<Longrightarrow> (\<forall>c\<in>set (kindName k). isIdentByte c) \<and> kindName k \<noteq> [] \<and> upperText (kindName k) = kindName k"
  by (cases k) (simp_all, (code_simp)+)

definition delim :: "string \<Rightarrow> bool" where
  "delim s \<longleftrightarrow> s = [] \<or> hd s \<in> {CHR ''<'', CHR ''>'', CHR '','', CHR ''(''}"

lemma delim_simps [simp]: "delim []" "delim (CHR ''<'' # s)" "delim (CHR ''>'' # s)" "delim (CHR '','' # s)" "delim (CHR ''('' # s)"
  by (simp_all add: delim_def)

lemma parseIdentifier_kind:
  "\<forall>s. k \<noteq> TypeOther s \<Longrightarrow> delim s \<Longrightarrow> parseIdentifier (skipSpaces (kindName k @ s)) = (kindName k, s)"
  using kindName_ident [of k] by (intro parseIdentifier_word) (auto simp: delim_def)

lemma parseType_space [simp]: "parseType n (CHR '' '' # s) = parseType n s"
  by (cases n) (simp_all add: parseType.simps(2))

lemma parseType_skip [simp]: "parseType n (skipSpaces s) = parseType n s"
  by (cases n) (simp_all add: parseType.simps(2))

lemma rowLoop_space [simp]: "rowLoop n (CHR '' '' # s) fs = rowLoop n s fs"
  by (cases n) (simp_all add: rowLoop.simps(2))

lemma parseType_kind:
  assumes "\<forall>s. k \<noteq> TypeOther s" "delim s"
  shows "parseType (Suc n) (kindName k @ s) =
    (case k of
       TypeString \<Rightarrow> Some (andThen (optIntArgs 1 [] s) (\<lambda>(_, r1). Ok (StringType, r1)))
     | TypeBytes \<Rightarrow> Some (andThen (optIntArgs 1 [] s) (\<lambda>(_, r1). Ok (BytesType, r1)))
     | TypeTime \<Rightarrow> Some (andThen (optIntArgs 1 [] s) (\<lambda>(_, r1). Ok (TimeType, r1)))
     | TypeDecimal \<Rightarrow> Some (andThen (parseIntArgs 2 s) (\<lambda>(args, r1). Ok (DecimalType (args ! 0) (args ! 1), r1)))
     | TypeTimestampNtz \<Rightarrow> Some (andThen (optIntArgs 1 [6] s) (\<lambda>(args, r1). Ok (TimestampNtzType (args ! 0), r1)))
     | TypeTimestampLtz \<Rightarrow> Some (andThen (optIntArgs 1 [6] s) (\<lambda>(args, r1). Ok (TimestampLtzType (args ! 0), r1)))
     | TypeArray \<Rightarrow>
         thenF (Some (expectByte CHR ''<'' s)) (\<lambda>r1.
         thenF (parseType n r1) (\<lambda>(element, r2).
         thenF (Some (expectByte CHR ''>'' r2)) (\<lambda>r3. Some (Ok (ArrayType element, r3)))))
     | TypeMap \<Rightarrow>
         thenF (Some (expectByte CHR ''<'' s)) (\<lambda>r1.
         thenF (parseType n r1) (\<lambda>(keyType, r2).
         thenF (Some (expectByte CHR '','' r2)) (\<lambda>r3.
         thenF (parseType n r3) (\<lambda>(valueType, r4).
         thenF (Some (expectByte CHR ''>'' r4)) (\<lambda>r5. Some (Ok (MapType keyType valueType, r5)))))))
     | TypeRow \<Rightarrow>
         thenF (Some (expectByte CHR ''<'' s)) (\<lambda>r1.
         thenF (rowLoop n r1 []) (\<lambda>(fs, r2).
         thenF (Some (expectByte CHR ''>'' r2)) (\<lambda>r3. Some (Ok (RowType fs, r3)))))
     | _ \<Rightarrow> Some (Ok (scalarType k, s)))"
  using assms kindName_ident [OF assms(1)]
  unfolding parseType.simps Let_def parseIdentifier_kind [OF assms] prod.case
  by (cases k) (simp_all add: type_constructors)

text \<open>Reading back the text of a type.\<close>

lemma optIntArgs_none: "delim s \<Longrightarrow> s = [] \<or> hd s \<noteq> CHR ''('' \<Longrightarrow> optIntArgs n d s = Ok (d, s)"
  by (cases s) (auto simp: optIntArgs_def peek_def delim_def)

lemma optIntArgs_one:
  "0 \<le> p \<Longrightarrow> p < 2 ^ 63 \<Longrightarrow> optIntArgs 1 d (CHR ''('' # itoa p @ CHR '')'' # r) = Ok ([p], r)"
  using parse_one_arg [of p r] by (simp add: optIntArgs_def)

definition follows :: "string \<Rightarrow> bool" where
  "follows s \<longleftrightarrow> s = [] \<or> hd s \<in> {CHR ''>'', CHR '',''}"

definition readsBack :: "(nat \<Rightarrow> string) \<Rightarrow> FieldType \<Rightarrow> bool" where
  "readsBack nm t \<longleftrightarrow> (\<forall>n s. length (showType nm t) \<le> n \<longrightarrow> follows s \<longrightarrow>
     parseType (Suc n) (showType nm t @ s) = Some (Ok (t, s)))"

lemma rowLoop_fields:
  assumes nm: "\<And>i. nm i \<noteq> [] \<and> (\<forall>c\<in>set (nm i). isIdentByte c)"
  shows "(\<And>t'. t' \<in> set (t # ts) \<Longrightarrow> readsBack nm t') \<Longrightarrow> length (showType nm t) + length (showFields nm (Suc i) ts) < n \<Longrightarrow>
    rowLoop (Suc n) (nm i @ CHR '' '' # showType nm t @ showFields nm (Suc i) ts @ CHR ''>'' # s) fs
      = Some (Ok (fs @ t # ts, CHR ''>'' # s))"
proof (induction ts arbitrary: t i n fs)
  case (Cons t' ts)
  obtain m where n: "n = Suc m"
    using Cons.prems(2) by (cases n) auto
  have ident: "parseIdentifier (skipSpaces (nm i @ CHR '' '' # r)) = (nm i, CHR '' '' # r)" for r
    using nm by (intro parseIdentifier_word) auto
  have "parseType n (showType nm t @ CHR '','' # r) = Some (Ok (t, CHR '','' # r))" for r
    using Cons.prems n unfolding readsBack_def by (simp add: follows_def)
  moreover have "rowLoop n (nm (Suc i) @ CHR '' '' # showType nm t' @ showFields nm (Suc (Suc i)) ts @ CHR ''>'' # s) (fs @ [t])
      = Some (Ok ((fs @ [t]) @ t' # ts, CHR ''>'' # s))"
    using Cons.prems n by (subst n) (intro Cons.IH, auto)
  ultimately show ?case
    by (simp add: rowLoop.simps(2) ident Let_def)
next
  case Nil
  obtain m where n: "n = Suc m"
    using Nil.prems(2) by (cases n) auto
  have ident: "parseIdentifier (skipSpaces (nm i @ CHR '' '' # r)) = (nm i, CHR '' '' # r)" for r
    using nm by (intro parseIdentifier_word) auto
  have "parseType n (showType nm t @ CHR ''>'' # s) = Some (Ok (t, CHR ''>'' # s))"
    using Nil.prems n unfolding readsBack_def by (simp add: follows_def)
  then show ?case
    by (simp add: rowLoop.simps(2) ident Let_def)
qed

lemma textual_readsBack:
  assumes nm: "\<And>i. nm i \<noteq> [] \<and> (\<forall>c\<in>set (nm i). isIdentByte c)" and "textual t"
  shows "readsBack nm t"
  using assms(2)
proof induction
  case (scalar k)
  then show ?case
    by (auto simp: readsBack_def scalarType_def parseType_kind optIntArgs_none type_constructors follows_def
        intro!: parseType_kind [THEN trans] simp: delim_def)
next
  case (decimal p sc)
  then show ?case
    using parseType_kind [of TypeDecimal] parse_two_args [of p sc]
    by (auto simp: readsBack_def DecimalType_def)
next
  case (ntz p)
  then show ?case
    using parseType_kind [of TypeTimestampNtz] optIntArgs_one [of p]
    by (auto simp: readsBack_def TimestampNtzType_def)
next
  case (ltz p)
  then show ?case
    using parseType_kind [of TypeTimestampLtz] optIntArgs_one [of p]
    by (auto simp: readsBack_def TimestampLtzType_def)
next
  case (array t)
  show ?case
    unfolding readsBack_def
  proof (intro allI impI)
    fix n s
    assume n: "length (showType nm (ArrayType t)) \<le> n" "follows s"
    then obtain m where "n = Suc m"
      by (cases n) (auto simp: ArrayType_def)
    with n array show "parseType (Suc n) (showType nm (ArrayType t) @ s) = Some (Ok (ArrayType t, s))"
      using parseType_kind [of TypeArray] by (auto simp: readsBack_def ArrayType_def follows_def)
  qed
next
  case (map kt vt)
  show ?case
    unfolding readsBack_def
  proof (intro allI impI)
    fix n s
    assume n: "length (showType nm (MapType kt vt)) \<le> n" "follows s"
    then obtain m where "n = Suc m"
      by (cases n) (auto simp: MapType_def)
    with n map show "parseType (Suc n) (showType nm (MapType kt vt) @ s) = Some (Ok (MapType kt vt, s))"
      using parseType_kind [of TypeMap] by (auto simp: readsBack_def MapType_def follows_def)
  qed
next
  case (row ts)
  then obtain t us where ts: "ts = t # us"
    by (cases ts) auto
  show ?case
    unfolding readsBack_def
  proof (intro allI impI)
    fix n s
    assume n: "length (showType nm (RowType ts)) \<le> n" "follows s"
    then obtain m where m: "n = Suc m"
      by (cases n) (auto simp: RowType_def)
    have "rowLoop (Suc m) (nm 0 @ CHR '' '' # showType nm t @ showFields nm (Suc 0) us @ CHR ''>'' # s) []
        = Some (Ok ([] @ t # us, CHR ''>'' # s))"
      using row n ts m by (intro rowLoop_fields [OF nm]) (auto simp: RowType_def)
    then show "parseType (Suc n) (showType nm (RowType ts) @ s) = Some (Ok (RowType ts, s))"
      using parseType_kind [of TypeRow] by (simp add: RowType_def ts m)
  qed
qed

lemma kind_visible: "visible (hd (kindName k)) \<and> visible (last (kindName k))" if "\<forall>s. k \<noteq> TypeOther s"
  using that by (cases k) (simp_all, code_simp+)

lemma textual_kind: "textual t \<Longrightarrow> \<forall>s. Kind t \<noteq> TypeOther s"
  by (induction rule: textual.induct) (auto simp: type_constructors)

lemma TrimSpace_text: "textual t \<Longrightarrow> TrimSpace (showType nm t) = showType nm t"
proof -
  assume "textual t"
  then have k: "\<forall>s. Kind t \<noteq> TypeOther s"
    by (rule textual_kind)
  obtain k len sc el ke va fs where t: "t = FieldType k len sc el ke va fs"
    by (cases t) auto
  obtain c r where cr: "kindName k = c # r" "visible c" "visible (last (kindName k))"
    using kind_visible [of k] kindName_ident [of k] k t by (cases "kindName k") auto
  have "visible CHR ''>''" "visible CHR '')''"
    by (simp_all add: visible_def)
  then have "\<exists>r' d. showType nm t = r' @ [d] \<and> visible d"
    using cr append_butlast_last_id [of "kindName k"] k unfolding t by (cases k) auto
  moreover have "\<exists>r. showType nm t = c # r"
    using cr unfolding t by auto
  ultimately show ?thesis
    using TrimSpace_id cr(2) by metis
qed

lemma parseFieldType_text:
  assumes "\<And>i. nm i \<noteq> [] \<and> (\<forall>c\<in>set (nm i). isIdentByte c)" and "textual t"
  shows "parseFieldType (showType nm t) = Some (Ok t)"
  using textual_readsBack [OF assms] TrimSpace_text [OF assms(2), of nm]
  by (simp add: parseFieldType_def readsBack_def follows_def)

subsection \<open>Reading back the JSON object of a type\<close>

lemma TrimSpace_kind: "\<forall>s. k \<noteq> TypeOther s \<Longrightarrow> upperText (TrimSpace (kindName k)) = kindName k"
  using kind_visible [of k] kindName_ident [of k] TrimSpace_id
  by (metis append_butlast_last_id list.collapse)

lemma toFieldType_kind:
  assumes "\<forall>s. k \<noteq> TypeOther s"
  shows "toFieldType (DataTypeJSON (kindName k) nu len p sc el ke va fs) =
    (case k of
       TypeDecimal \<Rightarrow> Some (Ok (DecimalType (valueOrDefault p 0) (valueOrDefault sc 0)))
     | TypeTimestampNtz \<Rightarrow> Some (Ok (TimestampNtzType (valueOrDefault p 6)))
     | TypeTimestampLtz \<Rightarrow> Some (Ok (TimestampLtzType (valueOrDefault p 6)))
     | TypeArray \<Rightarrow>
        (case el of
          None \<Rightarrow> Some (Fail (Errf ''missing array element type''))
        | Some e \<Rightarrow> thenF (wrapF ''array element type: %w'' (toFieldType e)) (\<lambda>t. Some (Ok (ArrayType t))))
     | TypeMap \<Rightarrow>
        (case ke of
          None \<Rightarrow> Some (Fail (Errf ''missing map key/value type''))
        | Some k \<Rightarrow> (case va of
            None \<Rightarrow> Some (Fail (Errf ''missing map key/value type''))
          | Some v \<Rightarrow>
              thenF (wrapF ''map key type: %w'' (toFieldType k)) (\<lambda>kt.
              thenF (wrapF ''map value type: %w'' (toFieldType v)) (\<lambda>vt. Some (Ok (MapType kt vt))))))
     | TypeRow \<Rightarrow> thenF (nestedFieldTypes fs) (\<lambda>ts. Some (Ok (RowType ts)))
     | _ \<Rightarrow> Some (Ok (scalarType k)))"
  unfolding toFieldType.simps Let_def TrimSpace_kind [OF assms]
  using assms by (cases k) (simp_all add: type_constructors)

lemma nestedFieldTypes_json:
  "(\<And>t. t \<in> set ts \<Longrightarrow> toFieldType (jsonType nm t) = Some (Ok t)) \<Longrightarrow> nestedFieldTypes (jsonFields nm i ts) = Some (Ok ts)"
  by (induction ts arbitrary: i) auto

lemma toFieldType_json: "textual t \<Longrightarrow> toFieldType (jsonType nm t) = Some (Ok t)"
proof (induction rule: textual.induct)
  case (scalar k)
  then show ?case
    using toFieldType_kind [of k] by (auto simp: scalarType_def)
next
  case (row ts)
  then show ?case
    using toFieldType_kind [of TypeRow] by (simp add: RowType_def nestedFieldTypes_json)
qed (use toFieldType_kind [of TypeDecimal] toFieldType_kind [of TypeTimestampNtz] toFieldType_kind [of TypeTimestampLtz]
    toFieldType_kind [of TypeArray] toFieldType_kind [of TypeMap] in
    \<open>simp_all add: DecimalType_def TimestampNtzType_def TimestampLtzType_def ArrayType_def MapType_def\<close>)

end
