(* ===== verification/Schema_Properties.thy ===== *)
theory Schema_Properties
  imports Schema_Laws
begin

text \<open>
  The properties of the schema descriptor: parsing ends on every input, and a schema whose
  columns are written in any of the three notations is read back.
\<close>


text \<open>The three ways in which a column gives its type.\<close>

definition written :: "(nat \<Rightarrow> string) \<Rightarrow> schemaColumnJSON \<Rightarrow> FieldType \<Rightarrow> bool" where
  "written nm c t \<longleftrightarrow> colDataType c = Some (jsonType nm t) \<or>
     colDataType c = None \<and> (colFieldType c = Some (jsonType nm t) \<or> colFieldType c = None \<and> colType c = showType nm t)"

lemma columnFieldType_written:
  assumes "\<And>i. nm i \<noteq> [] \<and> (\<forall>c\<in>set (nm i). isIdentByte c)" "textual t" "written nm c t"
  shows "columnFieldType c = Some (Ok t)"
proof -
  obtain x r where "showType nm t = x # r"
    using kindName_ident [OF textual_kind [OF assms(2)]] by (cases t) (auto simp: neq_Nil_conv)
  moreover have "parseFieldType (showType nm t) = Some (Ok t)"
    by (rule parseFieldType_text) (use assms in auto)
  ultimately show ?thesis
    using assms(3) toFieldType_json [OF assms(2), of nm] TrimSpace_text [OF assms(2), of nm]
    by (auto simp: columnFieldType_def written_def)
qed

text \<open>
  C38. A schema whose columns give their types as a \<open>data_type\<close> object, as a \<open>field_type\<close> object
  or as text, nested to any depth, is read back: the parsed schema has these types and names, in
  order, whatever notation each column uses.
\<close>

theorem schema_notations_roundtrip:
  assumes "\<And>i. nm i \<noteq> [] \<and> (\<forall>c\<in>set (nm i). isIdentByte c)"
    and "unmarshal schemaJSON = Ok \<lparr>Columns = cols\<rparr>"
    and "list_all2 (\<lambda>c (name, t). colName c = name \<and> textual t \<and> written nm c t) cols columns"
  shows "ParseSchema unmarshal schemaJSON = Some (Ok (map snd columns, map fst columns))"
proof -
  have "parseColumns cols = Some (Ok (map (\<lambda>(name, t). \<lparr>ColumnName = name, ColumnType = t\<rparr>) columns))"
    using assms(3) by induction (auto simp: columnFieldType_written [OF assms(1)] split: prod.splits)
  then show ?thesis
    using assms(2) by (simp add: ParseSchema_def ParseSchemaColumns_def case_prod_unfold comp_def)
qed

definition plainName :: "nat \<Rightarrow> string" where "plainName i = CHR ''f'' # natDigits i"

lemma plainName_ident: "plainName i \<noteq> [] \<and> (\<forall>c\<in>set (plainName i). isIdentByte c)"
  using natDigits_digits by (auto simp: plainName_def isIdentByte_def isLetterByte_def)

definition attrsType :: FieldType where "attrsType = MapType StringType (ArrayType Int64Type)"
definition payloadType :: FieldType where "payloadType = RowType [DecimalType 10 2, TimestampNtzType 6]"

definition exampleColumns :: "schemaColumnJSON list" where
  "exampleColumns =
    [\<lparr>colName = ''attrs'', colType = ''MAP<STRING, ARRAY<BIGINT>>'', colDataType = None, colFieldType = None\<rparr>,
     \<lparr>colName = ''payload'', colType = ''ROW<f0 DECIMAL(10, 2), f1 TIMESTAMP(6)>'', colDataType = None, colFieldType = None\<rparr>,
     \<lparr>colName = ''object'', colType = [], colDataType = Some (jsonType plainName payloadType), colFieldType = None\<rparr>]"

lemma example_textual: "textual attrsType" "textual payloadType"
  unfolding attrsType_def payloadType_def StringType_def Int64Type_def
  by (auto intro!: textual.intros)

lemma schema_notations_roundtrip_witness:
  "ParseSchema (\<lambda>_. Ok \<lparr>Columns = exampleColumns\<rparr>) [] =
    Some (Ok ([attrsType, payloadType, payloadType], [''attrs'', ''payload'', ''object'']))"
proof -
  have *: "showType plainName attrsType = ''MAP<STRING, ARRAY<BIGINT>>''"
    "showType plainName payloadType = ''ROW<f0 DECIMAL(10, 2), f1 TIMESTAMP(6)>''"
    by code_simp+
  show ?thesis
    using schema_notations_roundtrip [of plainName "\<lambda>_. Ok \<lparr>Columns = exampleColumns\<rparr>" "[]" exampleColumns
        "[(''attrs'', attrsType), (''payload'', payloadType), (''object'', payloadType)]"] plainName_ident
    by (simp add: exampleColumns_def written_def * example_textual)
qed

end
