(* ===== verification/Snapshot_Decode.thy ===== *)
theory Snapshot_Decode
  imports Row_Decode Go_Strings
begin

text \<open>
  Reading a key-value snapshot (\<open>internal/snapshot/decode.go\<close> and \<open>reader.go\<close>): a value is a
  two-byte schema id and a row, which is decoded with the plan of that schema and projected by
  column name. The snapshot database is the list of the values its iterator yields and the
  error it ends with; \<open>loadPlan\<close> acts on the state \<open>'s\<close> of its caller.
\<close>

record DecodePlan =
  DecodeSchema :: Schema
  TargetSchema :: Schema
  SourceColumns :: "string list"
  TargetColumns :: "string list"

type_synonym 's resolver = "int32 \<Rightarrow> 's \<Rightarrow> DecodePlan option res \<times> 's"

fun sameColumnsFrom :: "string list \<Rightarrow> string list \<Rightarrow> bool" where
  "sameColumnsFrom (s # ss) (t # ts) = (if s \<noteq> t then False else sameColumnsFrom ss ts)"
| "sameColumnsFrom ss ts = True"

definition sameColumns :: "string list \<Rightarrow> string list \<Rightarrow> bool" where
  "sameColumns source target = (if length source \<noteq> length target then False else sameColumnsFrom source target)"

text \<open>The map from column names to positions; the last position of a name stays.\<close>

fun indexByName :: "string list \<Rightarrow> nat \<Rightarrow> (string \<rightharpoonup> nat) \<Rightarrow> (string \<rightharpoonup> nat)" where
  "indexByName [] i m = m"
| "indexByName (name # names) i m = indexByName names (Suc i) (m(name \<mapsto> i))"

definition projectRow :: "gval list \<Rightarrow> string list \<Rightarrow> Schema \<Rightarrow> string list \<Rightarrow> gval list" where
  "projectRow row sourceColumns targetSchema targetColumns =
     (let index = indexByName sourceColumns 0 Map.empty in
      map (\<lambda>name. case index name of
          None \<Rightarrow> VNil
        | Some i \<Rightarrow> if i \<ge> length row then VNil else row ! i) targetColumns)"

definition decodeSnapshotValue :: "'s resolver \<Rightarrow> bool \<Rightarrow> bytes \<Rightarrow> 's \<Rightarrow> gval list res \<times> 's" where
  "decodeSnapshotValue resolve indexed val s =
     (if length val < 2 then (Fail (Errf ''snapshot: value payload too short''), s)
      else (case resolve (ucast (getU16 (take 2 val))) s of
          (Fail e, s1) \<Rightarrow> (Fail (Wrapf ''snapshot: load schema id %d: %w'' e), s1)
        | (Panic, s1) \<Rightarrow> (Panic, s1)
        | (Ok None, s1) \<Rightarrow> (Fail (Errf ''snapshot: schema id %d not available for decode''), s1)
        | (Ok (Some plan), s1) \<Rightarrow>
            (andThen
               (if indexed then wrapErr ''snapshot: decode indexed value payload: %w'' (DecodeIndexed (DecodeSchema plan) (drop 2 val))
                else wrapErr ''snapshot: decode compacted value payload: %w'' (DecodeCompacted (DecodeSchema plan) (drop 2 val)))
               (\<lambda>row. if TargetColumns plan = [] \<or> sameColumns (SourceColumns plan) (TargetColumns plan) then Ok row
                  else Ok (projectRow row (SourceColumns plan) (TargetSchema plan) (TargetColumns plan))), s1)))"

text \<open>The reader: the plans known so far, and the state of the caller.\<close>

definition lookupPlan :: "(int32 \<Rightarrow> 's \<Rightarrow> DecodePlan res \<times> 's) option \<Rightarrow> ((int32 \<rightharpoonup> DecodePlan) \<times> 's) resolver" where
  "lookupPlan loadPlan schemaID = (\<lambda>(plans, s). case plans schemaID of
      Some plan \<Rightarrow> (Ok (Some plan), plans, s)
    | None \<Rightarrow> (case loadPlan of
        None \<Rightarrow> (Ok None, plans, s)
      | Some load \<Rightarrow> (case load schemaID s of
          (Ok loaded, s1) \<Rightarrow> (Ok (Some loaded), plans(schemaID \<mapsto> loaded), s1)
        | (Fail e, s1) \<Rightarrow> (Fail e, plans, s1)
        | (Panic, s1) \<Rightarrow> (Panic, plans, s1))))"

fun readRows :: "'s resolver \<Rightarrow> bool \<Rightarrow> bytes list \<Rightarrow> gval list list \<Rightarrow> 's \<Rightarrow> gval list list res \<times> 's" where
  "readRows resolve indexed [] rows s = (Ok rows, s)"
| "readRows resolve indexed (val # vals) rows s = (case decodeSnapshotValue resolve indexed val s of
      (Ok row, s1) \<Rightarrow> readRows resolve indexed vals (rows @ [row]) s1
    | (Fail e, s1) \<Rightarrow> (Fail e, s1)
    | (Panic, s1) \<Rightarrow> (Panic, s1))"

record snapshotDB =
  iterValues :: "bytes list"
  iterError :: "goerr option"
  iterClose :: "goerr option"
  dbClose :: "goerr option"

definition ReadAll :: "snapshotDB \<Rightarrow> (int32 \<Rightarrow> 's \<Rightarrow> DecodePlan res \<times> 's) option \<Rightarrow> bool \<Rightarrow>
    (int32 \<rightharpoonup> DecodePlan) \<times> 's \<Rightarrow> gval list list res \<times> (int32 \<rightharpoonup> DecodePlan) \<times> 's" where
  "ReadAll db loadPlan indexed s =
     (case readRows (lookupPlan loadPlan) indexed (iterValues db) [] s of
        (Ok rows, s1) \<Rightarrow> (case iterError db of
            Some e \<Rightarrow> (Fail (Wrapf ''snapshot: iterate local snapshot db: %w'' e), s1)
          | None \<Rightarrow> (Ok rows, s1))
      | (Fail e, s1) \<Rightarrow> (Fail e, s1)
      | (Panic, s1) \<Rightarrow> (Panic, s1))"

text \<open>\<open>Close\<close> closes the iterator and the database, and returns the first error.\<close>

definition CloseReader :: "snapshotDB \<Rightarrow> goerr option" where
  "CloseReader db = (case iterClose db of Some e \<Rightarrow> Some e | None \<Rightarrow> dbClose db)"

end
