(* ===== verification/Snapshot_Laws.thy ===== *)
theory Snapshot_Laws
  imports Snapshot_Decode Row_Compact
begin

text \<open>
  Snapshot values as the server writes them, and rows as maps from column names: decoding with
  the plan of a schema and projecting gives the values of the columns asked for by name.
\<close>

text \<open>The bytes of a row stored under a schema in the format of the table.\<close>

definition storedAs :: "rat_parser \<Rightarrow> bool \<Rightarrow> Schema \<Rightarrow> gval list \<Rightarrow> bytes \<Rightarrow> bool" where
  "storedAs rp indexed schema row bs \<longleftrightarrow> SchemaValidate schema = Ok () \<and> conformsRow schema row \<and>
     encodeRow rp schema row indexed = Ok bs \<and> length bs < 2 ^ 32 \<and> (indexed \<or> list_all compactable schema)"

lemma storedAs_decode:
  assumes "storedAs rp idx schema row bs"
  shows "decodeRow schema bs idx = Ok row"
proof (cases idx)
  case True
  have "list_all2 (\<lambda>f v. v = VNil \<or> (Validate f = Ok () \<and> conforms f v)) schema row"
    using assms by (auto simp: storedAs_def SchemaValidate_Ok_iff list_all2_conv_all_nth)
  with True assms indexed.row_roundtrip [of rp schema row bs] show ?thesis
    by (auto simp: storedAs_def simp del: decodeRow.simps)
next
  case False
  have "list_all2 (\<lambda>f v. v = VNil \<or> (compactable f \<and> conforms f v)) schema row"
    using assms False by (auto simp: storedAs_def list_all_length list_all2_conv_all_nth)
  with False assms compacted.row_roundtrip [of rp schema row bs] show ?thesis
    by (auto simp: storedAs_def simp del: decodeRow.simps)
qed

lemma storedAs_length: "storedAs rp idx schema row bs \<Longrightarrow> length row = length schema"
  by (auto simp: storedAs_def dest: list_all2_lengthD)

text \<open>The value of a column by its name; a column the row does not have is nil.\<close>

definition byName :: "string list \<Rightarrow> gval list \<Rightarrow> string \<Rightarrow> gval" where
  "byName columns row name = (case map_of (zip columns row) name of None \<Rightarrow> VNil | Some v \<Rightarrow> v)"

lemma indexByName_fold: "indexByName names i m = m ++ map_of (rev (zip names [i..<i + length names]))"
proof (induction names i m rule: indexByName.induct)
  case (2 name names i m)
  have e: "[i..<i + length (name # names)] = i # [Suc i..<Suc i + length names]"
    by (simp add: upt_conv_Cons del: upt_Suc)
  show ?case
    unfolding indexByName.simps 2 e by (simp del: upt_Suc)
qed simp

lemma map_of_rev_distinct: "distinct (map fst xs) \<Longrightarrow> map_of (rev xs) = map_of xs"
proof -
  assume "distinct (map fst xs)"
  then show ?thesis
    using map_of_inject_set [of "rev xs" xs] by (auto simp flip: rev_map)
qed

lemma index_distinct: "distinct names \<Longrightarrow> indexByName names 0 Map.empty = map_of (zip names [0..<length names])"
  by (simp add: indexByName_fold map_of_rev_distinct)

lemma projectRow_byName:
  assumes "distinct source" "length row = length source"
  shows "projectRow row source schema target = map (byName source row) target"
proof -
  have "(case map_of (zip source [0..<length source]) name of None \<Rightarrow> VNil | Some i \<Rightarrow> if i \<ge> length row then VNil else row ! i)
      = byName source row name" for name
  proof (cases "name \<in> set source")
    case True
    then obtain i where i: "i < length source" "source ! i = name"
      by (auto simp: in_set_conv_nth)
    then have "map_of (zip source [0..<length source]) name = Some i" "map_of (zip source row) name = Some (row ! i)"
      using assms map_of_zip_nth [of source "[0..<length source]" i] map_of_zip_nth [of source row i] by auto
    with assms i show ?thesis
      by (simp add: byName_def)
  next
    case False
    then have none: "map_of (zip source [0..<length source]) name = None" "map_of (zip source row) name = None"
      by (auto simp: map_of_eq_None_iff dest: set_zip_leftD)
    show ?thesis
      unfolding none byName_def by simp
  qed
  then show ?thesis
    by (simp add: projectRow_def index_distinct [OF assms(1)] Let_def)
qed

lemma sameColumns_iff: "sameColumns source target \<longleftrightarrow> source = target"
proof -
  have "length s = length t \<Longrightarrow> sameColumnsFrom s t \<longleftrightarrow> s = t" for s t
    by (induction s t rule: sameColumnsFrom.induct) auto
  then show ?thesis
    by (auto simp: sameColumns_def)
qed

lemma byName_all: "distinct columns \<Longrightarrow> length row = length columns \<Longrightarrow> map (byName columns row) columns = row"
  by (auto simp: byName_def map_of_zip_nth intro!: nth_equalityI)

text \<open>The plan of a schema version.\<close>

definition planOf :: "Schema \<times> string list \<Rightarrow> Schema \<Rightarrow> string list \<Rightarrow> DecodePlan" where
  "planOf v target columns = \<lparr>DecodeSchema = fst v, TargetSchema = target, SourceColumns = snd v, TargetColumns = columns\<rparr>"

definition snapshotValue :: "16 word \<Rightarrow> bytes \<Rightarrow> bytes" where "snapshotValue sid bs = putU16 sid @ bs"

lemma snapshotValue_simps [simp]:
  "length (snapshotValue sid bs) = length bs + 2" "getU16 (take 2 (snapshotValue sid bs)) = sid" "drop 2 (snapshotValue sid bs) = bs"
  by (simp_all add: snapshotValue_def take_append_exact drop_append_exact)

lemma decodeSnapshotValue_byName:
  assumes "resolve (ucast sid) s = (Ok (Some (planOf v target columns)), s')"
    and "storedAs rp idx (fst v) row bs" "length (snd v) = length (fst v)" "distinct (snd v)" "columns \<noteq> []"
  shows "decodeSnapshotValue resolve idx (snapshotValue sid bs) s = (Ok (map (byName (snd v) row) columns), s')"
  using assms storedAs_decode [OF assms(2)] storedAs_length [OF assms(2)]
  by (auto simp: decodeSnapshotValue_def planOf_def DecodeIndexed_def DecodeCompacted_def sameColumns_iff
      projectRow_byName byName_all simp del: decodeRow.simps)

end
