(* ===== verification/Snapshot_Fetch.thy ===== *)
theory Snapshot_Fetch
  imports Go_Base Go_Strings
begin

text \<open>
  Fetching the files of a snapshot (\<open>internal/snapshot/fetcher.go\<close>,
  \<open>client/snapshot_fetcher.go\<close>): every file goes to the fetcher of the scheme of its path, and
  a failure removes the directory again. \<open>net/url\<close>, the file system and the S3 client are
  the parameters of a \<open>platform\<close>, on its state \<open>'w\<close>.
\<close>

record StorageConfig =
  S3Endpoint :: string
  S3AccessKey :: string
  S3SecretKey :: string
  S3Region :: string
  S3UseSSL :: bool
  S3PathStyle :: bool
  S3BucketOverride :: string

record RemoteFile =
  FilePath :: string
  FileName :: string

text \<open>The scheme, host and path of a URL.\<close>

record url =
  Scheme :: string
  Host :: string
  Path :: string

datatype bucketLookupType = BucketLookupPath | BucketLookupAuto

record s3Options =
  Secure :: bool
  Region :: string
  BucketLookup :: bucketLookupType

record 'w platform =
  parseURL :: "string \<Rightarrow> url res"
  joinPath :: "string \<Rightarrow> string \<Rightarrow> string"
  dirOf :: "string \<Rightarrow> string"
  MkdirTemp :: "'w \<Rightarrow> string res \<times> 'w"
  RemoveAll :: "string \<Rightarrow> 'w \<Rightarrow> 'w"
  MkdirAll :: "string \<Rightarrow> 'w \<Rightarrow> unit res \<times> 'w"
  readFile :: "string \<Rightarrow> 'w \<Rightarrow> bytes res \<times> 'w"
  createFile :: "string \<Rightarrow> 'w \<Rightarrow> unit res \<times> 'w"
  copyTo :: "string \<Rightarrow> bytes \<Rightarrow> 'w \<Rightarrow> unit res \<times> 'w"
  newS3 :: "string \<Rightarrow> string \<Rightarrow> string \<Rightarrow> s3Options \<Rightarrow> unit res"
  fGetObject :: "string \<Rightarrow> string \<Rightarrow> string \<Rightarrow> 'w \<Rightarrow> unit res \<times> 'w"

datatype SchemeFetcher = fileFetcher | S3Fetcher StorageConfig

text \<open>Sequencing on the state of the platform, with the message that wraps an error.\<close>

definition stepIO :: "string \<Rightarrow> ('w \<Rightarrow> 'a res \<times> 'w) \<Rightarrow> ('a \<Rightarrow> 'w \<Rightarrow> 'b res \<times> 'w) \<Rightarrow> 'w \<Rightarrow> 'b res \<times> 'w" where
  "stepIO msg m f w = (case m w of
      (Ok a, w1) \<Rightarrow> f a w1
    | (Fail e, w1) \<Rightarrow> (Fail (Wrapf msg e), w1)
    | (Panic, w1) \<Rightarrow> (Panic, w1))"

definition NewS3Fetcher :: "StorageConfig \<Rightarrow> SchemeFetcher res" where
  "NewS3Fetcher cfg =
     (if S3Endpoint cfg = [] then Fail (Errf ''snapshot: s3 endpoint is required'')
      else if S3AccessKey cfg = [] \<or> S3SecretKey cfg = []
        then Fail (Errf ''snapshot: s3 access key and secret key are required'')
      else Ok (S3Fetcher (if S3Region cfg = [] then cfg\<lparr>S3Region := ''us-east-1''\<rparr> else cfg)))"

definition trimPrefix :: "string \<Rightarrow> string \<Rightarrow> string" where
  "trimPrefix s p = (if hasPrefix s p then drop (length p) s else s)"

definition remoteObject :: "'w platform \<Rightarrow> StorageConfig \<Rightarrow> string \<Rightarrow> (string \<times> string) res" where
  "remoteObject os cfg remotePath =
     andThen (wrapErr ''snapshot: parse remote path %q: %w'' (parseURL os remotePath)) (\<lambda>u.
       let bucket = (if S3BucketOverride cfg \<noteq> [] then S3BucketOverride cfg else Host u);
           objectKey = trimPrefix (Path u) ''/'' in
       if bucket = [] \<or> objectKey = [] then Fail (Errf ''snapshot: invalid remote path %q'')
       else Ok (bucket, objectKey))"

definition bucketLookup :: "bool \<Rightarrow> bucketLookupType" where
  "bucketLookup pathStyle = (if pathStyle then BucketLookupPath else BucketLookupAuto)"

definition S3Fetch :: "'w platform \<Rightarrow> StorageConfig \<Rightarrow> RemoteFile \<Rightarrow> string \<Rightarrow> 'w \<Rightarrow> unit res \<times> 'w" where
  "S3Fetch os cfg f localDir w =
     (case newS3 os (S3Endpoint cfg) (S3AccessKey cfg) (S3SecretKey cfg)
         \<lparr>Secure = S3UseSSL cfg, Region = S3Region cfg, BucketLookup = bucketLookup (S3PathStyle cfg)\<rparr> of
        Fail e \<Rightarrow> (Fail (Wrapf ''snapshot: create minio client: %w'' e), w)
      | Panic \<Rightarrow> (Panic, w)
      | Ok _ \<Rightarrow> (case remoteObject os cfg (FilePath f) of
          Fail e \<Rightarrow> (Fail e, w)
        | Panic \<Rightarrow> (Panic, w)
        | Ok (bucket, objectKey) \<Rightarrow>
            (let localPath = joinPath os localDir (FileName f) in
             stepIO ''snapshot: create local file dir: %w'' (MkdirAll os (dirOf os localPath)) (\<lambda>_.
             stepIO ''snapshot: download %s: %w'' (fGetObject os bucket objectKey localPath) (\<lambda>_ w. (Ok (), w))) w)))"

definition fileFetch :: "'w platform \<Rightarrow> RemoteFile \<Rightarrow> string \<Rightarrow> 'w \<Rightarrow> unit res \<times> 'w" where
  "fileFetch os f localDir w =
     (case wrapErr ''snapshot: parse remote path %q: %w'' (parseURL os (FilePath f)) of
        Fail e \<Rightarrow> (Fail e, w)
      | Panic \<Rightarrow> (Panic, w)
      | Ok u \<Rightarrow>
          (let sourcePath = (if Scheme u = [] then FilePath f else Path u);
               localPath = joinPath os localDir (FileName f) in
           if sourcePath = [] then (Fail (Errf ''snapshot: invalid remote path %q''), w)
           else
             stepIO ''snapshot: create local file dir: %w'' (MkdirAll os (dirOf os localPath)) (\<lambda>_.
             stepIO ''snapshot: open local source %s: %w'' (readFile os sourcePath) (\<lambda>src.
             stepIO ''snapshot: create local destination: %w'' (createFile os localPath) (\<lambda>_.
             stepIO ''snapshot: copy local source %s: %w'' (copyTo os localPath src) (\<lambda>_ w. (Ok (), w))))) w))"

fun Fetch :: "'w platform \<Rightarrow> SchemeFetcher \<Rightarrow> RemoteFile \<Rightarrow> string \<Rightarrow> 'w \<Rightarrow> unit res \<times> 'w" where
  "Fetch os fileFetcher f localDir w = fileFetch os f localDir w"
| "Fetch os (S3Fetcher cfg) f localDir w = S3Fetch os cfg f localDir w"

text \<open>\<open>strings.ToLower\<close> of a scheme; the schemes of URLs are ASCII.\<close>

definition lowerChar :: "char \<Rightarrow> char" where
  "lowerChar c = (let n = of_char c :: nat in if 65 \<le> n \<and> n \<le> 90 then char_of (n + 32) else c)"

definition toLower :: "string \<Rightarrow> string" where "toLower s = map lowerChar s"

text \<open>A Go map of fetchers is the list of its entries in iteration order.\<close>

definition NewMultiFetcher :: "(string \<times> SchemeFetcher) list \<Rightarrow> (string \<rightharpoonup> SchemeFetcher)" where
  "NewMultiFetcher schemes = fold (\<lambda>(name, fetcher) m. m(toLower name \<mapsto> fetcher)) schemes Map.empty"

fun fetchFiles :: "'w platform \<Rightarrow> (string \<rightharpoonup> SchemeFetcher) \<Rightarrow> string \<Rightarrow> RemoteFile list \<Rightarrow> 'w \<Rightarrow> string res \<times> 'w" where
  "fetchFiles os schemes localDir [] w = (Ok localDir, w)"
| "fetchFiles os schemes localDir (f # fs) w =
     (case parseURL os (FilePath f) of
        Fail e \<Rightarrow> (Fail (Wrapf ''snapshot: parse remote path %q: %w'' e), RemoveAll os localDir w)
      | Panic \<Rightarrow> (Panic, w)
      | Ok u \<Rightarrow> (case schemes (toLower (Scheme u)) of
          None \<Rightarrow> (Fail (Errf ''snapshot: unsupported remote path scheme %q''), RemoveAll os localDir w)
        | Some fetcher \<Rightarrow> (case Fetch os fetcher f localDir w of
            (Ok _, w1) \<Rightarrow> fetchFiles os schemes localDir fs w1
          | (Fail e, w1) \<Rightarrow> (Fail e, RemoveAll os localDir w1)
          | (Panic, w1) \<Rightarrow> (Panic, w1))))"

definition FetchAll :: "'w platform \<Rightarrow> (string \<rightharpoonup> SchemeFetcher) \<Rightarrow> RemoteFile list \<Rightarrow> 'w \<Rightarrow> string res \<times> 'w" where
  "FetchAll os schemes files w =
     (if files = [] then (Fail (Errf ''snapshot: at least one snapshot file is required''), w)
      else stepIO ''snapshot: create temp dir: %w'' (MkdirTemp os) (\<lambda>localDir. fetchFiles os schemes localDir files) w)"

definition NewDefaultFetcher :: "StorageConfig \<Rightarrow> (string \<rightharpoonup> SchemeFetcher) res" where
  "NewDefaultFetcher cfg =
     (let schemes = [(''file'', fileFetcher), ([], fileFetcher)] in
      if S3Endpoint cfg \<noteq> [] \<or> S3AccessKey cfg \<noteq> [] \<or> S3SecretKey cfg \<noteq> [] \<or> S3BucketOverride cfg \<noteq> [] then
        andThen (NewS3Fetcher cfg) (\<lambda>s3. Ok (NewMultiFetcher (schemes @ [(''s3'', s3)])))
      else Ok (NewMultiFetcher schemes))"

text \<open>
  \<open>Client.SnapshotFetcher\<close>: a configured fetcher, as the function that fetches, or the default
  one of the storage configuration.
\<close>

definition SnapshotFetcher :: "'w platform \<Rightarrow> (RemoteFile list \<Rightarrow> 'w \<Rightarrow> string res \<times> 'w) option \<Rightarrow> StorageConfig \<Rightarrow>
    (RemoteFile list \<Rightarrow> 'w \<Rightarrow> string res \<times> 'w) res" where
  "SnapshotFetcher os configured cfg = (case configured of
      Some fetch \<Rightarrow> Ok fetch
    | None \<Rightarrow> andThen (wrapErr ''fluss: build snapshot fetcher: %w'' (NewDefaultFetcher cfg)) (\<lambda>schemes. Ok (FetchAll os schemes)))"

end
