(* ===== verification/Snapshot_Scan.thy ===== *)
theory Snapshot_Scan
  imports Client_Row Client_Admin Schema_Descriptor Snapshot_Decode Snapshot_Fetch
begin

text \<open>
  Scanning a key-value snapshot (\<open>client/row.go\<close>): the snapshot of a bucket is looked up and
  fetched, opened as a local database, and its values are decoded and projected to the columns
  asked for. Fetching, opening and removing the local directory act on the network state of
  the world; \<open>openDB\<close> stands for the snapshot database. \<open>ParseSchema\<close> always has a value
  (\<open>schema_parser_total\<close>).
\<close>

record SnapshotScanOptions =
  OptPartitionName :: "string option"
  OptPartitionID :: "int64 option"
  OptBucketID :: int32
  OptSnapshotID :: "int64 option"
  OptTargetColumns :: "string list"

definition wrapA :: "string \<Rightarrow> ('w, 'a) act \<Rightarrow> ('w, 'a) act" where
  "wrapA msg m w = (case m w of (r, w1) \<Rightarrow> (wrapErr msg r, w1))"

definition onNet :: "('w \<Rightarrow> 'a res \<times> 'w) \<Rightarrow> ('w, 'a) act" where
  "onNet f w = (case f (net w) of (r, n) \<Rightarrow> (r, w\<lparr>net := n\<rparr>))"

text \<open>A deferred call without a result.\<close>

definition afterwards :: "('w \<Rightarrow> 'w) \<Rightarrow> ('w, 'a) act \<Rightarrow> ('w, 'a) act" where
  "afterwards f m w = (case m w of (r, w1) \<Rightarrow> (r, w1\<lparr>net := f (net w1)\<rparr>))"

text \<open>The information and the schemas of the table, in \<open>client/table.go\<close>.\<close>

definition TableClient_Info :: "'w network \<Rightarrow> TablePath \<Rightarrow> ('w, TableInfo) act" where
  "TableClient_Info rpc path = GetTableInfo rpc path"

definition TableClient_Schema :: "'w network \<Rightarrow> TablePath \<Rightarrow> int32 option \<Rightarrow> ('w, SchemaInfo) act" where
  "TableClient_Schema rpc path schemaID = GetTableSchema rpc path schemaID"

type_synonym unmarshal_schema = "bytes \<Rightarrow> schemaDescriptorJSON res"

definition parsedSchema :: "unmarshal_schema \<Rightarrow> bytes \<Rightarrow> (Schema \<times> string list) res" where
  "parsedSchema unmarshal json = the (ParseSchema unmarshal json)"

definition targetColumnsOf :: "'w network \<Rightarrow> unmarshal_schema \<Rightarrow> TablePath \<Rightarrow> int32 \<Rightarrow> string list \<Rightarrow> ('w, string list) act" where
  "targetColumnsOf rpc unmarshal path targetSchemaID columns =
     (if columns \<noteq> [] then liftA (Ok columns)
      else bindA (wrapA ''get target schema %d: %w'' (TableClient_Schema rpc path (Some targetSchemaID))) (\<lambda>tableSchema.
        liftA (mapRes snd (wrapErr ''parse target schema %d: %w'' (parsedSchema unmarshal (SchemaJSON tableSchema))))))"

text \<open>The function that loads the plan of another schema.\<close>

definition loadPlan :: "'w network \<Rightarrow> unmarshal_schema \<Rightarrow> TablePath \<Rightarrow> int32 \<Rightarrow> DecodePlan \<Rightarrow> int32 \<Rightarrow> ('w, DecodePlan) act" where
  "loadPlan rpc unmarshal path targetSchemaID targetPlan schemaID =
     (if schemaID = targetSchemaID then liftA (Ok targetPlan)
      else bindA (wrapA ''get source schema %d: %w'' (TableClient_Schema rpc path (Some schemaID))) (\<lambda>schemaInfo.
        liftA (mapRes (\<lambda>(sourceSchema, sourceColumns).
            \<lparr>DecodeSchema = sourceSchema, TargetSchema = TargetSchema targetPlan, SourceColumns = sourceColumns,
             TargetColumns = TargetColumns targetPlan\<rparr>)
          (wrapErr ''parse source schema %d: %w'' (parsedSchema unmarshal (SchemaJSON schemaInfo))))))"

definition snapshotDecodePlans :: "'w network \<Rightarrow> unmarshal_schema \<Rightarrow> TablePath \<Rightarrow> int32 \<Rightarrow> Schema \<Rightarrow> SnapshotScanOptions \<Rightarrow>
    ('w, (int32 \<rightharpoonup> DecodePlan) \<times> (int32 \<Rightarrow> ('w, DecodePlan) act)) act" where
  "snapshotDecodePlans rpc unmarshal path targetSchemaID target opts =
     bindA (targetColumnsOf rpc unmarshal path targetSchemaID (OptTargetColumns opts)) (\<lambda>targetColumns.
       liftA (if length targetColumns \<noteq> length target
         then Fail (Errf ''target column count %d does not match target schema field count %d'')
         else (let plan = \<lparr>DecodeSchema = target, TargetSchema = target, SourceColumns = targetColumns, TargetColumns = targetColumns\<rparr> in
           Ok ([targetSchemaID \<mapsto> plan], loadPlan rpc unmarshal path targetSchemaID plan))))"

text \<open>The snapshot of the options, or the latest one of the bucket.\<close>

definition chosenSnapshot :: "KvSnapshots \<Rightarrow> SnapshotScanOptions \<Rightarrow> int64 option" where
  "chosenSnapshot snaps opts = (case OptSnapshotID opts of
      Some i \<Rightarrow> Some i
    | None \<Rightarrow> (case SnapshotIDs snaps (OptBucketID opts) of None \<Rightarrow> None | Some s \<Rightarrow> s))"

definition readSnapshot :: "snapshotDB \<Rightarrow> bool \<Rightarrow> (int32 \<rightharpoonup> DecodePlan) \<times> (int32 \<Rightarrow> ('w, DecodePlan) act) \<Rightarrow>
    ('w, gval list list) act" where
  "readSnapshot db indexed = (\<lambda>(plans, load) w. case ReadAll db (Some load) indexed (plans, w) of (r, _, w1) \<Rightarrow> (r, w1))"

definition snapshotScanRows :: "'w network \<Rightarrow> unmarshal_table \<Rightarrow> unmarshal_schema \<Rightarrow> (string \<Rightarrow> 'w \<Rightarrow> snapshotDB res \<times> 'w) \<Rightarrow>
    (string \<Rightarrow> 'w \<Rightarrow> 'w) \<Rightarrow> TablePath \<Rightarrow> Schema \<Rightarrow> SnapshotScanOptions \<Rightarrow> (RemoteFile list \<Rightarrow> 'w \<Rightarrow> string res \<times> 'w) \<Rightarrow>
    ('w, gval list list) act" where
  "snapshotScanRows rpc unmarshalTable unmarshal openDB rmAll path schema opts fetch =
     bindA (ensureTableInfo rpc path) (\<lambda>info.
     bindA (kvEncoding rpc unmarshalTable path) (\<lambda>(_, _, indexed).
     bindA (wrapA ''fluss: snapshot scan rows: get latest kv snapshots: %w''
         (GetLatestKvSnapshots rpc path (OptPartitionName opts))) (\<lambda>snaps.
     case chosenSnapshot snaps opts of
       None \<Rightarrow> liftA (Fail (Errf ''fluss: snapshot scan rows: no snapshot id available for bucket %d''))
     | Some snapshotID \<Rightarrow>
     bindA (wrapA ''fluss: snapshot scan rows: get kv snapshot metadata: %w''
         (GetKvSnapshotMetadata rpc (SnapTableID snaps)
           (if OptPartitionID opts = None then SnapPartitionID snaps else OptPartitionID opts) (OptBucketID opts) snapshotID)) (\<lambda>meta.
     bindA (wrapA ''fluss: snapshot scan rows: download snapshot files: %w''
         (onNet (fetch (map (\<lambda>f. \<lparr>FilePath = RemotePath f, FileName = LocalFileName f\<rparr>) (SnapshotFiles meta))))) (\<lambda>localDir.
     afterwards (rmAll localDir)
       (bindA (wrapA ''fluss: snapshot scan rows: load schemas: %w''
           (snapshotDecodePlans rpc unmarshal path (SchemaID info) schema opts)) (\<lambda>plans.
        bindA (wrapA ''fluss: snapshot scan rows: open local snapshot: %w''
           (wrapA ''snapshot: open local snapshot db: %w'' (onNet (openDB localDir)))) (\<lambda>db.
        wrapA ''fluss: snapshot scan rows: read local snapshot: %w'' (readSnapshot db indexed plans)))))))))"

definition SnapshotScanRows where
  "SnapshotScanRows rpc unmarshalTable unmarshal openDB os configured storage path schema opts =
     bindA (liftA (SnapshotFetcher os configured storage))
       (snapshotScanRows rpc unmarshalTable unmarshal openDB (RemoveAll os) path schema opts)"

end
