(* ===== verification/Log_Table.thy ===== *)
theory Log_Table
  imports Client_Row Batch_Laws
begin

text \<open>
  Appending and fetching composed: \<open>AppendIndexedRow\<close> (row encoder, batch encoder, routing,
  request, response) against \<open>FetchLog\<close> and \<open>DecodeIndexedLogBatchRows\<close>, with a server
  that keeps one log of batches per bucket. The abstract state of a bucket is the list of
  its rows.
\<close>

subsection \<open>The server of a log\<close>

text \<open>
  A server assigns the base offset (bytes 0 to 7) and the commit time (bytes 13 to 20) of a
  batch it appends; the CRC covers neither.
\<close>

definition stamped :: "64 word \<Rightarrow> 64 word \<Rightarrow> bytes \<Rightarrow> bytes" where
  "stamped off ts b = putU64 off @ take 5 (drop 8 b) @ putU64 ts @ drop 21 b"

text \<open>
  \<open>storesLog rpc t logs\<close>: whatever its state, a server appends the batch of a produce request
  of table \<open>t\<close> to the log of the bucket, stamped, and reports no error; it answers a fetch from
  an offset with the batches from there on, one record each, and keeps its logs.
\<close>

definition storesLog :: "'w network \<Rightarrow> int64 \<Rightarrow> ('w \<Rightarrow> int32 \<Rightarrow> bytes list) \<Rightarrow> bool" where
  "storesLog rpc t logs \<longleftrightarrow>
     (\<forall>n addr acks ms b payload. \<exists>resp n' r off ts.
        rpc n addr (ProduceLogRequest acks t ms [buildProduceBucketRecord None b payload]) = (Ok resp, n')
        \<and> parseProduceResults resp = ([r], None) \<and> ResBucketID r = b
        \<and> logs n' = (logs n)(b := logs n b @ [stamped off ts payload]))
     \<and> (\<forall>n addr follower maxBytes maxWait minBytes req. FetchPartitionID req = None \<longrightarrow> (\<exists>resp n' r.
        rpc n addr (fetchRequest t follower maxBytes maxWait minBytes \<lparr>ProjectedFields = []\<rparr> [req]) = (Ok resp, n')
        \<and> parseFetchResults resp = Ok [r] \<and> FetchedBucketID r = FetchBucketID req
        \<and> FetchedRecords r = concat (drop (unat (FetchOffset req)) (logs n (FetchBucketID req)))
        \<and> logs n' = logs n))"

lemma storesLog_produce:
  assumes "storesLog rpc t logs"
  obtains resp n' r off ts where
    "rpc n addr (ProduceLogRequest acks t ms [buildProduceBucketRecord None b payload]) = (Ok resp, n')"
    "parseProduceResults resp = ([r], None)" "ResBucketID r = b"
    "logs n' = (logs n)(b := logs n b @ [stamped off ts payload])"
  using assms unfolding storesLog_def by blast

lemma storesLog_fetch:
  assumes "storesLog rpc t logs" and "FetchPartitionID req = None"
  obtains resp n' r where
    "rpc n addr (fetchRequest t follower maxBytes maxWait minBytes \<lparr>ProjectedFields = []\<rparr> [req]) = (Ok resp, n')"
    "parseFetchResults resp = Ok [r]" "FetchedBucketID r = FetchBucketID req"
    "FetchedRecords r = concat (drop (unat (FetchOffset req)) (logs n (FetchBucketID req)))" "logs n' = logs n"
  using assms unfolding storesLog_def by blast

subsection \<open>A stamped batch decodes as before\<close>

lemma decodeLogBatch_cong:
  assumes "length p = length q" and "getU32 (drop 8 p) = getU32 (drop 8 q)" and "p ! 12 = q ! 12"
    and "drop 21 p = drop 21 q"
  shows "decodeLogBatch p = decodeLogBatch q"
proof -
  have "drop k p = drop k q" if "21 \<le> k" for k
    using arg_cong[OF assms(4), of "drop (k - 21)"] that by simp
  then have "goslice (take n p) k n = goslice (take n q) k n" if "21 \<le> k" "n \<le> length q" for n k
    using that assms(1) by (simp add: goslice_def drop_take)
  with assms show ?thesis by (simp add: decodeLogBatch_def Let_def header_sizes cong: if_cong)
qed

lemma stamped_length [simp]: "21 \<le> length b \<Longrightarrow> length (stamped off ts b) = length b"
  by (simp add: stamped_def)

lemma decodeLogBatch_stamped:
  assumes "48 \<le> length b"
  shows "decodeLogBatch (stamped off ts b @ rest) = decodeLogBatch (b @ rest)"
proof (rule decodeLogBatch_cong)
  show "getU32 (drop 8 (stamped off ts b @ rest)) = getU32 (drop 8 (b @ rest))"
    using assms by (simp add: stamped_def getU32_def)
  show "(stamped off ts b @ rest) ! 12 = (b @ rest) ! 12"
    using assms by (simp add: stamped_def nth_append)
  show "drop 21 (stamped off ts b @ rest) = drop 21 (b @ rest)"
    using assms by (simp add: stamped_def)
qed (use assms in simp)

lemma unit_stamped:
  assumes "batches.unit_of schema b rows" and "48 \<le> length b"
  shows "batches.unit_of schema (stamped off ts b) rows"
proof -
  have "b \<noteq> []" using assms(2) by auto
  then have "stamped off ts b \<noteq> []" using assms(2) stamped_length[of b off ts] by (cases "stamped off ts b") simp_all
  with assms show ?thesis
    by (simp add: batches.unit_of_def logBatchStep_def decodeLogBatch_stamped)
qed

subsection \<open>Appending a row and fetching a log\<close>

text \<open>The batch of a row must fit the 32-bit size field: 48 bytes of header, 5 of the record.\<close>

definition fitsBatch :: "rat_parser \<Rightarrow> Schema \<Rightarrow> gval list \<Rightarrow> bool" where
  "fitsBatch rp schema vals \<longleftrightarrow> (\<exists>enc. encodeRow rp schema vals True = Ok enc \<and> length enc + 53 < 2 ^ 32)"

lemma batch_of_row:
  assumes "conformsRow schema vals" and "fitsBatch rp schema vals"
  obtains payload where
    "EncodeLogRecordBatch rp schema vals \<lparr>LogSchemaID = sid, LogIndexed = True, LogWriterState = None\<rparr> = Ok payload"
    "\<And>off ts. batches.unit_of schema (stamped off ts payload) [vals]"
proof -
  from assms(2) obtain enc where enc: "encodeRow rp schema vals True = Ok enc" "length enc + 53 < 2 ^ 32"
    by (auto simp: fitsBatch_def)
  let ?opts = "\<lparr>LogSchemaID = sid, LogIndexed = True, LogWriterState = None\<rparr>"
  let ?payload = "encodeLogBatch sid (putU32 (word_of_nat (1 + length enc)) @ [0] @ enc) None"
  have e: "EncodeLogRecordBatch rp schema vals ?opts = Ok ?payload"
    by (simp add: EncodeLogRecordBatch_def encodeLogRecord_def enc(1) del: encodeRow.simps)
  have "batches.unit_of schema ?payload [vals]"
    using EncodeLogRecordBatch_logBatchOf[OF _ e] enc(2) assms(1) by (intro logBatch_unit) simp_all
  then have "batches.unit_of schema (stamped off ts ?payload) [vals]" for off ts
    by (rule unit_stamped) simp
  with e that show thesis by blast
qed

lemma single_group: "(\<And>gs. mset (ord gs) = mset gs) \<Longrightarrow> ord [g] = [g]"
  by (metis mset_single_iff_right mset_single_iff)

lemma AppendLog_single:
  assumes "Table (cache w) path = Some info" and "routeFor (cache w) (TableID info) p b = Ok node"
    and "\<And>gs. mset (ord gs) = mset gs"
    and "rpc (net w) (Address node) (ProduceLogRequest acks (TableID info) ms [buildProduceBucketRecord p b payload]) = (Ok resp, n')"
    and "parseProduceResults resp = ([r], None)"
  shows "AppendLog rpc ord path acks ms [\<lparr>BatchPartitionID = p, BatchBucketID = b, BatchRecords = payload\<rparr>] w
    = (Ok ([r], None), w\<lparr>net := n'\<rparr>)"
proof -
  let ?batch = "\<lparr>BatchPartitionID = p, BatchBucketID = b, BatchRecords = payload\<rparr>"
  have "groupBatchesByLeader rpc path (TableID info) [?batch] w = (Ok [(Address node, [?batch])], w)"
    using assms(2) by (simp add: groupBatchesByLeader_def tableRouteFor_def)
  then have "appendLogOnce rpc ord path acks ms [?batch] w = (Ok ([r], None), w\<lparr>net := n'\<rparr>)"
    using assms(1,4,5) by (simp add: appendLogOnce_def orReturn_def ensureTableInfo_def invokeA_def
        single_group[OF assms(3)] sortByBucket_def)
  then show ?thesis
    by (simp add: AppendLog_def numeral_2_eq_2 mergeProduceResults_def resultIndex_def sortByBucket_def)
qed

lemma append_row:
  assumes "Table (cache w) path = Some info" and "routeFor (cache w) (TableID info) None b = Ok node"
    and "\<And>gs. mset (ord gs) = mset gs" and "storesLog rpc (TableID info) logs"
    and "conformsRow schema vals" and "fitsBatch rp schema vals"
  obtains r n' batch where
    "AppendIndexedRow rpc ord rp path b \<lparr>RowSchema = schema, RowValues = vals\<rparr> w = (Ok ([r], None), w\<lparr>net := n'\<rparr>)"
    "ResBucketID r = b" "batches.unit_of schema batch [vals]"
    "logs n' = (logs (net w))(b := logs (net w) b @ [batch])"
proof -
  from batch_of_row[OF assms(5,6), of "SchemaID info"] obtain payload where
    e: "EncodeLogRecordBatch rp schema vals \<lparr>LogSchemaID = SchemaID info, LogIndexed = True, LogWriterState = None\<rparr> = Ok payload"
    and u: "\<And>off ts. batches.unit_of schema (stamped off ts payload) [vals]" by blast
  from storesLog_produce[OF assms(4)] obtain resp n' r off ts where
    req: "rpc (net w) (Address node) (ProduceLogRequest (- 1) (TableID info) 15000 [buildProduceBucketRecord None b payload]) = (Ok resp, n')"
    and r: "parseProduceResults resp = ([r], None)" "ResBucketID r = b"
    and l: "logs n' = (logs (net w))(b := logs (net w) b @ [stamped off ts payload])" by blast
  have "AppendLog rpc ord path (- 1) 15000 [\<lparr>BatchPartitionID = None, BatchBucketID = b, BatchRecords = payload\<rparr>] w
      = (Ok ([r], None), w\<lparr>net := n'\<rparr>)"
    by (rule AppendLog_single[OF assms(1,2,3)]) (fact req, fact r(1))
  with assms(1) e have "AppendIndexedRow rpc ord rp path b \<lparr>RowSchema = schema, RowValues = vals\<rparr> w = (Ok ([r], None), w\<lparr>net := n'\<rparr>)"
    by (simp add: AppendIndexedRow_def orReturn_def ensureTableInfo_def)
  from that[OF this r(2) u l] show thesis .
qed

lemma fetch_log:
  assumes "Table (cache w) path = Some info" and "routeFor (cache w) (TableID info) None (FetchBucketID req) = Ok node"
    and "\<And>gs. mset (ord gs) = mset gs" and "storesLog rpc (TableID info) logs"
    and "FetchPartitionID req = None"
  shows "\<exists>fetched n'. FetchLog rpc ord path follower maxBytes maxWait minBytes [req] w = (Ok [fetched], w\<lparr>net := n'\<rparr>)
    \<and> FetchedRecords fetched = concat (drop (unat (FetchOffset req)) (logs (net w) (FetchBucketID req)))
    \<and> logs n' = logs (net w)"
proof -
  from storesLog_fetch[OF assms(4,5)] obtain resp n' r where
    req: "rpc (net w) (Address node) (fetchRequest (TableID info) follower maxBytes maxWait minBytes \<lparr>ProjectedFields = []\<rparr> [req]) = (Ok resp, n')"
    and r: "parseFetchResults resp = Ok [r]"
      "FetchedRecords r = concat (drop (unat (FetchOffset req)) (logs (net w) (FetchBucketID req)))"
    and l: "logs n' = logs (net w)" by blast
  have "groupFetchesByLeader rpc path (TableID info) [req] w = (Ok [(Address node, [req])], w)"
    using assms(2,5) by (simp add: groupFetchesByLeader_def tableRouteFor_def)
  with req r(1) assms(1)
  have "FetchLog rpc ord path follower maxBytes maxWait minBytes [req] w = (Ok [r], w\<lparr>net := n'\<rparr>)"
    by (simp add: FetchLog_def FetchLogWithOptions_def ensureTableInfo_def single_group[OF assms(3)] invokeA_def)
  with r(2) l show ?thesis by blast
qed

subsection \<open>The log as an abstract list of rows per bucket\<close>

text \<open>\<open>bucketRows\<close> relates the batches of a bucket to the rows they hold, one each.\<close>

definition bucketRows :: "Schema \<Rightarrow> bytes list \<Rightarrow> gval list list \<Rightarrow> bool" where
  "bucketRows schema bs rows \<longleftrightarrow> list_all2 (batches.unit_of schema) bs (map (\<lambda>v. [v]) rows)"

lemma bucketRows_simps [simp]:
  "bucketRows schema [] []"
  "bucketRows schema bs rows \<Longrightarrow> batches.unit_of schema b [vals] \<Longrightarrow> bucketRows schema (bs @ [b]) (rows @ [vals])"
  by (simp_all add: bucketRows_def list_all2_appendI)

lemma bucketRows_decode:
  assumes "bucketRows schema bs rows"
  shows "DecodeIndexedLogBatchRows schema (concat (drop k bs)) = Ok (drop k rows)"
proof -
  have "list_all2 (batches.unit_of schema) (drop k bs) (map (\<lambda>v. [v]) (drop k rows))"
    using list_all2_dropI[OF assms[unfolded bucketRows_def], of k] by (simp add: drop_map)
  from batches.loop_concat[OF this] show ?thesis by (simp add: DecodeIndexedLogBatchRows_def)
qed

text \<open>A client that appends rows one after the other, each to a bucket of its choice.\<close>

fun appendEach :: "'w network \<Rightarrow> batch_order \<Rightarrow> rat_parser \<Rightarrow> TablePath \<Rightarrow> Schema \<Rightarrow> (int32 \<times> gval list) list \<Rightarrow>
    ('w, write_outcome list) act" where
  "appendEach rpc ord rp path schema [] = liftA (Ok [])"
| "appendEach rpc ord rp path schema ((b, vals) # writes) =
     bindA (AppendIndexedRow rpc ord rp path b \<lparr>RowSchema = schema, RowValues = vals\<rparr>) (\<lambda>out.
       bindA (appendEach rpc ord rp path schema writes) (\<lambda>outs. liftA (Ok (out # outs))))"

definition writtenTo :: "int32 \<Rightarrow> (int32 \<times> gval list) list \<Rightarrow> gval list list" where
  "writtenTo b writes = map snd (filter (\<lambda>x. fst x = b) writes)"

lemma writtenTo_simps [simp]:
  "writtenTo b [] = []"
  "writtenTo b ((c, vals) # writes) = (if c = b then [vals] else []) @ writtenTo b writes"
  by (simp_all add: writtenTo_def)

lemma append_rows:
  assumes "Table (cache w) path = Some info"
    and "\<forall>(b, vals) \<in> set writes. routeFor (cache w) (TableID info) None b = Ok (node b)
      \<and> conformsRow schema vals \<and> fitsBatch rp schema vals"
    and "\<And>gs. mset (ord gs) = mset gs" and "storesLog rpc (TableID info) logs"
    and "\<And>b. bucketRows schema (logs (net w) b) (old b)"
  shows "\<exists>outs n. appendEach rpc ord rp path schema writes w = (Ok outs, w\<lparr>net := n\<rparr>)
    \<and> list_all2 (\<lambda>(b, vals) (rs, err). err = None \<and> map ResBucketID rs = [b]) writes outs
    \<and> (\<forall>b. bucketRows schema (logs n b) (old b @ writtenTo b writes))"
  using assms(1,2,5)
proof (induction writes arbitrary: w old)
  case Nil
  then show ?case by (intro exI[of _ "[]"] exI[of _ "net w"]) simp
next
  case (Cons x writes)
  obtain b vals where x: "x = (b, vals)" by force
  with Cons.prems(2) have "routeFor (cache w) (TableID info) None b = Ok (node b)"
    "conformsRow schema vals" "fitsBatch rp schema vals" by auto
  from append_row[OF Cons.prems(1) this(1) assms(3,4) this(2,3)] obtain r n batch where
    out: "AppendIndexedRow rpc ord rp path b \<lparr>RowSchema = schema, RowValues = vals\<rparr> w = (Ok ([r], None), w\<lparr>net := n\<rparr>)"
    and r: "ResBucketID r = b" and u: "batches.unit_of schema batch [vals]"
    and l: "logs n = (logs (net w))(b := logs (net w) b @ [batch])" by blast
  let ?old = "old(b := old b @ [vals])"
  have "bucketRows schema (logs (net (w\<lparr>net := n\<rparr>)) c) (?old c)" for c
    using Cons.prems(3)[of c] u l by (cases "c = b") simp_all
  with Cons.IH[of "w\<lparr>net := n\<rparr>" ?old] Cons.prems(1,2) obtain outs n' where
    rest: "appendEach rpc ord rp path schema writes (w\<lparr>net := n\<rparr>) = (Ok outs, w\<lparr>net := n'\<rparr>)"
    and o: "list_all2 (\<lambda>(b, vals) (rs, err). err = None \<and> map ResBucketID rs = [b]) writes outs"
    and b: "\<forall>c. bucketRows schema (logs n' c) (?old c @ writtenTo c writes)" by auto
  have "bucketRows schema (logs n' c) (old c @ writtenTo c (x # writes))" for c
    using spec[OF b, of c] x by (cases "c = b") simp_all
  with out rest o r x show ?case by (intro exI[of _ "([r], None) # outs"] exI[of _ n']) simp
qed

end
