(* ===== verification/Kv_Table.thy ===== *)
theory Kv_Table
  imports Log_Table Codec_Limits Table_Format Read_Properties
begin

text \<open>
  Writing and looking up rows of a key-value table composed: \<open>UpsertRow\<close> and \<open>DeleteRow\<close>
  against \<open>LookupRows\<close>, with a server that keeps a map from keys to values per bucket. The
  abstract state of a bucket is a map from encoded keys to rows.
\<close>

subsection \<open>The server of a key-value table\<close>

text \<open>
  \<open>storesKv rpc t kv\<close>: whatever its state, a server takes the record of the batch of a put
  request apart, stores the row under the key behind the schema id of the batch (a record
  without a row deletes the key) and reports no error; it answers a lookup from its map.
\<close>

definition putRecord :: "16 word \<Rightarrow> bytes \<Rightarrow> bytes \<Rightarrow> (bytes \<rightharpoonup> bytes) \<Rightarrow> bytes \<rightharpoonup> bytes" where
  "putRecord sid key row m = m(key := if row = [] then None else Some (putU16 sid @ row))"

definition storesKv :: "'w network \<Rightarrow> int64 \<Rightarrow> ('w \<Rightarrow> int32 \<Rightarrow> bytes \<rightharpoonup> bytes) \<Rightarrow> bool" where
  "storesKv rpc t kv \<longleftrightarrow>
     (\<forall>n addr acks ms b batch sid body size1 key row.
        decodeKvBatch batch = Ok (sid, body) \<longrightarrow> readKvRecord body = Some (size1, key, row) \<longrightarrow> (\<exists>resp n' r.
        rpc n addr (PutKvRequest acks t ms [] None [buildPutBucketRecord None b batch]) = (Ok resp, n')
        \<and> parsePutResults resp = ([r], None) \<and> ResBucketID r = b
        \<and> kv n' = (kv n)(b := putRecord (ucast sid) key row (kv n b))))
     \<and> (\<forall>n addr b keys. \<exists>resp n'.
        rpc n addr (lookupRequest t None None None [\<lparr>ReqPartitionID = None, ReqBucketID = b, ReqKeys = keys\<rparr>]) = (Ok resp, n')
        \<and> parseLookupResults resp = Ok [\<lparr>ValPartitionID = None, ValBucketID = b, Values = map (kv n b) keys\<rparr>]
        \<and> kv n' = kv n)"

lemma storesKv_put:
  assumes "storesKv rpc t kv" and "decodeKvBatch batch = Ok (sid, body)" and "readKvRecord body = Some (size1, key, row)"
  shows "\<exists>resp n' r. rpc n addr (PutKvRequest acks t ms [] None [buildPutBucketRecord None b batch]) = (Ok resp, n')
    \<and> parsePutResults resp = ([r], None) \<and> ResBucketID r = b
    \<and> kv n' = (kv n)(b := putRecord (ucast sid) key row (kv n b))"
  using assms unfolding storesKv_def by blast

lemma storesKv_lookup:
  assumes "storesKv rpc t kv"
  shows "\<exists>resp n'. rpc n addr (lookupRequest t None None None [\<lparr>ReqPartitionID = None, ReqBucketID = b, ReqKeys = keys\<rparr>]) = (Ok resp, n')
    \<and> parseLookupResults resp = Ok [\<lparr>ValPartitionID = None, ValBucketID = b, Values = map (kv n b) keys\<rparr>]
    \<and> kv n' = kv n"
  using assms unfolding storesKv_def by blast

subsection \<open>Sending one batch\<close>

lemma UpsertKV_single:
  assumes "Table (cache w) path = Some info" and "routeFor (cache w) (TableID info) p b = Ok node"
    and "\<And>gs. mset (ord gs) = mset gs"
    and "rpc (net w) (Address node) (PutKvRequest acks (TableID info) ms cols agg [buildPutBucketRecord p b payload]) = (Ok resp, n')"
    and "parsePutResults resp = ([r], None)"
  shows "UpsertKV rpc ord path acks ms cols agg [\<lparr>BatchPartitionID = p, BatchBucketID = b, BatchRecords = payload\<rparr>] w
    = (Ok ([r], None), w\<lparr>net := n'\<rparr>)"
proof -
  let ?batch = "\<lparr>BatchPartitionID = p, BatchBucketID = b, BatchRecords = payload\<rparr>"
  have "groupBatchesByLeader rpc path (TableID info) [?batch] w = (Ok [(Address node, [?batch])], w)"
    using assms(2) by (simp add: groupBatchesByLeader_def tableRouteFor_def)
  then have "upsertKVOnce rpc ord path acks ms cols agg [?batch] w = (Ok ([r], None), w\<lparr>net := n'\<rparr>)"
    using assms(1,4,5) by (simp add: upsertKVOnce_def orReturn_def ensureTableInfo_def invokeA_def
        single_group[OF assms(3)])
  then show ?thesis
    by (simp add: UpsertKV_def numeral_2_eq_2 mergePutResults_def resultIndex_def sortByBucket_def)
qed

lemma readKvRecord_delete:
  assumes "encodeKvDeleteRecord rp schema vals opts = Ok p" and "length p < 2 ^ 32"
    and "EncodeLookupKey rp \<lparr>RowSchema = schema, RowValues = vals\<rparr> (keyColumnsOf opts) = Ok key"
  shows "\<exists>size1. readKvRecord p = Some (size1, key, [])"
proof -
  from assms(1,3) have p: "p = putU32 (word_of_nat (length (putUvarint (word_of_nat (length key))) + length key))
       @ putUvarint (word_of_nat (length key)) @ key"
    by (auto simp: encodeKvDeleteRecord_def NewRow_def Let_def res_elims split: if_splits)
  moreover from this assms(2) have "unat (word_of_nat (length key) :: 64 word) = length key"
    by (simp add: unat_of_nat del: of_nat_add)
  ultimately show ?thesis by (simp add: readKvRecord_def Let_def)
qed

subsection \<open>A row and its key\<close>

text \<open>
  \<open>keyedRow\<close>: a conforming row whose key columns encode to \<open>key\<close> and whose batch fits the
  32-bit size field: 28 bytes of header, 4 of the record size, at most 10 of the key size.
\<close>

definition kvOptions :: "int32 \<Rightarrow> int list \<Rightarrow> bool \<Rightarrow> KvBatchOptions" where
  "kvOptions sid ks indexed = \<lparr>KvSchemaID = sid, KvIndexed = indexed, KeyColumns = ks, KvWriterState = None\<rparr>"

definition keyedRow :: "rat_parser \<Rightarrow> Schema \<Rightarrow> int list \<Rightarrow> bool \<Rightarrow> gval list \<Rightarrow> bytes \<Rightarrow> bool" where
  "keyedRow rp schema ks indexed vals key \<longleftrightarrow> conformsRow schema vals
     \<and> EncodeLookupKey rp \<lparr>RowSchema = schema, RowValues = vals\<rparr> (keyColumnsOf (kvOptions 0 ks True)) = Ok key
     \<and> (\<exists>enc. encodeRow rp schema vals indexed = Ok enc \<and> 42 + length key + length enc < 2 ^ 32)"

lemma keyColumnsOf_options [simp]: "keyColumnsOf (kvOptions sid ks indexed) = (if ks = [] then [0] else ks)"
  by (simp add: keyColumnsOf_def kvOptions_def)

lemma keyedRow_schema: "keyedRow rp schema ks indexed vals key \<Longrightarrow> schema \<noteq> []"
  by (auto simp: keyedRow_def EncodeLookupKey_def split: if_splits)
    (cases ks; auto split: if_splits)

lemma encodeRow_nonempty:
  assumes "encodeRow rp schema vals ix = Ok enc" and "schema \<noteq> []"
  shows "enc \<noteq> []"
proof -
  from encodeRow_parts[OF assms(1)] obtain nb rest where "enc = nb @ rest" "length nb = nullBitsSize (length schema)"
    by blast
  with assms(2) show ?thesis by (cases schema) (auto simp: nullBitsSize_def)
qed

lemma batch_of_keyed_row:
  assumes "keyedRow rp schema ks indexed vals key"
  obtains batch p enc size1 where "EncodeKvRecordBatch rp schema vals (kvOptions sid ks indexed) = Ok batch"
    "decodeKvBatch batch = Ok (ucast (ucast sid :: 16 word), p)" "readKvRecord p = Some (size1, key, enc)"
    "encodeRow rp schema vals indexed = Ok enc" "enc \<noteq> []"
proof -
  from assms obtain enc where enc: "encodeRow rp schema vals indexed = Ok enc"
    and len: "42 + length key + length enc < 2 ^ 32"
    and key: "EncodeLookupKey rp \<lparr>RowSchema = schema, RowValues = vals\<rparr> (keyColumnsOf (kvOptions sid ks indexed)) = Ok key"
    by (auto simp: keyedRow_def simp del: encodeRow.simps)
  let ?n = "putUvarint (word_of_nat (length key))"
  let ?p = "putU32 (word_of_nat (length ?n + length key + length enc)) @ ?n @ key @ enc"
  have ix: "KvIndexed (kvOptions sid ks indexed) = indexed" "KvSchemaID (kvOptions sid ks indexed) = sid" "KvWriterState (kvOptions sid ks indexed) = None"
    by (simp_all add: kvOptions_def)
  have rec: "encodeKvRecord rp schema vals (kvOptions sid ks indexed) = Ok ?p"
    using keyedRow_schema[OF assms] key enc encodeRow_parts[OF enc]
    unfolding encodeKvRecord_def ix NewRow_def by (simp add: Let_def del: encodeRow.simps)
  have "length ?p < 2 ^ 32" using len length_putUvarint[of "word_of_nat (length key)"] by simp
  from readKvRecord_encode[OF rec this] key enc
  have r: "readKvRecord ?p = Some (length ?p - 4, key, enc)" by (simp add: ix del: encodeRow.simps)
  show thesis
    by (rule that[OF _ decodeKvBatch_encode r enc encodeRow_nonempty[OF enc keyedRow_schema[OF assms]]])
      (simp add: EncodeKvRecordBatch_def rec ix)
qed

lemma batch_of_deleted_row:
  assumes "keyedRow rp schema ks indexed vals key"
  obtains batch p size1 where "EncodeKvDeleteRecordBatch rp schema vals (kvOptions sid ks indexed) = Ok batch"
    "decodeKvBatch batch = Ok (ucast (ucast sid :: 16 word), p)" "readKvRecord p = Some (size1, key, [])"
proof -
  from assms have len: "14 + length key < 2 ^ 32" and conf: "conformsRow schema vals"
    and key: "EncodeLookupKey rp \<lparr>RowSchema = schema, RowValues = vals\<rparr> (keyColumnsOf (kvOptions sid ks indexed)) = Ok key"
    and valid: "SchemaValidate schema = Ok ()"
    using encodeRow_parts by (auto simp: keyedRow_def simp del: encodeRow.simps)
  let ?n = "putUvarint (word_of_nat (length key))"
  let ?p = "putU32 (word_of_nat (length ?n + length key)) @ ?n @ key"
  have ix: "KvSchemaID (kvOptions sid ks indexed) = sid" "KvWriterState (kvOptions sid ks indexed) = None"
    by (simp_all add: kvOptions_def)
  have rec: "encodeKvDeleteRecord rp schema vals (kvOptions sid ks indexed) = Ok ?p"
    using keyedRow_schema[OF assms] key valid list_all2_lengthD[OF conf]
    by (simp add: encodeKvDeleteRecord_def NewRow_def Let_def)
  have "length ?p < 2 ^ 32" using len length_putUvarint[of "word_of_nat (length key)"] by simp
  from readKvRecord_delete[OF rec this key] obtain size1 where r: "readKvRecord ?p = Some (size1, key, [])" by blast
  show thesis
    by (rule that[OF _ decodeKvBatch_encode[where ws = None] r])
      (simp add: EncodeKvDeleteRecordBatch_def rec ix del: of_nat_add)
qed

subsection \<open>The table as an abstract map per bucket\<close>

text \<open>\<open>kvRows\<close> relates the values of a bucket to the rows of a map from keys to rows.\<close>

definition kvRows :: "rat_parser \<Rightarrow> Schema \<Rightarrow> bool \<Rightarrow> 16 word \<Rightarrow> (bytes \<rightharpoonup> bytes) \<Rightarrow> (bytes \<rightharpoonup> gval list) \<Rightarrow> bool" where
  "kvRows rp schema indexed sid values content \<longleftrightarrow> values = storedRow rp schema sid indexed content \<and> contentFits rp schema indexed content"

lemma kvRows_put:
  assumes "kvRows rp schema indexed sid values content" and "keyedRow rp schema ks indexed vals key"
    and "encodeRow rp schema vals indexed = Ok enc" and "enc \<noteq> []"
  shows "kvRows rp schema indexed sid (putRecord sid key enc values) (content(key \<mapsto> vals))"
  using assms
  by (auto simp: kvRows_def putRecord_def storedRow_def contentFits_def keyedRow_def fun_eq_iff
      simp del: encodeRow.simps split: option.splits)

lemma kvRows_delete:
  assumes "kvRows rp schema indexed sid values content"
  shows "kvRows rp schema indexed sid (putRecord sid' key [] values) (content(key := None))"
  using assms by (auto simp: kvRows_def putRecord_def storedRow_def contentFits_def fun_eq_iff simp del: encodeRow.simps)

text \<open>A client that writes or deletes one row after the other; \<open>applyOps\<close> is what this means.\<close>

datatype kvOp = Upsert "gval list" | Delete "gval list"

fun rowOf :: "kvOp \<Rightarrow> gval list" where
  "rowOf (Upsert vals) = vals"
| "rowOf (Delete vals) = vals"

fun runOp where
  "runOp rpc ord unmarshal rp path b schema (Upsert vals) =
     UpsertRow rpc ord unmarshal rp path b \<lparr>RowSchema = schema, RowValues = vals\<rparr> []"
| "runOp rpc ord unmarshal rp path b schema (Delete vals) =
     DeleteRow rpc ord unmarshal rp path b \<lparr>RowSchema = schema, RowValues = vals\<rparr> []"

fun runOps where
  "runOps rpc ord unmarshal rp path b schema [] = liftA (Ok [])"
| "runOps rpc ord unmarshal rp path b schema (x # ops) =
     bindA (runOp rpc ord unmarshal rp path b schema x) (\<lambda>out.
       bindA (runOps rpc ord unmarshal rp path b schema ops) (\<lambda>outs. liftA (Ok (out # outs))))"

fun applyOp :: "bytes \<Rightarrow> kvOp \<Rightarrow> (bytes \<rightharpoonup> gval list) \<Rightarrow> bytes \<rightharpoonup> gval list" where
  "applyOp key (Upsert vals) content = content(key \<mapsto> vals)"
| "applyOp key (Delete vals) content = content(key := None)"

fun applyOps :: "bytes list \<Rightarrow> kvOp list \<Rightarrow> (bytes \<rightharpoonup> gval list) \<Rightarrow> bytes \<rightharpoonup> gval list" where
  "applyOps (key # keys) (x # ops) content = applyOps keys ops (applyOp key x content)"
| "applyOps _ _ content = content"

lemma ucast_sid: "ucast (ucast (ucast (sid :: int32) :: 16 word) :: int32) = (ucast sid :: 16 word)"
  by (rule bit_word_eqI) (simp add: bit_simps)

lemma run_op:
  assumes "Table (cache w) path = Some info" and "kvTable unmarshal info ks indexed"
    and "routeFor (cache w) (TableID info) None b = Ok node"
    and "\<And>gs. mset (ord gs) = mset gs" and "storesKv rpc (TableID info) kv"
    and "keyedRow rp schema ks indexed (rowOf x) key"
    and "kvRows rp schema indexed (ucast (SchemaID info)) (kv (net w) b) content"
  shows "\<exists>r n'. runOp rpc ord unmarshal rp path b schema x w = (Ok ([r], None), w\<lparr>net := n'\<rparr>) \<and> ResBucketID r = b
    \<and> kvRows rp schema indexed (ucast (SchemaID info)) (kv n' b) (applyOp key x content)"
proof -
  let ?sid = "ucast (SchemaID info) :: 16 word"
  have send: "\<exists>r n'. UpsertKV rpc ord path (- 1) 15000 [] None
        [\<lparr>BatchPartitionID = None, BatchBucketID = b, BatchRecords = batch\<rparr>] w = (Ok ([r], None), w\<lparr>net := n'\<rparr>)
      \<and> ResBucketID r = b \<and> kv n' b = putRecord ?sid key row (kv (net w) b)"
    if "decodeKvBatch batch = Ok (ucast ?sid, p)" "readKvRecord p = Some (size1, key, row)" for batch p size1 row
  proof -
    from storesKv_put[OF assms(5) that] obtain resp n' r where
      "rpc (net w) (Address node) (PutKvRequest (- 1) (TableID info) 15000 [] None [buildPutBucketRecord None b batch]) = (Ok resp, n')"
      "parsePutResults resp = ([r], None)" "ResBucketID r = b"
      "kv n' = (kv (net w))(b := putRecord (ucast (ucast ?sid :: int32)) key row (kv (net w) b))" by blast
    moreover from this have "UpsertKV rpc ord path (- 1) 15000 [] None
        [\<lparr>BatchPartitionID = None, BatchBucketID = b, BatchRecords = batch\<rparr>] w = (Ok ([r], None), w\<lparr>net := n'\<rparr>)"
      by (intro UpsertKV_single[OF assms(1,3,4)])
    ultimately show ?thesis by (intro exI[of _ r] exI[of _ n']) (simp add: ucast_sid)
  qed
  note enc = kvEncoding_table[OF assms(1,2)]
  show ?thesis
  proof (cases x)
    case (Upsert vals)
    with assms(6) have row: "keyedRow rp schema ks indexed vals key" by simp
    obtain batch p e size1 where
      b: "EncodeKvRecordBatch rp schema vals (kvOptions (SchemaID info) ks indexed) = Ok batch"
      and d: "decodeKvBatch batch = Ok (ucast ?sid, p)" "readKvRecord p = Some (size1, key, e)"
      and e: "encodeRow rp schema vals indexed = Ok e" "e \<noteq> []"
      by (rule batch_of_keyed_row[OF row, of "SchemaID info"])
    from send[OF d] obtain r n' where "UpsertKV rpc ord path (- 1) 15000 [] None
        [\<lparr>BatchPartitionID = None, BatchBucketID = b, BatchRecords = batch\<rparr>] w = (Ok ([r], None), w\<lparr>net := n'\<rparr>)"
      "ResBucketID r = b" "kv n' b = putRecord ?sid key e (kv (net w) b)" by blast
    with b enc kvRows_put[OF assms(7) row e] Upsert show ?thesis
      by (intro exI[of _ r] exI[of _ n']) (simp add: UpsertRow_def encodeKVRow_def orReturn_def normalizeTargetColumns_def kvOptions_def)
  next
    case (Delete vals)
    with assms(6) have row: "keyedRow rp schema ks indexed vals key" by simp
    obtain batch p size1 where
      b: "EncodeKvDeleteRecordBatch rp schema vals (kvOptions (SchemaID info) ks indexed) = Ok batch"
      and d: "decodeKvBatch batch = Ok (ucast ?sid, p)" "readKvRecord p = Some (size1, key, [])"
      by (rule batch_of_deleted_row[OF row, of "SchemaID info"])
    from send[OF d] obtain r n' where "UpsertKV rpc ord path (- 1) 15000 [] None
        [\<lparr>BatchPartitionID = None, BatchBucketID = b, BatchRecords = batch\<rparr>] w = (Ok ([r], None), w\<lparr>net := n'\<rparr>)"
      "ResBucketID r = b" "kv n' b = putRecord ?sid key [] (kv (net w) b)" by blast
    with b enc kvRows_delete[OF assms(7)] Delete show ?thesis
      by (intro exI[of _ r] exI[of _ n']) (simp add: DeleteRow_def encodeKVDeleteRow_def orReturn_def normalizeTargetColumns_def kvOptions_def)
  qed
qed

lemma run_ops:
  assumes "Table (cache w) path = Some info" and "kvTable unmarshal info ks indexed"
    and "routeFor (cache w) (TableID info) None b = Ok node"
    and "\<And>gs. mset (ord gs) = mset gs" and "storesKv rpc (TableID info) kv"
    and "list_all2 (\<lambda>x key. keyedRow rp schema ks indexed (rowOf x) key) ops opKeys"
    and "kvRows rp schema indexed (ucast (SchemaID info)) (kv (net w) b) content"
  shows "\<exists>outs n'. runOps rpc ord unmarshal rp path b schema ops w = (Ok outs, w\<lparr>net := n'\<rparr>)
    \<and> length outs = length ops \<and> list_all (\<lambda>(rs, err). err = None \<and> map ResBucketID rs = [b]) outs
    \<and> kvRows rp schema indexed (ucast (SchemaID info)) (kv n' b) (applyOps opKeys ops content)"
  using assms(1,3,6,7)
proof (induction ops arbitrary: w opKeys content)
  case Nil
  then show ?case by (intro exI[of _ "[]"] exI[of _ "net w"]) simp
next
  case (Cons x ops)
  from Cons.prems(3) obtain key keys where k: "opKeys = key # keys" "keyedRow rp schema ks indexed (rowOf x) key"
    and rest: "list_all2 (\<lambda>x key. keyedRow rp schema ks indexed (rowOf x) key) ops keys"
    by (auto simp: list_all2_Cons1)
  from run_op[OF Cons.prems(1) assms(2) Cons.prems(2) assms(4,5) k(2) Cons.prems(4)] obtain r n where
    one: "runOp rpc ord unmarshal rp path b schema x w = (Ok ([r], None), w\<lparr>net := n\<rparr>)" "ResBucketID r = b"
    and c: "kvRows rp schema indexed (ucast (SchemaID info)) (kv n b) (applyOp key x content)" by blast
  from Cons.IH[of "w\<lparr>net := n\<rparr>" keys "applyOp key x content"] Cons.prems(1,2) rest c obtain outs n' where
    "runOps rpc ord unmarshal rp path b schema ops (w\<lparr>net := n\<rparr>) = (Ok outs, w\<lparr>net := n'\<rparr>)"
    "length outs = length ops" "list_all (\<lambda>(rs, err). err = None \<and> map ResBucketID rs = [b]) outs"
    "kvRows rp schema indexed (ucast (SchemaID info)) (kv n' b) (applyOps keys ops (applyOp key x content))" by auto
  with one k(1) show ?case by (intro exI[of _ "([r], None) # outs"] exI[of _ n']) simp
qed

subsection \<open>Looking rows up\<close>

lemma lookup_keys:
  assumes "Table (cache w) path = Some info" and "routeFor (cache w) (TableID info) None b = Ok node"
    and "\<And>gs. mset (ord gs) = mset gs" and "storesKv rpc (TableID info) kv"
  shows "\<exists>n'. Lookup rpc ord path [\<lparr>ReqPartitionID = None, ReqBucketID = b, ReqKeys = keys\<rparr>] None None None w
    = (Ok [\<lparr>ValPartitionID = None, ValBucketID = b, Values = map (kv (net w) b) keys\<rparr>], w\<lparr>net := n'\<rparr>) \<and> kv n' = kv (net w)"
proof -
  let ?req = "\<lparr>ReqPartitionID = None, ReqBucketID = b, ReqKeys = keys\<rparr>"
  from storesKv_lookup[OF assms(4)] obtain resp n' where
    "rpc (net w) (Address node) (lookupRequest (TableID info) None None None [?req]) = (Ok resp, n')"
    "parseLookupResults resp = Ok [\<lparr>ValPartitionID = None, ValBucketID = b, Values = map (kv (net w) b) keys\<rparr>]"
    "kv n' = kv (net w)" by blast
  moreover have "groupLookupsByLeader rpc path (TableID info) [?req] w = (Ok [(Address node, [?req])], w)"
    using assms(2) by (simp add: groupLookupsByLeader_def tableRouteFor_def)
  ultimately show ?thesis
    using assms(1) by (intro exI[of _ n']) (simp add: Lookup_def lookupCommon_def ensureTableInfo_def
        single_group[OF assms(3)] invokeA_def lookupRequest_def)
qed

lemma lookup_rows:
  assumes "Table (cache w) path = Some info" and "kvTable unmarshal info ks indexed"
    and "routeFor (cache w) (TableID info) None b = Ok node"
    and "\<And>gs. mset (ord gs) = mset gs" and "storesKv rpc (TableID info) kv"
    and "rowFormat indexed schema" and "kvRows rp schema indexed sid (kv (net w) b) content"
    and "encodeKeys rp cols rows = Ok keys"
  shows "\<exists>n'. LookupRows rpc ord unmarshal rp path b schema rows cols w = (Ok (map content keys), w\<lparr>net := n'\<rparr>)
    \<and> kv n' = kv (net w)"
proof -
  from lookup_keys[where ord = ord and keys = keys, OF assms(1,3,4,5)] obtain n' where
    "Lookup rpc ord path [\<lparr>ReqPartitionID = None, ReqBucketID = b, ReqKeys = keys\<rparr>] None None None w
    = (Ok [\<lparr>ValPartitionID = None, ValBucketID = b, Values = map (kv (net w) b) keys\<rparr>], w\<lparr>net := n'\<rparr>)" and "kv n' = kv (net w)" by blast
  moreover have "lookupDecode schema indexed (map (kv (net w) b) keys) = Ok (map content keys)"
    using assms(7) lookupDecode_stored[OF assms(6)] by (simp add: kvRows_def)
  moreover have "length keys = length rows"
    using assms(8) by (induction rows arbitrary: keys) (auto simp: res_elims)
  ultimately show ?thesis
    by (intro exI[of _ n']) (simp add: LookupRows_def kvEncoding_table[OF assms(1,2)] assms(8))
qed

end
