(* ===== verification/Table_Properties.thy ===== *)
theory Table_Properties
  imports Log_Table Kv_Table
begin

text \<open>
  Properties of whole paths through the client: what is written to a table is what is read
  from it.
\<close>

subsection \<open>Log tables\<close>

text \<open>
  C1. A log table is the list of rows appended to each of its buckets. A client that appends
  conforming rows one after the other, each to a bucket of its choice, gets a success for the
  bucket from every call; a fetch of any bucket from any offset then returns records that
  decode to the rows of the bucket from that offset on: those that were there before, then
  the ones just appended, in their order, and nothing of other buckets. This composes the row and
  batch encoders, routing, the requests, the parsers and the decoders, with servers that
  stamp and store the batches they get.
\<close>

theorem appended_rows_fetched:
  assumes "Table (cache w) path = Some info"
    and "\<forall>(b, vals) \<in> set writes. routeFor (cache w) (TableID info) None b = Ok (node b)
      \<and> conformsRow schema vals \<and> fitsBatch rp schema vals"
    and "routeFor (cache w) (TableID info) None bucket = Ok (node bucket)"
    and "\<And>gs. mset (ord gs) = mset gs" and "\<And>gs. mset (ord' gs) = mset gs"
    and "storesLog rpc (TableID info) logs"
    and "\<And>b. bucketRows schema (logs (net w) b) (old b)"
  shows "\<exists>outs w1 fetched w2. appendEach rpc ord rp path schema writes w = (Ok outs, w1)
    \<and> list_all2 (\<lambda>(b, vals) (rs, err). err = None \<and> map ResBucketID rs = [b]) writes outs
    \<and> FetchLog rpc ord' path follower maxBytes maxWait minBytes
        [\<lparr>FetchPartitionID = None, FetchBucketID = bucket, FetchOffset = off, MaxFetchBytes = mb\<rparr>] w1 = (Ok [fetched], w2)
    \<and> DecodeIndexedLogBatchRows schema (FetchedRecords fetched) = Ok (drop (unat off) (old bucket @ writtenTo bucket writes))"
proof -
  let ?req = "\<lparr>FetchPartitionID = None, FetchBucketID = bucket, FetchOffset = off, MaxFetchBytes = mb\<rparr>"
  from append_rows[where ord = ord, OF assms(1,2,4,6,7)] obtain outs n where
    a: "appendEach rpc ord rp path schema writes w = (Ok outs, w\<lparr>net := n\<rparr>)"
    and o: "list_all2 (\<lambda>(b, vals) (rs, err). err = None \<and> map ResBucketID rs = [b]) writes outs"
    and rows: "\<forall>b. bucketRows schema (logs n b) (old b @ writtenTo b writes)" by blast
  have "Table (cache (w\<lparr>net := n\<rparr>)) path = Some info"
    "routeFor (cache (w\<lparr>net := n\<rparr>)) (TableID info) None (FetchBucketID ?req) = Ok (node bucket)"
    using assms(1,3) by simp_all
  from fetch_log[where ord = ord' and follower = follower and maxBytes = maxBytes and maxWait = maxWait
      and minBytes = minBytes, OF this assms(5,6)] obtain fetched n' where
    "FetchLog rpc ord' path follower maxBytes maxWait minBytes [?req] (w\<lparr>net := n\<rparr>) = (Ok [fetched], w\<lparr>net := n\<rparr>\<lparr>net := n'\<rparr>)"
    "FetchedRecords fetched = concat (drop (unat off) (logs n bucket))" by auto
  with a o bucketRows_decode[of schema "logs n bucket" _ "unat off"] rows show ?thesis by fastforce
qed

text \<open>A server that keeps its logs in a map from buckets to batches, and a world with it.\<close>

definition logNet :: "(int32 \<Rightarrow> bytes list) network" where
  "logNet n addr req = (case req of
      ProduceLogRequest acks t ms [i] \<Rightarrow>
        (Ok (ProduceLogResponse [PbWriteResp (reqPartition i) (reqBucket i) None None
           (Some (word_of_nat (length (n (reqBucket i)))))]),
         n(reqBucket i := n (reqBucket i) @ [stamped (word_of_nat (length (n (reqBucket i)))) 7 (reqRecords i)]))
    | FetchLogRequest f mb mw mi [PbFetchTableReq t proj cols [i]] \<Rightarrow>
        (Ok (FetchLogResponse [[PbFetchResp None (fetchBucket i) None None None None
           (Some (concat (drop (unat (fetchOffset i)) (n (fetchBucket i))))) None]]), n)
    | _ \<Rightarrow> (Fail ErrEOF, n))"

lemma logNet_stores: "storesLog logNet t (\<lambda>n. n)"
  unfolding storesLog_def
proof (intro conjI allI impI)
  fix n addr acks ms b payload
  show "\<exists>resp n' r off ts. logNet n addr (ProduceLogRequest acks t ms [buildProduceBucketRecord None b payload]) = (Ok resp, n')
      \<and> parseProduceResults resp = ([r], None) \<and> ResBucketID r = b
      \<and> n' = n(b := n b @ [stamped off ts payload])"
    by (auto simp: logNet_def buildProduceBucketRecord_def parseProduceResults_def parseWriteItem_def
        writeFailure_def bucketAPIError_def List.map_filter_simps)
next
  fix n addr follower maxBytes maxWait minBytes and req :: FetchBucketRequest
  show "\<exists>resp n' r. logNet n addr (fetchRequest t follower maxBytes maxWait minBytes \<lparr>ProjectedFields = []\<rparr> [req]) = (Ok resp, n')
      \<and> parseFetchResults resp = Ok [r] \<and> FetchedBucketID r = FetchBucketID req
      \<and> FetchedRecords r = concat (drop (unat (FetchOffset req)) (n (FetchBucketID req))) \<and> n' = n"
    by (simp add: logNet_def fetchRequest_def Let_def buildFetchLogBucket_def parseFetchResults_def bucketAPIError_def)
qed

definition logWorld :: "(int32 \<Rightarrow> bytes list) world" where
  "logWorld = \<lparr>cache = twoCache, endpoints = [''e''], net = (\<lambda>_. [])\<rparr>"

lemma logWorld_cached:
  "Table (cache logWorld) readPath = Some \<lparr>Path = readPath, TableID = 5, SchemaID = 1, TableJSON = [1],
     CreatedTime = 0, ModifiedTime = 0\<rparr>"
  "routeFor (cache logWorld) 5 None 0 = Ok (readNode 0)" "routeFor (cache logWorld) 5 None 1 = Ok (readNode 1)"
  using readWorld_cached by (simp_all add: logWorld_def readWorld_def)

lemma appended_rows_fetched_witness:
  "\<exists>outs w1 fetched w2. appendEach logNet (\<lambda>gs. gs) (\<lambda>_. None) readPath [BoolType]
        [(0, [VBool True]), (1, [VBool True]), (0, [VBool False]), (0, [VNil])] logWorld = (Ok outs, w1)
    \<and> FetchLog logNet (\<lambda>gs. gs) readPath (- 1) 100 None None
        [\<lparr>FetchPartitionID = None, FetchBucketID = 0, FetchOffset = 1, MaxFetchBytes = 100\<rparr>] w1 = (Ok [fetched], w2)
    \<and> DecodeIndexedLogBatchRows [BoolType] (FetchedRecords fetched) = Ok [[VBool False], [VNil]]"
proof -
  let ?writes = "[(0, [VBool True]), (1, [VBool True]), (0, [VBool False]), (0, [VNil])]"
  have "\<forall>(b, vals) \<in> set ?writes. routeFor (cache logWorld) (TableID \<lparr>Path = readPath, TableID = 5, SchemaID = 1,
        TableJSON = [1], CreatedTime = 0, ModifiedTime = 0\<rparr>) None b = Ok (readNode b)
      \<and> conformsRow [BoolType] vals \<and> fitsBatch (\<lambda>_. None) [BoolType] vals"
    by (simp add: logWorld_cached type_constructors fitsBatch_def SchemaValidate_def coerce_simps nullBitsSize_def
        IsFixed_def)
  from appended_rows_fetched[where ord = "\<lambda>gs. gs" and ord' = "\<lambda>gs. gs" and bucket = 0 and off = 1 and mb = 100
      and follower = "- 1" and maxBytes = 100 and maxWait = None and minBytes = None and old = "\<lambda>_. []",
      OF logWorld_cached(1) this _ refl refl logNet_stores] logWorld_cached(2)
  show ?thesis by (fastforce simp: logWorld_def)
qed

subsection \<open>Key-value tables\<close>

text \<open>
  C2. A key-value table is a map from encoded keys to rows, per bucket. A client that upserts
  and deletes rows one after the other gets a success from every call, and \<open>LookupRows\<close> then
  returns, for every row of a query, what the sequence of operations left under its key: the
  values of the last upsert, nil after a delete, or what was there before, in the indexed
  format of rows and, on the kinds it carries, the compacted one. This composes the
  key and row encoders, the batches, routing, requests, parsers and the row decoder, with
  servers that take the batches apart and store the rows.
\<close>

theorem written_rows_looked_up:
  assumes "Table (cache w) path = Some info" and "kvTable unmarshal info ks indexed"
    and "routeFor (cache w) (TableID info) None b = Ok node"
    and "\<And>gs. mset (ord gs) = mset gs" and "\<And>gs. mset (ord' gs) = mset gs"
    and "storesKv rpc (TableID info) kv" and "rowFormat indexed schema"
    and "list_all2 (\<lambda>x key. keyedRow rp schema ks indexed (rowOf x) key) ops opKeys"
    and "kvRows rp schema indexed (ucast (SchemaID info)) (kv (net w) b) content"
    and "encodeKeys rp cols rows = Ok keys"
  shows "\<exists>outs w1 w2. runOps rpc ord unmarshal rp path b schema ops w = (Ok outs, w1)
    \<and> length outs = length ops \<and> list_all (\<lambda>(rs, err). err = None \<and> map ResBucketID rs = [b]) outs
    \<and> LookupRows rpc ord' unmarshal rp path b schema rows cols w1 = (Ok (map (applyOps opKeys ops content) keys), w2)"
proof -
  from run_ops[where ord = ord, OF assms(1,2,3,4,6,8,9)] obtain outs n where
    a: "runOps rpc ord unmarshal rp path b schema ops w = (Ok outs, w\<lparr>net := n\<rparr>)"
      "length outs = length ops" "list_all (\<lambda>(rs, err). err = None \<and> map ResBucketID rs = [b]) outs"
    and c: "kvRows rp schema indexed (ucast (SchemaID info)) (kv n b) (applyOps opKeys ops content)" by blast
  have "\<exists>n'. LookupRows rpc ord' unmarshal rp path b schema rows cols (w\<lparr>net := n\<rparr>)
      = (Ok (map (applyOps opKeys ops content) keys), w\<lparr>net := n\<rparr>\<lparr>net := n'\<rparr>)"
    using lookup_rows[where ord = ord' and w = "w\<lparr>net := n\<rparr>", OF _ assms(2) _ assms(5,6,7) _ assms(10)] assms(1,3) c by fastforce
  with a show ?thesis by blast
qed

text \<open>A server that keeps its values in a map from buckets to maps, and a world with it.\<close>

definition kvNet :: "(int32 \<Rightarrow> bytes \<rightharpoonup> bytes) network" where
  "kvNet n addr req = (case req of
      PutKvRequest acks t ms cols agg [i] \<Rightarrow>
        (case decodeKvBatch (reqRecords i) of
           Ok (sid, body) \<Rightarrow> (case readKvRecord body of
               Some (size1, key, row) \<Rightarrow>
                 (Ok (PutKvResponse [PbWriteResp (reqPartition i) (reqBucket i) None None None]),
                  n(reqBucket i := putRecord (ucast sid) key row (n (reqBucket i))))
             | None \<Rightarrow> (Fail ErrEOF, n))
         | _ \<Rightarrow> (Fail ErrEOF, n))
    | LookupRequest t ins acks tmo [i] \<Rightarrow>
        (Ok (LookupResponse [PbLookupResp (lookupPartition i) (lookupBucket i) None None
           (map (n (lookupBucket i)) (lookupKeys i))]), n)
    | _ \<Rightarrow> (Fail ErrEOF, n))"

lemma kvNet_stores: "storesKv kvNet t (\<lambda>n. n)"
  unfolding storesKv_def
proof (intro conjI allI impI)
  fix n addr acks ms b batch size1 key row and sid :: int32 and body
  assume "decodeKvBatch batch = Ok (sid, body)" "readKvRecord body = Some (size1, key, row)"
  then show "\<exists>resp n' r. kvNet n addr (PutKvRequest acks t ms [] None [buildPutBucketRecord None b batch]) = (Ok resp, n')
      \<and> parsePutResults resp = ([r], None) \<and> ResBucketID r = b
      \<and> n' = n(b := putRecord (ucast sid) key row (n b))"
    by (simp add: kvNet_def buildPutBucketRecord_def parsePutResults_def parseWriteItem_def
        writeFailure_def bucketAPIError_def List.map_filter_simps)
next
  fix n addr b keys
  show "\<exists>resp n'. kvNet n addr (lookupRequest t None None None [\<lparr>ReqPartitionID = None, ReqBucketID = b, ReqKeys = keys\<rparr>]) = (Ok resp, n')
      \<and> parseLookupResults resp = Ok [\<lparr>ValPartitionID = None, ValBucketID = b, Values = map (n b) keys\<rparr>] \<and> n' = n"
    by (simp add: kvNet_def lookupRequest_def buildLookupBucket_def parseLookupResults_def bucketAPIError_def)
qed

definition kvWorld :: "(int32 \<Rightarrow> bytes \<rightharpoonup> bytes) world" where
  "kvWorld = \<lparr>cache = twoCache, endpoints = [''e''], net = (\<lambda>_. Map.empty)\<rparr>"

lemma kvWorld_cached:
  "Table (cache kvWorld) readPath = Some \<lparr>Path = readPath, TableID = 5, SchemaID = 1, TableJSON = [1],
     CreatedTime = 0, ModifiedTime = 0\<rparr>"
  "routeFor (cache kvWorld) (TableID \<lparr>Path = readPath, TableID = 5, SchemaID = 1, TableJSON = [1],
     CreatedTime = 0, ModifiedTime = 0\<rparr>) None 1 = Ok (readNode 1)"
  using readWorld_cached by (simp_all add: kvWorld_def readWorld_def)

definition demoOps :: "kvOp list" where
  "demoOps = [Upsert [VInt32 7, VString [104]], Upsert [VInt32 8, VString [105]], Upsert [VInt32 7, VNil],
     Delete [VInt32 8, VNil]]"

lemma demo_ops:
  "list_all2 (\<lambda>x key. keyedRow (\<lambda>_. None) twoColumns [0] True (rowOf x) key) demoOps [[7], [8], [7], [8]]"
  by (simp add: demoOps_def keyedRow_def twoColumns_def EncodeLookupKey_def type_constructors
      encodeCompactedKeyValue_def coerce_simps goindex_def encodeSignedVarint32_def putUvarint_def
      putUvarintNat.simps SchemaValidate_def nullBitsSize_def IsFixed_def encodeLengthPrefixedBytes_def)

lemma written_rows_looked_up_witness:
  "\<exists>outs w1 w2. runOps kvNet (\<lambda>gs. gs) demoTable (\<lambda>_. None) readPath 1 twoColumns demoOps kvWorld = (Ok outs, w1)
    \<and> LookupRows kvNet (\<lambda>gs. gs) demoTable (\<lambda>_. None) readPath 1 twoColumns [queryRow 7, queryRow 8] [0] w1
      = (Ok [Some [VInt32 7, VNil], None], w2)"
proof -
  have "kvRows (\<lambda>_. None) twoColumns True (ucast (SchemaID \<lparr>Path = readPath, TableID = 5, SchemaID = 1, TableJSON = [1],
     CreatedTime = 0, ModifiedTime = 0\<rparr>)) (net kvWorld 1) Map.empty"
    by (simp add: kvRows_def kvWorld_def storedRow_def contentFits_def fun_eq_iff)
  from written_rows_looked_up[where ord = "\<lambda>gs. gs" and ord' = "\<lambda>gs. gs" and rpc = kvNet and kv = "\<lambda>n. n" and b = 1
      and content = Map.empty and schema = twoColumns and ks = "[0]" and unmarshal = demoTable, OF kvWorld_cached(1) demo_indexed kvWorld_cached(2)
      refl refl kvNet_stores demo_content(1) demo_ops this demo_keys]
  show ?thesis by (fastforce simp: demoOps_def)
qed

end
