(* ===== verification/Demo_Checks.thy ===== *)
theory Demo_Checks
  imports Snapshot_Scan "HOL-Library.List_Lexorder" "HOL-Library.Multiset"
begin

text \<open>
  The helpers of the end-to-end program (\<open>demo/fluss-paimon/go-e2e/main.go\<close>): comparing rows,
  printing them, building them, and the two loops that wait for the cluster. What a check
  prints on the way is left out; what it compares is not.

  Two values of type \<open>any\<close> are compared as Go compares interfaces: values of different types
  differ, floats by value, and two slices or maps of one type panic. A decimal holds a pointer,
  and so does a \<open>*big.Int\<close>: the values compared come from a decoder and from the program
  itself, so two pointers are equal only when both are nil.
\<close>

subsection \<open>Equality\<close>

definition lit :: "string \<Rightarrow> bytes" where
  "lit s = map of_char s"

definition float32Eq :: "32 word \<Rightarrow> 32 word \<Rightarrow> bool" where
  "float32Eq a b \<longleftrightarrow> (let mag = (\<lambda>x. take_bit 31 x :: 32 word) in
     mag a \<le> 0x7F800000 \<and> mag b \<le> 0x7F800000 \<and> (a = b \<or> mag a = 0 \<and> mag b = 0))"

definition float64Eq :: "64 word \<Rightarrow> 64 word \<Rightarrow> bool" where
  "float64Eq a b \<longleftrightarrow> (let mag = (\<lambda>x. take_bit 63 x :: 64 word) in
     mag a \<le> 0x7FF0000000000000 \<and> mag b \<le> 0x7FF0000000000000 \<and> (a = b \<or> mag a = 0 \<and> mag b = 0))"

definition ifaceEq :: "gval \<Rightarrow> gval \<Rightarrow> bool res" where
  "ifaceEq a b = (case a of
      VFloat32 x \<Rightarrow> Ok (case b of VFloat32 y \<Rightarrow> float32Eq x y | _ \<Rightarrow> False)
    | VFloat64 x \<Rightarrow> Ok (case b of VFloat64 y \<Rightarrow> float64Eq x y | _ \<Rightarrow> False)
    | VBytes _ \<Rightarrow> (case b of VBytes _ \<Rightarrow> Panic | _ \<Rightarrow> Ok False)
    | VSlice _ \<Rightarrow> (case b of VSlice _ \<Rightarrow> Panic | _ \<Rightarrow> Ok False)
    | VMap _ \<Rightarrow> (case b of VMap _ \<Rightarrow> Panic | _ \<Rightarrow> Ok False)
    | VDecimal x \<Rightarrow> Ok (case b of
        VDecimal y \<Rightarrow> Unscaled x = None \<and> Unscaled y = None \<and> DecScale x = DecScale y | _ \<Rightarrow> False)
    | VBigInt x \<Rightarrow> Ok (case b of VBigInt y \<Rightarrow> x = None \<and> y = None | _ \<Rightarrow> False)
    | _ \<Rightarrow> Ok (a = b))"

text \<open>The loop over the values of two rows, up to the first difference.\<close>

fun valuesEqual :: "(gval \<Rightarrow> gval \<Rightarrow> bool res) \<Rightarrow> gval list \<Rightarrow> gval list \<Rightarrow> bool res" where
  "valuesEqual eq (g # got) (v # want) = andThen (eq g v) (\<lambda>b. if b then valuesEqual eq got want else Ok False)"
| "valuesEqual eq _ _ = Ok True"

definition rowsEqual :: "gval list \<Rightarrow> gval list \<Rightarrow> bool res" where
  "rowsEqual got want = (if length got \<noteq> length want then Ok False else valuesEqual ifaceEq got want)"

definition mapEntry :: "(gval \<times> gval) list \<Rightarrow> gval \<Rightarrow> gval option" where
  "mapEntry m k = map_option snd (List.find (\<lambda>(k', _). ifaceEq k' k = Ok True) m)"

text \<open>\<open>deepValueEqual\<close> with its loops over the elements of a slice and the entries of a map.\<close>

fun deepValueEqual :: "gval \<Rightarrow> gval \<Rightarrow> bool res"
and deepSliceEqual :: "gval list \<Rightarrow> gval list \<Rightarrow> bool res"
and deepMapEqual :: "(gval \<times> gval) list \<Rightarrow> (gval \<times> gval) list \<Rightarrow> bool res" where
  "deepValueEqual got (VBytes want) = Ok (case got of VBytes g \<Rightarrow> g = want | _ \<Rightarrow> False)"
| "deepValueEqual got (VDecimal want) = (case got of
      VDecimal g \<Rightarrow> if DecScale g \<noteq> DecScale want then Ok False
        else (case (Unscaled g, Unscaled want) of
            (Some a, Some b) \<Rightarrow> Ok (a = b) | (None, None) \<Rightarrow> Ok True | _ \<Rightarrow> Panic)
    | _ \<Rightarrow> Ok False)"
| "deepValueEqual got (VTimestampNtz want) = Ok (case got of VTimestampNtz g \<Rightarrow> g = want | _ \<Rightarrow> False)"
| "deepValueEqual got (VTimestampLtz want) = Ok (case got of VTimestampLtz g \<Rightarrow> g = want | _ \<Rightarrow> False)"
| "deepValueEqual got (VSlice want) = (case got of
      VSlice g \<Rightarrow> if length g \<noteq> length want then Ok False else deepSliceEqual g want | _ \<Rightarrow> Ok False)"
| "deepValueEqual got (VMap want) = (case got of
      VMap g \<Rightarrow> if length g \<noteq> length want then Ok False else deepMapEqual g want | _ \<Rightarrow> Ok False)"
| "deepValueEqual got want = ifaceEq got want"
| "deepSliceEqual (g # got) (v # want) =
     andThen (deepValueEqual g v) (\<lambda>b. if b then deepSliceEqual got want else Ok False)"
| "deepSliceEqual _ _ = Ok True"
| "deepMapEqual got [] = Ok True"
| "deepMapEqual got ((k, v) # want) = (case mapEntry got k of
      None \<Rightarrow> Ok False
    | Some g \<Rightarrow> andThen (deepValueEqual g v) (\<lambda>b. if b then deepMapEqual got want else Ok False))"

definition deepRowsEqual :: "gval list \<Rightarrow> gval list \<Rightarrow> bool res" where
  "deepRowsEqual got want = (if length got \<noteq> length want then Ok False else valuesEqual deepValueEqual got want)"

fun containsString :: "string list \<Rightarrow> string \<Rightarrow> bool" where
  "containsString [] want = False"
| "containsString (v # vs) want = (v = want \<or> containsString vs want)"

lemma containsString_iff [simp]: "containsString vs want \<longleftrightarrow> want \<in> set vs"
  by (induction vs) auto

definition samePartitionSpec :: "(string \<times> string) list \<Rightarrow> (string \<times> string) list \<Rightarrow> bool" where
  "samePartitionSpec got want \<longleftrightarrow> length got = length want
     \<and> list_all (\<lambda>(g, v). fst g = fst v \<and> snd g = snd v) (zip got want)"

subsection \<open>Printing\<close>

fun joinWith :: "bytes \<Rightarrow> bytes list \<Rightarrow> bytes" where
  "joinWith sep [] = []"
| "joinWith sep [p] = p"
| "joinWith sep (p # q # ps) = p @ sep @ joinWith sep (q # ps)"

definition joinParts :: "bytes list \<Rightarrow> bytes" where
  "joinParts parts = joinWith (lit '', '') parts"

text \<open>
  The verb \<open>%v\<close> of \<open>fmt.Sprintf\<close> on a value of type \<open>any\<close>. \<open>other\<close> is the text of a float
  or of a map, whose entries are printed in an order of their own.
\<close>

definition intText :: "int \<Rightarrow> bytes" where
  "intText x = lit (itoa x)"

definition bracketed :: "bytes list \<Rightarrow> bytes" where
  "bracketed ps = lit ''['' @ joinWith (lit '' '') ps @ lit '']''"

definition structText :: "bytes list \<Rightarrow> bytes" where
  "structText ps = lit ''{'' @ joinWith (lit '' '') ps @ lit ''}''"

definition bigText :: "int option \<Rightarrow> bytes" where
  "bigText x = (case x of None \<Rightarrow> lit ''<nil>'' | Some n \<Rightarrow> intText n)"

fun valueText :: "(gval \<Rightarrow> bytes) \<Rightarrow> gval \<Rightarrow> bytes" where
  "valueText other VNil = lit ''<nil>''"
| "valueText other (VBool b) = lit (if b then ''true'' else ''false'')"
| "valueText other (VInt x) = intText (sint x)"
| "valueText other (VInt8 x) = intText (sint x)"
| "valueText other (VInt16 x) = intText (sint x)"
| "valueText other (VInt32 x) = intText (sint x)"
| "valueText other (VInt64 x) = intText (sint x)"
| "valueText other (VString s) = s"
| "valueText other (VBytes bs) = bracketed (map (\<lambda>b. intText (uint b)) bs)"
| "valueText other (VDecimal d) = structText [bigText (Unscaled d), intText (DecScale d)]"
| "valueText other (VBigInt x) = bigText x"
| "valueText other (VTimestampNtz t) = structText [intText (sint (Millisecond t)), intText (sint (NtzNanos t))]"
| "valueText other (VTimestampLtz t) = structText [intText (sint (EpochMillisecond t)), intText (sint (LtzNanos t))]"
| "valueText other (VSlice vs) = bracketed (map (valueText other) vs)"
| "valueText other v = other v"

definition rowKey :: "(gval \<Rightarrow> bytes) \<Rightarrow> gval list \<Rightarrow> bytes" where
  "rowKey other vals = valueText other (VSlice vals)"

record decodedRow =
  rowFields :: "string list"
  rowValues :: "gval list"

definition formatRow :: "(gval \<Rightarrow> bytes) \<Rightarrow> string list \<Rightarrow> gval list \<Rightarrow> bytes" where
  "formatRow other names vals =
     (if length names \<noteq> length vals
      then lit ''<mismatched row len fields='' @ intText (int (length names)) @ lit '' values='' @ intText (int (length vals)) @ lit ''>''
      else lit ''{'' @ joinParts (map2 (\<lambda>f v. lit f @ lit ''='' @ valueText other v) names vals) @ lit ''}'')"

definition formatDecodedRows :: "(gval \<Rightarrow> bytes) \<Rightarrow> decodedRow list \<Rightarrow> bytes list" where
  "formatDecodedRows other rows = sort (map (\<lambda>r. valueText other (VSlice (rowValues r))) rows)"

definition sameDecodedRowSet :: "(gval \<Rightarrow> bytes) \<Rightarrow> decodedRow list \<Rightarrow> decodedRow list \<Rightarrow> bool" where
  "sameDecodedRowSet other got want =
     (if length got \<noteq> length want then False
      else sort (map (\<lambda>r. rowKey other (rowValues r)) got) = sort (map (\<lambda>r. rowKey other (rowValues r)) want))"

subsection \<open>Building rows and reading errors\<close>

text \<open>Statements of a check: one after the other up to the first error, and a condition.\<close>

definition runAll :: "('w, unit) act list \<Rightarrow> ('w, unit) act" where
  "runAll ms = foldr (\<lambda>m k. bindA m (\<lambda>_. k)) ms (liftA (Ok ()))"

definition checkThat :: "bool \<Rightarrow> string \<Rightarrow> ('w, unit) act" where
  "checkThat ok msg = liftA (if ok then Ok () else Fail (Errf msg))"

text \<open>\<open>fatalf\<close> ends the program with the error.\<close>

fun mustRows :: "Schema \<Rightarrow> gval list list \<Rightarrow> Row list res" where
  "mustRows schema [] = Ok []"
| "mustRows schema (vals # rest) =
     andThen (wrapErr ''build row: %v'' (NewRow schema vals)) (\<lambda>row. mapRes ((#) row) (mustRows schema rest))"

definition mustDecimal :: "rat_parser \<Rightarrow> bytes \<Rightarrow> int \<Rightarrow> int \<Rightarrow> Decimal res" where
  "mustDecimal rp s precision scale = wrapErr ''build decimal: %v'' (NewDecimalFromString rp s precision scale)"

text \<open>\<open>expectErr\<close> of the error of a call: a call that panics has no error to look at.\<close>

definition expectErr :: "string \<Rightarrow> ('w, unit) act \<Rightarrow> ('w, unit) act" where
  "expectErr operation m w = (case m w of
      (Ok _, w1) \<Rightarrow> (Fail (Errf (operation @ '': expected error, got nil'')), w1)
    | (Fail _, w1) \<Rightarrow> (Ok (), w1)
    | (Panic, w1) \<Rightarrow> (Panic, w1))"

text \<open>\<open>os.Getenv\<close> is the environment of the process, empty for a variable that is not set.\<close>

definition getenv :: "(string \<Rightarrow> string) \<Rightarrow> string \<Rightarrow> string \<Rightarrow> string" where
  "getenv environ k fallback = (if environ k \<noteq> '''' then environ k else fallback)"

subsection \<open>Waiting for the cluster\<close>

text \<open>
  The ticker fires \<open>ticks\<close> times before the context of the program is done; the loop then
  returns the error of the context.
\<close>

fun waitForTables :: "nat \<Rightarrow> 'w network \<Rightarrow> string \<Rightarrow> string list \<Rightarrow> ('w, unit) act" where
  "waitForTables ticks rpc name expected =
     bindA (ListTables rpc name) (\<lambda>ts.
       if list_all (containsString ts) expected then liftA (Ok ())
       else (case ticks of 0 \<Rightarrow> liftA (Fail DeadlineExceeded) | Suc n \<Rightarrow> waitForTables n rpc name expected))"

fun waitForLatestKVSnapshot :: "nat \<Rightarrow> 'w network \<Rightarrow> TablePath \<Rightarrow> int32 \<Rightarrow> ('w, int64) act" where
  "waitForLatestKVSnapshot ticks rpc path bucketID =
     bindA (GetLatestKvSnapshots rpc path None) (\<lambda>snaps.
       case SnapshotIDs snaps bucketID of
         Some (Some snapshotID) \<Rightarrow> liftA (Ok snapshotID)
       | _ \<Rightarrow> (case ticks of 0 \<Rightarrow> liftA (Fail DeadlineExceeded) | Suc n \<Rightarrow> waitForLatestKVSnapshot n rpc path bucketID))"

declare waitForTables.simps [simp del] waitForLatestKVSnapshot.simps [simp del]

end
