(* ===== verification/Demo_Admin.thy ===== *)
theory Demo_Admin
  imports Demo_Checks
begin

text \<open>
  The checks of the end-to-end program on the admin client
  (\<open>demo/fluss-paimon/go-e2e/main.go\<close>), each as the sequence of its calls with the error
  it returns at the first one that does not go as it should.
\<close>

record environment =
  envDatabase :: string
  envLogTable :: TablePath
  envArrowTable :: TablePath
  envKvTable :: TablePath
  envPrefixTable :: TablePath
  envTypesTable :: TablePath
  envAdminPartitioned :: TablePath

definition envTables :: "environment \<Rightarrow> TablePath list" where
  "envTables env = [envLogTable env, envArrowTable env, envKvTable env, envPrefixTable env, envTypesTable env,
     envAdminPartitioned env]"

subsection \<open>Databases\<close>

text \<open>The names that \<open>runListDatabases\<close> prints: those of the summaries when there are no others.\<close>

definition resolvedNames :: "string list \<Rightarrow> DatabaseSummary list \<Rightarrow> string list" where
  "resolvedNames names summaries =
     (if length names = 0 \<and> length summaries > 0
      then names @ filter (\<lambda>n. n \<noteq> '''') (map SummaryName summaries) else names)"

definition runListDatabases :: "'w network \<Rightarrow> environment \<Rightarrow> ('w, unit) act" where
  "runListDatabases rpc env = bindA (wrapA ''list databases: %w'' (ListDatabases rpc True)) (\<lambda>_. liftA (Ok ()))"

definition runDatabaseExists :: "'w network \<Rightarrow> environment \<Rightarrow> ('w, unit) act" where
  "runDatabaseExists rpc env =
     bindA (wrapA ''database exists: %w'' (DatabaseExists rpc (envDatabase env))) (\<lambda>found.
       checkThat found ''database %q not reported as existing'')"

definition runGetDatabaseInfo :: "'w network \<Rightarrow> environment \<Rightarrow> ('w, unit) act" where
  "runGetDatabaseInfo rpc env =
     bindA (wrapA ''get database info: %w'' (GetDatabaseInfo rpc (envDatabase env))) (\<lambda>info.
       checkThat (length (DatabaseJSON info) \<noteq> 0) ''get database info: empty database json'')"

definition runCreateAndDropDatabase :: "'w network \<Rightarrow> environment \<Rightarrow> ('w, unit) act" where
  "runCreateAndDropDatabase rpc env = (let name = ''go_e2e_admin_db'' in runAll
     [wrapA ''cleanup temp database: %w'' (DropDatabase rpc name True True),
      wrapA ''create temp database: %w'' (CreateDatabase rpc name
        (lit ''{\"version\":1,\"comment\":\"go e2e temp database\",\"custom_properties\":{}}'') False),
      bindA (wrapA ''verify temp database exists: %w'' (DatabaseExists rpc name)) (\<lambda>found.
        checkThat found ''temp database %q was not created''),
      bindA (wrapA ''get temp database info: %w'' (GetDatabaseInfo rpc name)) (\<lambda>info.
        checkThat (length (DatabaseJSON info) \<noteq> 0) ''get temp database info: empty database json''),
      wrapA ''drop temp database: %w'' (DropDatabase rpc name False True),
      bindA (wrapA ''verify temp database drop: %w'' (DatabaseExists rpc name)) (\<lambda>found.
        checkThat (\<not> found) ''temp database %q still exists after drop'')])"

subsection \<open>Tables\<close>

definition runListTables :: "'w network \<Rightarrow> environment \<Rightarrow> ('w, unit) act" where
  "runListTables rpc env =
     bindA (wrapA ''list tables: %w'' (ListTables rpc (envDatabase env))) (\<lambda>ts.
       runAll (map (\<lambda>name. checkThat (containsString ts name) ''list tables: missing %q in %v'')
         (map TableName (envTables env))))"

definition runTableExists :: "'w network \<Rightarrow> environment \<Rightarrow> ('w, unit) act" where
  "runTableExists rpc env = runAll (map (\<lambda>path.
     bindA (wrapA ''table exists %s.%s: %w'' (TableExists rpc path)) (\<lambda>found.
       checkThat found ''table exists %s.%s: expected true'')) (envTables env))"

definition runGetTableInfo :: "'w network \<Rightarrow> environment \<Rightarrow> ('w, unit) act" where
  "runGetTableInfo rpc env = runAll (map (\<lambda>path.
     bindA (wrapA ''table %s.%s info: %w'' (TableClient_Info rpc path)) (\<lambda>info. runAll
       [checkThat (\<not> (DatabaseName (TableInfo.Path info) \<noteq> DatabaseName path \<or> TableName (TableInfo.Path info) \<noteq> TableName path))
          ''table %s.%s info: returned mismatched path %+v'',
        checkThat (length (TableJSON info) \<noteq> 0) ''table %s.%s info: empty table json''])) (envTables env))"

definition runGetTableSchema :: "'w network \<Rightarrow> environment \<Rightarrow> ('w, unit) act" where
  "runGetTableSchema rpc env = runAll (map (\<lambda>path.
     bindA (wrapA ''table %s.%s schema: %w'' (TableClient_Schema rpc path None)) (\<lambda>schema.
       checkThat (length (SchemaJSON schema) \<noteq> 0) ''table %s.%s schema: empty schema json'')) (envTables env))"

text \<open>A raw string literal over several lines, each with its tabs.\<close>

fun rawLines :: "(nat \<times> string) list \<Rightarrow> bytes" where
  "rawLines [] = []"
| "rawLines [(tabs, s)] = replicate tabs 9 @ lit s"
| "rawLines ((tabs, s) # l # ls) = replicate tabs 9 @ lit s @ [10] @ rawLines (l # ls)"

definition tempTableJSON :: bytes where
  "tempTableJSON = rawLines
     [(0, ''{''),
      (2, ''\"version\":1,''),
      (2, ''\"schema\":{''),
      (3, ''\"version\":1,''),
      (3, ''\"columns\":[''),
      (4, ''{\"name\":\"id\",\"data_type\":{\"type\":\"BIGINT\",\"nullable\":true},\"id\":0},''),
      (4, ''{\"name\":\"name\",\"data_type\":{\"type\":\"STRING\",\"nullable\":true},\"id\":1}''),
      (3, ''],''),
      (3, ''\"highest_field_id\":1''),
      (2, ''},''),
      (2, ''\"comment\":\"go e2e temp table\",''),
      (2, ''\"partition_key\":[],''),
      (2, ''\"bucket_key\":[],''),
      (2, ''\"bucket_count\":1,''),
      (2, ''\"properties\":{},''),
      (2, ''\"custom_properties\":{}''),
      (1, ''}'')]"

definition negativeTableJSON :: bytes where
  "negativeTableJSON = rawLines
     [(0, ''{''),
      (2, ''\"version\":1,''),
      (2, ''\"schema\":{''),
      (3, ''\"version\":1,''),
      (3, ''\"columns\":[''),
      (4, ''{\"name\":\"id\",\"data_type\":{\"type\":\"BIGINT\",\"nullable\":true},\"id\":0},''),
      (4, ''{\"name\":\"name\",\"data_type\":{\"type\":\"STRING\",\"nullable\":true},\"id\":1}''),
      (3, ''],''),
      (3, ''\"highest_field_id\":1''),
      (2, ''},''),
      (2, ''\"comment\":\"go e2e negative table\",''),
      (2, ''\"partition_key\":[],''),
      (2, ''\"bucket_key\":[],''),
      (2, ''\"bucket_count\":1,''),
      (2, ''\"properties\":{},''),
      (2, ''\"custom_properties\":{}''),
      (1, ''}'')]"

text \<open>\<open>AlterConfigSet\<close> is 0.\<close>

definition timeoutChange :: "string \<Rightarrow> AlterTableChange list" where
  "timeoutChange v = [ConfigChange \<lparr>ConfigKey = ''client.connect-timeout'', ConfigValue = Some v, ConfigOp = 0\<rparr>]"

definition runCreateAlterAndDropTable :: "'w network \<Rightarrow> environment \<Rightarrow> ('w, unit) act" where
  "runCreateAlterAndDropTable rpc env =
     (let path = \<lparr>DatabaseName = envDatabase env, TableName = ''go_e2e_admin_table''\<rparr> in runAll
     [wrapA ''cleanup temp table: %w'' (DropTable rpc path True),
      wrapA ''create temp table: %w'' (CreateTable rpc path tempTableJSON False),
      bindA (wrapA ''verify temp table exists: %w'' (TableExists rpc path)) (\<lambda>found.
        checkThat found ''temp table %s.%s was not created''),
      wrapA ''alter temp table: %w'' (AlterTable rpc path (timeoutChange ''300s'') False),
      bindA (wrapA ''get temp table info after alter: %w'' (TableClient_Info rpc path)) (\<lambda>info.
        checkThat (length (TableJSON info) \<noteq> 0) ''get temp table info after alter: empty table json''),
      wrapA ''drop temp table: %w'' (DropTable rpc path False),
      bindA (wrapA ''verify temp table drop: %w'' (TableExists rpc path)) (\<lambda>found.
        checkThat (\<not> found) ''temp table %s.%s still exists after drop'')])"

subsection \<open>Partitions\<close>

definition runPartitionLifecycle :: "'w network \<Rightarrow> environment \<Rightarrow> ('w, unit) act" where
  "runPartitionLifecycle rpc env =
     (let path = envAdminPartitioned env; spec = [(''pt'', ''2025'')] in runAll
     [wrapA ''cleanup temp partition: %w'' (DropPartition rpc path (Some spec) True),
      bindA (wrapA ''list partition infos before create: %w'' (ListPartitionInfos rpc path)) (\<lambda>_. liftA (Ok ())),
      wrapA ''create partition: %w'' (CreatePartition rpc path (Some spec) False),
      bindA (wrapA ''list partition infos with spec after create: %w''
          (ListPartitionInfosWithSpec rpc path (Some spec))) (\<lambda>after. runAll
        [checkThat (length after \<noteq> 0) ''list partition infos with spec after create: no matching partition returned'',
         checkThat (list_ex (\<lambda>info. samePartitionSpec (PartitionSpec info) spec) after)
           ''created partition spec %v not returned in filtered partition list %v'']),
      wrapA ''drop partition: %w'' (DropPartition rpc path (Some spec) False),
      bindA (wrapA ''list partition infos with spec after drop: %w''
          (ListPartitionInfosWithSpec rpc path (Some spec))) (\<lambda>final.
        checkThat (\<not> length final \<noteq> 0) ''partition still returned after drop: %v'')])"

subsection \<open>Negative paths\<close>

definition negativeDatabasePaths :: "'w network \<Rightarrow> ('w, unit) act list" where
  "negativeDatabasePaths rpc =
     (let dbName = ''go_e2e_admin_negative_db'';
          json = lit ''{\"version\":1,\"comment\":\"go e2e negative database\",\"custom_properties\":{}}'' in
     [wrapA ''negative db cleanup: %w'' (DropDatabase rpc dbName True True),
      expectErr ''drop missing database without ignore'' (DropDatabase rpc dbName False True),
      wrapA ''drop missing database with ignore: %w'' (DropDatabase rpc dbName True True),
      wrapA ''create negative db fixture: %w'' (CreateDatabase rpc dbName json False),
      expectErr ''create duplicate database without ignore'' (CreateDatabase rpc dbName json False),
      wrapA ''create duplicate database with ignore: %w'' (CreateDatabase rpc dbName json True),
      wrapA ''drop negative db fixture: %w'' (DropDatabase rpc dbName False True)])"

definition negativeTablePaths :: "'w network \<Rightarrow> TablePath \<Rightarrow> ('w, unit) act list" where
  "negativeTablePaths rpc path =
     [wrapA ''negative table cleanup: %w'' (DropTable rpc path True),
      expectErr ''drop missing table without ignore'' (DropTable rpc path False),
      wrapA ''drop missing table with ignore: %w'' (DropTable rpc path True),
      wrapA ''create negative table fixture: %w'' (CreateTable rpc path negativeTableJSON False),
      expectErr ''create duplicate table without ignore'' (CreateTable rpc path negativeTableJSON False),
      wrapA ''create duplicate table with ignore: %w'' (CreateTable rpc path negativeTableJSON True),
      wrapA ''drop negative table fixture: %w'' (DropTable rpc path False),
      expectErr ''alter missing table without ignore'' (AlterTable rpc path (timeoutChange ''1s'') False),
      wrapA ''alter missing table with ignore: %w'' (AlterTable rpc path (timeoutChange ''1s'') True)]"

definition negativePartitionPaths :: "'w network \<Rightarrow> TablePath \<Rightarrow> ('w, unit) act list" where
  "negativePartitionPaths rpc path = (let spec = Some [(''pt'', ''2026'')] in
     [wrapA ''negative partition cleanup: %w'' (DropPartition rpc path spec True),
      expectErr ''drop missing partition without ignore'' (DropPartition rpc path spec False),
      wrapA ''drop missing partition with ignore: %w'' (DropPartition rpc path spec True),
      wrapA ''create negative partition fixture: %w'' (CreatePartition rpc path spec False),
      expectErr ''create duplicate partition without ignore'' (CreatePartition rpc path spec False),
      wrapA ''create duplicate partition with ignore: %w'' (CreatePartition rpc path spec True),
      wrapA ''drop negative partition fixture: %w'' (DropPartition rpc path spec False)])"

definition runAdminNegativePaths :: "'w network \<Rightarrow> environment \<Rightarrow> ('w, unit) act" where
  "runAdminNegativePaths rpc env = runAll
     (negativeDatabasePaths rpc
      @ negativeTablePaths rpc \<lparr>DatabaseName = envDatabase env, TableName = ''go_e2e_admin_negative_table''\<rparr>
      @ negativePartitionPaths rpc (envAdminPartitioned env))"

end
