(* ===== verification/Catalog.thy ===== *)
theory Catalog
  imports Demo_Admin
begin

text \<open>
  A cluster as a catalogue: the set of its databases, of its tables and of the partitions of its
  tables, with the change each admin request makes to it and the requests it refuses. The
  operations of the admin client, run against a network that serves a catalogue, then act on
  the catalogue; \<open>goes\<close>, \<open>stops\<close> and \<open>asks\<close> say how, and compose along the checks of
  the end-to-end program.
\<close>

record catalog =
  dbSet :: "string set"
  tabSet :: "TablePath set"
  partSet :: "(TablePath \<times> (string \<times> string) list) set"

subsection \<open>Changes\<close>

definition withoutDb :: "string \<Rightarrow> catalog \<Rightarrow> catalog" where
  "withoutDb name c = \<lparr>dbSet = dbSet c - {name}, tabSet = {p \<in> tabSet c. DatabaseName p \<noteq> name},
     partSet = {x \<in> partSet c. DatabaseName (fst x) \<noteq> name}\<rparr>"

definition withoutTab :: "TablePath \<Rightarrow> catalog \<Rightarrow> catalog" where
  "withoutTab p c = c\<lparr>tabSet := tabSet c - {p}, partSet := {x \<in> partSet c. fst x \<noteq> p}\<rparr>"

definition withoutPart :: "TablePath \<Rightarrow> (string \<times> string) list \<Rightarrow> catalog \<Rightarrow> catalog" where
  "withoutPart p s c = c\<lparr>partSet := partSet c - {(p, s)}\<rparr>"

definition orIgnored :: "bool \<Rightarrow> bool \<Rightarrow> catalog \<Rightarrow> catalog \<Rightarrow> catalog option" where
  "orIgnored applies ign c c' = (if applies then Some c' else if ign then Some c else None)"

definition createDb where
  "createDb ign name c = orIgnored (name \<notin> dbSet c) ign c (c\<lparr>dbSet := insert name (dbSet c)\<rparr>)"

definition dropDb where
  "dropDb ign name c = orIgnored (name \<in> dbSet c) ign c (withoutDb name c)"

definition createTab where
  "createTab ign p c = (if DatabaseName p \<notin> dbSet c then None
     else orIgnored (p \<notin> tabSet c) ign c (c\<lparr>tabSet := insert p (tabSet c)\<rparr>))"

definition dropTab where
  "dropTab ign p c = orIgnored (p \<in> tabSet c) ign c (withoutTab p c)"

definition alterTab where
  "alterTab ign p c = orIgnored (p \<in> tabSet c) ign c c"

definition createPart where
  "createPart ign p s c = (if p \<notin> tabSet c then None
     else orIgnored ((p, s) \<notin> partSet c) ign c (c\<lparr>partSet := insert (p, s) (partSet c)\<rparr>))"

definition dropPart where
  "dropPart ign p s c = (if p \<notin> tabSet c then None
     else orIgnored ((p, s) \<in> partSet c) ign c (withoutPart p s c))"

text \<open>Every table is in a database of the catalogue and every partition in a table of it.\<close>

definition consistent :: "catalog \<Rightarrow> bool" where
  "consistent c \<longleftrightarrow> (\<forall>p \<in> tabSet c. DatabaseName p \<in> dbSet c) \<and> (\<forall>x \<in> partSet c. fst x \<in> tabSet c)"

lemma consistent_without [simp]:
  "consistent c \<Longrightarrow> consistent (withoutDb name c)"
  "consistent c \<Longrightarrow> consistent (withoutTab p c)"
  "consistent c \<Longrightarrow> consistent (withoutPart p s c)"
  by (auto simp: consistent_def withoutDb_def withoutTab_def withoutPart_def)

lemma without_sets [simp]:
  "dbSet (withoutDb name c) = dbSet c - {name}" "dbSet (withoutTab p c) = dbSet c" "dbSet (withoutPart p s c) = dbSet c"
  "tabSet (withoutDb name c) = {p \<in> tabSet c. DatabaseName p \<noteq> name}" "tabSet (withoutTab p c) = tabSet c - {p}"
  "tabSet (withoutPart p s c) = tabSet c" "partSet (withoutPart p s c) = partSet c - {(p, s)}"
  by (simp_all add: withoutDb_def withoutTab_def withoutPart_def)

text \<open>Without something that is not there, a consistent catalogue is as before.\<close>

lemma without_absent:
  "consistent c \<Longrightarrow> name \<notin> dbSet c \<Longrightarrow> withoutDb name c = c"
  "consistent c \<Longrightarrow> p \<notin> tabSet c \<Longrightarrow> withoutTab p c = c"
  "(p, s) \<notin> partSet c \<Longrightarrow> withoutPart p s c = c"
  by (rule catalog.equality; auto simp: consistent_def withoutDb_def withoutTab_def withoutPart_def)+

text \<open>What was created and dropped again leaves no trace.\<close>

lemma created_dropped:
  "consistent c \<Longrightarrow> name \<notin> dbSet c \<Longrightarrow> withoutDb name (c\<lparr>dbSet := insert name (dbSet c)\<rparr>) = c"
  "consistent c \<Longrightarrow> p \<notin> tabSet c \<Longrightarrow> withoutTab p (c\<lparr>tabSet := insert p (tabSet c)\<rparr>) = c"
  "(p, s) \<notin> partSet c \<Longrightarrow> withoutPart p s (c\<lparr>partSet := insert (p, s) (partSet c)\<rparr>) = c"
  by (rule catalog.equality; auto simp: consistent_def withoutDb_def withoutTab_def withoutPart_def)+

subsection \<open>A network that serves a catalogue\<close>

text \<open>A change is carried out with any response, or refused with an error and no effect.\<close>

definition changes :: "'w network \<Rightarrow> ('w \<Rightarrow> catalog) \<Rightarrow> Request \<Rightarrow> (catalog \<Rightarrow> catalog option) \<Rightarrow> bool" where
  "changes rpc cat req upd \<longleftrightarrow> (\<forall>n addr. case upd (cat n) of
      Some c \<Rightarrow> \<exists>resp n'. rpc n addr req = (Ok resp, n') \<and> cat n' = c
    | None \<Rightarrow> \<exists>e n'. rpc n addr req = (Fail e, n') \<and> cat n' = cat n)"

text \<open>A question that the catalogue allows has an answer and no effect.\<close>

definition answers :: "'w network \<Rightarrow> ('w \<Rightarrow> catalog) \<Rightarrow> Request \<Rightarrow> (catalog \<Rightarrow> bool) \<Rightarrow> (catalog \<Rightarrow> Response \<Rightarrow> bool) \<Rightarrow> bool" where
  "answers rpc cat req allowed good \<longleftrightarrow> (\<forall>n addr. allowed (cat n) \<longrightarrow>
     (\<exists>resp n'. rpc n addr req = (Ok resp, n') \<and> cat n' = cat n \<and> good (cat n) resp))"

definition servesCatalog :: "'w network \<Rightarrow> ('w \<Rightarrow> catalog) \<Rightarrow> bool" where
  "servesCatalog rpc cat \<longleftrightarrow>
     (\<forall>name ign json. changes rpc cat (CreateDatabaseRequest name ign json) (createDb ign name))
     \<and> (\<forall>name ign. changes rpc cat (DropDatabaseRequest name ign True) (dropDb ign name))
     \<and> (\<forall>p ign json. changes rpc cat (CreateTableRequest (buildTablePath p) json ign) (createTab ign p))
     \<and> (\<forall>p ign. changes rpc cat (DropTableRequest (buildTablePath p) ign) (dropTab ign p))
     \<and> (\<forall>p ign cs as ds rs ms. changes rpc cat (AlterTableReq (AlterTableRequest (buildTablePath p) ign cs as ds rs ms)) (alterTab ign p))
     \<and> (\<forall>p s ign. changes rpc cat (CreatePartitionRequest (buildTablePath p) (Some s) ign) (createPart ign p s))
     \<and> (\<forall>p s ign. changes rpc cat (DropPartitionRequest (buildTablePath p) (Some s) ign) (dropPart ign p s))
     \<and> (\<forall>x. answers rpc cat (ListDatabasesRequest x) (\<lambda>c. True) (\<lambda>c r. \<exists>names sums. r = ListDatabasesResponse names sums))
     \<and> (\<forall>name. answers rpc cat (DatabaseExistsRequest name) (\<lambda>c. True) (\<lambda>c r. r = DatabaseExistsResponse (name \<in> dbSet c)))
     \<and> (\<forall>name. answers rpc cat (GetDatabaseInfoRequest name) (\<lambda>c. name \<in> dbSet c)
          (\<lambda>c r. \<exists>json t t'. r = GetDatabaseInfoResponse json t t' \<and> json \<noteq> []))
     \<and> (\<forall>name. answers rpc cat (ListTablesRequest name) (\<lambda>c. name \<in> dbSet c)
          (\<lambda>c r. \<exists>ts. r = ListTablesResponse ts \<and> set ts = TableName ` {p \<in> tabSet c. DatabaseName p = name}))
     \<and> (\<forall>p. answers rpc cat (TableExistsRequest (buildTablePath p)) (\<lambda>c. True) (\<lambda>c r. r = TableExistsResponse (p \<in> tabSet c)))
     \<and> (\<forall>p. answers rpc cat (GetTableInfoRequest (buildTablePath p)) (\<lambda>c. p \<in> tabSet c)
          (\<lambda>c r. \<exists>i s json t t'. r = GetTableInfoResponse i s json t t' \<and> json \<noteq> []))
     \<and> (\<forall>p v. answers rpc cat (GetTableSchemaRequest (buildTablePath p) v) (\<lambda>c. p \<in> tabSet c)
          (\<lambda>c r. \<exists>i json. r = GetTableSchemaResponse i json \<and> json \<noteq> []))
     \<and> (\<forall>p. answers rpc cat (ListPartitionInfosRequest (buildTablePath p) None) (\<lambda>c. p \<in> tabSet c)
          (\<lambda>c r. \<exists>items. r = ListPartitionInfosResponse items))
     \<and> (\<forall>p s. answers rpc cat (ListPartitionInfosRequest (buildTablePath p) (Some s)) (\<lambda>c. p \<in> tabSet c)
          (\<lambda>c r. \<exists>items. r = ListPartitionInfosResponse items
             \<and> (\<lambda>(i, kvs, dir). getOr [] kvs) ` set items = {s'. (p, s') \<in> partSet c \<and> set s \<subseteq> set s'}))"

subsection \<open>Acting on the catalogue\<close>

text \<open>The coordinator is known, as it is after \<open>Dial\<close> when the cluster has one.\<close>

definition ready :: "'w world \<Rightarrow> bool" where
  "ready w \<longleftrightarrow> Coordinator (cache w) \<noteq> None \<and> endpoints w \<noteq> []"

definition goes :: "('w \<Rightarrow> catalog) \<Rightarrow> catalog \<Rightarrow> ('w, unit) act \<Rightarrow> catalog \<Rightarrow> bool" where
  "goes cat c m c' \<longleftrightarrow> (\<forall>w. ready w \<and> cat (net w) = c \<longrightarrow> (\<exists>w'. m w = (Ok (), w') \<and> ready w' \<and> cat (net w') = c'))"

definition stops :: "('w \<Rightarrow> catalog) \<Rightarrow> catalog \<Rightarrow> ('w, unit) act \<Rightarrow> bool" where
  "stops cat c m \<longleftrightarrow> (\<forall>w. ready w \<and> cat (net w) = c \<longrightarrow> (\<exists>e w'. m w = (Fail e, w') \<and> ready w' \<and> cat (net w') = c))"

definition asks :: "('w \<Rightarrow> catalog) \<Rightarrow> catalog \<Rightarrow> ('w, 'a) act \<Rightarrow> ('a \<Rightarrow> bool) \<Rightarrow> bool" where
  "asks cat c m good \<longleftrightarrow> (\<forall>w. ready w \<and> cat (net w) = c \<longrightarrow> (\<exists>a w'. m w = (Ok a, w') \<and> good a \<and> ready w' \<and> cat (net w') = c))"

named_theorems goes_intros \<open>checks on a catalogue, step by step\<close>

lemma goes_wrapA [goes_intros]: "goes cat c m c' \<Longrightarrow> goes cat c (wrapA msg m) c'"
  by (fastforce simp: goes_def wrapA_def)

lemma goes_expectErr [goes_intros]: "stops cat c m \<Longrightarrow> goes cat c (expectErr s m) c"
  by (fastforce simp: goes_def stops_def expectErr_def)

lemma goes_checkThat [goes_intros]: "ok \<Longrightarrow> goes cat c (checkThat ok msg) c"
  by (simp add: goes_def checkThat_def)

lemma goes_return [goes_intros]: "goes cat c (liftA (Ok ())) c"
  by (simp add: goes_def)

lemma goes_seq: "goes cat c m c1 \<Longrightarrow> goes cat c1 (k ()) c2 \<Longrightarrow> goes cat c (bindA m k) c2"
  unfolding goes_def by (metis bindA_simps(1))

lemma goes_ask: "asks cat c m good \<Longrightarrow> (\<And>a. good a \<Longrightarrow> goes cat c (k a) c') \<Longrightarrow> goes cat c (bindA m k) c'"
  unfolding goes_def asks_def by (metis bindA_simps(1))

lemma asks_wrapA: "asks cat c m good \<Longrightarrow> asks cat c (wrapA msg m) good"
  by (fastforce simp: asks_def wrapA_def)

lemma runAll_simps [simp]: "runAll [] = liftA (Ok ())" "runAll (m # ms) = bindA m (\<lambda>_. runAll ms)"
  by (simp_all add: runAll_def)

lemma goes_runAll_Nil [goes_intros]: "goes cat c (runAll []) c"
  by (simp add: goes_return)

lemma goes_runAll_Cons [goes_intros]:
  "goes cat c m c1 \<Longrightarrow> goes cat c1 (runAll ms) c2 \<Longrightarrow> goes cat c (runAll (m # ms)) c2"
  by (simp add: goes_seq)

lemma goes_runAll_append:
  "goes cat c (runAll ms) c1 \<Longrightarrow> goes cat c1 (runAll ns) c2 \<Longrightarrow> goes cat c (runAll (ms @ ns)) c2"
proof (induction ms arbitrary: c)
  case Nil
  then show ?case by (fastforce simp: goes_def)
next
  case (Cons m ms)
  have "bindA m (\<lambda>_. bindA (runAll ms) (\<lambda>_. runAll ns)) = bindA (bindA m (\<lambda>_. runAll ms)) (\<lambda>_. runAll ns)" for m :: "('a, unit) act"
    by (simp add: bindA_def fun_eq_iff split: res.splits prod.splits)
  moreover have "runAll (xs @ ns) = bindA (runAll xs) (\<lambda>_. runAll ns)" for xs :: "('a, unit) act list"
    by (induction xs) (auto simp: bindA_def fun_eq_iff split: res.splits prod.splits)
  ultimately show ?case using Cons.prems by (auto intro: goes_seq)
qed

lemma goes_each: "(\<And>x. x \<in> set xs \<Longrightarrow> goes cat c (f x) c) \<Longrightarrow> goes cat c (runAll (map f xs)) c"
  by (induction xs) (auto intro: goes_seq goes_return)

subsection \<open>The operations of the admin client\<close>

lemma invokeCoordinator_ready: "ready w \<Longrightarrow> \<exists>addr. invokeCoordinator rpc req w = invokeA rpc addr req w \<and> invokeAny rpc req w = invokeA rpc addr req w
    \<and> anyAddress w = (Ok addr, w)"
  by (auto simp: ready_def invokeCoordinator_def invokeAny_def anyAddress_def)

lemma goes_change:
  assumes "changes rpc cat req upd" and "upd c = Some c'"
  shows "goes cat c (ignoreResponse (invokeCoordinator rpc req)) c'"
  unfolding goes_def
proof (intro allI impI, elim conjE)
  fix w assume w: "ready w" "cat (net w) = c"
  from invokeCoordinator_ready[OF w(1)] obtain addr where "invokeCoordinator rpc req w = invokeA rpc addr req w" by blast
  moreover from assms w(2) obtain resp n' where "rpc (net w) addr req = (Ok resp, n')" "cat n' = c'"
    by (fastforce simp: changes_def dest!: spec[of _ "net w"] spec[of _ addr])
  ultimately show "\<exists>w'. ignoreResponse (invokeCoordinator rpc req) w = (Ok (), w') \<and> ready w' \<and> cat (net w') = c'"
    using w by (simp add: ignoreResponse_def bindA_def invokeA_def ready_def)
qed

lemma stops_change:
  assumes "changes rpc cat req upd" and "upd c = None"
  shows "stops cat c (ignoreResponse (invokeCoordinator rpc req))"
  unfolding stops_def
proof (intro allI impI, elim conjE)
  fix w assume w: "ready w" "cat (net w) = c"
  from invokeCoordinator_ready[OF w(1)] obtain addr where "invokeCoordinator rpc req w = invokeA rpc addr req w" by blast
  moreover from assms w(2) obtain e n' where "rpc (net w) addr req = (Fail e, n')" "cat n' = c"
    by (fastforce simp: changes_def dest!: spec[of _ "net w"] spec[of _ addr])
  ultimately show "\<exists>e w'. ignoreResponse (invokeCoordinator rpc req) w = (Fail e, w') \<and> ready w' \<and> cat (net w') = c"
    using w by (simp add: ignoreResponse_def bindA_def invokeA_def ready_def)
qed

lemma asks_answer:
  assumes "answers rpc cat req allowed good" and "allowed c"
    and "\<And>resp. good c resp \<Longrightarrow> \<exists>a. sel resp = Some a \<and> P a"
  shows "asks cat c (bindA (invokeAny rpc req) (expect msg sel)) P"
  unfolding asks_def
proof (intro allI impI, elim conjE)
  fix w assume w: "ready w" "cat (net w) = c"
  from invokeCoordinator_ready[OF w(1)] obtain addr where "invokeAny rpc req w = invokeA rpc addr req w" by blast
  moreover from assms(1,2) w(2) obtain resp n' where "rpc (net w) addr req = (Ok resp, n')" "cat n' = c" "good c resp"
    by (fastforce simp: answers_def dest!: spec[of _ "net w"] spec[of _ addr])
  moreover from assms(3)[OF this(3)] obtain a where "sel resp = Some a" "P a" by blast
  ultimately show "\<exists>a w'. bindA (invokeAny rpc req) (expect msg sel) w = (Ok a, w') \<and> P a \<and> ready w' \<and> cat (net w') = c"
    using w by (simp add: bindA_def invokeA_def expect_def ready_def)
qed

end
