(* ===== verification/Demo_Admin_Laws.thy ===== *)
theory Demo_Admin_Laws
  imports Catalog
begin

text \<open>
  The admin operations on a cluster that serves a catalogue, and the checks of the end-to-end
  program over them: what each leaves of the catalogue.
\<close>

subsection \<open>Operations\<close>

lemma catalog_changes:
  assumes "servesCatalog rpc cat"
  shows "changes rpc cat (CreateDatabaseRequest name ign json) (createDb ign name)"
    and "changes rpc cat (DropDatabaseRequest name ign True) (dropDb ign name)"
    and "changes rpc cat (CreateTableRequest (buildTablePath p) table ign) (createTab ign p)"
    and "changes rpc cat (DropTableRequest (buildTablePath p) ign) (dropTab ign p)"
    and "changes rpc cat (AlterTableReq (AlterTableRequest (buildTablePath p) ign cs as ds rs ms)) (alterTab ign p)"
    and "changes rpc cat (CreatePartitionRequest (buildTablePath p) (Some s) ign) (createPart ign p s)"
    and "changes rpc cat (DropPartitionRequest (buildTablePath p) (Some s) ign) (dropPart ign p s)"
  using assms by (simp_all add: servesCatalog_def)

lemma AlterTable_ready:
  assumes "ready w" and "addChanges (AlterTableRequest (buildTablePath path) ign [] [] [] [] []) xs = Ok req"
  shows "AlterTable rpc path xs ign w = ignoreResponse (invokeCoordinator rpc (AlterTableReq req)) w"
proof -
  from invokeCoordinator_ready[OF assms(1)] obtain addr where
    "invokeCoordinator rpc (AlterTableReq req) w = invokeA rpc addr (AlterTableReq req) w" "anyAddress w = (Ok addr, w)" by blast
  with assms show ?thesis
    by (auto simp: AlterTable_def ready_def ignoreResponse_def bindA_def)
qed

lemma AlterTable_change:
  assumes "addChanges (AlterTableRequest (buildTablePath path) ign [] [] [] [] []) xs = Ok req"
  shows "goes cat c (AlterTable rpc path xs ign) c' = goes cat c (ignoreResponse (invokeCoordinator rpc (AlterTableReq req))) c'"
    and "stops cat c (AlterTable rpc path xs ign) = stops cat c (ignoreResponse (invokeCoordinator rpc (AlterTableReq req)))"
  using AlterTable_ready[OF _ assms, where rpc = rpc] by (simp_all add: goes_def stops_def cong: conj_cong)

lemma timeoutChange_request:
  "addChanges (AlterTableRequest p ign [] [] [] [] []) (timeoutChange v)
     = Ok (AlterTableRequest p ign [PbAlterConfig ''client.connect-timeout'' (Some v) 0] [] [] [] [])"
  by (simp add: timeoutChange_def buildAlterConfig_def)

text \<open>The operations that are carried out, and those that are refused.\<close>

lemma goes_operations:
  assumes "servesCatalog rpc cat"
  shows "createDb ign name c = Some c' \<Longrightarrow> goes cat c (CreateDatabase rpc name json ign) c'"
    and "dropDb ign name c = Some c' \<Longrightarrow> goes cat c (DropDatabase rpc name ign True) c'"
    and "createTab ign p c = Some c' \<Longrightarrow> goes cat c (CreateTable rpc p json ign) c'"
    and "dropTab ign p c = Some c' \<Longrightarrow> goes cat c (DropTable rpc p ign) c'"
    and "alterTab ign p c = Some c' \<Longrightarrow> goes cat c (AlterTable rpc p (timeoutChange v) ign) c'"
    and "createPart ign p s c = Some c' \<Longrightarrow> goes cat c (CreatePartition rpc p (Some s) ign) c'"
    and "dropPart ign p s c = Some c' \<Longrightarrow> goes cat c (DropPartition rpc p (Some s) ign) c'"
  by (simp_all add: CreateDatabase_def DropDatabase_def CreateTable_def DropTable_def CreatePartition_def DropPartition_def
      buildPartitionSpec_def AlterTable_change[OF timeoutChange_request] goes_change[OF catalog_changes(1)[OF assms]]
      goes_change[OF catalog_changes(2)[OF assms]] goes_change[OF catalog_changes(3)[OF assms]]
      goes_change[OF catalog_changes(4)[OF assms]] goes_change[OF catalog_changes(5)[OF assms]]
      goes_change[OF catalog_changes(6)[OF assms]] goes_change[OF catalog_changes(7)[OF assms]])

lemma stops_operations:
  assumes "servesCatalog rpc cat"
  shows "createDb ign name c = None \<Longrightarrow> stops cat c (CreateDatabase rpc name json ign)"
    and "dropDb ign name c = None \<Longrightarrow> stops cat c (DropDatabase rpc name ign True)"
    and "createTab ign p c = None \<Longrightarrow> stops cat c (CreateTable rpc p json ign)"
    and "dropTab ign p c = None \<Longrightarrow> stops cat c (DropTable rpc p ign)"
    and "alterTab ign p c = None \<Longrightarrow> stops cat c (AlterTable rpc p (timeoutChange v) ign)"
    and "createPart ign p s c = None \<Longrightarrow> stops cat c (CreatePartition rpc p (Some s) ign)"
    and "dropPart ign p s c = None \<Longrightarrow> stops cat c (DropPartition rpc p (Some s) ign)"
  by (simp_all add: CreateDatabase_def DropDatabase_def CreateTable_def DropTable_def CreatePartition_def DropPartition_def
      buildPartitionSpec_def AlterTable_change[OF timeoutChange_request] stops_change[OF catalog_changes(1)[OF assms]]
      stops_change[OF catalog_changes(2)[OF assms]] stops_change[OF catalog_changes(3)[OF assms]]
      stops_change[OF catalog_changes(4)[OF assms]] stops_change[OF catalog_changes(5)[OF assms]]
      stops_change[OF catalog_changes(6)[OF assms]] stops_change[OF catalog_changes(7)[OF assms]])

lemma asks_DatabaseExists: "servesCatalog rpc cat \<Longrightarrow> asks cat c (DatabaseExists rpc name) (\<lambda>b. b = (name \<in> dbSet c))"
  unfolding DatabaseExists_def
  by (rule asks_answer[where allowed = "\<lambda>c. True" and good = "\<lambda>c r. r = DatabaseExistsResponse (name \<in> dbSet c)"])
    (simp_all add: servesCatalog_def)

lemma asks_ListDatabases: "servesCatalog rpc cat \<Longrightarrow> asks cat c (ListDatabases rpc x) (\<lambda>_. True)"
  unfolding ListDatabases_def
  by (rule asks_answer[where allowed = "\<lambda>c. True" and good = "\<lambda>c r. \<exists>names sums. r = ListDatabasesResponse names sums"])
    (auto simp: servesCatalog_def)

lemma asks_GetDatabaseInfo:
  "servesCatalog rpc cat \<Longrightarrow> name \<in> dbSet c \<Longrightarrow> asks cat c (GetDatabaseInfo rpc name) (\<lambda>i. DatabaseJSON i \<noteq> [])"
  unfolding GetDatabaseInfo_def
  by (rule asks_answer[where allowed = "\<lambda>c. name \<in> dbSet c"
        and good = "\<lambda>c r. \<exists>json t t'. r = GetDatabaseInfoResponse json t t' \<and> json \<noteq> []"]) (auto simp: servesCatalog_def)

lemma asks_ListTables:
  "servesCatalog rpc cat \<Longrightarrow> name \<in> dbSet c \<Longrightarrow>
   asks cat c (ListTables rpc name) (\<lambda>ts. set ts = TableName ` {p \<in> tabSet c. DatabaseName p = name})"
  unfolding ListTables_def
  by (rule asks_answer[where allowed = "\<lambda>c. name \<in> dbSet c"
        and good = "\<lambda>c r. \<exists>ts. r = ListTablesResponse ts \<and> set ts = TableName ` {p \<in> tabSet c. DatabaseName p = name}"])
    (auto simp: servesCatalog_def)

lemma asks_TableExists: "servesCatalog rpc cat \<Longrightarrow> asks cat c (TableExists rpc p) (\<lambda>b. b = (p \<in> tabSet c))"
  unfolding TableExists_def
  by (rule asks_answer[where allowed = "\<lambda>c. True" and good = "\<lambda>c r. r = TableExistsResponse (p \<in> tabSet c)"])
    (simp_all add: servesCatalog_def)

lemma asks_Schema:
  "servesCatalog rpc cat \<Longrightarrow> p \<in> tabSet c \<Longrightarrow> asks cat c (TableClient_Schema rpc p v) (\<lambda>i. SchemaJSON i \<noteq> [])"
  unfolding TableClient_Schema_def GetTableSchema_def
  by (rule asks_answer[where allowed = "\<lambda>c. p \<in> tabSet c"
        and good = "\<lambda>c r. \<exists>i json. r = GetTableSchemaResponse i json \<and> json \<noteq> []"]) (auto simp: servesCatalog_def)

lemma asks_ListPartitions:
  "servesCatalog rpc cat \<Longrightarrow> p \<in> tabSet c \<Longrightarrow> asks cat c (ListPartitionInfos rpc p) (\<lambda>_. True)"
  unfolding ListPartitionInfos_def ListPartitionInfosWithSpec_def buildPartitionSpec_def
  by (rule asks_answer[where allowed = "\<lambda>c. p \<in> tabSet c" and good = "\<lambda>c r. \<exists>items. r = ListPartitionInfosResponse items"])
    (auto simp: servesCatalog_def)

lemma asks_ListPartitionsWithSpec:
  "servesCatalog rpc cat \<Longrightarrow> p \<in> tabSet c \<Longrightarrow>
   asks cat c (ListPartitionInfosWithSpec rpc p (Some s)) (\<lambda>is. PartitionSpec ` set is = {s'. (p, s') \<in> partSet c \<and> set s \<subseteq> set s'})"
  unfolding ListPartitionInfosWithSpec_def buildPartitionSpec_def
  by (rule asks_answer[where allowed = "\<lambda>c. p \<in> tabSet c" and good = "\<lambda>c r. \<exists>items. r = ListPartitionInfosResponse items
        \<and> (\<lambda>(i, kvs, dir). getOr [] kvs) ` set items = {s'. (p, s') \<in> partSet c \<and> set s \<subseteq> set s'}"])
    (auto simp: servesCatalog_def image_image case_prod_unfold)

text \<open>\<open>Info\<close> stores what it learns about the table in the cache.\<close>

lemma asks_Info:
  assumes "servesCatalog rpc cat" and "p \<in> tabSet c"
  shows "asks cat c (TableClient_Info rpc p) (\<lambda>i. TableInfo.Path i = p \<and> TableJSON i \<noteq> [])"
  unfolding asks_def
proof (intro allI impI, elim conjE)
  fix w assume w: "ready w" "cat (net w) = c"
  from invokeCoordinator_ready[OF w(1)] obtain addr where
    i: "invokeAny rpc (GetTableInfoRequest (buildTablePath p)) w = invokeA rpc addr (GetTableInfoRequest (buildTablePath p)) w" by blast
  from assms have "answers rpc cat (GetTableInfoRequest (buildTablePath p)) (\<lambda>c. p \<in> tabSet c)
      (\<lambda>c r. \<exists>i s json t t'. r = GetTableInfoResponse i s json t t' \<and> json \<noteq> [])" by (simp add: servesCatalog_def)
  with assms(2) w(2) obtain i s json t t' n' where
    "rpc (net w) addr (GetTableInfoRequest (buildTablePath p)) = (Ok (GetTableInfoResponse i s json t t'), n')"
    "json \<noteq> []" "cat n' = c"
    by (fastforce simp: answers_def dest!: spec[of _ "net w"] spec[of _ addr])
  with w i show "\<exists>a w'. TableClient_Info rpc p w = (Ok a, w') \<and> (TableInfo.Path a = p \<and> TableJSON a \<noteq> []) \<and> ready w' \<and> cat (net w') = c"
    by (simp add: TableClient_Info_def GetTableInfo_def bindA_def invokeA_def ready_def SetTable_def Coordinator_def Let_def)
qed

subsection \<open>The checks\<close>

lemmas catalog_ops = createDb_def dropDb_def createTab_def dropTab_def alterTab_def createPart_def dropPart_def orIgnored_def

lemma goes_eq: "goes cat c m c1 \<Longrightarrow> c1 = c2 \<Longrightarrow> goes cat c m c2"
  by simp

lemma image_single: "f ` A = {b} \<Longrightarrow> \<exists>x \<in> A. f x = b"
  by (metis imageE insertI1)

lemma goes_checks: "ok1 \<Longrightarrow> ok2 \<Longrightarrow> goes cat c (runAll [checkThat ok1 e1, checkThat ok2 e2]) c"
  by (simp add: goes_def checkThat_def)

lemma dropDb_ignored: "consistent c \<Longrightarrow> dropDb True name c = Some (withoutDb name c)"
  by (simp add: catalog_ops without_absent)

lemma dropTab_ignored: "consistent c \<Longrightarrow> dropTab True p c = Some (withoutTab p c)"
  by (simp add: catalog_ops without_absent)

lemma dropPart_ignored: "p \<in> tabSet c \<Longrightarrow> dropPart True p s c = Some (withoutPart p s c)"
  by (simp add: catalog_ops without_absent)

lemma goes_exists:
  assumes "servesCatalog rpc cat"
  shows "ok (name \<in> dbSet c) \<Longrightarrow> goes cat c (bindA (wrapA msg (DatabaseExists rpc name)) (\<lambda>found. checkThat (ok found) e)) c"
    and "ok (p \<in> tabSet c) \<Longrightarrow> goes cat c (bindA (wrapA msg (TableExists rpc p)) (\<lambda>found. checkThat (ok found) e)) c"
  by (intro goes_ask[OF asks_wrapA[OF asks_DatabaseExists[OF assms]]] goes_checkThat; simp)
    (intro goes_ask[OF asks_wrapA[OF asks_TableExists[OF assms]]] goes_checkThat; simp)

lemma goes_CreateAndDropDatabase:
  assumes s: "servesCatalog rpc cat" and c: "consistent c"
  shows "goes cat c (runCreateAndDropDatabase rpc env) (withoutDb ''go_e2e_admin_db'' c)"
proof -
  let ?n = "''go_e2e_admin_db''"
  let ?c = "withoutDb ?n c"
  let ?c1 = "?c\<lparr>dbSet := insert ?n (dbSet ?c)\<rparr>"
  note does = goes_operations(1,2)[OF s]
  have 1: "goes cat c (wrapA msg (DropDatabase rpc ?n True True)) ?c" for msg
    by (intro goes_wrapA does(2) dropDb_ignored c)
  have 2: "goes cat ?c (wrapA msg (CreateDatabase rpc ?n json False)) ?c1" for msg json
    by (intro goes_wrapA does(1)) (simp add: catalog_ops)
  have 3: "goes cat ?c1 (bindA (wrapA msg (DatabaseExists rpc ?n)) (\<lambda>found. checkThat found e)) ?c1" for msg e
    using goes_exists(1)[OF s, where ok = "\<lambda>b. b"] by simp
  have 4: "goes cat ?c1 (bindA (wrapA msg (GetDatabaseInfo rpc ?n)) (\<lambda>info.
        checkThat (length (DatabaseJSON info) \<noteq> 0) e)) ?c1" for msg e
    by (rule goes_ask[OF asks_wrapA[OF asks_GetDatabaseInfo[OF s]]]) (simp_all add: goes_checkThat)
  have 5: "goes cat ?c1 (wrapA msg (DropDatabase rpc ?n False True)) ?c" for msg
    using created_dropped(1)[of ?c ?n] c by (intro goes_wrapA does(2)) (simp add: catalog_ops)
  have 6: "goes cat ?c (bindA (wrapA msg (DatabaseExists rpc ?n)) (\<lambda>found. checkThat (\<not> found) e)) ?c" for msg e
    using goes_exists(1)[OF s, where ok = Not] by simp
  show ?thesis unfolding runCreateAndDropDatabase_def Let_def
    by (intro goes_runAll_Cons[OF 1] goes_runAll_Cons[OF 2] goes_runAll_Cons[OF 3] goes_runAll_Cons[OF 4]
        goes_runAll_Cons[OF 5] goes_runAll_Cons[OF 6] goes_runAll_Nil)
qed

lemma goes_CreateAlterAndDropTable:
  assumes s: "servesCatalog rpc cat" and c: "consistent c" and db: "envDatabase env \<in> dbSet c"
  shows "goes cat c (runCreateAlterAndDropTable rpc env)
    (withoutTab \<lparr>DatabaseName = envDatabase env, TableName = ''go_e2e_admin_table''\<rparr> c)"
proof -
  let ?p = "\<lparr>DatabaseName = envDatabase env, TableName = ''go_e2e_admin_table''\<rparr>"
  let ?c = "withoutTab ?p c"
  let ?c1 = "?c\<lparr>tabSet := insert ?p (tabSet ?c)\<rparr>"
  note does = goes_operations(3,4,5)[OF s]
  have 1: "goes cat c (wrapA msg (DropTable rpc ?p True)) ?c" for msg
    by (intro goes_wrapA does(2) dropTab_ignored c)
  have 2: "goes cat ?c (wrapA msg (CreateTable rpc ?p json False)) ?c1" for msg json
    by (intro goes_wrapA does(1)) (simp add: catalog_ops db)
  have 3: "goes cat ?c1 (bindA (wrapA msg (TableExists rpc ?p)) (\<lambda>found. checkThat found e)) ?c1" for msg e
    using goes_exists(2)[OF s, where ok = "\<lambda>b. b"] by simp
  have 4: "goes cat ?c1 (wrapA msg (AlterTable rpc ?p (timeoutChange v) False)) ?c1" for msg v
    by (intro goes_wrapA does(3)) (simp add: catalog_ops)
  have 5: "goes cat ?c1 (bindA (wrapA msg (TableClient_Info rpc ?p)) (\<lambda>info. checkThat (length (TableJSON info) \<noteq> 0) e)) ?c1" for msg e
    by (rule goes_ask[OF asks_wrapA[OF asks_Info[OF s]]]) (simp_all add: goes_checkThat)
  have 6: "goes cat ?c1 (wrapA msg (DropTable rpc ?p False)) ?c" for msg
    using created_dropped(2)[of ?c ?p] c by (intro goes_wrapA does(2)) (simp add: catalog_ops)
  have 7: "goes cat ?c (bindA (wrapA msg (TableExists rpc ?p)) (\<lambda>found. checkThat (\<not> found) e)) ?c" for msg e
    using goes_exists(2)[OF s, where ok = Not] by simp
  show ?thesis unfolding runCreateAlterAndDropTable_def Let_def
    by (intro goes_runAll_Cons[OF 1] goes_runAll_Cons[OF 2] goes_runAll_Cons[OF 3] goes_runAll_Cons[OF 4]
        goes_runAll_Cons[OF 5] goes_runAll_Cons[OF 6] goes_runAll_Cons[OF 7] goes_runAll_Nil)
qed

text \<open>Partitions of one key, as those of the table of the program.\<close>

definition oneKey :: "TablePath \<Rightarrow> catalog \<Rightarrow> bool" where
  "oneKey p c \<longleftrightarrow> (\<forall>x \<in> partSet c. fst x = p \<longrightarrow> length (snd x) = 1)"

lemma oneKey_matching:
  assumes "oneKey p c"
  shows "{s. (p, s) \<in> partSet c \<and> set [(k, v)] \<subseteq> set s} = (if (p, [(k, v)]) \<in> partSet c then {[(k, v)]} else {})"
proof -
  have one: "s = [(k, v)]" if "(p, s) \<in> partSet c" "(k, v) \<in> set s" for s
    using assms that by (cases s) (auto simp: oneKey_def)
  show ?thesis by (auto dest: one)
qed

lemma samePartitionSpec_iff [simp]: "samePartitionSpec a b \<longleftrightarrow> a = b"
proof -
  have "list_all (\<lambda>(g, v). fst g = fst v \<and> snd g = snd v) (zip a b) \<longleftrightarrow> a = b" if "length a = length b"
    using that by (induction a b rule: list_induct2) (auto simp: prod_eq_iff)
  then show ?thesis by (auto simp: samePartitionSpec_def)
qed

lemma goes_PartitionLifecycle:
  assumes s: "servesCatalog rpc cat" and t: "envAdminPartitioned env \<in> tabSet c" and k: "oneKey (envAdminPartitioned env) c"
  shows "goes cat c (runPartitionLifecycle rpc env) (withoutPart (envAdminPartitioned env) [(''pt'', ''2025'')] c)"
proof -
  let ?p = "envAdminPartitioned env" and ?s = "[(''pt'', ''2025'')]"
  let ?c = "withoutPart ?p ?s c"
  let ?c1 = "?c\<lparr>partSet := insert (?p, ?s) (partSet ?c)\<rparr>"
  note does = goes_operations[OF s]
  have t1: "?p \<in> tabSet ?c" "?p \<in> tabSet ?c1" using t by simp_all
  have "oneKey ?p ?c" "oneKey ?p ?c1" using k by (auto simp: oneKey_def)
  from this[THEN oneKey_matching[of _ _ "''pt''" "''2025''"]]
  have m: "{s'. (?p, s') \<in> partSet ?c \<and> set ?s \<subseteq> set s'} = {}" "{s'. (?p, s') \<in> partSet ?c1 \<and> set ?s \<subseteq> set s'} = {?s}"
    by simp_all
  have 1: "goes cat c (wrapA msg (DropPartition rpc ?p (Some ?s) True)) ?c" for msg
    by (intro goes_wrapA does(7) dropPart_ignored t)
  have 2: "goes cat ?c (bindA (wrapA msg (ListPartitionInfos rpc ?p)) (\<lambda>_. liftA (Ok ()))) ?c" for msg
    by (intro goes_ask[OF asks_wrapA[OF asks_ListPartitions[OF s t1(1)]]] goes_return)
  have 3: "goes cat ?c (wrapA msg (CreatePartition rpc ?p (Some ?s) False)) ?c1" for msg
    by (intro goes_wrapA does(6)) (simp add: catalog_ops t)
  have 4: "goes cat ?c1 (bindA (wrapA msg (ListPartitionInfosWithSpec rpc ?p (Some ?s))) (\<lambda>after. runAll
        [checkThat (length after \<noteq> 0) e1, checkThat (list_ex (\<lambda>info. samePartitionSpec (PartitionSpec info) ?s) after) e2])) ?c1"
    for msg e1 e2
    by (intro goes_ask[OF asks_wrapA[OF asks_ListPartitionsWithSpec[OF s t1(2), of ?s, unfolded m]]] goes_checks)
      (auto simp: list_ex_iff dest: image_single)
  have 5: "goes cat ?c1 (wrapA msg (DropPartition rpc ?p (Some ?s) False)) ?c" for msg
    using created_dropped(3)[of ?p ?s ?c] by (intro goes_wrapA does(7)) (simp add: catalog_ops t)
  have 6: "goes cat ?c (bindA (wrapA msg (ListPartitionInfosWithSpec rpc ?p (Some ?s))) (\<lambda>final.
        checkThat (\<not> length final \<noteq> 0) e)) ?c" for msg e
    by (intro goes_ask[OF asks_wrapA[OF asks_ListPartitionsWithSpec[OF s t1(1), of ?s, unfolded m]]] goes_checkThat) simp
  show ?thesis unfolding runPartitionLifecycle_def Let_def
    by (intro goes_runAll_Cons[OF 1] goes_runAll_Cons[OF 2] goes_runAll_Cons[OF 3] goes_runAll_Cons[OF 4]
        goes_runAll_Cons[OF 5] goes_runAll_Cons[OF 6] goes_runAll_Nil)
qed

lemma goes_negativeDatabasePaths:
  assumes s: "servesCatalog rpc cat" and c: "consistent c"
  shows "goes cat c (runAll (negativeDatabasePaths rpc)) (withoutDb ''go_e2e_admin_negative_db'' c)"
proof -
  let ?n = "''go_e2e_admin_negative_db''"
  let ?c = "withoutDb ?n c"
  let ?c1 = "?c\<lparr>dbSet := insert ?n (dbSet ?c)\<rparr>"
  note does = goes_operations(1,2)[OF s] and refused = stops_operations(1,2)[OF s]
  have 1: "goes cat c (wrapA msg (DropDatabase rpc ?n True True)) ?c" for msg
    by (intro goes_wrapA does(2) dropDb_ignored c)
  have 2: "goes cat ?c (expectErr e (DropDatabase rpc ?n False True)) ?c" for e
    by (intro goes_expectErr refused(2)) (simp add: catalog_ops)
  have 3: "goes cat ?c (wrapA msg (DropDatabase rpc ?n True True)) ?c" for msg
    by (intro goes_wrapA does(2)) (simp add: catalog_ops)
  have 4: "goes cat ?c (wrapA msg (CreateDatabase rpc ?n json False)) ?c1" for msg json
    by (intro goes_wrapA does(1)) (simp add: catalog_ops)
  have 5: "goes cat ?c1 (expectErr e (CreateDatabase rpc ?n json False)) ?c1" for e json
    by (intro goes_expectErr refused(1)) (simp add: catalog_ops)
  have 6: "goes cat ?c1 (wrapA msg (CreateDatabase rpc ?n json True)) ?c1" for msg json
    by (intro goes_wrapA does(1)) (simp add: catalog_ops)
  have 7: "goes cat ?c1 (wrapA msg (DropDatabase rpc ?n False True)) ?c" for msg
    using created_dropped(1)[of ?c ?n] c by (intro goes_wrapA does(2)) (simp add: catalog_ops)
  show ?thesis unfolding negativeDatabasePaths_def Let_def
    by (intro goes_runAll_Cons[OF 1] goes_runAll_Cons[OF 2] goes_runAll_Cons[OF 3] goes_runAll_Cons[OF 4]
        goes_runAll_Cons[OF 5] goes_runAll_Cons[OF 6] goes_runAll_Cons[OF 7] goes_runAll_Nil)
qed

lemma goes_negativeTablePaths:
  assumes s: "servesCatalog rpc cat" and c: "consistent c" and db: "DatabaseName p \<in> dbSet c"
  shows "goes cat c (runAll (negativeTablePaths rpc p)) (withoutTab p c)"
proof -
  let ?c = "withoutTab p c"
  let ?c1 = "?c\<lparr>tabSet := insert p (tabSet ?c)\<rparr>"
  note does = goes_operations(3,4,5)[OF s] and refused = stops_operations(3,4,5)[OF s]
  have 1: "goes cat c (wrapA msg (DropTable rpc p True)) ?c" for msg
    by (intro goes_wrapA does(2) dropTab_ignored c)
  have 2: "goes cat ?c (expectErr e (DropTable rpc p False)) ?c" for e
    by (intro goes_expectErr refused(2)) (simp add: catalog_ops)
  have 3: "goes cat ?c (wrapA msg (DropTable rpc p True)) ?c" for msg
    by (intro goes_wrapA does(2)) (simp add: catalog_ops)
  have 4: "goes cat ?c (wrapA msg (CreateTable rpc p json False)) ?c1" for msg json
    by (intro goes_wrapA does(1)) (simp add: catalog_ops db)
  have 5: "goes cat ?c1 (expectErr e (CreateTable rpc p json False)) ?c1" for e json
    by (intro goes_expectErr refused(1)) (simp add: catalog_ops db)
  have 6: "goes cat ?c1 (wrapA msg (CreateTable rpc p json True)) ?c1" for msg json
    by (intro goes_wrapA does(1)) (simp add: catalog_ops db)
  have 7: "goes cat ?c1 (wrapA msg (DropTable rpc p False)) ?c" for msg
    using created_dropped(2)[of ?c p] c by (intro goes_wrapA does(2)) (simp add: catalog_ops)
  have 8: "goes cat ?c (expectErr e (AlterTable rpc p (timeoutChange v) False)) ?c" for e v
    by (intro goes_expectErr refused(3)) (simp add: catalog_ops)
  have 9: "goes cat ?c (wrapA msg (AlterTable rpc p (timeoutChange v) True)) ?c" for msg v
    by (intro goes_wrapA does(3)) (simp add: catalog_ops)
  show ?thesis unfolding negativeTablePaths_def
    by (intro goes_runAll_Cons[OF 1] goes_runAll_Cons[OF 2] goes_runAll_Cons[OF 3] goes_runAll_Cons[OF 4]
        goes_runAll_Cons[OF 5] goes_runAll_Cons[OF 6] goes_runAll_Cons[OF 7] goes_runAll_Cons[OF 8]
        goes_runAll_Cons[OF 9] goes_runAll_Nil)
qed

lemma goes_negativePartitionPaths:
  assumes s: "servesCatalog rpc cat" and t: "p \<in> tabSet c"
  shows "goes cat c (runAll (negativePartitionPaths rpc p)) (withoutPart p [(''pt'', ''2026'')] c)"
proof -
  let ?s = "[(''pt'', ''2026'')]"
  let ?c = "withoutPart p ?s c"
  let ?c1 = "?c\<lparr>partSet := insert (p, ?s) (partSet ?c)\<rparr>"
  note does = goes_operations(6,7)[OF s] and refused = stops_operations(6,7)[OF s]
  have 1: "goes cat c (wrapA msg (DropPartition rpc p (Some ?s) True)) ?c" for msg
    by (intro goes_wrapA does(2) dropPart_ignored t)
  have 2: "goes cat ?c (expectErr e (DropPartition rpc p (Some ?s) False)) ?c" for e
    by (intro goes_expectErr refused(2)) (simp add: catalog_ops)
  have 3: "goes cat ?c (wrapA msg (DropPartition rpc p (Some ?s) True)) ?c" for msg
    by (intro goes_wrapA does(2)) (simp add: catalog_ops t)
  have 4: "goes cat ?c (wrapA msg (CreatePartition rpc p (Some ?s) False)) ?c1" for msg
    by (intro goes_wrapA does(1)) (simp add: catalog_ops t)
  have 5: "goes cat ?c1 (expectErr e (CreatePartition rpc p (Some ?s) False)) ?c1" for e
    by (intro goes_expectErr refused(1)) (simp add: catalog_ops t)
  have 6: "goes cat ?c1 (wrapA msg (CreatePartition rpc p (Some ?s) True)) ?c1" for msg
    by (intro goes_wrapA does(1)) (simp add: catalog_ops t)
  have 7: "goes cat ?c1 (wrapA msg (DropPartition rpc p (Some ?s) False)) ?c" for msg
    using created_dropped(3)[of p ?s ?c] by (intro goes_wrapA does(2)) (simp add: catalog_ops t)
  show ?thesis unfolding negativePartitionPaths_def Let_def
    by (intro goes_runAll_Cons[OF 1] goes_runAll_Cons[OF 2] goes_runAll_Cons[OF 3] goes_runAll_Cons[OF 4]
        goes_runAll_Cons[OF 5] goes_runAll_Cons[OF 6] goes_runAll_Cons[OF 7] goes_runAll_Nil)
qed

subsection \<open>All checks of the admin client\<close>

text \<open>The tables of the program exist, under names of their own, and are all in its database.\<close>

definition bootstrapped :: "environment \<Rightarrow> catalog \<Rightarrow> bool" where
  "bootstrapped env c \<longleftrightarrow> consistent c \<and> envDatabase env \<in> dbSet c \<and> set (envTables env) \<subseteq> tabSet c
     \<and> oneKey (envAdminPartitioned env) c \<and> envDatabase env \<notin> {''go_e2e_admin_db'', ''go_e2e_admin_negative_db''}
     \<and> (\<forall>p \<in> set (envTables env). DatabaseName p = envDatabase env
          \<and> TableName p \<notin> {''go_e2e_admin_table'', ''go_e2e_admin_negative_table''})"

lemma bootstrapped_without:
  assumes "bootstrapped env c"
  shows "name \<noteq> envDatabase env \<Longrightarrow> bootstrapped env (withoutDb name c)"
    and "p \<notin> set (envTables env) \<Longrightarrow> bootstrapped env (withoutTab p c)"
    and "bootstrapped env (withoutPart q s c)"
  using assms by (auto simp: bootstrapped_def oneKey_def withoutDb_def[of _ c] withoutTab_def[of _ c] consistent_def)

lemma goes_listing:
  assumes "servesCatalog rpc cat" and "bootstrapped env c"
  shows "goes cat c (waitForTables ticks rpc (envDatabase env) (map TableName (envTables env))) c"
    and "goes cat c (runListDatabases rpc env) c" and "goes cat c (runDatabaseExists rpc env) c"
    and "goes cat c (runGetDatabaseInfo rpc env) c" and "goes cat c (runListTables rpc env) c"
    and "goes cat c (runTableExists rpc env) c" and "goes cat c (runGetTableInfo rpc env) c"
    and "goes cat c (runGetTableSchema rpc env) c"
proof -
  from assms(2) have db: "envDatabase env \<in> dbSet c" by (simp add: bootstrapped_def)
  have t: "p \<in> tabSet c" "DatabaseName p = envDatabase env" if "p \<in> set (envTables env)" for p
    using assms(2) that by (auto simp: bootstrapped_def)
  have names: "list_all (containsString ts) (map TableName (envTables env))"
    if "set ts = TableName ` {p \<in> tabSet c. DatabaseName p = envDatabase env}" for ts
    using that t by (auto simp: list_all_iff)
  note askTables = asks_ListTables[OF assms(1) db]
  show "goes cat c (waitForTables ticks rpc (envDatabase env) (map TableName (envTables env))) c"
    by (subst waitForTables.simps, rule goes_ask[OF askTables]) (simp add: names goes_return)
  show "goes cat c (runListDatabases rpc env) c"
    unfolding runListDatabases_def by (intro goes_ask[OF asks_wrapA[OF asks_ListDatabases[OF assms(1)]]] goes_return)
  show "goes cat c (runDatabaseExists rpc env) c"
    unfolding runDatabaseExists_def using goes_exists(1)[OF assms(1), where ok = "\<lambda>b. b"] db by simp
  show "goes cat c (runGetDatabaseInfo rpc env) c"
    unfolding runGetDatabaseInfo_def
    by (rule goes_ask[OF asks_wrapA[OF asks_GetDatabaseInfo[OF assms(1) db]]]) (simp add: goes_checkThat)
  show "goes cat c (runListTables rpc env) c"
    unfolding runListTables_def
    by (rule goes_ask[OF asks_wrapA[OF askTables]], rule goes_each)
      (use names in \<open>auto simp: list_all_iff intro!: goes_checkThat\<close>)
  show "goes cat c (runTableExists rpc env) c"
    unfolding runTableExists_def
    by (rule goes_each, rule goes_exists(2)[OF assms(1), where ok = "\<lambda>b. b"]) (rule t)
  show "goes cat c (runGetTableInfo rpc env) c"
    unfolding runGetTableInfo_def
    by (rule goes_each, rule goes_ask[OF asks_wrapA[OF asks_Info[OF assms(1) t(1)]]], assumption, rule goes_checks) simp_all
  show "goes cat c (runGetTableSchema rpc env) c"
    unfolding runGetTableSchema_def
    by (rule goes_each, rule goes_ask[OF asks_wrapA[OF asks_Schema[OF assms(1) t(1)]]], assumption) (simp add: goes_checkThat)
qed

lemma goes_NegativePaths:
  assumes "servesCatalog rpc cat" and "bootstrapped env c"
  shows "goes cat c (runAdminNegativePaths rpc env)
    (withoutPart (envAdminPartitioned env) [(''pt'', ''2026'')]
      (withoutTab \<lparr>DatabaseName = envDatabase env, TableName = ''go_e2e_admin_negative_table''\<rparr>
        (withoutDb ''go_e2e_admin_negative_db'' c)))"
proof -
  let ?c1 = "withoutDb ''go_e2e_admin_negative_db'' c"
  let ?p = "\<lparr>DatabaseName = envDatabase env, TableName = ''go_e2e_admin_negative_table''\<rparr>"
  let ?c2 = "withoutTab ?p ?c1"
  have c: "consistent c" and b1: "bootstrapped env ?c1"
    using assms(2) bootstrapped_without(1)[OF assms(2)] by (auto simp: bootstrapped_def)
  have "?p \<notin> set (envTables env)" using assms(2) by (auto simp: bootstrapped_def)
  from bootstrapped_without(2)[OF b1 this] have "envAdminPartitioned env \<in> tabSet ?c2"
    unfolding bootstrapped_def envTables_def by simp
  moreover have "consistent ?c1" "DatabaseName ?p \<in> dbSet ?c1" using b1 by (auto simp: bootstrapped_def)
  ultimately show ?thesis unfolding runAdminNegativePaths_def
    by (intro goes_runAll_append[OF goes_negativeDatabasePaths[OF assms(1) c]]
        goes_runAll_append[OF goes_negativeTablePaths[OF assms(1)]] goes_negativePartitionPaths[OF assms(1)])
qed

end
