(* ===== verification/Demo_Data.thy ===== *)
theory Demo_Data
  imports Demo_Admin
begin

text \<open>
  The checks of the end-to-end program on rows, and the program itself
  (\<open>demo/fluss-paimon/go-e2e/main.go\<close>). The record \<open>cluster\<close> collects what the client is
  run with: the network, the orders in which Go maps are walked, the JSON decoders of the
  descriptors, the rational parser, the Arrow library, the snapshot database, the platform, the
  number of ticks before the context is done, and the text of floats and maps.
\<close>

record ('w, 'd, 'm, 'p, 'r) cluster =
  rpcOf :: "'w network"
  batchOrder :: batch_order
  lookupOrder :: lookup_order
  fetchOrder :: "FetchBucketRequest groups \<Rightarrow> FetchBucketRequest groups"
  tableDecoder :: unmarshal_table
  schemaDecoder :: unmarshal_schema
  ratParser :: rat_parser
  arrowLibrary :: "('d, 'm, 'p, 'r) arrowLib"
  openDBOf :: "string \<Rightarrow> 'w \<Rightarrow> snapshotDB res \<times> 'w"
  osOf :: "'w platform"
  tickCount :: nat
  otherText :: "gval \<Rightarrow> bytes"

subsection \<open>Writing one row and comparing rows\<close>

text \<open>A write must not fail and must return one result.\<close>

definition writeOne :: "string \<Rightarrow> string \<Rightarrow> ('w, write_outcome) act \<Rightarrow> ('w, WriteResult) act" where
  "writeOne failed counted m = bindA m (\<lambda>(results, err). liftA (case err of
      Some e \<Rightarrow> Fail (Wrapf failed e)
    | None \<Rightarrow> (case results of [r] \<Rightarrow> Ok r | _ \<Rightarrow> Fail (Errf counted))))"

definition writeAny :: "string \<Rightarrow> ('w, write_outcome) act \<Rightarrow> ('w, unit) act" where
  "writeAny failed m = bindA m (\<lambda>(results, err). liftA (case err of
      Some e \<Rightarrow> Fail (Wrapf failed e) | None \<Rightarrow> Ok ()))"

definition writeRows :: "string \<Rightarrow> string \<Rightarrow> (Row \<Rightarrow> ('w, write_outcome) act) \<Rightarrow> Row list \<Rightarrow> ('w, unit) act" where
  "writeRows failed counted write rows =
     runAll (map (\<lambda>row. bindA (writeOne failed counted (write row)) (\<lambda>_. liftA (Ok ()))) rows)"

fun compareRows :: "(gval list \<Rightarrow> gval list \<Rightarrow> bool res) \<Rightarrow> string \<Rightarrow> gval list list \<Rightarrow> gval list list \<Rightarrow> unit res" where
  "compareRows eq msg (g # got) (v # want) =
     andThen (eq g v) (\<lambda>same. if same then compareRows eq msg got want else Fail (Errf msg))"
| "compareRows eq msg _ _ = Ok ()"

subsection \<open>Log tables\<close>

definition orderSchema :: Schema where
  "orderSchema = NewSchema [Int64Type, Int32Type, Float64Type, StringType]"

definition logDemoRows :: "gval list list" where
  "logDemoRows =
     [[VInt64 2001, VInt32 101, VFloat64 0x4033F33333333333, VString (lit ''created'')],
      [VInt64 2002, VInt32 102, VFloat64 0x403D800000000000, VString (lit ''packed'')],
      [VInt64 2003, VInt32 103, VFloat64 0x4043A00000000000, VString (lit ''shipped'')]]"

definition runLogAppendAndLimitScan :: "('w, 'd, 'm, 'p, 'r) cluster \<Rightarrow> environment \<Rightarrow> ('w, unit) act" where
  "runLogAppendAndLimitScan c env =
     bindA (liftA (mustRows orderSchema logDemoRows)) (\<lambda>rows.
     bindA (writeRows ''append log row %d: %w'' ''append log row %d: unexpected result count %d''
         (AppendIndexedRow (rpcOf c) (batchOrder c) (ratParser c) (envLogTable env) 0) rows) (\<lambda>_.
     bindA (wrapA ''limit scan log table: %w''
         (LimitScan (rpcOf c) (envLogTable env) None 0 (word_of_nat (length rows)))) (\<lambda>limitResult.
     if \<not> IsLogTable limitResult then liftA (Fail (Errf ''limit scan log table: expected log-table result''))
     else bindA (liftA (wrapErr ''decode log limit scan: %w''
         (DecodeIndexedLogBatchRows orderSchema (LimitRecords limitResult)))) (\<lambda>decoded.
     liftA (if length decoded \<noteq> length rows then Fail (Errf ''limit scan log table: got %d rows, want %d'')
       else compareRows rowsEqual ''limit scan log row %d: got %v, want %v'' decoded (map RowValues rows))))))"

definition arrowDemoRows :: "gval list list" where
  "arrowDemoRows =
     [[VInt64 4001, VInt32 201, VFloat64 0x4026800000000000, VString (lit ''created'')],
      [VInt64 4002, VInt32 202, VFloat64 0x4036800000000000, VString (lit ''packed'')]]"

text \<open>The part of the Arrow check that reads and compares: the first rows of one bucket.\<close>

definition compareFetched :: "string list \<Rightarrow> (bytes \<Rightarrow> gval list list res) \<Rightarrow> gval list list \<Rightarrow>
    FetchedBucket list \<Rightarrow> unit res" where
  "compareFetched texts decode want fetched = (case fetched of
      [f] \<Rightarrow> andThen (wrapErr (texts ! 1) (decode (FetchedRecords f))) (\<lambda>decoded.
        if length decoded < length want then Fail (Errf (texts ! 2))
        else compareRows rowsEqual (texts ! 3) (take (length want) decoded) want)
    | _ \<Rightarrow> Fail (Errf (texts ! 0)))"

definition runArrowLogAppendFetchAndProjection :: "('w, 'd, 'm, 'p, 'r) cluster \<Rightarrow> environment \<Rightarrow> ('w, unit) act" where
  "runArrowLogAppendFetchAndProjection c env =
     bindA (liftA (mustRows orderSchema arrowDemoRows)) (\<lambda>rows.
     bindA (writeOne ''append arrow rows: %w'' ''append arrow rows: unexpected result count %d''
         (AppendArrowRows (rpcOf c) (batchOrder c) (arrowLibrary c) (tableDecoder c) (envArrowTable env) 0 rows)) (\<lambda>result.
     let req = \<lparr>FetchPartitionID = None, FetchBucketID = 0, FetchOffset = ResOffset result, MaxFetchBytes = 4096\<rparr> in
     bindA (wrapA ''fetch arrow log rows: %w''
         (FetchLog (rpcOf c) (fetchOrder c) (envArrowTable env) (- 1) 4096 None None [req])) (\<lambda>fetched.
     bindA (liftA (compareFetched
         [''fetch arrow log rows: unexpected bucket count %d'', ''decode fetched arrow log rows: %w'',
          ''fetch arrow log rows: got %d rows, want at least %d'', ''fetch arrow row %d: got %v, want %v'']
         (DecodeArrowLogBatchRows (arrowLibrary c) orderSchema) (map RowValues rows) fetched)) (\<lambda>_.
     bindA (wrapA ''fetch projected arrow log rows: %w''
         (FetchLogWithOptions (rpcOf c) (fetchOrder c) (envArrowTable env) (- 1) 4096 None None [req]
            \<lparr>ProjectedFields = [0, 3]\<rparr>)) (\<lambda>projected.
     liftA (compareFetched
         [''fetch projected arrow log rows: unexpected bucket count %d'', ''decode projected arrow log rows: %w'',
          ''projected arrow log rows: got %d rows, want at least %d'', ''projected arrow row %d: got %v, want %v'']
         (DecodeProjectedArrowLogBatchRows (arrowLibrary c) (NewSchema [Int64Type, StringType]))
         (map (\<lambda>r. [RowValues r ! 0, RowValues r ! 3]) rows) projected))))))"

definition allTypesSchema :: Schema where
  "allTypesSchema = NewSchema
     [Int64Type, BoolType, Int8Type, Int16Type, Int32Type, Int64Type, Float32Type, Float64Type, StringType,
      BytesType, DecimalType 10 2, DateType, TimeType, TimestampNtzType 6, TimestampLtzType 6,
      ArrayType Int32Type, MapType StringType Int64Type, RowType [StringType, Int32Type, ArrayType StringType]]"

definition allTypesRow :: "Decimal \<Rightarrow> gval list" where
  "allTypesRow d =
     [VInt64 3001, VBool True, VInt8 7, VInt16 70, VInt32 700, VInt64 7000, VFloat32 0x40E80000,
      VFloat64 0x4051A00000000000, VString (lit ''typed-event''), VBytes (lit ''payload''), VDecimal d,
      VInt32 20000, VInt32 3723000,
      VTimestampNtz \<lparr>Millisecond = 1717000000123, NtzNanos = 456789\<rparr>,
      VTimestampLtz \<lparr>EpochMillisecond = 1717000000456, LtzNanos = 123456\<rparr>,
      VSlice [VInt32 3, VInt32 5, VInt32 8],
      VMap [(VString (lit ''alpha''), VInt64 1), (VString (lit ''beta''), VInt64 2)],
      VSlice [VString (lit ''note''), VInt32 9, VSlice [VString (lit ''x''), VString (lit ''y'')]]]"

definition runAllTypesAppendAndLimitScan :: "('w, 'd, 'm, 'p, 'r) cluster \<Rightarrow> environment \<Rightarrow> ('w, unit) act" where
  "runAllTypesAppendAndLimitScan c env =
     bindA (liftA (mustDecimal (ratParser c) (lit ''123.45'') 10 2)) (\<lambda>d.
     bindA (liftA (mustRows allTypesSchema [allTypesRow d])) (\<lambda>rows.
     bindA (writeRows ''append all-types row %d: %w'' ''append all-types row %d: unexpected result count %d''
         (AppendIndexedRow (rpcOf c) (batchOrder c) (ratParser c) (envTypesTable env) 0) rows) (\<lambda>_.
     bindA (wrapA ''limit scan all-types table: %w''
         (LimitScan (rpcOf c) (envTypesTable env) None 0 (word_of_nat (length rows)))) (\<lambda>limitResult.
     if \<not> IsLogTable limitResult then liftA (Fail (Errf ''limit scan all-types table: expected log-table result''))
     else bindA (liftA (wrapErr ''decode all-types log rows: %w''
         (DecodeIndexedLogBatchRows allTypesSchema (LimitRecords limitResult)))) (\<lambda>decoded.
     liftA (if length decoded \<noteq> length rows then Fail (Errf ''limit scan all-types table: got %d rows, want %d'')
       else compareRows deepRowsEqual ''all-types row %d: got %v, want %v'' decoded (map RowValues rows)))))))"

subsection \<open>Key-value tables\<close>

definition customerSchema :: Schema where
  "customerSchema = NewSchema [Int64Type, StringType, StringType]"

definition customerFields :: "string list" where
  "customerFields = [''customer_id'', ''customer_name'', ''customer_tier'']"

definition customer :: "int64 \<Rightarrow> string \<Rightarrow> string \<Rightarrow> gval list" where
  "customer i name tier = [VInt64 i, VString (lit name), VString (lit tier)]"

definition runPrimaryKeyUpsertAndLookup :: "('w, 'd, 'm, 'p, 'r) cluster \<Rightarrow> environment \<Rightarrow> ('w, unit) act" where
  "runPrimaryKeyUpsertAndLookup c env =
     bindA (liftA (mustRows customerSchema
         [customer 42 ''Ada Lovelace'' ''gold'', customer 43 ''Grace Hopper'' ''platinum''])) (\<lambda>rows.
     bindA (writeRows ''upsert kv row %d: %w'' ''upsert kv row %d: unexpected result count %d''
         (\<lambda>row. UpsertRow (rpcOf c) (batchOrder c) (tableDecoder c) (ratParser c) (envKvTable env) 0 row []) rows) (\<lambda>_.
     bindA (wrapA ''lookup kv rows: %w''
         (LookupRows (rpcOf c) (lookupOrder c) (tableDecoder c) (ratParser c) (envKvTable env) 0 customerSchema rows [0])) (\<lambda>got.
     liftA (if length got \<noteq> length rows then Fail (Errf ''lookup kv rows: got %d rows, want %d'')
       else compareRows rowsEqual ''lookup kv row %d: got %v, want %v'' (map (getOr []) got) (map RowValues rows)))))"

definition runPrimaryKeyPartialUpdate :: "('w, 'd, 'm, 'p, 'r) cluster \<Rightarrow> environment \<Rightarrow> ('w, unit) act" where
  "runPrimaryKeyPartialUpdate c env =
     bindA (liftA (mustRows customerSchema [[VInt64 42, VNil, VString (lit ''diamond'')]])) (\<lambda>rows.
     bindA (liftA (goindex rows 0)) (\<lambda>row.
     bindA (writeOne ''partial update kv row: %w'' ''partial update kv row: unexpected result count %d''
         (PartialUpdateRow (rpcOf c) (batchOrder c) (tableDecoder c) (ratParser c) (envKvTable env) 0 row [0, 2])) (\<lambda>_.
     bindA (wrapA ''lookup partial-update row: %w''
         (LookupRow (rpcOf c) (lookupOrder c) (tableDecoder c) (ratParser c) (envKvTable env) 0 customerSchema row [0])) (\<lambda>found.
     liftA (compareRows rowsEqual ''lookup partial-update row: got %v, want %v''
       [getOr [] found] [customer 42 ''Ada Lovelace'' ''diamond''])))))"

definition runPrimaryKeyDelete :: "('w, 'd, 'm, 'p, 'r) cluster \<Rightarrow> environment \<Rightarrow> ('w, unit) act" where
  "runPrimaryKeyDelete c env =
     bindA (liftA (mustRows customerSchema [customer 99 ''Delete Me'' ''silver''])) (\<lambda>rows.
     bindA (liftA (goindex rows 0)) (\<lambda>row.
     bindA (writeAny ''seed delete row: %w''
         (UpsertRow (rpcOf c) (batchOrder c) (tableDecoder c) (ratParser c) (envKvTable env) 0 row [])) (\<lambda>_.
     bindA (writeAny ''delete row: %w''
         (DeleteRow (rpcOf c) (batchOrder c) (tableDecoder c) (ratParser c) (envKvTable env) 0 row [])) (\<lambda>_.
     bindA (wrapA ''lookup deleted row: %w''
         (LookupRow (rpcOf c) (lookupOrder c) (tableDecoder c) (ratParser c) (envKvTable env) 0 customerSchema row [0])) (\<lambda>found.
     checkThat (found = None) ''lookup deleted row: got %v, want nil'')))))"

definition asDecoded :: "string list \<Rightarrow> gval list list \<Rightarrow> decodedRow list" where
  "asDecoded names rows = map (\<lambda>v. \<lparr>rowFields = names, rowValues = v\<rparr>) rows"

definition wantedCustomers :: "gval list list" where
  "wantedCustomers = [customer 42 ''Ada Lovelace'' ''diamond'', customer 43 ''Grace Hopper'' ''platinum'']"

definition runPrimaryKeyLimitScan :: "('w, 'd, 'm, 'p, 'r) cluster \<Rightarrow> environment \<Rightarrow> ('w, unit) act" where
  "runPrimaryKeyLimitScan c env =
     bindA (wrapA ''limit scan kv table: %w''
         (LimitScan (rpcOf c) (envKvTable env) None 0 (word_of_nat (length wantedCustomers)))) (\<lambda>limitResult.
     if IsLogTable limitResult then liftA (Fail (Errf ''limit scan kv table: expected primary-key-table result''))
     else bindA (liftA (wrapErr ''decode kv limit scan: %w'' (DecodeLimitScanRows customerSchema limitResult False))) (\<lambda>decoded.
     checkThat (sameDecodedRowSet (otherText c) (asDecoded customerFields decoded) (asDecoded customerFields wantedCustomers))
       ''limit scan kv rows: got %v, want %v''))"

text \<open>The storage settings of the program: those of its \<open>Config\<close>.\<close>

definition demoStorage :: StorageConfig where
  "demoStorage = \<lparr>S3Endpoint = ''rustfs:9000'', S3AccessKey = ''flussadmin'', S3SecretKey = ''flussadmin'',
     S3Region = ''us-east-1'', S3UseSSL = False, S3PathStyle = True, S3BucketOverride = ''''\<rparr>"

definition runPrimaryKeySnapshotBatchScan :: "('w, 'd, 'm, 'p, 'r) cluster \<Rightarrow> environment \<Rightarrow> ('w, unit) act" where
  "runPrimaryKeySnapshotBatchScan c env =
     bindA (wrapA ''wait for kv snapshot: %w''
         (waitForLatestKVSnapshot (tickCount c) (rpcOf c) (envKvTable env) 0)) (\<lambda>snapshotID.
     bindA (wrapA ''snapshot scan kv table: %w''
         (SnapshotScanRows (rpcOf c) (tableDecoder c) (schemaDecoder c) (openDBOf c) (osOf c) None demoStorage (envKvTable env)
           customerSchema \<lparr>OptPartitionName = None, OptPartitionID = None, OptBucketID = 0,
             OptSnapshotID = Some snapshotID, OptTargetColumns = []\<rparr>)) (\<lambda>rows.
     checkThat (sameDecodedRowSet (otherText c) (asDecoded customerFields rows) (asDecoded customerFields wantedCustomers))
       ''snapshot scan kv rows: got %v, want %v''))"

definition prefixSchema :: Schema where
  "prefixSchema = NewSchema [Int64Type, StringType, Int64Type, StringType]"

definition prefixFields :: "string list" where
  "prefixFields = [''customer_id'', ''customer_name'', ''order_id'', ''order_status'']"

definition prefixDemoRows :: "gval list list" where
  "prefixDemoRows =
     [[VInt64 1, VString (lit ''aaaaaaaaa''), VInt64 9001, VString (lit ''pending'')],
      [VInt64 1, VString (lit ''aaaaaaaaa''), VInt64 9002, VString (lit ''packed'')],
      [VInt64 2, VString (lit ''aaaaaaaaa''), VInt64 9003, VString (lit ''shipped'')]]"

fun decodePrefixPayloads :: "Schema \<Rightarrow> bytes list \<Rightarrow> gval list list res" where
  "decodePrefixPayloads schema [] = Ok []"
| "decodePrefixPayloads schema (p # ps) =
     andThen (wrapErr ''decode prefix lookup %d: %w'' (DecodeLookupValuePayload schema p False)) (\<lambda>vals.
       mapRes ((#) vals) (decodePrefixPayloads schema ps))"

definition runPrimaryKeyPrefixLookup :: "('w, 'd, 'm, 'p, 'r) cluster \<Rightarrow> environment \<Rightarrow> ('w, unit) act" where
  "runPrimaryKeyPrefixLookup c env =
     bindA (liftA (mustRows prefixSchema prefixDemoRows)) (\<lambda>rows.
     bindA (writeRows ''upsert prefix row %d: %w'' ''upsert prefix row %d: unexpected result count %d''
         (\<lambda>row. UpsertRow (rpcOf c) (batchOrder c) (tableDecoder c) (ratParser c) (envPrefixTable env) 0 row []) rows) (\<lambda>_.
     bindA (liftA (wrapErr ''encode prefix key: %w'' (EncodeLookupKey (ratParser c) (rows ! 0) [0, 1]))) (\<lambda>prefixPayload.
     bindA (wrapA ''prefix lookup: %w'' (PrefixLookup (rpcOf c) (lookupOrder c) (envPrefixTable env)
         [\<lparr>ReqPartitionID = None, ReqBucketID = 0, ReqKeys = [prefixPayload]\<rparr>])) (\<lambda>result.
     if length result \<noteq> 1 \<or> length (PrefixValues (result ! 0)) \<noteq> 1
     then liftA (Fail (Errf ''prefix lookup: unexpected result %#v''))
     else bindA (liftA (decodePrefixPayloads prefixSchema (PrefixValues (result ! 0) ! 0))) (\<lambda>decoded.
     checkThat (sameDecodedRowSet (otherText c) (asDecoded prefixFields decoded)
         (asDecoded prefixFields [RowValues (rows ! 0), RowValues (rows ! 1)]))
       ''prefix lookup rows: got %v, want %v'')))))"

subsection \<open>The program\<close>

definition demoEnvironment :: "(string \<Rightarrow> string) \<Rightarrow> environment" where
  "demoEnvironment environ =
     (let db = getenv environ ''FLUSS_DATABASE'' ''fluss'';
          tab = (\<lambda>k fallback. \<lparr>DatabaseName = db, TableName = getenv environ k fallback\<rparr>) in
      \<lparr>envDatabase = db,
       envLogTable = tab ''FLUSS_LOG_TABLE'' ''e2e_orders'',
       envArrowTable = tab ''FLUSS_ARROW_LOG_TABLE'' ''e2e_orders_arrow'',
       envKvTable = tab ''FLUSS_KV_TABLE'' ''e2e_customers'',
       envPrefixTable = tab ''FLUSS_PREFIX_TABLE'' ''e2e_customer_orders'',
       envTypesTable = tab ''FLUSS_TYPES_TABLE'' ''e2e_all_types'',
       envAdminPartitioned = tab ''FLUSS_ADMIN_PARTITION_TABLE'' ''e2e_admin_partitions''\<rparr>)"

definition demoConfig :: "(string \<Rightarrow> string) \<Rightarrow> Config" where
  "demoConfig environ = \<lparr>Endpoints = [getenv environ ''FLUSS_BOOTSTRAP'' ''coordinator-server:9123''],
     ClientSoftwareName = '''', ClientSoftwareVersion = '''', DialTimeout = 0, RequestTimeout = 0,
     Authenticator = None, Dialer = None, Config.S3Region = StorageConfig.S3Region demoStorage\<rparr>"

definition demoChecks :: "('w, 'd, 'm, 'p, 'r) cluster \<Rightarrow> (string \<times> string \<times> (environment \<Rightarrow> ('w, unit) act)) list" where
  "demoChecks c =
     [(''Admin'', ''ListDatabases'', runListDatabases (rpcOf c)),
      (''Admin'', ''DatabaseExists'', runDatabaseExists (rpcOf c)),
      (''Admin'', ''GetDatabaseInfo'', runGetDatabaseInfo (rpcOf c)),
      (''Admin'', ''CreateAndDropDatabase'', runCreateAndDropDatabase (rpcOf c)),
      (''Admin'', ''ListTables'', runListTables (rpcOf c)),
      (''Admin'', ''TableExists'', runTableExists (rpcOf c)),
      (''Admin'', ''GetTableInfo'', runGetTableInfo (rpcOf c)),
      (''Admin'', ''GetTableSchema'', runGetTableSchema (rpcOf c)),
      (''Admin'', ''CreateAlterAndDropTable'', runCreateAlterAndDropTable (rpcOf c)),
      (''Admin'', ''PartitionLifecycle'', runPartitionLifecycle (rpcOf c)),
      (''Admin'', ''NegativePaths'', runAdminNegativePaths (rpcOf c)),
      (''Data Operations'', ''LogAppendAndLimitScan'', runLogAppendAndLimitScan c),
      (''Data Operations'', ''ArrowLogAppendFetchAndProjection'', runArrowLogAppendFetchAndProjection c),
      (''Data Operations'', ''AllTypesAppendAndLimitScan'', runAllTypesAppendAndLimitScan c),
      (''Data Operations'', ''PrimaryKeyUpsertAndLookup'', runPrimaryKeyUpsertAndLookup c),
      (''Data Operations'', ''PrimaryKeyPartialUpdate'', runPrimaryKeyPartialUpdate c),
      (''Data Operations'', ''PrimaryKeyLimitScan'', runPrimaryKeyLimitScan c),
      (''Data Operations'', ''PrimaryKeySnapshotBatchScan'', runPrimaryKeySnapshotBatchScan c),
      (''Data Operations'', ''PrimaryKeyDelete'', runPrimaryKeyDelete c),
      (''Data Operations'', ''PrimaryKeyPrefixLookup'', runPrimaryKeyPrefixLookup c)]"

text \<open>The program ends with the first error, through \<open>fatalf\<close>.\<close>

definition demoMain :: "(string \<Rightarrow> string) \<Rightarrow> ('w, 'd, 'm, 'p, 'r) cluster \<Rightarrow> 'w \<Rightarrow> unit res \<times> 'w world" where
  "demoMain environ c n =
     (let env = demoEnvironment environ in
      case Dial (rpcOf c) (demoConfig environ) n of
        (Ok _, w) \<Rightarrow> runAll
          (wrapA ''wait for bootstrap tables: %v''
             (waitForTables (tickCount c) (rpcOf c) (envDatabase env) (map TableName (envTables env)))
           # map (\<lambda>(section, name, check). wrapA ''%s/%s: %v'' (check env)) (demoChecks c)) w
      | (Fail e, w) \<Rightarrow> (Fail (Wrapf ''dial fluss: %v'' e), w)
      | (Panic, w) \<Rightarrow> (Panic, w))"

end
