(* ===== verification/Demo_Data_Laws.thy ===== *)
theory Demo_Data_Laws
  imports Demo_Data Kv_Table
begin

text \<open>
  The row checks of the end-to-end program on servers that store what they are sent: the
  steps they share, and what each check leaves in the table.
\<close>

subsection \<open>Steps of the checks\<close>

abbreviation rowsOf :: "Schema \<Rightarrow> gval list list \<Rightarrow> Row list" where
  "rowsOf schema vs \<equiv> map (\<lambda>v. \<lparr>RowSchema = schema, RowValues = v\<rparr>) vs"

lemma mustRows_ok:
  "SchemaValidate schema = Ok () \<Longrightarrow> list_all (\<lambda>v. length v = length schema) vs \<Longrightarrow> mustRows schema vs = Ok (rowsOf schema vs)"
  by (induction vs) (simp_all add: NewRow_def)

lemma map_RowValues [simp]: "map RowValues (rowsOf schema vs) = vs"
  by (induction vs) simp_all

lemma writeRows_simps:
  "writeRows failed counted write [] w = (Ok (), w)"
  "write row w = (Ok ([r], None), w1) \<Longrightarrow> writeRows failed counted write (row # rows) w = writeRows failed counted write rows w1"
  by (simp_all add: writeRows_def runAll_def writeOne_def bindA_def)

text \<open>Values that Go compares without a panic and finds equal to themselves.\<close>

definition selfEqual :: "gval \<Rightarrow> bool" where
  "selfEqual v \<longleftrightarrow> ifaceEq v v = Ok True"

lemma valuesEqual_refl: "list_all (\<lambda>v. eq v v = Ok True) vs \<Longrightarrow> valuesEqual eq vs vs = Ok True"
  by (induction vs) simp_all

lemma compareRows_refl:
  "(\<And>v. v \<in> set rows \<Longrightarrow> eq v v = Ok True) \<Longrightarrow> compareRows eq msg rows rows = Ok ()"
  by (induction rows) simp_all

lemma rowsEqual_refl: "list_all selfEqual vs \<Longrightarrow> rowsEqual vs vs = Ok True"
  unfolding selfEqual_def[abs_def] by (simp add: rowsEqual_def valuesEqual_refl)

lemma selfEqual_simps [simp]:
  "selfEqual VNil" "selfEqual (VInt64 x)" "selfEqual (VInt32 y)" "selfEqual (VString s)"
  by (simp_all add: selfEqual_def ifaceEq_def)

lemma selfEqual_float64 [simp]: "selfEqual (VFloat64 f) \<longleftrightarrow> (take_bit 63 f :: 64 word) \<le> 0x7FF0000000000000"
  by (simp add: selfEqual_def ifaceEq_def float64Eq_def)

subsection \<open>Customers\<close>

lemma customer_values [simp]: "length (customer i a b) = 3" "list_all selfEqual (customer i a b)"
  by (simp_all add: customer_def)

lemma customer_schema:
  "SchemaValidate customerSchema = Ok ()" "length customerSchema = 3" "rowFormat indexed customerSchema"
  by (simp_all add: customerSchema_def NewSchema_def SchemaValidate_def type_constructors rowFormat_def compactable_def)

lemma customer_rows: "mustRows customerSchema vs = Ok (rowsOf customerSchema vs)" if "list_all (\<lambda>v. length v = 3) vs"
  using that by (intro mustRows_ok) (simp_all add: customer_schema)

text \<open>A row of the table whose key is below 128; a column that is not written is nil.\<close>

definition textValue :: "string option \<Rightarrow> gval" where
  "textValue a = (case a of None \<Rightarrow> VNil | Some s \<Rightarrow> VString (lit s))"

definition partialCustomer :: "int64 \<Rightarrow> string option \<Rightarrow> string option \<Rightarrow> gval list" where
  "partialCustomer i a b = [VInt64 i, textValue a, textValue b]"

lemma customer_partial: "customer i a b = partialCustomer i (Some a) (Some b)"
  by (simp add: customer_def partialCustomer_def textValue_def)

lemma length_lit [simp]: "length (lit s) = length s"
  by (simp add: lit_def)

lemma length_prefixed: "length (encodeLengthPrefixedBytes s ix) \<le> length s + 10"
  by (auto simp: encodeLengthPrefixedBytes_def encodeSignedVarint32_def length_putUvarint)

lemma length_varint64: "length (encodeSignedVarint64 v) \<le> 10"
  by (simp add: encodeSignedVarint64_def length_putUvarint)

lemma customer_length:
  assumes "encodeRow rp customerSchema (partialCustomer i a b) indexed = Ok enc"
  shows "length enc \<le> 60 + length (getOr [] a) + length (getOr [] b)"
proof -
  have p: "length (encodeLengthPrefixedBytes (lit s) indexed) \<le> length s + 10" for s
    using length_prefixed[of "lit s"] by simp
  have n: "length (setNullBit nb k) = length nb" for nb k
    by (simp add: setNullBit_def)
  show ?thesis
    using assms length_varint64[of i] p[of "getOr [] a"] p[of "getOr [] b"]
    by (cases a; cases b; cases indexed)
      (auto simp: customerSchema_def NewSchema_def partialCustomer_def textValue_def type_constructors coerce_simps
        SchemaValidate_def nullBitsSize_def IsFixed_def goindex_def n)
qed

lemma customer_key:
  "unat i < 128 \<Longrightarrow> EncodeLookupKey rp \<lparr>RowSchema = customerSchema, RowValues = partialCustomer i a b\<rparr> [0] = Ok [ucast i]"
  by (simp add: customerSchema_def NewSchema_def partialCustomer_def EncodeLookupKey_def type_constructors
      encodeCompactedKeyValue_def coerce_simps goindex_def encodeSignedVarint64_def putUvarint_def putUvarintNat.simps)

lemma customer_conforms: "conformsRow customerSchema (partialCustomer i a b)"
  by (cases a; cases b)
    (simp_all add: customerSchema_def NewSchema_def partialCustomer_def textValue_def type_constructors)

lemma customer_keyed:
  assumes "unat i < 128" and "length (getOr [] a) + length (getOr [] b) < 2 ^ 31"
  shows "keyedRow rp customerSchema [0] indexed (partialCustomer i a b) [ucast i]"
proof -
  from encodeRow_total[OF customer_schema(1) customer_conforms] obtain enc where
    enc: "encodeRow rp customerSchema (partialCustomer i a b) indexed = Ok enc" by blast
  with customer_length[OF enc] customer_key[OF assms(1)] customer_conforms assms(2) show ?thesis
    by (auto simp: keyedRow_def simp del: encodeRow.simps)
qed

subsection \<open>The table of the customers\<close>

text \<open>
  A table in the cache with the route of its bucket, its key columns and format, and the orders
  of Go maps; the table of a world is what its bucket stores.
\<close>

definition tableReady :: "('w, 'd, 'm, 'p, 'r) cluster \<Rightarrow> TablePath \<Rightarrow> int list \<Rightarrow> TableInfo \<Rightarrow> bool \<Rightarrow> 'w world \<Rightarrow> bool" where
  "tableReady c path ks info indexed w \<longleftrightarrow> Table (cache w) path = Some info
     \<and> kvTable (tableDecoder c) info ks indexed \<and> (\<exists>node. routeFor (cache w) (TableID info) None 0 = Ok node)
     \<and> (\<forall>gs. mset (batchOrder c gs) = mset gs) \<and> (\<forall>gs. mset (lookupOrder c gs) = mset gs)"

lemma tableReady_net [simp]: "tableReady c path ks info indexed (w\<lparr>net := n\<rparr>) = tableReady c path ks info indexed w"
  by (simp add: tableReady_def)

definition kvReady :: "('w, 'd, 'm, 'p, 'r) cluster \<Rightarrow> environment \<Rightarrow> TableInfo \<Rightarrow> bool \<Rightarrow> 'w world \<Rightarrow> bool" where
  "kvReady c env info indexed w \<longleftrightarrow> tableReady c (envKvTable env) [0] info indexed w"

lemma net_twice: "w\<lparr>net := n\<rparr>\<lparr>net := n'\<rparr> = w\<lparr>net := n'\<rparr>"
  by simp

lemma kvReady_net [simp]: "kvReady c env info indexed (w\<lparr>net := n\<rparr>) = kvReady c env info indexed w"
  by (simp add: kvReady_def)

definition customersOf where
  "customersOf c kv info indexed n content \<longleftrightarrow>
     kvRows (ratParser c) customerSchema indexed (ucast (SchemaID info)) (kv n 0) content"

lemma kv_op:
  assumes "kvReady c env info indexed w" and "storesKv (rpcOf c) (TableID info) kv"
    and "keyedRow (ratParser c) customerSchema [0] indexed (rowOf x) key"
    and "customersOf c kv info indexed (net w) content"
  shows "\<exists>r n'. runOp (rpcOf c) (batchOrder c) (tableDecoder c) (ratParser c) (envKvTable env) 0 customerSchema x w
      = (Ok ([r], None), w\<lparr>net := n'\<rparr>) \<and> customersOf c kv info indexed n' (applyOp key x content)"
proof -
  from assms(1) obtain node where r: "Table (cache w) (envKvTable env) = Some info" "kvTable (tableDecoder c) info [0] indexed"
    "routeFor (cache w) (TableID info) None 0 = Ok node" and o: "\<And>gs. mset (batchOrder c gs) = mset gs"
    by (auto simp: kvReady_def tableReady_def)
  from run_op[OF r o assms(2,3) assms(4)[unfolded customersOf_def]] show ?thesis unfolding customersOf_def by blast
qed

lemma kv_lookup:
  assumes "kvReady c env info indexed w" and "storesKv (rpcOf c) (TableID info) kv"
    and "customersOf c kv info indexed (net w) content" and "encodeKeys (ratParser c) [0] rows = Ok keys"
  shows "\<exists>n'. LookupRows (rpcOf c) (lookupOrder c) (tableDecoder c) (ratParser c) (envKvTable env) 0 customerSchema rows [0] w
      = (Ok (map content keys), w\<lparr>net := n'\<rparr>) \<and> customersOf c kv info indexed n' content"
proof -
  from assms(1) obtain node where r: "Table (cache w) (envKvTable env) = Some info" "kvTable (tableDecoder c) info [0] indexed"
    "routeFor (cache w) (TableID info) None 0 = Ok node" and o: "\<And>gs. mset (lookupOrder c gs) = mset gs"
    by (auto simp: kvReady_def tableReady_def)
  from lookup_rows[where ord = "lookupOrder c", OF r o assms(2) customer_schema(3) assms(3)[unfolded customersOf_def] assms(4)]
  show ?thesis unfolding customersOf_def using assms(3) by (auto simp: customersOf_def)
qed

lemma encode_keys:
  "list_all2 (\<lambda>v key. EncodeLookupKey rp \<lparr>RowSchema = schema, RowValues = v\<rparr> cols = Ok key) vs keys \<Longrightarrow>
   encodeKeys rp cols (rowsOf schema vs) = Ok keys"
  by (induction vs keys rule: list_all2_induct) simp_all

text \<open>The loop that upserts rows leaves them all in the table, whatever its schema and keys.\<close>

lemma table_upserts:
  assumes "tableReady c path ks info indexed w" and "storesKv (rpcOf c) (TableID info) kv"
    and "list_all2 (keyedRow (ratParser c) schema ks indexed) vs keys"
    and "kvRows (ratParser c) schema indexed (ucast (SchemaID info)) (kv (net w) 0) content"
  shows "\<exists>n'. writeRows failed counted
        (\<lambda>row. UpsertRow (rpcOf c) (batchOrder c) (tableDecoder c) (ratParser c) path 0 row [])
        (rowsOf schema vs) w = (Ok (), w\<lparr>net := n'\<rparr>)
      \<and> kvRows (ratParser c) schema indexed (ucast (SchemaID info)) (kv n' 0) (applyOps keys (map Upsert vs) content)"
  using assms(1,3,4)
proof (induction vs arbitrary: w keys content)
  case Nil
  then show ?case by (intro exI[of _ "net w"]) (simp add: writeRows_simps)
next
  case (Cons v vs)
  from Cons.prems(1) obtain node where r: "Table (cache w) path = Some info" "kvTable (tableDecoder c) info ks indexed"
    "routeFor (cache w) (TableID info) None 0 = Ok node" and o: "\<And>gs. mset (batchOrder c gs) = mset gs"
    by (auto simp: tableReady_def)
  from Cons.prems(2) obtain key ks' where k: "keys = key # ks'" "keyedRow (ratParser c) schema ks indexed v key"
    "list_all2 (keyedRow (ratParser c) schema ks indexed) vs ks'" by (auto simp: list_all2_Cons1)
  have "keyedRow (ratParser c) schema ks indexed (rowOf (Upsert v)) key" using k(2) by simp
  from run_op[OF r o assms(2) this Cons.prems(3)] obtain x n where
    u: "UpsertRow (rpcOf c) (batchOrder c) (tableDecoder c) (ratParser c) path 0
        \<lparr>RowSchema = schema, RowValues = v\<rparr> [] w = (Ok ([x], None), w\<lparr>net := n\<rparr>)"
    and t: "kvRows (ratParser c) schema indexed (ucast (SchemaID info)) (kv n 0) (applyOp key (Upsert v) content)"
    unfolding runOp.simps by blast
  have "tableReady c path ks info indexed (w\<lparr>net := n\<rparr>)"
    "kvRows (ratParser c) schema indexed (ucast (SchemaID info)) (kv (net (w\<lparr>net := n\<rparr>)) 0) (applyOp key (Upsert v) content)"
    using Cons.prems(1) t by simp_all
  from Cons.IH[OF this(1) k(3) this(2)] obtain n' where
    "writeRows failed counted
        (\<lambda>row. UpsertRow (rpcOf c) (batchOrder c) (tableDecoder c) (ratParser c) path 0 row [])
        (rowsOf schema vs) (w\<lparr>net := n\<rparr>) = (Ok (), w\<lparr>net := n'\<rparr>)"
    "kvRows (ratParser c) schema indexed (ucast (SchemaID info)) (kv n' 0) (applyOps ks' (map Upsert vs) (applyOp key (Upsert v) content))"
    unfolding net_twice by blast
  with u k(1) show ?case by (intro exI[of _ n']) (simp add: writeRows_simps)
qed

lemma kv_upserts:
  assumes "kvReady c env info indexed w" and "storesKv (rpcOf c) (TableID info) kv"
    and "list_all2 (keyedRow (ratParser c) customerSchema [0] indexed) vs keys"
    and "customersOf c kv info indexed (net w) content"
  shows "\<exists>n'. writeRows failed counted
        (\<lambda>row. UpsertRow (rpcOf c) (batchOrder c) (tableDecoder c) (ratParser c) (envKvTable env) 0 row [])
        (rowsOf customerSchema vs) w = (Ok (), w\<lparr>net := n'\<rparr>)
      \<and> customersOf c kv info indexed n' (applyOps keys (map Upsert vs) content)"
  using table_upserts[OF assms(1)[unfolded kvReady_def] assms(2,3) assms(4)[unfolded customersOf_def]]
  by (simp add: customersOf_def)

subsection \<open>The checks of the table\<close>

definition ada :: "string \<Rightarrow> gval list" where "ada tier = customer 42 ''Ada Lovelace'' tier"
definition grace :: "gval list" where "grace = customer 43 ''Grace Hopper'' ''platinum''"
definition deleted :: "gval list" where "deleted = customer 99 ''Delete Me'' ''silver''"

lemmas customers = ada_def grace_def deleted_def

lemma customers_keyed:
  "length tier < 100 \<Longrightarrow> keyedRow rp customerSchema [0] indexed (ada tier) [42]"
  "keyedRow rp customerSchema [0] indexed grace [43]" "keyedRow rp customerSchema [0] indexed deleted [99]"
  "keyedRow rp customerSchema [0] indexed (partialCustomer 42 None (Some ''diamond'')) [42]"
  using customer_keyed[of 42 "Some ''Ada Lovelace''" "Some tier" rp indexed]
    customer_keyed[of 43 "Some ''Grace Hopper''" "Some ''platinum''" rp indexed]
    customer_keyed[of 99 "Some ''Delete Me''" "Some ''silver''" rp indexed]
    customer_keyed[of 42 None "Some ''diamond''" rp indexed]
  by (simp_all add: customers customer_partial)

lemma keyed_encodes:
  "keyedRow rp schema [0] indexed v key \<Longrightarrow> EncodeLookupKey rp \<lparr>RowSchema = schema, RowValues = v\<rparr> [0] = Ok key"
  by (simp add: keyedRow_def)

lemma upsert_and_lookup:
  assumes "kvReady c env info indexed w" and "storesKv (rpcOf c) (TableID info) kv"
    and "customersOf c kv info indexed (net w) content"
  shows "\<exists>n'. runPrimaryKeyUpsertAndLookup c env w = (Ok (), w\<lparr>net := n'\<rparr>)
    \<and> customersOf c kv info indexed n' (content([42] \<mapsto> ada ''gold'', [43] \<mapsto> grace))"
proof -
  let ?vs = "[ada ''gold'', grace]" and ?keys = "[[42], [43]]"
  let ?content = "content([42] \<mapsto> ada ''gold'', [43] \<mapsto> grace)"
  have k: "list_all2 (keyedRow (ratParser c) customerSchema [0] indexed) ?vs ?keys" by (simp add: customers_keyed)
  from kv_upserts[OF assms(1,2) k assms(3)] obtain n where
    u: "writeRows ''upsert kv row %d: %w'' ''upsert kv row %d: unexpected result count %d''
        (\<lambda>row. UpsertRow (rpcOf c) (batchOrder c) (tableDecoder c) (ratParser c) (envKvTable env) 0 row [])
        (rowsOf customerSchema ?vs) w = (Ok (), w\<lparr>net := n\<rparr>)"
    and t: "customersOf c kv info indexed n ?content" by auto
  have e: "encodeKeys (ratParser c) [0] (rowsOf customerSchema ?vs) = Ok ?keys"
    by (rule encode_keys) (use k in \<open>auto simp: keyed_encodes\<close>)
  have "kvReady c env info indexed (w\<lparr>net := n\<rparr>)" "customersOf c kv info indexed (net (w\<lparr>net := n\<rparr>)) ?content"
    using assms(1) t by simp_all
  from kv_lookup[OF this(1) assms(2) this(2) e] obtain n' where
    l: "LookupRows (rpcOf c) (lookupOrder c) (tableDecoder c) (ratParser c) (envKvTable env) 0 customerSchema
        (rowsOf customerSchema ?vs) [0] (w\<lparr>net := n\<rparr>) = (Ok (map ?content ?keys), w\<lparr>net := n'\<rparr>)"
      "customersOf c kv info indexed n' ?content" by auto
  have m: "mustRows customerSchema ?vs = Ok (rowsOf customerSchema ?vs)" by (rule customer_rows) (simp add: customers)
  have "compareRows rowsEqual e ?vs ?vs = Ok ()" for e
    by (rule compareRows_refl, rule rowsEqual_refl) (auto simp: customers)
  with u l m show ?thesis
    by (intro exI[of _ n']) (simp add: runPrimaryKeyUpsertAndLookup_def wrapA_def customers)
qed

lemma lookup_one:
  assumes "kvReady c env info indexed w" and "storesKv (rpcOf c) (TableID info) kv"
    and "customersOf c kv info indexed (net w) content"
    and "keyedRow (ratParser c) customerSchema [0] indexed v key"
  shows "\<exists>n'. LookupRow (rpcOf c) (lookupOrder c) (tableDecoder c) (ratParser c) (envKvTable env) 0 customerSchema
      \<lparr>RowSchema = customerSchema, RowValues = v\<rparr> [0] w = (Ok (content key), w\<lparr>net := n'\<rparr>)
    \<and> customersOf c kv info indexed n' content"
proof -
  have "encodeKeys (ratParser c) [0] (rowsOf customerSchema [v]) = Ok [key]"
    by (rule encode_keys) (simp add: keyed_encodes[OF assms(4)])
  from kv_lookup[OF assms(1-3) this] obtain n' where
    "LookupRows (rpcOf c) (lookupOrder c) (tableDecoder c) (ratParser c) (envKvTable env) 0 customerSchema
        (rowsOf customerSchema [v]) [0] w = (Ok (map content [key]), w\<lparr>net := n'\<rparr>)"
    "customersOf c kv info indexed n' content" by blast
  then show ?thesis by (intro exI[of _ n']) (simp add: LookupRow_def)
qed

lemma delete_check:
  assumes "kvReady c env info indexed w" and "storesKv (rpcOf c) (TableID info) kv"
    and "customersOf c kv info indexed (net w) content"
  shows "\<exists>n'. runPrimaryKeyDelete c env w = (Ok (), w\<lparr>net := n'\<rparr>)
    \<and> customersOf c kv info indexed n' (content([99] := None))"
proof -
  note k = customers_keyed(3)
  from kv_op[OF assms(1,2) _ assms(3), of "Upsert deleted"] k obtain r1 n1 where
    u: "UpsertRow (rpcOf c) (batchOrder c) (tableDecoder c) (ratParser c) (envKvTable env) 0
        \<lparr>RowSchema = customerSchema, RowValues = deleted\<rparr> [] w = (Ok ([r1], None), w\<lparr>net := n1\<rparr>)"
    and t1: "customersOf c kv info indexed n1 (content([99] \<mapsto> deleted))" by fastforce
  have w1: "kvReady c env info indexed (w\<lparr>net := n1\<rparr>)"
    "customersOf c kv info indexed (net (w\<lparr>net := n1\<rparr>)) (content([99] \<mapsto> deleted))" using assms(1) t1 by simp_all
  from kv_op[OF w1(1) assms(2) _ w1(2), of "Delete deleted"] k obtain r2 n2 where
    d: "DeleteRow (rpcOf c) (batchOrder c) (tableDecoder c) (ratParser c) (envKvTable env) 0
        \<lparr>RowSchema = customerSchema, RowValues = deleted\<rparr> [] (w\<lparr>net := n1\<rparr>) = (Ok ([r2], None), w\<lparr>net := n2\<rparr>)"
    and t2: "customersOf c kv info indexed n2 (content([99] := None))" by fastforce
  have w2: "kvReady c env info indexed (w\<lparr>net := n2\<rparr>)"
    "customersOf c kv info indexed (net (w\<lparr>net := n2\<rparr>)) (content([99] := None))" using assms(1) t2 by simp_all
  from lookup_one[OF w2(1) assms(2) w2(2) k] obtain n3 where
    l: "LookupRow (rpcOf c) (lookupOrder c) (tableDecoder c) (ratParser c) (envKvTable env) 0 customerSchema
      \<lparr>RowSchema = customerSchema, RowValues = deleted\<rparr> [0] (w\<lparr>net := n2\<rparr>) = (Ok None, w\<lparr>net := n3\<rparr>)"
      "customersOf c kv info indexed n3 (content([99] := None))" by auto
  have "mustRows customerSchema [deleted] = Ok (rowsOf customerSchema [deleted])"
    by (rule customer_rows) (simp add: customers)
  with u d l show ?thesis
    by (intro exI[of _ n3]) (simp add: runPrimaryKeyDelete_def writeAny_def wrapA_def goindex_def checkThat_def flip: deleted_def)
qed

subsection \<open>Partial updates and limit scans\<close>

text \<open>The columns of an update over the row that is there, nil where there is none.\<close>

definition mergeRow :: "int32 list \<Rightarrow> gval list \<Rightarrow> gval list option \<Rightarrow> gval list" where
  "mergeRow cols vals old = map (\<lambda>i. if word_of_nat i \<in> set cols then vals ! i
     else (case old of Some o' \<Rightarrow> o' ! i | None \<Rightarrow> VNil)) [0..<length vals]"

text \<open>
  \<open>mergesKv\<close>: a put request with target columns is merged into the row under its key.
  \<open>scansKv\<close>: a limit scan whose limit covers the bucket returns every value once, in an order
  of the server's own, as a value batch.
\<close>

definition mergesKv :: "rat_parser \<Rightarrow> Schema \<Rightarrow> bool \<Rightarrow> 'w network \<Rightarrow> int64 \<Rightarrow> ('w \<Rightarrow> int32 \<Rightarrow> bytes \<rightharpoonup> bytes) \<Rightarrow> bool" where
  "mergesKv rp schema indexed rpc t kv \<longleftrightarrow>
     (\<forall>n addr acks ms b cols batch sid body size1 key vals row content.
        cols \<noteq> [] \<longrightarrow> decodeKvBatch batch = Ok (sid, body) \<longrightarrow> readKvRecord body = Some (size1, key, row) \<longrightarrow>
        conformsRow schema vals \<longrightarrow> encodeRow rp schema vals indexed = Ok row \<longrightarrow> length row < 2 ^ 32 \<longrightarrow>
        kvRows rp schema indexed (ucast sid) (kv n b) content \<longrightarrow>
        contentFits rp schema indexed (content(key \<mapsto> mergeRow cols vals (content key))) \<longrightarrow> (\<exists>resp n' r.
        rpc n addr (PutKvRequest acks t ms cols None [buildPutBucketRecord None b batch]) = (Ok resp, n')
        \<and> parsePutResults resp = ([r], None) \<and> ResBucketID r = b
        \<and> kvRows rp schema indexed (ucast sid) (kv n' b) (content(key \<mapsto> mergeRow cols vals (content key)))))"

definition scansKv :: "'w network \<Rightarrow> int64 \<Rightarrow> ('w \<Rightarrow> int32 \<Rightarrow> bytes \<rightharpoonup> bytes) \<Rightarrow> bool" where
  "scansKv rpc t kv \<longleftrightarrow>
     (\<forall>n addr b limit. finite (dom (kv n b)) \<longrightarrow> card (dom (kv n b)) \<le> unat limit \<longrightarrow> (\<exists>n' keys rs.
        rpc n addr (LimitScanRequest t None b limit) = (Ok (LimitScanResponse None None (Some False) (Some (valueBatchOf rs))), n')
        \<and> kv n' = kv n \<and> distinct keys \<and> set keys = dom (kv n b)
        \<and> map (\<lambda>(sid, row). Some (putU16 sid @ row)) rs = map (kv n b) keys))"

lemma mergesKv_put:
  assumes "mergesKv rp schema indexed rpc t kv" and "cols \<noteq> []" and "decodeKvBatch batch = Ok (sid, body)"
    and "readKvRecord body = Some (size1, key, row)" and "conformsRow schema vals"
    and "encodeRow rp schema vals indexed = Ok row" and "length row < 2 ^ 32"
    and "kvRows rp schema indexed (ucast sid) (kv n b) content"
    and "contentFits rp schema indexed (content(key \<mapsto> mergeRow cols vals (content key)))"
  shows "\<exists>resp n' r. rpc n addr (PutKvRequest acks t ms cols None [buildPutBucketRecord None b batch]) = (Ok resp, n')
    \<and> parsePutResults resp = ([r], None) \<and> ResBucketID r = b
    \<and> kvRows rp schema indexed (ucast sid) (kv n' b) (content(key \<mapsto> mergeRow cols vals (content key)))"
  using assms unfolding mergesKv_def by blast

text \<open>The content of the table as the checks leave it, up to the row that is deleted again.\<close>

definition customersLeft :: "bytes \<rightharpoonup> gval list" where
  "customersLeft = [[42] \<mapsto> ada ''diamond'', [43] \<mapsto> grace]"

lemma merge_ada: "mergeRow [0, 2] (partialCustomer 42 None (Some ''diamond'')) (Some (ada tier)) = ada ''diamond''"
  by (simp add: mergeRow_def partialCustomer_def textValue_def ada_def customer_def upt_rec)

lemma customer_fits:
  assumes "length (getOr [] a) + length (getOr [] b) < 2 ^ 31"
  shows "conformsRow customerSchema (partialCustomer i a b)"
    and "encodeRow rp customerSchema (partialCustomer i a b) indexed = Ok enc \<Longrightarrow> length enc < 2 ^ 32"
  using customer_conforms customer_length[of rp i a b indexed enc] assms by auto

lemma customers_fit:
  "contentFits rp customerSchema indexed content \<Longrightarrow> contentFits rp customerSchema indexed (content([42] \<mapsto> ada ''diamond''))"
  "contentFits rp customerSchema indexed content \<Longrightarrow> contentFits rp customerSchema indexed (content([43] \<mapsto> grace))"
  using customer_fits[of "Some ''Ada Lovelace''" "Some ''diamond''", where i = 42]
    customer_fits[of "Some ''Grace Hopper''" "Some ''platinum''", where i = 43]
  by (auto simp: contentFits_def customers customer_partial simp del: encodeRow.simps split: if_splits)

lemma partial_update_check:
  assumes "kvReady c env info indexed w" and "storesKv (rpcOf c) (TableID info) kv"
    and "mergesKv (ratParser c) customerSchema indexed (rpcOf c) (TableID info) kv"
    and "customersOf c kv info indexed (net w) content" and "content [42] = Some (ada tier)"
  shows "\<exists>n'. runPrimaryKeyPartialUpdate c env w = (Ok (), w\<lparr>net := n'\<rparr>)
    \<and> customersOf c kv info indexed n' (content([42] \<mapsto> ada ''diamond''))"
proof -
  let ?v = "partialCustomer 42 None (Some ''diamond'')" and ?sid = "ucast (SchemaID info) :: 16 word"
  let ?content = "content([42] \<mapsto> ada ''diamond'')"
  from assms(1) obtain node where r: "Table (cache w) (envKvTable env) = Some info" "kvTable (tableDecoder c) info [0] indexed"
    "routeFor (cache w) (TableID info) None 0 = Ok node" and o: "\<And>gs. mset (batchOrder c gs) = mset gs"
    by (auto simp: kvReady_def tableReady_def)
  obtain batch p enc size1 where b: "EncodeKvRecordBatch (ratParser c) customerSchema ?v (kvOptions (SchemaID info) [0] indexed) = Ok batch"
    and d: "decodeKvBatch batch = Ok (ucast ?sid, p)" "readKvRecord p = Some (size1, [42], enc)"
    and e: "encodeRow (ratParser c) customerSchema ?v indexed = Ok enc"
    by (rule batch_of_keyed_row[OF customers_keyed(4), where sid = "SchemaID info"])
  have rows: "kvRows (ratParser c) customerSchema indexed (ucast (ucast ?sid :: int32)) (kv (net w) 0) content"
    using assms(4) by (simp add: customersOf_def ucast_sid)
  have "contentFits (ratParser c) customerSchema indexed ?content"
    using assms(4) by (intro customers_fit) (simp add: customersOf_def kvRows_def)
  then have "contentFits (ratParser c) customerSchema indexed (content([42] \<mapsto> mergeRow [0, 2] ?v (content [42])))"
    by (simp add: assms(5) merge_ada)
  moreover have "conformsRow customerSchema ?v" "length enc < 2 ^ 32"
    using customer_fits[of None "Some ''diamond''"] e by auto
  ultimately obtain resp n' r1 where
    put: "rpcOf c (net w) (Address node) (PutKvRequest (- 1) (TableID info) 15000 [0, 2] None [buildPutBucketRecord None 0 batch]) = (Ok resp, n')"
      "parsePutResults resp = ([r1], None)"
    and t: "kvRows (ratParser c) customerSchema indexed (ucast (ucast ?sid :: int32)) (kv n' 0) ?content"
    using mergesKv_put[where addr = "Address node" and acks = "- 1" and ms = 15000 and cols = "[0, 2]",
        OF assms(3) _ d _ e _ rows] assms(5) merge_ada by fastforce
  let ?w1 = "w\<lparr>net := n'\<rparr>"
  have "UpsertKV (rpcOf c) (batchOrder c) (envKvTable env) (- 1) 15000 [0, 2] None
      [\<lparr>BatchPartitionID = None, BatchBucketID = 0, BatchRecords = batch\<rparr>] w = (Ok ([r1], None), ?w1)"
    by (rule UpsertKV_single[OF r(1,3)]) (fact o, fact put(1), fact put(2))
  then have u: "PartialUpdateRow (rpcOf c) (batchOrder c) (tableDecoder c) (ratParser c) (envKvTable env) 0
      \<lparr>RowSchema = customerSchema, RowValues = ?v\<rparr> [0, 2] w = (Ok ([r1], None), ?w1)"
    using b kvEncoding_table[OF r(1,2), where rpc = "rpcOf c"]
    by (simp add: PartialUpdateRow_def UpsertRow_def encodeKVRow_def orReturn_def normalizeTargetColumns_def kvOptions_def customer_schema)
  have w1: "kvReady c env info indexed ?w1" "customersOf c kv info indexed (net ?w1) ?content"
    using assms(1) t by (simp_all add: customersOf_def ucast_sid)
  from lookup_one[OF w1(1) assms(2) w1(2) customers_keyed(4)] obtain n2 where
    l: "LookupRow (rpcOf c) (lookupOrder c) (tableDecoder c) (ratParser c) (envKvTable env) 0 customerSchema
      \<lparr>RowSchema = customerSchema, RowValues = ?v\<rparr> [0] ?w1 = (Ok (Some (ada ''diamond'')), w\<lparr>net := n2\<rparr>)"
      "customersOf c kv info indexed n2 ?content" by auto
  have "mustRows customerSchema [?v] = Ok (rowsOf customerSchema [?v])"
    by (rule customer_rows) (simp add: partialCustomer_def)
  moreover have "[VInt64 42, VNil, VString (lit ''diamond'')] = ?v" by (simp add: partialCustomer_def textValue_def)
  moreover have "compareRows rowsEqual e [ada ''diamond''] [ada ''diamond''] = Ok ()" for e
    by (rule compareRows_refl, rule rowsEqual_refl) (simp add: customers)
  ultimately show ?thesis using u l
    by (intro exI[of _ n2]) (simp add: runPrimaryKeyPartialUpdate_def writeOne_def wrapA_def goindex_def flip: ada_def)
qed

lemma stored_customer:
  assumes "storedRow rp customerSchema sid indexed customersLeft key = Some (putU16 sid' @ row)"
  shows "decodeRow customerSchema row indexed = Ok (the (customersLeft key)) \<and> length row < 100"
proof -
  from assms obtain vals enc where v: "customersLeft key = Some vals" and e: "encodeRow rp customerSchema vals indexed = Ok enc"
    and b: "putU16 sid @ enc = putU16 sid' @ row"
    by (auto simp: storedRow_def simp del: encodeRow.simps split: option.splits res.splits)
  from b have r: "row = enc" by (auto dest: append_eq_append_conv[THEN iffD1, rotated])
  obtain i a b where p: "vals = partialCustomer i (Some a) (Some b)" "length a + length b < 30"
    using v by (auto simp: customersLeft_def customers customer_partial split: if_splits)
  with e have "length enc < 100" using customer_length[of rp i "Some a" "Some b" indexed enc] by simp
  with row_decode[OF customer_schema(3) _ e] v r p customer_conforms show ?thesis
    by (simp del: encodeRow.simps decodeRow.simps)
qed

lemma dom_storedRow:
  assumes "SchemaValidate schema = Ok ()" and fits: "contentFits rp schema indexed content"
  shows "dom (storedRow rp schema sid indexed content) = dom content"
proof -
  have "storedRow rp schema sid indexed content key \<noteq> None" if "content key = Some vals" for key vals
  proof -
    from fits that have "conformsRow schema vals" by (auto simp: contentFits_def)
    from encodeRow_total[OF assms(1) this] obtain enc where "encodeRow rp schema vals indexed = Ok enc" by blast
    with that show ?thesis by (simp add: storedRow_def del: encodeRow.simps)
  qed
  then show ?thesis by (fastforce simp: storedRow_def split: option.splits)
qed

lemmas dom_stored = dom_storedRow[OF customer_schema(1)]

lemma sameDecodedRowSet_iff:
  "sameDecodedRowSet other got want \<longleftrightarrow>
     image_mset (\<lambda>r. rowKey other (rowValues r)) (mset got) = image_mset (\<lambda>r. rowKey other (rowValues r)) (mset want)"
  (is "_ \<longleftrightarrow> ?g = ?w")
proof -
  have "?g = ?w \<Longrightarrow> length got = length want" by (metis size_image_mset size_mset)
  moreover have "sort xs = sort ys \<longleftrightarrow> mset xs = mset ys" for xs ys :: "bytes list"
  proof
    show "mset xs = mset ys" if "sort xs = sort ys" using arg_cong[OF that, of mset] by simp
    show "sort xs = sort ys" if "mset xs = mset ys" by (rule properties_for_sort) (simp_all add: that)
  qed
  ultimately show ?thesis by (auto simp: sameDecodedRowSet_def)
qed

lemma scansKv_scan:
  assumes "scansKv rpc t kv" and "finite (dom (kv n b))" and "card (dom (kv n b)) \<le> unat limit"
  obtains n' keys rs where
    "rpc n addr (LimitScanRequest t None b limit) = (Ok (LimitScanResponse None None (Some False) (Some (valueBatchOf rs))), n')"
    "kv n' = kv n" "distinct keys" "set keys = dom (kv n b)"
    "map (\<lambda>(sid, row). Some (putU16 sid @ row)) rs = map (kv n b) keys"
  using assms unfolding scansKv_def by blast

lemma valueBatch_length:
  "(\<And>sid row. (sid, row) \<in> set rs \<Longrightarrow> length row < m) \<Longrightarrow> length (valueBatchOf rs) \<le> 9 + length rs * (m + 6)"
proof (induction rs)
  case (Cons r rs)
  from Cons.IH Cons.prems have "length (valueBatchOf rs) \<le> 9 + length rs * (m + 6)" by auto
  moreover have "length (snd r) < m" using Cons.prems[of "fst r" "snd r"] by simp
  ultimately show ?case by (auto simp: valueBatchOf_def valueRecordOf_def Let_def split_def)
qed (simp add: valueBatchOf_def)

lemma stored_pair:
  assumes "((sid, row), key) \<in> set (zip rs keys)" and "map (\<lambda>(sid, row). Some (putU16 sid @ row)) rs = map m keys"
  shows "m key = Some (putU16 sid @ row)"
proof -
  from assms(1) obtain i where i: "i < length rs" "i < length keys" "rs ! i = (sid, row)" "keys ! i = key"
    by (auto simp: in_set_zip)
  from arg_cong[OF assms(2), of "\<lambda>xs. xs ! i"] i show ?thesis by simp
qed

lemma same_decoded:
  assumes "image_mset f (mset keys) = mset want"
  shows "sameDecodedRowSet other (asDecoded names (map f keys)) (asDecoded names want)"
proof -
  have "image_mset (rowKey other) (image_mset f (mset keys)) = image_mset (rowKey other) (mset want)"
    by (simp only: assms)
  then show ?thesis by (simp add: sameDecodedRowSet_iff asDecoded_def image_mset.compositionality o_def)
qed

lemma limit_scan_check:
  assumes "kvReady c env info False w" and "scansKv (rpcOf c) (TableID info) kv"
    and "customersOf c kv info False (net w) customersLeft"
  shows "\<exists>n'. runPrimaryKeyLimitScan c env w = (Ok (), w\<lparr>net := n'\<rparr>) \<and> customersOf c kv info False n' customersLeft"
proof -
  let ?st = "storedRow (ratParser c) customerSchema (ucast (SchemaID info)) False customersLeft"
  from assms(1) obtain node where r: "Table (cache w) (envKvTable env) = Some info"
    "routeFor (cache w) (TableID info) None 0 = Ok node" by (auto simp: kvReady_def tableReady_def)
  from assms(3) have kv: "kv (net w) 0 = ?st" and fits: "contentFits (ratParser c) customerSchema False customersLeft"
    by (simp_all add: customersOf_def kvRows_def)
  have dom: "dom (kv (net w) 0) = {[42], [43]}" unfolding kv dom_stored[OF fits] by (auto simp: customersLeft_def)
  then have "finite (dom (kv (net w) 0))" "card (dom (kv (net w) 0)) \<le> unat (2 :: int32)" by simp_all
  then obtain n' keys rs where
    req: "rpcOf c (net w) (Address node) (LimitScanRequest (TableID info) None 0 2)
      = (Ok (LimitScanResponse None None (Some False) (Some (valueBatchOf rs))), n')"
    and k: "kv n' = kv (net w)" "distinct keys" "set keys = dom (kv (net w) 0)"
    and rs: "map (\<lambda>(sid, row). Some (putU16 sid @ row)) rs = map (kv (net w) 0) keys"
    by (rule scansKv_scan[where addr = "Address node", OF assms(2)])
  have keys: "mset keys = {#[42], [43]#}"
    using set_eq_iff_mset_eq_distinct[OF k(2), of "[[42], [43]]"] k(3) dom by simp
  have one: "decodeRow customerSchema row False = Ok (the (customersLeft key)) \<and> length row < 100"
    if "((sid, row), key) \<in> set (zip rs keys)" for sid row key
  proof -
    from that rs have "kv (net w) 0 key = Some (putU16 sid @ row)"
      by (rule stored_pair)
    then show ?thesis unfolding kv by (rule stored_customer)
  qed
  have len: "length rs = length keys" using arg_cong[OF rs, of length] by simp
  then have "list_all2 (\<lambda>(sid, row) vals. decodeRow customerSchema row False = Ok vals) rs (map (\<lambda>k. the (customersLeft k)) keys)"
    unfolding list_all2_map2 using one by (auto simp: list_all2_iff simp del: decodeRow.simps)
  moreover have "length (valueBatchOf rs) < 2 ^ 32"
  proof -
    have "length rs = 2" using len arg_cong[OF keys, of size] by simp
    moreover have "length row < 100" if "(sid, row) \<in> set rs" for sid row
      using one in_set_impl_in_set_zip1[OF len that] by blast
    ultimately show ?thesis using valueBatch_length[of rs 100] by simp
  qed
  ultimately have d: "DecodeValueRecordBatchRows customerSchema (valueBatchOf rs) False = Ok (map (\<lambda>k. the (customersLeft k)) keys)"
    by (rule decodeValueBatch_encode[OF customer_schema(1)])
  have "image_mset (\<lambda>k. the (customersLeft k)) (mset keys) = mset wantedCustomers"
    unfolding keys by (simp add: wantedCustomers_def customersLeft_def customers)
  then have same: "sameDecodedRowSet other (asDecoded customerFields (map (\<lambda>k. the (customersLeft k)) keys)) (asDecoded customerFields wantedCustomers)" for other
    by (rule same_decoded)
  have two: "length wantedCustomers = 2" by (simp add: wantedCustomers_def)
  from r req d have "runPrimaryKeyLimitScan c env w = (Ok (), w\<lparr>net := n'\<rparr>)"
    by (simp add: runPrimaryKeyLimitScan_def wrapA_def LimitScan_def ensureTableInfo_def tableRouteFor_def invokeA_def
        DecodeLimitScanRows_def DecodeValueBatchRows_def same checkThat_def two)
  with assms(3) k(1) show ?thesis by (auto simp: customersOf_def)
qed

end
