(* ===== verification/Demo_Log_Laws.thy ===== *)
theory Demo_Log_Laws
  imports Demo_Data_Laws
begin

text \<open>
  The checks of the end-to-end program on log tables: rows appended one by one and read back
  with a limit scan, for the order table and for the table of all types.
\<close>

subsection \<open>Appending and scanning\<close>

definition logReady :: "('w, 'd, 'm, 'p, 'r) cluster \<Rightarrow> TablePath \<Rightarrow> TableInfo \<Rightarrow> 'w world \<Rightarrow> bool" where
  "logReady c path info w \<longleftrightarrow> Table (cache w) path = Some info
     \<and> (\<exists>node. routeFor (cache w) (TableID info) None 0 = Ok node) \<and> (\<forall>gs. mset (batchOrder c gs) = mset gs)"

lemma logReady_net [simp]: "logReady c path info (w\<lparr>net := n\<rparr>) = logReady c path info w"
  by (simp add: logReady_def)

text \<open>A limit scan of a log table returns its last batches.\<close>

definition scansLog :: "'w network \<Rightarrow> int64 \<Rightarrow> ('w \<Rightarrow> int32 \<Rightarrow> bytes list) \<Rightarrow> bool" where
  "scansLog rpc t logs \<longleftrightarrow> (\<forall>n addr b limit. \<exists>n'.
     rpc n addr (LimitScanRequest t None b limit)
       = (Ok (LimitScanResponse None None (Some True) (Some (concat (drop (length (logs n b) - unat limit) (logs n b))))), n')
     \<and> logs n' = logs n)"

lemma log_appends:
  assumes "logReady c path info w" and "storesLog (rpcOf c) (TableID info) logs"
    and "list_all (\<lambda>v. conformsRow schema v \<and> fitsBatch (ratParser c) schema v) vs"
    and "bucketRows schema (logs (net w) 0) old"
  shows "\<exists>n'. writeRows failed counted (AppendIndexedRow (rpcOf c) (batchOrder c) (ratParser c) path 0) (rowsOf schema vs) w
      = (Ok (), w\<lparr>net := n'\<rparr>) \<and> bucketRows schema (logs n' 0) (old @ vs)"
  using assms(1,3,4)
proof (induction vs arbitrary: w old)
  case Nil
  then show ?case by (intro exI[of _ "net w"]) (simp add: writeRows_simps)
next
  case (Cons v vs)
  from Cons.prems(1) obtain node where r: "Table (cache w) path = Some info"
    "routeFor (cache w) (TableID info) None 0 = Ok node" and o: "\<And>gs. mset (batchOrder c gs) = mset gs"
    by (auto simp: logReady_def)
  from Cons.prems(2) have v: "conformsRow schema v" "fitsBatch (ratParser c) schema v" by simp_all
  obtain x n batch where
    a: "AppendIndexedRow (rpcOf c) (batchOrder c) (ratParser c) path 0 \<lparr>RowSchema = schema, RowValues = v\<rparr> w
        = (Ok ([x], None), w\<lparr>net := n\<rparr>)"
    and b: "batches.unit_of schema batch [v]" "logs n = (logs (net w))(0 := logs (net w) 0 @ [batch])"
    by (rule append_row[OF r _ assms(2) v]) (rule o)
  have "logReady c path info (w\<lparr>net := n\<rparr>)" "bucketRows schema (logs (net (w\<lparr>net := n\<rparr>)) 0) (old @ [v])"
    using Cons.prems(1,3) b by simp_all
  from Cons.IH[OF this(1) _ this(2)] Cons.prems(2) obtain n' where
    "writeRows failed counted (AppendIndexedRow (rpcOf c) (batchOrder c) (ratParser c) path 0) (rowsOf schema vs) (w\<lparr>net := n\<rparr>)
      = (Ok (), w\<lparr>net := n'\<rparr>)" "bucketRows schema (logs n' 0) ((old @ [v]) @ vs)" unfolding net_twice by fastforce
  with a show ?case by (intro exI[of _ n']) (simp add: writeRows_simps)
qed

lemma log_scan:
  assumes "logReady c path info w" and "scansLog (rpcOf c) (TableID info) logs"
    and "bucketRows schema (logs (net w) 0) (old @ vs)" and "length vs < 2 ^ 32"
  shows "\<exists>records n'. LimitScan (rpcOf c) path None 0 (word_of_nat (length vs)) w
      = (Ok \<lparr>IsLogTable = True, LimitRecords = records\<rparr>, w\<lparr>net := n'\<rparr>)
    \<and> DecodeIndexedLogBatchRows schema records = Ok vs \<and> logs n' = logs (net w)"
proof -
  from assms(1) obtain node where r: "Table (cache w) path = Some info"
    "routeFor (cache w) (TableID info) None 0 = Ok node" by (auto simp: logReady_def)
  let ?bs = "logs (net w) 0"
  let ?records = "concat (drop (length ?bs - length vs) ?bs)"
  have u: "unat (word_of_nat (length vs) :: int32) = length vs" using assms(4) by (simp add: unat_of_nat)
  from assms(2)[unfolded scansLog_def, rule_format, of "net w" "Address node" 0 "word_of_nat (length vs)"] u obtain n' where
    req: "rpcOf c (net w) (Address node) (LimitScanRequest (TableID info) None 0 (word_of_nat (length vs)))
       = (Ok (LimitScanResponse None None (Some True) (Some ?records)), n')" and l: "logs n' = logs (net w)" by auto
  have "length ?bs = length (old @ vs)" using list_all2_lengthD[OF assms(3)[unfolded bucketRows_def]] by simp
  then have "DecodeIndexedLogBatchRows schema ?records = Ok vs"
    using bucketRows_decode[OF assms(3), of "length ?bs - length vs"] by simp
  with req l r show ?thesis
    by (intro exI[of _ ?records] exI[of _ n'])
      (simp add: LimitScan_def ensureTableInfo_def tableRouteFor_def invokeA_def)
qed

subsection \<open>The checks\<close>

lemma orders_fit:
  "SchemaValidate orderSchema = Ok ()" "length orderSchema = 4"
  "list_all (\<lambda>v. conformsRow orderSchema v \<and> fitsBatch rp orderSchema v) logDemoRows"
  by (simp_all add: orderSchema_def NewSchema_def SchemaValidate_def type_constructors logDemoRows_def fitsBatch_def
      coerce_simps nullBitsSize_def IsFixed_def encodeLengthPrefixedBytes_def goindex_def)

lemma orders_equal: "list_all (\<lambda>v. rowsEqual v v = Ok True) logDemoRows"
  by (simp add: logDemoRows_def rowsEqual_refl)

lemma log_check:
  assumes "logReady c (envLogTable env) info w" and "storesLog (rpcOf c) (TableID info) logs"
    and "scansLog (rpcOf c) (TableID info) logs" and "bucketRows orderSchema (logs (net w) 0) old"
  shows "\<exists>n'. runLogAppendAndLimitScan c env w = (Ok (), w\<lparr>net := n'\<rparr>)
    \<and> bucketRows orderSchema (logs n' 0) (old @ logDemoRows)"
proof -
  have m: "mustRows orderSchema logDemoRows = Ok (rowsOf orderSchema logDemoRows)"
    by (rule mustRows_ok[OF orders_fit(1)]) (simp add: logDemoRows_def orders_fit(2))
  from log_appends[OF assms(1,2) orders_fit(3) assms(4)] obtain n where
    a: "writeRows ''append log row %d: %w'' ''append log row %d: unexpected result count %d''
        (AppendIndexedRow (rpcOf c) (batchOrder c) (ratParser c) (envLogTable env) 0) (rowsOf orderSchema logDemoRows) w
        = (Ok (), w\<lparr>net := n\<rparr>)" and t: "bucketRows orderSchema (logs n 0) (old @ logDemoRows)" by blast
  have "logReady c (envLogTable env) info (w\<lparr>net := n\<rparr>)" "bucketRows orderSchema (logs (net (w\<lparr>net := n\<rparr>)) 0) (old @ logDemoRows)"
    using assms(1) t by simp_all
  from log_scan[OF this(1) assms(3) this(2)] obtain records n' where
    "LimitScan (rpcOf c) (envLogTable env) None 0 (word_of_nat (length logDemoRows)) (w\<lparr>net := n\<rparr>)
      = (Ok \<lparr>IsLogTable = True, LimitRecords = records\<rparr>, w\<lparr>net := n'\<rparr>)"
    "DecodeIndexedLogBatchRows orderSchema records = Ok logDemoRows" "logs n' = logs n"
    by (auto simp: logDemoRows_def)
  moreover have "compareRows rowsEqual e logDemoRows logDemoRows = Ok ()" for e
    using orders_equal by (intro compareRows_refl) (simp add: list_all_iff)
  ultimately show ?thesis using a m t
    by (intro exI[of _ n']) (simp add: runLogAppendAndLimitScan_def wrapA_def o_def)
qed

text \<open>The row of all types: its decimal is parsed from the text \<open>123.45\<close>, a rational with two digits.\<close>

definition demoDecimal :: Decimal where
  "demoDecimal = \<lparr>Unscaled = Some 12345, DecScale = 2\<rparr>"

lemma demo_decimal: "rp (lit ''123.45'') = Some (2469, 20) \<Longrightarrow> mustDecimal rp (lit ''123.45'') 10 2 = Ok demoDecimal"
  by (simp add: mustDecimal_def NewDecimalFromString_def demoDecimal_def DecimalType_def)

lemma all_types_schema: "SchemaValidate allTypesSchema = Ok ()" "length allTypesSchema = 18"
  by (simp_all add: allTypesSchema_def NewSchema_def SchemaValidate_def type_constructors)

lemma all_types_equal: "deepRowsEqual (allTypesRow demoDecimal) (allTypesRow demoDecimal) = Ok True"
  by (simp add: deepRowsEqual_def allTypesRow_def demoDecimal_def ifaceEq_def float32Eq_def float64Eq_def mapEntry_def lit_def)

lemma all_types_conform: "conformsRow allTypesSchema (allTypesRow demoDecimal)"
  by (simp add: allTypesSchema_def NewSchema_def type_constructors allTypesRow_def demoDecimal_def lit_def goKeyEq_def)

lemma all_types_fit: "fitsBatch rp allTypesSchema (allTypesRow demoDecimal)"
  by (simp add: allTypesSchema_def NewSchema_def SchemaValidate_def type_constructors allTypesRow_def demoDecimal_def fitsBatch_def
      coerce_simps nullBitsSize_def IsFixed_def encodeLengthPrefixedBytes_def goindex_def encodeDecimal_def
      encodeTimestampNtz_def encodeTimestampLtz_def)

lemma all_types_check:
  assumes "logReady c (envTypesTable env) info w" and "storesLog (rpcOf c) (TableID info) logs"
    and "scansLog (rpcOf c) (TableID info) logs" and "bucketRows allTypesSchema (logs (net w) 0) old"
    and "ratParser c (lit ''123.45'') = Some (2469, 20)"
  shows "\<exists>n'. runAllTypesAppendAndLimitScan c env w = (Ok (), w\<lparr>net := n'\<rparr>)
    \<and> bucketRows allTypesSchema (logs n' 0) (old @ [allTypesRow demoDecimal])"
proof -
  let ?vs = "[allTypesRow demoDecimal]"
  have m: "mustRows allTypesSchema ?vs = Ok (rowsOf allTypesSchema ?vs)"
    by (rule mustRows_ok[OF all_types_schema(1)]) (simp add: allTypesRow_def all_types_schema(2))
  have fit: "list_all (\<lambda>v. conformsRow allTypesSchema v \<and> fitsBatch (ratParser c) allTypesSchema v) ?vs"
    using all_types_conform all_types_fit by simp
  from log_appends[OF assms(1,2) fit assms(4)] obtain n where
    a: "writeRows ''append all-types row %d: %w'' ''append all-types row %d: unexpected result count %d''
        (AppendIndexedRow (rpcOf c) (batchOrder c) (ratParser c) (envTypesTable env) 0) (rowsOf allTypesSchema ?vs) w
        = (Ok (), w\<lparr>net := n\<rparr>)" and t: "bucketRows allTypesSchema (logs n 0) (old @ ?vs)" by blast
  have "logReady c (envTypesTable env) info (w\<lparr>net := n\<rparr>)" "bucketRows allTypesSchema (logs (net (w\<lparr>net := n\<rparr>)) 0) (old @ ?vs)"
    using assms(1) t by simp_all
  from log_scan[OF this(1) assms(3) this(2)] obtain records n' where
    "LimitScan (rpcOf c) (envTypesTable env) None 0 1 (w\<lparr>net := n\<rparr>)
      = (Ok \<lparr>IsLogTable = True, LimitRecords = records\<rparr>, w\<lparr>net := n'\<rparr>)"
    "DecodeIndexedLogBatchRows allTypesSchema records = Ok ?vs" "logs n' = logs n" by auto
  moreover have "compareRows deepRowsEqual e ?vs ?vs = Ok ()" for e
    using all_types_equal by (intro compareRows_refl) simp
  ultimately show ?thesis using a m t demo_decimal[where rp = "ratParser c", OF assms(5)]
    by (intro exI[of _ n']) (simp add: runAllTypesAppendAndLimitScan_def wrapA_def)
qed

end
