(* ===== verification/Arrow_Table.thy ===== *)
theory Arrow_Table
  imports Log_Table Arrow_Laws
begin

text \<open>
  Arrow log tables end to end: \<open>AppendArrowRows\<close> against \<open>FetchLogWithOptions\<close> and the Arrow
  decoders, with and without a projection. The server gives every batch an offset and, for a
  projected fetch, cuts the record batch down to the columns asked for: it replaces the payload
  and the size of the log batch and keeps the CRC of the whole one, which is why the client does
  not check the CRC of projected batches.
\<close>

subsection \<open>The server of an Arrow log\<close>

text \<open>Batches with their base offsets, and those a fetch from an offset may return.\<close>

type_synonym arrowLog = "(nat \<times> bytes) list"

definition fromOffset :: "int64 \<Rightarrow> arrowLog \<Rightarrow> bytes list" where
  "fromOffset off log = map snd (filter (\<lambda>(o', _). unat off \<le> o') log)"

definition projectSchema :: "int32 list \<Rightarrow> Schema \<Rightarrow> Schema" where
  "projectSchema cols schema = map (\<lambda>i. schema ! unat i) cols"

definition projectVals :: "int32 list \<Rightarrow> gval list \<Rightarrow> gval list" where
  "projectVals cols vals = map (\<lambda>i. vals ! unat i) cols"

definition projectedBatch :: "('d, 'm, 'p, 'r) arrowLib \<Rightarrow> Schema \<Rightarrow> int32 list \<Rightarrow> bytes \<Rightarrow> bytes \<Rightarrow> bool" where
  "projectedBatch lib schema cols b b' \<longleftrightarrow> (\<exists>payload.
     b' = take 8 b @ putU32 (word_of_nat (36 + length payload)) @ drop 12 (take 48 b) @ payload
     \<and> 36 + length payload < 2 ^ 32
     \<and> (\<forall>rows. DecodeRecordBatch lib schema (drop 48 b) = Ok rows \<longrightarrow>
          DecodeRecordBatch lib (projectSchema cols schema) payload = Ok (map (projectVals cols) rows)))"

text \<open>
  \<open>storesArrow\<close>: while its offsets last, a produced batch gets an offset above those in the bucket and
  is stored with it; a fetch returns the first of the batches from its offset on, at least one
  when there is one, and as projected batches when it names the columns \<open>cols\<close>.
\<close>

definition offsetsLeft :: "arrowLog \<Rightarrow> bool" where
  "offsetsLeft log \<longleftrightarrow> (\<forall>x \<in> set log. fst x < 2 ^ 63 - 1)"

definition storesArrow :: "('d, 'm, 'p, 'r) arrowLib \<Rightarrow> Schema \<Rightarrow> int32 list \<Rightarrow> 'w network \<Rightarrow> int64 \<Rightarrow>
    ('w \<Rightarrow> int32 \<Rightarrow> arrowLog) \<Rightarrow> bool" where
  "storesArrow lib schema cols rpc t logs \<longleftrightarrow>
     (\<forall>n addr acks ms b payload. offsetsLeft (logs n b) \<longrightarrow> (\<exists>resp n' r ts.
        rpc n addr (ProduceLogRequest acks t ms [buildProduceBucketRecord None b payload]) = (Ok resp, n')
        \<and> parseProduceResults resp = ([r], None) \<and> (\<forall>x \<in> set (logs n b). fst x < unat (ResOffset r))
        \<and> logs n' = (logs n)(b := logs n b @ [(unat (ResOffset r), stamped (ResOffset r) ts payload)])))
     \<and> (\<forall>n addr follower maxBytes maxWait minBytes asked req.
        (asked = [] \<or> asked = cols) \<and> FetchPartitionID req = None \<longrightarrow> (\<exists>resp n' r k bs.
        rpc n addr (fetchRequest t follower maxBytes maxWait minBytes \<lparr>ProjectedFields = asked\<rparr> [req]) = (Ok resp, n')
        \<and> parseFetchResults resp = Ok [r] \<and> 0 < k \<and> FetchedRecords r = concat bs \<and> logs n' = logs n
        \<and> (if asked = [] then bs = take k (fromOffset (FetchOffset req) (logs n (FetchBucketID req)))
           else list_all2 (projectedBatch lib schema asked) (take k (fromOffset (FetchOffset req) (logs n (FetchBucketID req)))) bs)))"

lemma storesArrow_produce:
  assumes "storesArrow lib schema cols rpc t logs" and "offsetsLeft (logs n b)"
  obtains resp n' r ts where
    "rpc n addr (ProduceLogRequest acks t ms [buildProduceBucketRecord None b payload]) = (Ok resp, n')"
    "parseProduceResults resp = ([r], None)" "\<forall>x \<in> set (logs n b). fst x < unat (ResOffset r)"
    "logs n' = (logs n)(b := logs n b @ [(unat (ResOffset r), stamped (ResOffset r) ts payload)])"
  using assms unfolding storesArrow_def by blast

lemma storesArrow_fetch:
  assumes "storesArrow lib schema cols rpc t logs" and "asked = [] \<or> asked = cols" and "FetchPartitionID req = None"
  obtains resp n' r k bs where
    "rpc n addr (fetchRequest t follower maxBytes maxWait minBytes \<lparr>ProjectedFields = asked\<rparr> [req]) = (Ok resp, n')"
    "parseFetchResults resp = Ok [r]" "0 < (k :: nat)" "FetchedRecords r = concat bs" "logs n' = logs n"
    "if asked = [] then bs = take k (fromOffset (FetchOffset req) (logs n (FetchBucketID req)))
      else list_all2 (projectedBatch lib schema asked) (take k (fromOffset (FetchOffset req) (logs n (FetchBucketID req)))) bs"
proof -
  have "(asked = [] \<or> asked = cols) \<and> FetchPartitionID req = None" using assms(2,3) by blast
  note served = assms(1)[unfolded storesArrow_def, THEN conjunct2, rule_format, OF this, where n = n and addr = addr
      and follower = follower and maxBytes = maxBytes and maxWait = maxWait and minBytes = minBytes]
  show thesis by (rule exE[OF served], elim exE conjE, rule that)
qed

subsection \<open>Stamped and projected batches\<close>

lemma arrow_decodeLogBatch_cong:
  assumes "length p = length q" and "getU32 (drop 8 p) = getU32 (drop 8 q)" and "p ! 12 = q ! 12"
    and "drop 21 p = drop 21 q"
  shows "arrow_decodeLogBatch p v = arrow_decodeLogBatch q v"
proof -
  have d: "drop k p = drop k q" if "21 \<le> k" for k
    using arg_cong[OF assms(4), of "drop (k - 21)"] that by simp
  then have "goslice (take n p) k n = goslice (take n q) k n" if "21 \<le> k" "n \<le> length q" for n k
    using that assms(1) by (simp add: goslice_def drop_take)
  moreover have "goindex (take n p) 27 = goindex (take n q) 27" if "n \<le> length q" for n
  proof -
    have "p ! 27 = q ! 27" if "27 < length q" using arg_cong[OF assms(4), of "\<lambda>l. l ! 6"] assms(1) that by simp
    with that assms(1) show ?thesis by (simp add: goindex_def)
  qed
  ultimately show ?thesis using assms d by (simp add: arrow_decodeLogBatch_def Let_def cong: if_cong)
qed

lemma arrow_decodeLogBatch_stamped:
  assumes "48 \<le> length b"
  shows "arrow_decodeLogBatch (stamped off ts b @ rest) v = arrow_decodeLogBatch (b @ rest) v"
proof (rule arrow_decodeLogBatch_cong)
  show "getU32 (drop 8 (stamped off ts b @ rest)) = getU32 (drop 8 (b @ rest))"
    using assms by (simp add: stamped_def getU32_def)
  show "(stamped off ts b @ rest) ! 12 = (b @ rest) ! 12"
    using assms by (simp add: stamped_def nth_append)
  show "drop 21 (stamped off ts b @ rest) = drop 21 (b @ rest)"
    using assms by (simp add: stamped_def)
qed (use assms in simp)

lemma unit_arrow_stamped:
  assumes "batch_stream.unit_of (arrowBatchStep lib schema v) b rows" and "48 \<le> length b"
  shows "batch_stream.unit_of (arrowBatchStep lib schema v) (stamped off ts b) rows"
proof -
  have len: "length (stamped off ts b) = length b" using assms(2) by simp
  have "stamped off ts b \<noteq> []"
  proof
    assume "stamped off ts b = []"
    with len have "length b = 0" by (simp only: list.size)
    with assms(2) show False by simp
  qed
  with assms len show ?thesis
    by (simp add: arrow_batches.unit_of_def arrowBatchStep_def arrow_decodeLogBatch_stamped)
qed

text \<open>
  A projected batch of an append-only batch decodes, without its CRC, to the columns asked for
  of the rows of the batch.
\<close>

lemma decode_projected:
  assumes "48 \<le> length b" and "b ! 12 = 0" and "b ! 27 = 1" and "36 + length payload < 2 ^ 32"
    and "b' = take 8 b @ putU32 (word_of_nat (36 + length payload)) @ drop 12 (take 48 b) @ payload"
  shows "arrow_decodeLogBatch (b' @ rest) False = Ok (length b', payload, True)"
proof -
  have len: "length b' = 48 + length payload" using assms(1) by (simp add: assms(5))
  have size: "unat (getU32 (drop 8 (b' @ rest))) + 12 = length b'"
    using assms(1,4) unfolding len by (simp add: assms(5) unat_of_nat del: of_nat_add)
  have at: "(b' @ rest) ! k = b ! k" if "12 \<le> k" "k < 48" for k
    using that assms(1) by (auto simp: assms(5) nth_append)
  have "drop 48 b' = payload" using assms(1) by (simp add: assms(5))
  then have "goslice (take (length b') (b' @ rest)) 48 (length b') = Ok payload"
    by (simp add: goslice_Ok len)
  moreover have "goindex (take (length b') (b' @ rest)) 27 = Ok 1"
    using at[of 27] assms(3) len by (simp add: goindex_Ok nth_append)
  ultimately show ?thesis
    unfolding arrow_decodeLogBatch_def Let_def size using at[of 12] assms(2) len by simp
qed

lemma unit_projected:
  assumes "batch_stream.unit_of (arrowBatchStep lib schema v) b rows" and "48 \<le> length b" and "b ! 12 = 0" and "b ! 27 = 1"
    and "DecodeRecordBatch lib schema (drop 48 b) = Ok rows" and "projectedBatch lib schema cols b b'"
  shows "batch_stream.unit_of (arrowBatchStep lib (projectSchema cols schema) False) b' (map (projectVals cols) rows)"
proof -
  from assms(6) obtain payload where
    b': "b' = take 8 b @ putU32 (word_of_nat (36 + length payload)) @ drop 12 (take 48 b) @ payload"
    and len: "36 + length payload < 2 ^ 32"
    and d: "DecodeRecordBatch lib (projectSchema cols schema) payload = Ok (map (projectVals cols) rows)"
    using assms(5) unfolding projectedBatch_def by blast
  have "b' \<noteq> []" using assms(2) by (auto simp: b')
  with decode_projected[OF assms(2,3,4) len b'] d show ?thesis
    by (simp add: arrow_batches.unit_of_def arrowBatchStep_def)
qed

text \<open>The batch of the client, as the server stores it.\<close>

definition arrowStored :: "('d, 'm, 'p, 'r) arrowLib \<Rightarrow> Schema \<Rightarrow> gval list list \<Rightarrow> bytes \<Rightarrow> bool" where
  "arrowStored lib schema rows s \<longleftrightarrow> 48 \<le> length s \<and> s ! 12 = 0 \<and> s ! 27 = 1
     \<and> DecodeRecordBatch lib schema (drop 48 s) = Ok rows
     \<and> (\<forall>v. batch_stream.unit_of (arrowBatchStep lib schema v) s rows)"

lemma stored_batch:
  assumes "SchemaValidate schema = Ok ()" and "rows \<noteq> []" and "list_all (list_all2 arrowFits schema) rows"
    and "arrowLawful lib schema rows (compressionOf [\<lparr>OptZstd = UseZstd opts, OptLZ4 = UseLZ4 opts\<rparr>])" and "AppendOnly opts"
  shows "\<exists>b. arrow_EncodeLogRecordBatch lib schema rows opts = Ok b
    \<and> (length b < 2 ^ 32 \<longrightarrow> (\<forall>off ts. arrowStored lib schema rows (stamped off ts b)))"
proof -
  from record_batch_roundtrip[OF assms(1,3,4)] obtain p where
    p: "EncodeRecordBatchWithOptions lib schema rows [\<lparr>OptZstd = UseZstd opts, OptLZ4 = UseLZ4 opts\<rparr>] = Ok p"
      "DecodeRecordBatch lib schema p = Ok rows" by blast
  let ?b = "arrow_encodeLogBatch p (length rows) opts"
  have e: "arrow_EncodeLogRecordBatch lib schema rows opts = Ok ?b"
    using assms(1,2) p(1) by (simp add: arrow_EncodeLogRecordBatch_def)
  have "48 \<le> length ?b" by simp
  moreover have "stamped off ts ?b ! 12 = 0" "stamped off ts ?b ! 27 = 1" "drop 48 (stamped off ts ?b) = p" for off ts
    using arrowBatch_fields[of ?b p "length rows" opts "[]"] assms(5)
    by (simp_all add: stamped_def nth_append)
  moreover have "batch_stream.unit_of (arrowBatchStep lib schema v) ?b rows" if "length ?b < 2 ^ 32" for v
    using arrow_batch_unit[OF assms, of v] e that by auto
  ultimately show ?thesis using e p(2) by (auto simp: arrowStored_def intro!: exI[of _ ?b] unit_arrow_stamped)
qed

subsection \<open>Appending and fetching\<close>

lemma arrowRowValues_rows:
  "SchemaValidate schema = Ok () \<Longrightarrow> arrowRowValues schema (map (\<lambda>v. \<lparr>RowSchema = schema, RowValues = v\<rparr>) rows) = Ok rows"
  by (induction rows) simp_all

lemma append_arrow:
  assumes "Table (cache w) path = Some info" and "routeFor (cache w) (TableID info) None b = Ok node"
    and "\<And>gs. mset (ord gs) = mset gs" and "storesArrow lib schema cols rpc (TableID info) logs"
    and "offsetsLeft (logs (net w) b)" and "SchemaValidate schema = Ok ()" and "rows \<noteq> []" and "list_all (list_all2 arrowFits schema) rows"
    and "ParseTableProperties unmarshal (TableJSON info) = Ok properties" and "arrowOptions (SchemaID info) properties = Ok opts"
    and "arrowLawful lib schema rows (compressionOf [\<lparr>OptZstd = UseZstd opts, OptLZ4 = UseLZ4 opts\<rparr>])"
    and "\<And>p. arrow_EncodeLogRecordBatch lib schema rows opts = Ok p \<Longrightarrow> length p < 2 ^ 32"
  obtains r n' s where
    "AppendArrowRows rpc ord lib unmarshal path b (map (\<lambda>v. \<lparr>RowSchema = schema, RowValues = v\<rparr>) rows) w
      = (Ok ([r], None), w\<lparr>net := n'\<rparr>)"
    "\<forall>x \<in> set (logs (net w) b). fst x < unat (ResOffset r)" "arrowStored lib schema rows s"
    "logs n' = (logs (net w))(b := logs (net w) b @ [(unat (ResOffset r), s)])"
proof -
  have "AppendOnly opts" using assms(10) by (auto simp: arrowOptions_def Let_def split: if_splits)
  from stored_batch[OF assms(6,7,8,11) this] assms(12) obtain p where
    p: "arrow_EncodeLogRecordBatch lib schema rows opts = Ok p" "\<And>off ts. arrowStored lib schema rows (stamped off ts p)" by blast
  obtain resp n' r ts where
    req: "rpc (net w) (Address node) (ProduceLogRequest (- 1) (TableID info) 15000 [buildProduceBucketRecord None b p]) = (Ok resp, n')"
    and r: "parseProduceResults resp = ([r], None)" "\<forall>x \<in> set (logs (net w) b). fst x < unat (ResOffset r)"
    and l: "logs n' = (logs (net w))(b := logs (net w) b @ [(unat (ResOffset r), stamped (ResOffset r) ts p)])"
    by (rule storesArrow_produce[OF assms(4,5)])
  have "AppendLog rpc ord path (- 1) 15000 [\<lparr>BatchPartitionID = None, BatchBucketID = b, BatchRecords = p\<rparr>] w
      = (Ok ([r], None), w\<lparr>net := n'\<rparr>)"
    by (rule AppendLog_single[OF assms(1,2,3)]) (fact req, fact r(1))
  moreover obtain v vs where rows: "rows = v # vs" using assms(7) by (cases rows) auto
  ultimately have "AppendArrowRows rpc ord lib unmarshal path b (map (\<lambda>v. \<lparr>RowSchema = schema, RowValues = v\<rparr>) rows) w
      = (Ok ([r], None), w\<lparr>net := n'\<rparr>)"
    using assms(1,9,10) p(1) arrowRowValues_rows[OF assms(6), of rows] unfolding rows
    by (simp add: AppendArrowRows_def orReturn_def ensureTableInfo_def)
  from that[OF this r(2) p(2) l] show thesis .
qed

lemma fetch_arrow:
  assumes "Table (cache w) path = Some info" and "routeFor (cache w) (TableID info) None (FetchBucketID req) = Ok node"
    and "\<And>gs. mset (ord gs) = mset gs" and "storesArrow lib schema cols rpc (TableID info) logs" and "asked = [] \<or> asked = cols" and "FetchPartitionID req = None"
    and "logs (net w) (FetchBucketID req) = old @ [(unat (FetchOffset req), s)]" and "\<forall>x \<in> set old. fst x < unat (FetchOffset req)"
    and "arrowStored lib schema rows s" and "SchemaValidate schema = Ok ()"
  shows "\<exists>fetched n'. FetchLogWithOptions rpc ord path follower maxBytes maxWait minBytes [req] \<lparr>ProjectedFields = asked\<rparr> w
      = (Ok [fetched], w\<lparr>net := n'\<rparr>) \<and> logs n' = logs (net w)
    \<and> (asked = [] \<longrightarrow> DecodeArrowLogBatchRows lib schema (FetchedRecords fetched) = Ok rows)
    \<and> (asked \<noteq> [] \<longrightarrow> SchemaValidate (projectSchema asked schema) = Ok () \<longrightarrow>
        DecodeProjectedArrowLogBatchRows lib (projectSchema asked schema) (FetchedRecords fetched) = Ok (map (projectVals asked) rows))"
proof -
  obtain resp n' r k bs where
    req: "rpc (net w) (Address node) (fetchRequest (TableID info) follower maxBytes maxWait minBytes \<lparr>ProjectedFields = asked\<rparr> [req]) = (Ok resp, n')"
    and r: "parseFetchResults resp = Ok [r]" "0 < (k :: nat)" "FetchedRecords r = concat bs" and l: "logs n' = logs (net w)"
    and bs: "if asked = [] then bs = take k (fromOffset (FetchOffset req) (logs (net w) (FetchBucketID req)))
      else list_all2 (projectedBatch lib schema asked) (take k (fromOffset (FetchOffset req) (logs (net w) (FetchBucketID req)))) bs"
    by (rule storesArrow_fetch[OF assms(4,5,6), where n = "net w"])
  have "filter (\<lambda>(o', _). unat (FetchOffset req) \<le> o') old = []" using assms(8) by (auto simp: filter_empty_conv)
  then have one: "take k (fromOffset (FetchOffset req) (logs (net w) (FetchBucketID req))) = [s]"
    using r(2) by (simp add: fromOffset_def assms(7))
  have "groupFetchesByLeader rpc path (TableID info) [req] w = (Ok [(Address node, [req])], w)"
    using assms(2,6) by (simp add: groupFetchesByLeader_def tableRouteFor_def)
  with req r(1) assms(1)
  have "FetchLogWithOptions rpc ord path follower maxBytes maxWait minBytes [req] \<lparr>ProjectedFields = asked\<rparr> w = (Ok [r], w\<lparr>net := n'\<rparr>)"
    by (simp add: FetchLogWithOptions_def ensureTableInfo_def single_group[OF assms(3)] invokeA_def)
  moreover have "DecodeArrowLogBatchRows lib schema (FetchedRecords r) = Ok rows" if "asked = []"
  proof -
    have "list_all2 (batch_stream.unit_of (arrowBatchStep lib schema True)) [s] [rows]"
      using assms(9) by (simp add: arrowStored_def)
    from arrow_batches.loop_concat[OF this] show ?thesis
      using bs r(3) assms(10) that one by (simp add: DecodeArrowLogBatchRows_def arrow_DecodeLogRecordBatchRows_def decodeLogRecordBatchRows_def)
  qed
  moreover have "DecodeProjectedArrowLogBatchRows lib (projectSchema asked schema) (FetchedRecords r) = Ok (map (projectVals asked) rows)"
    if "asked \<noteq> []" "SchemaValidate (projectSchema asked schema) = Ok ()"
  proof -
    from bs that(1) one obtain s' where s': "bs = [s']" "projectedBatch lib schema asked s s'" by (auto simp: list_all2_Cons1)
    with assms(9) have "list_all2 (batch_stream.unit_of (arrowBatchStep lib (projectSchema asked schema) False)) [s'] [map (projectVals asked) rows]"
      using unit_projected[of lib schema False s rows asked s'] by (simp add: arrowStored_def)
    from arrow_batches.loop_concat[OF this] show ?thesis
      using r(3) s'(1) that(2) by (simp add: DecodeProjectedArrowLogBatchRows_def DecodeProjectedLogRecordBatchRows_def decodeLogRecordBatchRows_def)
  qed
  ultimately show ?thesis using l by blast
qed

end
