(* ===== verification/Demo_Arrow_Laws.thy ===== *)
theory Demo_Arrow_Laws
  imports Demo_Log_Laws Arrow_Table
begin

text \<open>
  The Arrow check of the end-to-end program: two rows appended as one batch, read back whole and
  with two of their columns.
\<close>

lemma projected_orders:
  "projectSchema [0, 3] orderSchema = NewSchema [Int64Type, StringType]"
  "projectVals [0, 3] v = [v ! 0, v ! 3]" "SchemaValidate (NewSchema [Int64Type, StringType]) = Ok ()"
  by (simp_all add: projectSchema_def projectVals_def orderSchema_def NewSchema_def SchemaValidate_def type_constructors)

lemma arrow_orders:
  "mustRows orderSchema arrowDemoRows = Ok (rowsOf orderSchema arrowDemoRows)"
  "list_all (list_all2 arrowFits orderSchema) arrowDemoRows" "arrowDemoRows \<noteq> []"
  by (rule mustRows_ok[OF orders_fit(1)])
    (simp_all add: arrowDemoRows_def orders_fit(2) orderSchema_def NewSchema_def type_constructors arrowFits_def)

lemma compareFetched_ok:
  assumes "decode (FetchedRecords f) = Ok want" and "list_all (\<lambda>v. rowsEqual v v = Ok True) want"
  shows "compareFetched texts decode want [f] = Ok ()"
  using assms by (simp add: compareFetched_def compareRows_refl list_all_iff)

definition arrowReady :: "('w, 'd, 'm, 'p, 'r) cluster \<Rightarrow> environment \<Rightarrow> TableInfo \<Rightarrow> 'w world \<Rightarrow> bool" where
  "arrowReady c env info w \<longleftrightarrow> logReady c (envArrowTable env) info w \<and> (\<forall>gs. mset (fetchOrder c gs) = mset gs)
     \<and> (\<exists>properties opts. ParseTableProperties (tableDecoder c) (TableJSON info) = Ok properties
         \<and> arrowOptions (SchemaID info) properties = Ok opts
         \<and> arrowLawful (arrowLibrary c) orderSchema arrowDemoRows (compressionOf [\<lparr>OptZstd = UseZstd opts, OptLZ4 = UseLZ4 opts\<rparr>])
         \<and> (\<forall>p. arrow_EncodeLogRecordBatch (arrowLibrary c) orderSchema arrowDemoRows opts = Ok p \<longrightarrow> length p < 2 ^ 32))"

lemma arrow_check:
  assumes "arrowReady c env info w" and "storesArrow (arrowLibrary c) orderSchema [0, 3] (rpcOf c) (TableID info) logs"
    and "offsetsLeft (logs (net w) 0)"
  shows "\<exists>n' off s. runArrowLogAppendFetchAndProjection c env w = (Ok (), w\<lparr>net := n'\<rparr>)
    \<and> arrowStored (arrowLibrary c) orderSchema arrowDemoRows s \<and> logs n' = (logs (net w))(0 := logs (net w) 0 @ [(off, s)])"
proof -
  from assms(1) obtain node properties opts where r: "Table (cache w) (envArrowTable env) = Some info"
    "routeFor (cache w) (TableID info) None 0 = Ok node"
    and o: "\<And>gs. mset (batchOrder c gs) = mset gs" "\<And>gs. mset (fetchOrder c gs) = mset gs"
    and p: "ParseTableProperties (tableDecoder c) (TableJSON info) = Ok properties" "arrowOptions (SchemaID info) properties = Ok opts"
    and l: "arrowLawful (arrowLibrary c) orderSchema arrowDemoRows (compressionOf [\<lparr>OptZstd = UseZstd opts, OptLZ4 = UseLZ4 opts\<rparr>])"
    and len: "\<And>p. arrow_EncodeLogRecordBatch (arrowLibrary c) orderSchema arrowDemoRows opts = Ok p \<Longrightarrow> length p < 2 ^ 32"
    by (auto simp: arrowReady_def logReady_def)
  obtain x n1 s where
    a: "AppendArrowRows (rpcOf c) (batchOrder c) (arrowLibrary c) (tableDecoder c) (envArrowTable env) 0 (rowsOf orderSchema arrowDemoRows) w
      = (Ok ([x], None), w\<lparr>net := n1\<rparr>)"
    and s: "\<forall>y \<in> set (logs (net w) 0). fst y < unat (ResOffset x)" "arrowStored (arrowLibrary c) orderSchema arrowDemoRows s"
    and l1: "logs n1 = (logs (net w))(0 := logs (net w) 0 @ [(unat (ResOffset x), s)])"
    by (rule append_arrow[OF r o(1) assms(2,3) orders_fit(1) arrow_orders(3,2) p l len])
  let ?req = "\<lparr>FetchPartitionID = None, FetchBucketID = 0, FetchOffset = ResOffset x, MaxFetchBytes = 4096\<rparr>"
  have fetch: "\<exists>fetched n'. FetchLogWithOptions (rpcOf c) (fetchOrder c) (envArrowTable env) (- 1) 4096 None None [?req]
        \<lparr>ProjectedFields = cols\<rparr> (w\<lparr>net := n\<rparr>) = (Ok [fetched], w\<lparr>net := n'\<rparr>) \<and> logs n' = logs n
    \<and> (cols = [] \<longrightarrow> DecodeArrowLogBatchRows (arrowLibrary c) orderSchema (FetchedRecords fetched) = Ok arrowDemoRows)
    \<and> (cols \<noteq> [] \<longrightarrow> SchemaValidate (projectSchema cols orderSchema) = Ok () \<longrightarrow>
        DecodeProjectedArrowLogBatchRows (arrowLibrary c) (projectSchema cols orderSchema) (FetchedRecords fetched)
          = Ok (map (projectVals cols) arrowDemoRows))" if n: "logs n = logs n1" and cols: "cols = [] \<or> cols = [0, 3]" for n cols
  proof -
    have w1: "Table (cache (w\<lparr>net := n\<rparr>)) (envArrowTable env) = Some info"
      "routeFor (cache (w\<lparr>net := n\<rparr>)) (TableID info) None (FetchBucketID ?req) = Ok node"
      "FetchPartitionID ?req = None" "logs (net (w\<lparr>net := n\<rparr>)) (FetchBucketID ?req) = logs (net w) 0 @ [(unat (FetchOffset ?req), s)]"
      "\<forall>y \<in> set (logs (net w) 0). fst y < unat (FetchOffset ?req)"
      using r n l1 s(1) by simp_all
    from fetch_arrow[OF w1(1,2) o(2) assms(2) cols w1(3-5) s(2) orders_fit(1), of "- 1" 4096 None None] show ?thesis by simp
  qed
  from fetch[OF refl, of "[]"] obtain f n2 where
    f: "FetchLog (rpcOf c) (fetchOrder c) (envArrowTable env) (- 1) 4096 None None [?req] (w\<lparr>net := n1\<rparr>) = (Ok [f], w\<lparr>net := n2\<rparr>)"
      "DecodeArrowLogBatchRows (arrowLibrary c) orderSchema (FetchedRecords f) = Ok arrowDemoRows" and l2: "logs n2 = logs n1"
    unfolding FetchLog_def by auto
  from fetch[OF l2, of "[0, 3]", unfolded projected_orders(1)] projected_orders(3) obtain g n3 where
    g: "FetchLogWithOptions (rpcOf c) (fetchOrder c) (envArrowTable env) (- 1) 4096 None None [?req] \<lparr>ProjectedFields = [0, 3]\<rparr>
        (w\<lparr>net := n2\<rparr>) = (Ok [g], w\<lparr>net := n3\<rparr>)"
      "DecodeProjectedArrowLogBatchRows (arrowLibrary c) (NewSchema [Int64Type, StringType]) (FetchedRecords g)
        = Ok (map (projectVals [0, 3]) arrowDemoRows)" and l3: "logs n3 = logs n2"
    by auto
  have c1: "compareFetched texts (DecodeArrowLogBatchRows (arrowLibrary c) orderSchema) arrowDemoRows [f] = Ok ()" for texts
    by (rule compareFetched_ok[of "DecodeArrowLogBatchRows (arrowLibrary c) orderSchema", OF f(2)])
      (simp add: arrowDemoRows_def rowsEqual_refl)
  have c2: "compareFetched texts (DecodeProjectedArrowLogBatchRows (arrowLibrary c) (NewSchema [Int64Type, StringType]))
      (map (projectVals [0, 3]) arrowDemoRows) [g] = Ok ()" for texts
    by (rule compareFetched_ok[of "DecodeProjectedArrowLogBatchRows (arrowLibrary c) (NewSchema [Int64Type, StringType])", OF g(2)])
      (simp add: arrowDemoRows_def projected_orders(2) rowsEqual_refl)
  have "runArrowLogAppendFetchAndProjection c env w = (Ok (), w\<lparr>net := n3\<rparr>)"
    using a f(1) g(1) c1 c2
    by (simp add: runArrowLogAppendFetchAndProjection_def arrow_orders(1) writeOne_def wrapA_def projected_orders(2)[abs_def] Let_def o_def)
  with s(2) l1 l2 l3 show ?thesis by (intro exI[of _ n3]) auto
qed

end
