(* ===== verification/Demo_Prefix_Laws.thy ===== *)
theory Demo_Prefix_Laws
  imports Demo_Data_Laws
begin

text \<open>
  The prefix-lookup check of the end-to-end program: rows of a table with a key of three
  columns are found by the encoding of the first two, because the encoding of the prefix of a
  key is a prefix of the encoding of the key.
\<close>

subsection \<open>Servers that look prefixes up\<close>

text \<open>The values of all keys that begin with the prefix, each once, in an order of the server's own.\<close>

definition prefixesKv :: "'w network \<Rightarrow> int64 \<Rightarrow> ('w \<Rightarrow> int32 \<Rightarrow> bytes \<rightharpoonup> bytes) \<Rightarrow> bool" where
  "prefixesKv rpc t kv \<longleftrightarrow> (\<forall>n addr b p. \<exists>resp n' keys vals.
     rpc n addr (PrefixLookupRequest t [buildPrefixLookupBucket \<lparr>ReqPartitionID = None, ReqBucketID = b, ReqKeys = [p]\<rparr>]) = (Ok resp, n')
     \<and> parsePrefixLookupResults resp = Ok [\<lparr>PrefixPartitionID = None, PrefixBucketID = b, PrefixValues = [vals]\<rparr>]
     \<and> distinct keys \<and> set keys = {key \<in> dom (kv n b). take (length p) key = p}
     \<and> map Some vals = map (kv n b) keys \<and> kv n' = kv n)"

lemma prefixesKv_find:
  assumes "prefixesKv rpc t kv"
  obtains resp n' keys vals where
    "rpc n addr (PrefixLookupRequest t [buildPrefixLookupBucket \<lparr>ReqPartitionID = None, ReqBucketID = b, ReqKeys = [p]\<rparr>]) = (Ok resp, n')"
    "parsePrefixLookupResults resp = Ok [\<lparr>PrefixPartitionID = None, PrefixBucketID = b, PrefixValues = [vals]\<rparr>]"
    "distinct keys" "set keys = {key \<in> dom (kv n b). take (length p) key = p}"
    "map Some vals = map (kv n b) keys" "kv n' = kv n"
  using assms unfolding prefixesKv_def by blast

lemma decodePrefix_lookup:
  "lookupDecode schema False (map Some vals) = Ok (map Some rows) \<Longrightarrow> decodePrefixPayloads schema vals = Ok rows"
  by (induction vals arbitrary: rows) (auto simp: res_elims)

text \<open>A prefix lookup in a table of rows returns the rows whose keys begin with the prefix.\<close>

lemma prefix_lookup:
  assumes "tableReady c path ks info False w" and "prefixesKv (rpcOf c) (TableID info) kv" and "rowFormat False schema"
    and "kvRows (ratParser c) schema False sid (kv (net w) 0) content"
  shows "\<exists>n' vals keys. PrefixLookup (rpcOf c) (lookupOrder c) path [\<lparr>ReqPartitionID = None, ReqBucketID = 0, ReqKeys = [p]\<rparr>] w
      = (Ok [\<lparr>PrefixPartitionID = None, PrefixBucketID = 0, PrefixValues = [vals]\<rparr>], w\<lparr>net := n'\<rparr>)
    \<and> distinct keys \<and> set keys = {key \<in> dom content. take (length p) key = p}
    \<and> decodePrefixPayloads schema vals = Ok (map (\<lambda>key. the (content key)) keys) \<and> kv n' = kv (net w)"
proof -
  let ?req = "\<lparr>ReqPartitionID = None, ReqBucketID = 0, ReqKeys = [p]\<rparr>"
  from assms(1) obtain node where r: "Table (cache w) path = Some info" "routeFor (cache w) (TableID info) None 0 = Ok node"
    and o: "\<And>gs. mset (lookupOrder c gs) = mset gs" by (auto simp: tableReady_def)
  from assms(4) have kv: "kv (net w) 0 = storedRow (ratParser c) schema sid False content"
    and fits: "contentFits (ratParser c) schema False content" by (simp_all add: kvRows_def)
  have valid: "SchemaValidate schema = Ok ()" using assms(3) by (simp add: rowFormat_def)
  obtain resp n' keys vals where
    req: "rpcOf c (net w) (Address node) (PrefixLookupRequest (TableID info) [buildPrefixLookupBucket ?req]) = (Ok resp, n')"
      "parsePrefixLookupResults resp = Ok [\<lparr>PrefixPartitionID = None, PrefixBucketID = 0, PrefixValues = [vals]\<rparr>]"
    and k: "distinct keys" "set keys = {key \<in> dom (kv (net w) 0). take (length p) key = p}"
    and v: "map Some vals = map (kv (net w) 0) keys" and n: "kv n' = kv (net w)"
    by (rule prefixesKv_find[OF assms(2), where n = "net w" and addr = "Address node" and b = 0 and p = p])
  have dom: "dom (kv (net w) 0) = dom content" unfolding kv by (rule dom_storedRow[OF valid fits])
  have "map content keys = map Some (map (\<lambda>key. the (content key)) keys)"
    using k(2) unfolding dom by auto
  then have "decodePrefixPayloads schema vals = Ok (map (\<lambda>key. the (content key)) keys)"
    using lookupDecode_stored[OF assms(3) fits, of sid keys] v unfolding kv
    by (intro decodePrefix_lookup) simp
  moreover have "groupLookupsByLeader (rpcOf c) path (TableID info) [?req] w = (Ok [(Address node, [?req])], w)"
    using r(2) by (simp add: groupLookupsByLeader_def tableRouteFor_def)
  then have "PrefixLookup (rpcOf c) (lookupOrder c) path [?req] w
      = (Ok [\<lparr>PrefixPartitionID = None, PrefixBucketID = 0, PrefixValues = [vals]\<rparr>], w\<lparr>net := n'\<rparr>)"
    using r(1) req by (simp add: PrefixLookup_def ensureTableInfo_def single_group[OF o] invokeA_def)
  ultimately show ?thesis using k n unfolding dom by blast
qed

subsection \<open>The orders of customers\<close>

definition orderPrefix :: bytes where
  "orderPrefix = [1, 9] @ lit ''aaaaaaaaa''"

definition orderKey :: "nat \<Rightarrow> bytes" where
  "orderKey i = [[1, 9] @ lit ''aaaaaaaaa'' @ [0xA9, 0x46], [1, 9] @ lit ''aaaaaaaaa'' @ [0xAA, 0x46],
     [2, 9] @ lit ''aaaaaaaaa'' @ [0xAB, 0x46]] ! i"

lemma prefix_schema:
  "SchemaValidate prefixSchema = Ok ()" "length prefixSchema = 4" "rowFormat False prefixSchema"
  by (simp_all add: prefixSchema_def NewSchema_def SchemaValidate_def type_constructors rowFormat_def compactable_def)

lemmas prefix_eval = prefixSchema_def NewSchema_def EncodeLookupKey_def type_constructors encodeCompactedKeyValue_def
  coerce_simps goindex_def encodeSignedVarint64_def encodeLengthPrefixedBytes_def putUvarint_def putUvarintNat.simps
  encodeSignedVarint32_def lit_def

lemma order_prefix:
  "EncodeLookupKey rp \<lparr>RowSchema = prefixSchema, RowValues = prefixDemoRows ! 0\<rparr> [0, 1] = Ok orderPrefix"
  by (simp add: prefixDemoRows_def prefix_eval orderPrefix_def)

lemma order_keyed:
  "list_all2 (keyedRow rp prefixSchema [0, 1, 2] False) prefixDemoRows [orderKey 0, orderKey 1, orderKey 2]"
  by (simp add: prefixDemoRows_def prefix_eval orderKey_def keyedRow_def SchemaValidate_def nullBitsSize_def IsFixed_def)

lemma order_keys:
  "take (length orderPrefix) (orderKey 0) = orderPrefix" "take (length orderPrefix) (orderKey 1) = orderPrefix"
  "take (length orderPrefix) (orderKey 2) \<noteq> orderPrefix" "orderKey 0 \<noteq> orderKey 1" "orderKey 0 \<noteq> orderKey 2" "orderKey 1 \<noteq> orderKey 2"
  by (simp_all add: orderKey_def orderPrefix_def lit_def)

lemma order_rows: "mustRows prefixSchema prefixDemoRows = Ok (rowsOf prefixSchema prefixDemoRows)"
  by (rule mustRows_ok[OF prefix_schema(1)]) (simp add: prefixDemoRows_def prefix_schema(2))

text \<open>
  The table after the check: the three orders, and what it had. The rows of the first customer
  must not be there before, but for those that the check writes again.
\<close>

definition ordersWritten :: "(bytes \<rightharpoonup> gval list) \<Rightarrow> bytes \<rightharpoonup> gval list" where
  "ordersWritten content = content(orderKey 0 \<mapsto> prefixDemoRows ! 0, orderKey 1 \<mapsto> prefixDemoRows ! 1, orderKey 2 \<mapsto> prefixDemoRows ! 2)"

lemma orders_applied: "applyOps [orderKey 0, orderKey 1, orderKey 2] (map Upsert prefixDemoRows) content = ordersWritten content"
  by (simp add: ordersWritten_def prefixDemoRows_def)

lemma prefix_check:
  assumes "tableReady c (envPrefixTable env) [0, 1, 2] info False w" and "storesKv (rpcOf c) (TableID info) kv"
    and "prefixesKv (rpcOf c) (TableID info) kv"
    and "kvRows (ratParser c) prefixSchema False (ucast (SchemaID info)) (kv (net w) 0) content"
    and "{key \<in> dom content. take (length orderPrefix) key = orderPrefix} \<subseteq> {orderKey 0, orderKey 1}"
  shows "\<exists>n'. runPrimaryKeyPrefixLookup c env w = (Ok (), w\<lparr>net := n'\<rparr>)
    \<and> kvRows (ratParser c) prefixSchema False (ucast (SchemaID info)) (kv n' 0) (ordersWritten content)"
proof -
  let ?req = "\<lparr>ReqPartitionID = None, ReqBucketID = 0, ReqKeys = [orderPrefix]\<rparr>" and ?row = "\<lambda>key. the (ordersWritten content key)"
  from table_upserts[OF assms(1,2) order_keyed assms(4)] obtain n where
    u: "writeRows ''upsert prefix row %d: %w'' ''upsert prefix row %d: unexpected result count %d''
        (\<lambda>row. UpsertRow (rpcOf c) (batchOrder c) (tableDecoder c) (ratParser c) (envPrefixTable env) 0 row [])
        (rowsOf prefixSchema prefixDemoRows) w = (Ok (), w\<lparr>net := n\<rparr>)"
    and t: "kvRows (ratParser c) prefixSchema False (ucast (SchemaID info)) (kv n 0) (ordersWritten content)"
    unfolding orders_applied by blast
  have w1: "tableReady c (envPrefixTable env) [0, 1, 2] info False (w\<lparr>net := n\<rparr>)"
    "kvRows (ratParser c) prefixSchema False (ucast (SchemaID info)) (kv (net (w\<lparr>net := n\<rparr>)) 0) (ordersWritten content)"
    using assms(1) t by simp_all
  from prefix_lookup[OF w1(1) assms(3) prefix_schema(3) w1(2), where p = orderPrefix] obtain n' vals keys where
    l: "PrefixLookup (rpcOf c) (lookupOrder c) (envPrefixTable env) [?req] (w\<lparr>net := n\<rparr>)
        = (Ok [\<lparr>PrefixPartitionID = None, PrefixBucketID = 0, PrefixValues = [vals]\<rparr>], w\<lparr>net := n'\<rparr>)"
    and k: "distinct keys" "set keys = {key \<in> dom (ordersWritten content). take (length orderPrefix) key = orderPrefix}"
    and d: "decodePrefixPayloads prefixSchema vals = Ok (map ?row keys)" and n': "kv n' = kv n"
    unfolding net_twice by auto
  have "set keys = set [orderKey 0, orderKey 1]"
    using assms(5) order_keys unfolding k(2) ordersWritten_def by auto
  then have "mset keys = {#orderKey 0, orderKey 1#}"
    using set_eq_iff_mset_eq_distinct[OF k(1), of "[orderKey 0, orderKey 1]"] order_keys(4) by simp
  then have "image_mset ?row (mset keys) = mset [prefixDemoRows ! 0, prefixDemoRows ! 1]"
    using order_keys by (simp add: ordersWritten_def)
  then have same: "sameDecodedRowSet (otherText c) (asDecoded prefixFields (map ?row keys))
      (asDecoded prefixFields [prefixDemoRows ! 0, prefixDemoRows ! 1])"
    by (rule same_decoded)
  have at: "rowsOf prefixSchema prefixDemoRows ! i = \<lparr>RowSchema = prefixSchema, RowValues = prefixDemoRows ! i\<rparr>" if "i < 3" for i
    by (rule nth_map) (use that in \<open>simp add: prefixDemoRows_def\<close>)
  from u l d same order_rows order_prefix t n' show ?thesis
    by (intro exI[of _ n']) (simp add: runPrimaryKeyPrefixLookup_def wrapA_def checkThat_def at)
qed

end
