(* ===== verification/Demo_Properties.thy ===== *)
theory Demo_Properties
  imports Demo_Admin_Laws Demo_Arrow_Laws Demo_Prefix_Laws Arrow_Properties Table_Properties "HOL-Library.AList"
begin

text \<open>
  The end-to-end program (\<open>demo/fluss-paimon/go-e2e/main.go\<close>) as a test of the client: against
  servers that do what the protocol says, its checks pass, and they leave the cluster as they
  should.
\<close>

subsection \<open>The checks of the admin client\<close>

text \<open>The checks of a section in the way \<open>main\<close> runs them.\<close>

definition sectionChecks :: "('w, 'd, 'm, 'p, 'r) cluster \<Rightarrow> environment \<Rightarrow> string \<Rightarrow> ('w, unit) act list" where
  "sectionChecks c env sec = map (\<lambda>(section, name, check). wrapA ''%s/%s: %v'' (check env))
     (filter (\<lambda>x. fst x = sec) (demoChecks c))"

lemma admin_section:
  "filter (\<lambda>x. fst x = ''Admin'') (demoChecks c) = map (\<lambda>(n, check). (''Admin'', n, check (rpcOf c)))
    [(''ListDatabases'', runListDatabases), (''DatabaseExists'', runDatabaseExists), (''GetDatabaseInfo'', runGetDatabaseInfo),
     (''CreateAndDropDatabase'', runCreateAndDropDatabase), (''ListTables'', runListTables), (''TableExists'', runTableExists),
     (''GetTableInfo'', runGetTableInfo), (''GetTableSchema'', runGetTableSchema),
     (''CreateAlterAndDropTable'', runCreateAlterAndDropTable), (''PartitionLifecycle'', runPartitionLifecycle),
     (''NegativePaths'', runAdminNegativePaths)]"
  unfolding demoChecks_def by simp

lemma bootstrappedD:
  "bootstrapped env k \<Longrightarrow> consistent k" "bootstrapped env k \<Longrightarrow> envDatabase env \<in> dbSet k"
  "bootstrapped env k \<Longrightarrow> envAdminPartitioned env \<in> tabSet k" "bootstrapped env k \<Longrightarrow> oneKey (envAdminPartitioned env) k"
  by (auto simp: bootstrapped_def envTables_def)

lemma bootstrapped_temp:
  assumes "bootstrapped env c"
  shows "bootstrapped env (withoutDb ''go_e2e_admin_db'' c)"
    and "bootstrapped env (withoutTab \<lparr>DatabaseName = envDatabase env, TableName = ''go_e2e_admin_table''\<rparr> c)"
  using assms by (intro bootstrapped_without; auto simp: bootstrapped_def)+

lemma admin_checks_go:
  assumes s: "servesCatalog (rpcOf c) cat" and b: "bootstrapped env k"
  shows "goes cat k (runAll (waitForTables ticks (rpcOf c) (envDatabase env) (map TableName (envTables env))
      # sectionChecks c env ''Admin''))
    (withoutPart (envAdminPartitioned env) [(''pt'', ''2026'')]
     (withoutTab \<lparr>DatabaseName = envDatabase env, TableName = ''go_e2e_admin_negative_table''\<rparr>
     (withoutDb ''go_e2e_admin_negative_db''
     (withoutPart (envAdminPartitioned env) [(''pt'', ''2025'')]
     (withoutTab \<lparr>DatabaseName = envDatabase env, TableName = ''go_e2e_admin_table''\<rparr>
     (withoutDb ''go_e2e_admin_db'' k))))))"
proof -
  let ?k1 = "withoutDb ''go_e2e_admin_db'' k"
  let ?k2 = "withoutTab \<lparr>DatabaseName = envDatabase env, TableName = ''go_e2e_admin_table''\<rparr> ?k1"
  let ?k3 = "withoutPart (envAdminPartitioned env) [(''pt'', ''2025'')] ?k2"
  note b1 = bootstrapped_temp(1)[OF b]
  note b2 = bootstrapped_temp(2)[OF b1]
  note b3 = bootstrapped_without(3)[OF b2, of "envAdminPartitioned env" "[(''pt'', ''2025'')]"]
  note c = bootstrappedD(1)[OF b] bootstrappedD(1,2)[OF b1] bootstrappedD(3,4)[OF b2]
  note list0 = goes_listing[OF s b] and list1 = goes_listing[OF s b1]
  have checks: "sectionChecks c env ''Admin'' = map (\<lambda>check. wrapA ''%s/%s: %v'' (check (rpcOf c) env))
     [runListDatabases, runDatabaseExists, runGetDatabaseInfo, runCreateAndDropDatabase, runListTables, runTableExists,
      runGetTableInfo, runGetTableSchema, runCreateAlterAndDropTable, runPartitionLifecycle, runAdminNegativePaths]"
    by (simp only: sectionChecks_def admin_section list.map prod.case)
  show ?thesis unfolding checks list.map
    by (intro goes_runAll_Cons[OF list0(1)] goes_runAll_Cons[OF goes_wrapA[OF list0(2)]]
        goes_runAll_Cons[OF goes_wrapA[OF list0(3)]] goes_runAll_Cons[OF goes_wrapA[OF list0(4)]]
        goes_runAll_Cons[OF goes_wrapA[OF goes_CreateAndDropDatabase[OF s c(1)]]]
        goes_runAll_Cons[OF goes_wrapA[OF list1(5)]] goes_runAll_Cons[OF goes_wrapA[OF list1(6)]]
        goes_runAll_Cons[OF goes_wrapA[OF list1(7)]] goes_runAll_Cons[OF goes_wrapA[OF list1(8)]]
        goes_runAll_Cons[OF goes_wrapA[OF goes_CreateAlterAndDropTable[OF s c(2,3)]]]
        goes_runAll_Cons[OF goes_wrapA[OF goes_PartitionLifecycle[OF s c(4,5)]]]
        goes_runAll_Cons[OF goes_wrapA[OF goes_NegativePaths[OF s b3]]] goes_runAll_Nil)
qed

text \<open>
  C5. Against any cluster that serves a catalogue of databases, tables and partitions, with the
  tables of the program in it and a known coordinator, the wait for the tables and all eleven
  checks of the admin client pass, the negative ones included; at the end the catalogue is
  what it was, without the databases, tables and partitions the program uses on the way.
\<close>

theorem admin_checks_pass:
  assumes "servesCatalog (rpcOf c) cat" and "bootstrapped env (cat (net w))" and "ready w"
  shows "\<exists>w'. runAll (waitForTables ticks (rpcOf c) (envDatabase env) (map TableName (envTables env))
      # sectionChecks c env ''Admin'') w = (Ok (), w')
    \<and> cat (net w') = withoutPart (envAdminPartitioned env) [(''pt'', ''2026'')]
     (withoutTab \<lparr>DatabaseName = envDatabase env, TableName = ''go_e2e_admin_negative_table''\<rparr>
     (withoutDb ''go_e2e_admin_negative_db''
     (withoutPart (envAdminPartitioned env) [(''pt'', ''2025'')]
     (withoutTab \<lparr>DatabaseName = envDatabase env, TableName = ''go_e2e_admin_table''\<rparr>
     (withoutDb ''go_e2e_admin_db'' (cat (net w)))))))"
  using admin_checks_go[OF assms(1,2), where ticks = ticks] assms(3) unfolding goes_def by blast

text \<open>A cluster for the witnesses, and a server that keeps its catalogue in lists.\<close>

definition noPlatform :: "'w platform" where
  "noPlatform = \<lparr>parseURL = (\<lambda>_. Fail ErrEOF), joinPath = (@), dirOf = (\<lambda>s. s), MkdirTemp = (\<lambda>w. (Fail ErrEOF, w)),
     RemoveAll = (\<lambda>_ w. w), MkdirAll = (\<lambda>_ w. (Ok (), w)), readFile = (\<lambda>_ w. (Fail ErrEOF, w)),
     createFile = (\<lambda>_ w. (Ok (), w)), copyTo = (\<lambda>_ _ w. (Ok (), w)), newS3 = (\<lambda>_ _ _ _. Ok ()),
     fGetObject = (\<lambda>_ _ _ w. (Fail ErrEOF, w))\<rparr>"

definition customerTable :: unmarshal_table where
  "customerTable json = Ok \<lparr>SchemaColumns = customerFields, SchemaPrimaryKey = [''customer_id''], PartitionKeyNames = [],
     BucketKeyNames = [], DescProperties = Some [''table.kv.format'' \<mapsto> ''compacted'']\<rparr>"

definition demoRat :: rat_parser where
  "demoRat s = (if s = lit ''123.45'' then Some (2469, 20) else None)"

text \<open>An Arrow library that carries the rows of the check, whole and with two of their columns.\<close>

definition ordersColumns :: "int cell list list" where
  "ordersColumns = [[CInt64 4001, CInt64 4002], [CInt32 201, CInt32 202],
     [CFloat64 0x4026800000000000, CFloat64 0x4036800000000000], [CString (lit ''created''), CString (lit ''packed'')]]"

definition ordersLib :: "(int, nat, unit, nat) arrowLib" where
  "ordersLib = \<lparr>fieldBuilder = demoBuilder, fromBigInt = Ok, bigInt = (\<lambda>x. x),
     encodePayload = (\<lambda>sch cells cmp. Ok ()), writePayload = (\<lambda>p. Ok [1, 2]), schemaPayload = (\<lambda>sch. Ok []),
     readMessage = (\<lambda>b. if b = [] \<or> b = [3] \<or> b = [1, 2] then Ok (length b) else Fail ErrEOF),
     newReader = (\<lambda>r. Ok (last (msgs r))),
     nextBatch = (\<lambda>r. Ok (if r = 0 then None else Some (2, if r = 1 then [ordersColumns ! 0, ordersColumns ! 3] else ordersColumns)))\<rparr>"

definition demoCluster :: "'w network \<Rightarrow> ('w, int, nat, unit, nat) cluster" where
  "demoCluster rpc = \<lparr>rpcOf = rpc, batchOrder = (\<lambda>gs. gs), lookupOrder = (\<lambda>gs. gs), fetchOrder = (\<lambda>gs. gs),
     tableDecoder = customerTable, schemaDecoder = (\<lambda>_. Fail ErrEOF), ratParser = demoRat, arrowLibrary = ordersLib,
     openDBOf = (\<lambda>_ w. (Fail ErrEOF, w)), osOf = noPlatform, tickCount = 0, otherText = (\<lambda>_. [])\<rparr>"

definition demoEnv :: environment where
  "demoEnv = demoEnvironment (\<lambda>_. '''')"

record catalogState =
  dbList :: "string list"
  tabList :: "TablePath list"
  partList :: "(TablePath \<times> (string \<times> string) list) list"

definition catalogOf :: "catalogState \<Rightarrow> catalog" where
  "catalogOf s = \<lparr>dbSet = set (dbList s), tabSet = set (tabList s), partSet = set (partList s)\<rparr>"

fun pathOf :: "PbTablePath \<Rightarrow> TablePath" where
  "pathOf (PbTablePath d t) = \<lparr>DatabaseName = d, TableName = t\<rparr>"

lemma pathOf_build [simp]: "pathOf (buildTablePath p) = p"
  by (simp add: buildTablePath_def)

definition orDone :: "bool \<Rightarrow> bool \<Rightarrow> catalogState \<Rightarrow> catalogState \<Rightarrow> Response res \<times> catalogState" where
  "orDone applies ign s s' = (if applies then (Ok EmptyResponse, s') else if ign then (Ok EmptyResponse, s) else (Fail ErrEOF, s))"

definition catNet :: "catalogState network" where
  "catNet s addr req = (case req of
      CreateDatabaseRequest name ign json \<Rightarrow> orDone (name \<notin> set (dbList s)) ign s (s\<lparr>dbList := name # dbList s\<rparr>)
    | DropDatabaseRequest name ign cascade \<Rightarrow> orDone (name \<in> set (dbList s)) ign s
        \<lparr>dbList = filter (\<lambda>n. n \<noteq> name) (dbList s), tabList = filter (\<lambda>p. DatabaseName p \<noteq> name) (tabList s),
         partList = filter (\<lambda>x. DatabaseName (fst x) \<noteq> name) (partList s)\<rparr>
    | CreateTableRequest p json ign \<Rightarrow> if DatabaseName (pathOf p) \<notin> set (dbList s) then (Fail ErrEOF, s)
        else orDone (pathOf p \<notin> set (tabList s)) ign s (s\<lparr>tabList := pathOf p # tabList s\<rparr>)
    | DropTableRequest p ign \<Rightarrow> orDone (pathOf p \<in> set (tabList s)) ign s
        (s\<lparr>tabList := filter (\<lambda>q. q \<noteq> pathOf p) (tabList s), partList := filter (\<lambda>x. fst x \<noteq> pathOf p) (partList s)\<rparr>)
    | AlterTableReq r \<Rightarrow> orDone (pathOf (atPath r) \<in> set (tabList s)) (atIgnore r) s s
    | CreatePartitionRequest p (Some v) ign \<Rightarrow> if pathOf p \<notin> set (tabList s) then (Fail ErrEOF, s)
        else orDone ((pathOf p, v) \<notin> set (partList s)) ign s (s\<lparr>partList := (pathOf p, v) # partList s\<rparr>)
    | DropPartitionRequest p (Some v) ign \<Rightarrow> if pathOf p \<notin> set (tabList s) then (Fail ErrEOF, s)
        else orDone ((pathOf p, v) \<in> set (partList s)) ign s (s\<lparr>partList := filter (\<lambda>x. x \<noteq> (pathOf p, v)) (partList s)\<rparr>)
    | ListDatabasesRequest x \<Rightarrow> (Ok (ListDatabasesResponse (dbList s) []), s)
    | DatabaseExistsRequest name \<Rightarrow> (Ok (DatabaseExistsResponse (name \<in> set (dbList s))), s)
    | GetDatabaseInfoRequest name \<Rightarrow> (Ok (GetDatabaseInfoResponse [1] 0 0), s)
    | ListTablesRequest name \<Rightarrow> (Ok (ListTablesResponse (map TableName (filter (\<lambda>p. DatabaseName p = name) (tabList s)))), s)
    | TableExistsRequest p \<Rightarrow> (Ok (TableExistsResponse (pathOf p \<in> set (tabList s))), s)
    | GetTableInfoRequest p \<Rightarrow> (Ok (GetTableInfoResponse 1 1 [1] 0 0), s)
    | GetTableSchemaRequest p v \<Rightarrow> (Ok (GetTableSchemaResponse 1 [1]), s)
    | ListPartitionInfosRequest p None \<Rightarrow> (Ok (ListPartitionInfosResponse []), s)
    | ListPartitionInfosRequest p (Some v) \<Rightarrow> (Ok (ListPartitionInfosResponse
        (map (\<lambda>x. (0, Some (snd x), None)) (filter (\<lambda>x. fst x = pathOf p \<and> set v \<subseteq> set (snd x)) (partList s)))), s)
    | _ \<Rightarrow> (Fail ErrEOF, s))"

lemma catNet_serves: "servesCatalog catNet catalogOf"
proof -
  note facts = catNet_def orDone_def catalogOf_def catalog_ops withoutDb_def withoutTab_def withoutPart_def
  have "changes catNet catalogOf (CreateDatabaseRequest name ign json) (createDb ign name)"
    "changes catNet catalogOf (DropDatabaseRequest name ign True) (dropDb ign name)"
    "changes catNet catalogOf (CreateTableRequest (buildTablePath p) table ign) (createTab ign p)"
    "changes catNet catalogOf (DropTableRequest (buildTablePath p) ign) (dropTab ign p)"
    "changes catNet catalogOf (AlterTableReq (AlterTableRequest (buildTablePath p) ign cs as ds rs ms)) (alterTab ign p)"
    "changes catNet catalogOf (CreatePartitionRequest (buildTablePath p) (Some v) ign) (createPart ign p v)"
    "changes catNet catalogOf (DropPartitionRequest (buildTablePath p) (Some v) ign) (dropPart ign p v)"
    for name ign json p table v cs as ds rs ms
    by (auto simp: changes_def facts)
  then show ?thesis unfolding servesCatalog_def
    by (auto simp: answers_def facts image_iff)
qed

definition catWorld :: "catalogState world" where
  "catWorld = \<lparr>cache = SetCoordinator \<lparr>NodeID = 1, Host = ''a'', Port = 1, Listeners = [], Rack = []\<rparr> NewCache,
     endpoints = [''e''], net = \<lparr>dbList = [''fluss''], tabList = envTables demoEnv, partList = []\<rparr>\<rparr>"

lemma catWorld_bootstrapped: "bootstrapped demoEnv (catalogOf (net catWorld))" "ready catWorld"
  by (simp_all add: bootstrapped_def catWorld_def catalogOf_def consistent_def oneKey_def demoEnv_def demoEnvironment_def
      envTables_def getenv_def Let_def ready_def cache_defs)

lemma admin_checks_pass_witness:
  "\<exists>w'. runAll (waitForTables 0 catNet ''fluss'' (map TableName (envTables demoEnv))
      # sectionChecks (demoCluster catNet) demoEnv ''Admin'') catWorld = (Ok (), w')
    \<and> dbSet (catalogOf (net w')) = {''fluss''} \<and> partSet (catalogOf (net w')) = {}"
proof -
  have r: "rpcOf (demoCluster catNet) = catNet" by (simp add: demoCluster_def)
  have e: "envDatabase demoEnv = ''fluss''" by (simp add: demoEnv_def demoEnvironment_def getenv_def Let_def)
  from admin_checks_pass[of "demoCluster catNet" catalogOf demoEnv catWorld 0, unfolded r e, OF catNet_serves catWorld_bootstrapped]
  obtain w' where "runAll (waitForTables 0 catNet ''fluss'' (map TableName (envTables demoEnv))
      # sectionChecks (demoCluster catNet) demoEnv ''Admin'') catWorld = (Ok (), w')"
    "catalogOf (net w') = withoutPart (envAdminPartitioned demoEnv) [(''pt'', ''2026'')]
     (withoutTab \<lparr>DatabaseName = ''fluss'', TableName = ''go_e2e_admin_negative_table''\<rparr>
     (withoutDb ''go_e2e_admin_negative_db''
     (withoutPart (envAdminPartitioned demoEnv) [(''pt'', ''2025'')]
     (withoutTab \<lparr>DatabaseName = ''fluss'', TableName = ''go_e2e_admin_table''\<rparr>
     (withoutDb ''go_e2e_admin_db'' (catalogOf (net catWorld)))))))" by blast
  then show ?thesis
    by (intro exI[of _ w'] conjI) (simp_all add: catWorld_def catalogOf_def withoutTab_def withoutDb_def)
qed

subsection \<open>The checks of the key-value tables\<close>

lemma customer_checks:
  assumes "kvReady c env info False w" and "storesKv (rpcOf c) (TableID info) kv"
    and "mergesKv (ratParser c) customerSchema False (rpcOf c) (TableID info) kv"
    and "scansKv (rpcOf c) (TableID info) kv" and "customersOf c kv info False (net w) Map.empty"
  shows "\<exists>w'. runAll [runPrimaryKeyUpsertAndLookup c env, runPrimaryKeyPartialUpdate c env, runPrimaryKeyLimitScan c env,
      runPrimaryKeyDelete c env] w = (Ok (), w')
    \<and> customersOf c kv info False (net w')
        [[42] \<mapsto> customer 42 ''Ada Lovelace'' ''diamond'', [43] \<mapsto> customer 43 ''Grace Hopper'' ''platinum'']"
proof -
  have left: "customersLeft = Map.empty([42] \<mapsto> ada ''gold'', [43] \<mapsto> grace, [42] \<mapsto> ada ''diamond'')"
    "customersLeft([99] := None) = customersLeft"
    by (auto simp: customersLeft_def fun_eq_iff)
  from upsert_and_lookup[OF assms(1,2,5)] obtain n1 where
    u: "runPrimaryKeyUpsertAndLookup c env w = (Ok (), w\<lparr>net := n1\<rparr>)"
    and t1: "customersOf c kv info False (net (w\<lparr>net := n1\<rparr>)) (Map.empty([42] \<mapsto> ada ''gold'', [43] \<mapsto> grace))" by auto
  have ready: "kvReady c env info False (w\<lparr>net := n\<rparr>)" for n using assms(1) by simp
  from partial_update_check[OF ready assms(2,3) t1, of "''gold''", folded left(1)] obtain n2 where
    p: "runPrimaryKeyPartialUpdate c env (w\<lparr>net := n1\<rparr>) = (Ok (), w\<lparr>net := n2\<rparr>)"
    and t2: "customersOf c kv info False (net (w\<lparr>net := n2\<rparr>)) customersLeft" by auto
  from limit_scan_check[OF ready assms(4) t2] obtain n3 where
    s: "runPrimaryKeyLimitScan c env (w\<lparr>net := n2\<rparr>) = (Ok (), w\<lparr>net := n3\<rparr>)"
    and t3: "customersOf c kv info False (net (w\<lparr>net := n3\<rparr>)) customersLeft" by auto
  from delete_check[OF ready assms(2) t3, unfolded left(2)] obtain n4 where
    d: "runPrimaryKeyDelete c env (w\<lparr>net := n3\<rparr>) = (Ok (), w\<lparr>net := n4\<rparr>)"
    and t4: "customersOf c kv info False n4 customersLeft" by auto
  show ?thesis using u p s d t4
    by (intro exI[of _ "w\<lparr>net := n4\<rparr>"]) (simp add: customersLeft_def customers)
qed

text \<open>
  C3. On an empty table in the compacted format, whose server stores the rows it is sent, merges
  partial updates and answers lookups and limit scans from what it stores, the checks that
  upsert and look up, update in part, scan and delete all pass, one after the other, and the
  table ends with the two customers that the scan compares with: the deleted row is gone and
  the partial update changed one column. On an empty table with a key of three columns, whose
  server finds rows by the prefixes of their keys, the check of prefix lookups passes: the encoding
  of two columns finds the two orders of the first customer and not that of the second.
\<close>

theorem key_value_checks_pass:
  assumes "kvReady c env info False w" and "storesKv (rpcOf c) (TableID info) kv"
    and "mergesKv (ratParser c) customerSchema False (rpcOf c) (TableID info) kv"
    and "scansKv (rpcOf c) (TableID info) kv" and "customersOf c kv info False (net w) Map.empty"
    and "tableReady c (envPrefixTable env) [0, 1, 2] orders False w" and "storesKv (rpcOf c) (TableID orders) orderKv"
    and "prefixesKv (rpcOf c) (TableID orders) orderKv"
    and "kvRows (ratParser c) prefixSchema False (ucast (SchemaID orders)) (orderKv (net w) 0) Map.empty"
  shows "(\<exists>w'. runAll [runPrimaryKeyUpsertAndLookup c env, runPrimaryKeyPartialUpdate c env, runPrimaryKeyLimitScan c env,
      runPrimaryKeyDelete c env] w = (Ok (), w')
    \<and> customersOf c kv info False (net w')
        [[42] \<mapsto> customer 42 ''Ada Lovelace'' ''diamond'', [43] \<mapsto> customer 43 ''Grace Hopper'' ''platinum''])
    \<and> (\<exists>n'. runPrimaryKeyPrefixLookup c env w = (Ok (), w\<lparr>net := n'\<rparr>)
    \<and> kvRows (ratParser c) prefixSchema False (ucast (SchemaID orders)) (orderKv n' 0)
        [orderKey 0 \<mapsto> prefixDemoRows ! 0, orderKey 1 \<mapsto> prefixDemoRows ! 1, orderKey 2 \<mapsto> prefixDemoRows ! 2])"
  using customer_checks[OF assms(1-5)] prefix_check[OF assms(6-9)] by (simp add: ordersWritten_def)

text \<open>A server that keeps the schema id and the row under each key, in a list per bucket.\<close>

type_synonym custState = "int32 \<Rightarrow> (bytes \<times> 16 word \<times> bytes) list"

definition custKv :: "custState \<Rightarrow> int32 \<Rightarrow> bytes \<rightharpoonup> bytes" where
  "custKv n b key = map_option (\<lambda>(sid, row). putU16 sid @ row) (map_of (n b) key)"

definition custPut :: "16 word \<Rightarrow> bytes \<Rightarrow> bytes \<Rightarrow> (bytes \<times> 16 word \<times> bytes) list \<Rightarrow> (bytes \<times> 16 word \<times> bytes) list" where
  "custPut sid key row kept = (if row = [] then AList.delete key kept else AList.update key (sid, row) kept)"

definition mergedBytes :: "int32 list \<Rightarrow> bytes \<Rightarrow> bytes option \<Rightarrow> bytes res" where
  "mergedBytes cols row old =
     andThen (decodeRow customerSchema row False) (\<lambda>vals.
     andThen (case old of None \<Rightarrow> Ok None | Some o' \<Rightarrow> mapRes Some (decodeRow customerSchema o' False)) (\<lambda>o'.
     encodeRow demoRat customerSchema (mergeRow cols vals o') False))"

definition custNet :: "custState network" where
  "custNet n addr req = (case req of
      PutKvRequest acks t ms cols agg [i] \<Rightarrow>
        (case decodeKvBatch (reqRecords i) of
           Ok (sid, body) \<Rightarrow> (case readKvRecord body of
               Some (size1, key, row) \<Rightarrow>
                 (case (if cols = [] then Ok row else mergedBytes cols row (map_option snd (map_of (n (reqBucket i)) key))) of
                    Ok row' \<Rightarrow> (Ok (PutKvResponse [PbWriteResp (reqPartition i) (reqBucket i) None None None]),
                      n(reqBucket i := custPut (ucast sid) key row' (n (reqBucket i))))
                  | _ \<Rightarrow> (Fail ErrEOF, n))
             | None \<Rightarrow> (Fail ErrEOF, n))
         | _ \<Rightarrow> (Fail ErrEOF, n))
    | LookupRequest t ins acks tmo [i] \<Rightarrow>
        (Ok (LookupResponse [PbLookupResp (lookupPartition i) (lookupBucket i) None None
           (map (custKv n (lookupBucket i)) (lookupKeys i))]), n)
    | PrefixLookupRequest t [i] \<Rightarrow>
        (Ok (PrefixLookupResponse [PbPrefixLookupResp (lookupPartition i) (lookupBucket i) None None
           (map (\<lambda>p. map (\<lambda>key. the (custKv n (lookupBucket i) key))
             (filter (\<lambda>key. take (length p) key = p) (remdups (map fst (n (lookupBucket i)))))) (lookupKeys i))]), n)
    | LimitScanRequest t None b limit \<Rightarrow>
        (Ok (LimitScanResponse None None (Some False)
          (Some (valueBatchOf (map (\<lambda>key. the (map_of (n b) key)) (remdups (map fst (n b))))))), n)
    | _ \<Rightarrow> (Fail ErrEOF, n))"

lemma custKv_put: "custKv (n(b := custPut sid key row (n b))) = (custKv n)(b := putRecord sid key row (custKv n b))"
  by (auto simp: fun_eq_iff custKv_def custPut_def putRecord_def update_conv' delete_conv' restrict_map_def)

lemma custNet_stores: "storesKv custNet t custKv"
  unfolding storesKv_def
proof (intro conjI allI impI)
  fix n addr acks ms b batch size1 key row and sid :: int32 and body
  assume "decodeKvBatch batch = Ok (sid, body)" "readKvRecord body = Some (size1, key, row)"
  then show "\<exists>resp n' r. custNet n addr (PutKvRequest acks t ms [] None [buildPutBucketRecord None b batch]) = (Ok resp, n')
      \<and> parsePutResults resp = ([r], None) \<and> ResBucketID r = b
      \<and> custKv n' = (custKv n)(b := putRecord (ucast sid) key row (custKv n b))"
    by (simp add: custNet_def buildPutBucketRecord_def parsePutResults_def parseWriteItem_def
        writeFailure_def bucketAPIError_def List.map_filter_simps custKv_put)
next
  fix n addr b keys
  show "\<exists>resp n'. custNet n addr (lookupRequest t None None None [\<lparr>ReqPartitionID = None, ReqBucketID = b, ReqKeys = keys\<rparr>]) = (Ok resp, n')
      \<and> parseLookupResults resp = Ok [\<lparr>ValPartitionID = None, ValBucketID = b, Values = map (custKv n b) keys\<rparr>] \<and> custKv n' = custKv n"
    by (simp add: custNet_def lookupRequest_def buildLookupBucket_def parseLookupResults_def bucketAPIError_def)
qed

lemma dom_custKv: "dom (custKv n b) = fst ` set (n b)"
  unfolding dom_map_of_conv_image_fst[symmetric] by (auto simp: custKv_def dom_def)

lemma custNet_scans: "scansKv custNet t custKv"
  unfolding scansKv_def
proof (intro allI impI)
  fix n :: custState and addr b limit
  let ?keys = "remdups (map fst (n b))"
  have "(\<lambda>(sid, row). Some (putU16 sid @ row)) (the (map_of (n b) key)) = custKv n b key" if "key \<in> set ?keys" for key
  proof -
    from that have "map_of (n b) key \<noteq> None" by (auto simp: map_of_eq_None_iff)
    then show ?thesis by (auto simp: custKv_def)
  qed
  then have "map (\<lambda>(sid, row). Some (putU16 sid @ row)) (map (\<lambda>key. the (map_of (n b) key)) ?keys) = map (custKv n b) ?keys"
    by (simp del: set_remdups)
  then show "\<exists>n' keys rs. custNet n addr (LimitScanRequest t None b limit)
        = (Ok (LimitScanResponse None None (Some False) (Some (valueBatchOf rs))), n')
      \<and> custKv n' = custKv n \<and> distinct keys \<and> set keys = dom (custKv n b)
      \<and> map (\<lambda>(sid, row). Some (putU16 sid @ row)) rs = map (custKv n b) keys"
    by (intro exI[of _ n] exI[of _ ?keys] exI[of _ "map (\<lambda>key. the (map_of (n b) key)) ?keys"])
      (simp add: custNet_def dom_custKv del: map_map)
qed

lemma custNet_prefixes: "prefixesKv custNet t custKv"
  unfolding prefixesKv_def
proof (intro allI)
  fix n :: custState and addr b and p :: bytes
  let ?keys = "filter (\<lambda>key. take (length p) key = p) (remdups (map fst (n b)))"
  have "custKv n b key \<noteq> None" if "key \<in> set (map fst (n b))" for key
    using that dom_custKv[of n b] by (metis domIff set_map)
  then have "map Some (map (\<lambda>key. the (custKv n b key)) ?keys) = map (custKv n b) ?keys" by fastforce
  then show "\<exists>resp n' keys vals.
     custNet n addr (PrefixLookupRequest t [buildPrefixLookupBucket \<lparr>ReqPartitionID = None, ReqBucketID = b, ReqKeys = [p]\<rparr>]) = (Ok resp, n')
     \<and> parsePrefixLookupResults resp = Ok [\<lparr>PrefixPartitionID = None, PrefixBucketID = b, PrefixValues = [vals]\<rparr>]
     \<and> distinct keys \<and> set keys = {key \<in> dom (custKv n b). take (length p) key = p}
     \<and> map Some vals = map (custKv n b) keys \<and> custKv n' = custKv n"
    by (intro exI[of _ "PrefixLookupResponse [PbPrefixLookupResp None b None None [map (\<lambda>key. the (custKv n b key)) ?keys]]"]
        exI[of _ n] exI[of _ ?keys] exI[of _ "map (\<lambda>key. the (custKv n b key)) ?keys"])
      (auto simp: custNet_def buildPrefixLookupBucket_def parsePrefixLookupResults_def bucketAPIError_def dom_custKv simp del: map_map)
qed

lemma kept_row:
  assumes "kvRows rp customerSchema False sid (custKv n b) content"
  shows "case map_of (n b) key of None \<Rightarrow> content key = None
    | Some (sid', row) \<Rightarrow> \<exists>vals. content key = Some vals \<and> decodeRow customerSchema row False = Ok vals"
proof -
  from assms have kv: "custKv n b = storedRow rp customerSchema sid False content"
    and fits: "contentFits rp customerSchema False content" by (simp_all add: kvRows_def)
  have at: "storedRow rp customerSchema sid False content key = map_option (\<lambda>(sid, row). putU16 sid @ row) (map_of (n b) key)"
    using fun_cong[OF kv, of key] by (simp only: custKv_def)
  show ?thesis
  proof (cases "map_of (n b) key")
    case None
    with at have "key \<notin> dom (storedRow rp customerSchema sid False content)" by (simp add: domIff)
    with None show ?thesis unfolding dom_stored[OF fits] by (simp add: domIff)
  next
    case (Some p)
    obtain sid' row where p: "p = (sid', row)" by force
    with at Some have s: "storedRow rp customerSchema sid False content key = Some (putU16 sid' @ row)" by simp
    then obtain vals enc where v: "content key = Some vals" "encodeRow rp customerSchema vals False = Ok enc"
      and b: "putU16 sid @ enc = putU16 sid' @ row"
      by (auto simp: storedRow_def simp del: encodeRow.simps split: option.splits res.splits)
    from b have "enc = row" by (auto dest: append_eq_append_conv[THEN iffD1, rotated])
    moreover from fits v have "conformsRow customerSchema vals" "length enc < 2 ^ 32"
      by (auto simp: contentFits_def simp del: encodeRow.simps)
    ultimately show ?thesis using Some p v row_decode[OF customer_schema(3), of vals rp False enc]
      by (simp del: encodeRow.simps decodeRow.simps)
  qed
qed

lemma custNet_merges: "mergesKv demoRat customerSchema False custNet t custKv"
  unfolding mergesKv_def
proof (intro allI impI)
  fix n :: custState and addr acks ms b cols batch size1 vals and key row :: bytes and content and sid :: int32 and body
  let ?new = "mergeRow cols vals (content key)"
  assume cols: "cols \<noteq> []" and d: "decodeKvBatch batch = Ok (sid, body)" "readKvRecord body = Some (size1, key, row)"
    and v: "conformsRow customerSchema vals" "encodeRow demoRat customerSchema vals False = Ok row" "length row < 2 ^ 32"
    and rows: "kvRows demoRat customerSchema False (ucast sid) (custKv n b) content"
    and fits: "contentFits demoRat customerSchema False (content(key \<mapsto> ?new))"
  have "conformsRow customerSchema ?new"
    using fits[unfolded contentFits_def, rule_format, of key ?new] by (simp del: encodeRow.simps)
  from encodeRow_total[OF customer_schema(1) this] obtain enc where e: "encodeRow demoRat customerSchema ?new False = Ok enc" by blast
  have "decodeRow customerSchema row False = Ok vals" by (rule row_decode[OF customer_schema(3) v])
  then have m: "mergedBytes cols row (map_option snd (map_of (n b) key)) = Ok enc"
    using kept_row[OF rows, of key] e
    by (auto simp: mergedBytes_def simp del: encodeRow.simps decodeRow.simps split: option.splits)
  have "enc \<noteq> []" using encodeRow_nonempty[OF e] by (simp add: customerSchema_def NewSchema_def)
  let ?n = "n(b := custPut (ucast sid) key enc (n b))"
  have "custKv ?n b = putRecord (ucast sid) key enc (custKv n b)" by (simp add: custKv_put)
  also have "\<dots> = storedRow demoRat customerSchema (ucast sid) False (content(key \<mapsto> ?new))"
    using rows e \<open>enc \<noteq> []\<close> by (auto simp: kvRows_def putRecord_def storedRow_def fun_eq_iff simp del: encodeRow.simps)
  finally have "kvRows demoRat customerSchema False (ucast sid) (custKv ?n b) (content(key \<mapsto> ?new))"
    using fits by (simp add: kvRows_def)
  then show "\<exists>resp n' r. custNet n addr (PutKvRequest acks t ms cols None [buildPutBucketRecord None b batch]) = (Ok resp, n')
      \<and> parsePutResults resp = ([r], None) \<and> ResBucketID r = b
      \<and> kvRows demoRat customerSchema False (ucast sid) (custKv n' b) (content(key \<mapsto> ?new))"
    using d cols m by (simp add: custNet_def buildPutBucketRecord_def parsePutResults_def parseWriteItem_def
        writeFailure_def bucketAPIError_def List.map_filter_simps)
qed

text \<open>A world with one table in the cache, whose bucket has a leader.\<close>

definition demoInfo :: "TablePath \<Rightarrow> TableInfo" where
  "demoInfo path = \<lparr>TableInfo.Path = path, TableID = 5, SchemaID = 1, TableJSON = [1], CreatedTime = 0, ModifiedTime = 0\<rparr>"

definition tableWorld :: "TablePath \<Rightarrow> 'w \<Rightarrow> 'w world" where
  "tableWorld path n = \<lparr>cache = SetTable (demoInfo path)
     (SetRoute \<lparr>RouteTableID = 5, RoutePartitionID = 0, HasPartition = False, RouteBucketID = 0, LeaderID = 1,
       LeaderEpoch = 0, Replicas = []\<rparr>
     (UpsertServer \<lparr>NodeID = 1, Host = ''a'', Port = 1, Listeners = [], Rack = []\<rparr> NewCache)),
     endpoints = [''e''], net = n\<rparr>"

lemma tableWorld_cached:
  "Table (cache (tableWorld path n)) path = Some (demoInfo path)" "net (tableWorld path n) = n" "TableID (demoInfo path) = 5"
  "routeFor (cache (tableWorld path n)) 5 None 0 = Ok \<lparr>NodeID = 1, Host = ''a'', Port = 1, Listeners = [], Rack = []\<rparr>"
  by (simp_all add: tableWorld_def demoInfo_def routeFor_def Let_def cache_defs)

text \<open>The cluster of the key-value tables: the descriptor of the second names three key columns.\<close>

definition ordersInfo :: TableInfo where
  "ordersInfo = (demoInfo (envPrefixTable demoEnv))\<lparr>TableID := 6, TableJSON := [2]\<rparr>"

definition kvTables :: unmarshal_table where
  "kvTables json = (if json = [2] then Ok \<lparr>SchemaColumns = prefixFields, SchemaPrimaryKey = take 3 prefixFields,
     PartitionKeyNames = [], BucketKeyNames = [], DescProperties = Some [''table.kv.format'' \<mapsto> ''compacted'']\<rparr>
     else customerTable json)"

definition kvCluster :: "(custState, int, nat, unit, nat) cluster" where
  "kvCluster = (demoCluster custNet)\<lparr>tableDecoder := kvTables\<rparr>"

definition kvTablesWorld :: "custState world" where
  "kvTablesWorld = (let w = tableWorld (envKvTable demoEnv) (\<lambda>_. []) in w\<lparr>cache := SetTable ordersInfo
     (SetRoute \<lparr>RouteTableID = 6, RoutePartitionID = 0, HasPartition = False, RouteBucketID = 0, LeaderID = 1,
       LeaderEpoch = 0, Replicas = []\<rparr> (cache w))\<rparr>)"

lemma kv_tables_ready:
  "kvReady kvCluster demoEnv (demoInfo (envKvTable demoEnv)) False kvTablesWorld"
  "tableReady kvCluster (envPrefixTable demoEnv) [0, 1, 2] ordersInfo False kvTablesWorld"
  by (simp_all add: kvReady_def tableReady_def kvTablesWorld_def ordersInfo_def tableWorld_def demoInfo_def kvCluster_def
      demoCluster_def kvTables_def routeFor_def Let_def cache_defs demoEnv_def demoEnvironment_def getenv_def routeKey_inj
      kvTable_def customerTable_def customerFields_def prefixFields_def property_def equalFold_def toUpper_def upperChar_def)

lemma empty_table: "kvRows rp schema indexed sid (custKv (\<lambda>_. []) b) Map.empty"
  by (simp add: kvRows_def custKv_def storedRow_def contentFits_def fun_eq_iff)

lemma key_value_checks_pass_witness:
  "(\<exists>w'. runAll [runPrimaryKeyUpsertAndLookup kvCluster demoEnv, runPrimaryKeyPartialUpdate kvCluster demoEnv,
      runPrimaryKeyLimitScan kvCluster demoEnv, runPrimaryKeyDelete kvCluster demoEnv] kvTablesWorld = (Ok (), w')
    \<and> customersOf kvCluster custKv (demoInfo (envKvTable demoEnv)) False (net w')
        [[42] \<mapsto> customer 42 ''Ada Lovelace'' ''diamond'', [43] \<mapsto> customer 43 ''Grace Hopper'' ''platinum''])
    \<and> (\<exists>n'. runPrimaryKeyPrefixLookup kvCluster demoEnv kvTablesWorld = (Ok (), kvTablesWorld\<lparr>net := n'\<rparr>)
    \<and> kvRows demoRat prefixSchema False (ucast (SchemaID ordersInfo)) (custKv n' 0)
        [orderKey 0 \<mapsto> prefixDemoRows ! 0, orderKey 1 \<mapsto> prefixDemoRows ! 1, orderKey 2 \<mapsto> prefixDemoRows ! 2])"
proof -
  have c: "rpcOf kvCluster = custNet" "ratParser kvCluster = demoRat" "net kvTablesWorld = (\<lambda>_. [])"
    by (simp_all add: kvCluster_def demoCluster_def kvTablesWorld_def tableWorld_def Let_def)
  show ?thesis
    by (rule key_value_checks_pass[where kv = custKv and orderKv = custKv, OF kv_tables_ready(1) _ _ _ _ kv_tables_ready(2), unfolded c])
      (simp_all add: custNet_stores custNet_merges custNet_scans custNet_prefixes customersOf_def empty_table c)
qed

subsection \<open>The checks of the log tables\<close>

text \<open>
  C4. Whatever is in the three tables, the check that appends three orders, the check that
  appends a row with a value of each of the eighteen column types and the check that appends two
  rows as one Arrow batch pass on servers that store the batches they get and answer a limit
  scan with the last of them and a fetch with those from an offset on: every append returns
  one result, the answers decode, and the rows are found equal to those appended, deeply for
  the row of all types with its decimal, timestamps, array, map and nested row, and also
  when the server cuts an Arrow batch down to two columns and leaves its CRC as it was. The
  tables hold the new rows behind the old ones.
\<close>

theorem log_checks_pass:
  assumes "logReady c (envLogTable env) orders w" and "logReady c (envTypesTable env) types w"
    and "storesLog (rpcOf c) (TableID orders) orderLogs" and "scansLog (rpcOf c) (TableID orders) orderLogs"
    and "storesLog (rpcOf c) (TableID types) typeLogs" and "scansLog (rpcOf c) (TableID types) typeLogs"
    and "bucketRows orderSchema (orderLogs (net w) 0) oldOrders" and "bucketRows allTypesSchema (typeLogs (net w) 0) oldTypes"
    and "ratParser c (lit ''123.45'') = Some (2469, 20)"
    and "arrowReady c env arrows w" and "storesArrow (arrowLibrary c) orderSchema [0, 3] (rpcOf c) (TableID arrows) arrowLogs"
    and "offsetsLeft (arrowLogs (net w) 0)"
  shows "\<exists>n n' n'' off batch. runLogAppendAndLimitScan c env w = (Ok (), w\<lparr>net := n\<rparr>)
    \<and> bucketRows orderSchema (orderLogs n 0) (oldOrders @ logDemoRows)
    \<and> runAllTypesAppendAndLimitScan c env w = (Ok (), w\<lparr>net := n'\<rparr>)
    \<and> bucketRows allTypesSchema (typeLogs n' 0) (oldTypes @ [allTypesRow \<lparr>Unscaled = Some 12345, DecScale = 2\<rparr>])
    \<and> runArrowLogAppendFetchAndProjection c env w = (Ok (), w\<lparr>net := n''\<rparr>)
    \<and> arrowLogs n'' 0 = arrowLogs (net w) 0 @ [(off, batch)] \<and> arrowStored (arrowLibrary c) orderSchema arrowDemoRows batch"
proof -
  from log_check[OF assms(1,3,4,7)] obtain n where
    "runLogAppendAndLimitScan c env w = (Ok (), w\<lparr>net := n\<rparr>)" "bucketRows orderSchema (orderLogs n 0) (oldOrders @ logDemoRows)" by blast
  moreover from all_types_check[OF assms(2,5,6,8,9), unfolded demoDecimal_def] obtain n' where
    "runAllTypesAppendAndLimitScan c env w = (Ok (), w\<lparr>net := n'\<rparr>)"
    "bucketRows allTypesSchema (typeLogs n' 0) (oldTypes @ [allTypesRow \<lparr>Unscaled = Some 12345, DecScale = 2\<rparr>])" by blast
  moreover from arrow_check[OF assms(10-12)] obtain n'' off batch where
    "runArrowLogAppendFetchAndProjection c env w = (Ok (), w\<lparr>net := n''\<rparr>)"
    "arrowLogs n'' 0 = arrowLogs (net w) 0 @ [(off, batch)]" "arrowStored (arrowLibrary c) orderSchema arrowDemoRows batch" by auto
  ultimately show ?thesis by blast
qed

text \<open>
  A server with the logs of three tables: the batches of each bucket with their offsets. Table 7
  is the Arrow table, whose fetches go by offset.
\<close>

type_synonym logsState = "int64 \<Rightarrow> int32 \<Rightarrow> arrowLog"

definition nextOffset :: "arrowLog \<Rightarrow> int64" where
  "nextOffset log = word_of_nat (foldr (\<lambda>x m. max (Suc (fst x)) m) log 0)"

definition cutBatch :: "bytes \<Rightarrow> bytes" where
  "cutBatch b = (let payload = if drop 48 b = [1, 2] then [3] else [] in
     take 8 b @ putU32 (word_of_nat (36 + length payload)) @ drop 12 (take 48 b) @ payload)"

definition logsNet :: "logsState network" where
  "logsNet n addr req = (case req of
      ProduceLogRequest acks t ms [i] \<Rightarrow>
        let log = n t (reqBucket i); off = nextOffset log in
        (Ok (ProduceLogResponse [PbWriteResp (reqPartition i) (reqBucket i) None None (Some off)]),
         n(t := (n t)(reqBucket i := log @ [(unat off, stamped off 7 (reqRecords i))])))
    | FetchLogRequest f mb mw mi [PbFetchTableReq t proj cols [i]] \<Rightarrow>
        let log = n t (fetchBucket i);
            found = (if t = 7 then fromOffset (fetchOffset i) log else drop (unat (fetchOffset i)) (map snd log)) in
        (Ok (FetchLogResponse [[PbFetchResp None (fetchBucket i) None None None None
           (Some (concat (if proj then map cutBatch found else found))) None]]), n)
    | LimitScanRequest t None b limit \<Rightarrow>
        (Ok (LimitScanResponse None None (Some True) (Some (concat (drop (length (n t b) - unat limit) (map snd (n t b)))))), n)
    | _ \<Rightarrow> (Fail ErrEOF, n))"

definition batchesOf :: "int64 \<Rightarrow> logsState \<Rightarrow> int32 \<Rightarrow> bytes list" where
  "batchesOf t n b = map snd (n t b)"

lemma batchesOf_put:
  "batchesOf t (n(t := (n t)(b := n t b @ [(off, x)]))) = (batchesOf t n)(b := batchesOf t n b @ [x])"
  by (simp add: fun_eq_iff batchesOf_def)

lemma logsNet_stores:
  assumes "t \<noteq> 7"
  shows "storesLog logsNet t (batchesOf t)"
  unfolding storesLog_def
proof (intro conjI allI impI)
  fix n :: logsState and addr acks ms b payload
  show "\<exists>resp n' r off ts. logsNet n addr (ProduceLogRequest acks t ms [buildProduceBucketRecord None b payload]) = (Ok resp, n')
      \<and> parseProduceResults resp = ([r], None) \<and> ResBucketID r = b
      \<and> batchesOf t n' = (batchesOf t n)(b := batchesOf t n b @ [stamped off ts payload])"
    by (auto simp: logsNet_def buildProduceBucketRecord_def parseProduceResults_def parseWriteItem_def batchesOf_put
        writeFailure_def bucketAPIError_def List.map_filter_simps Let_def)
next
  fix n :: logsState and addr follower maxBytes maxWait minBytes and req :: FetchBucketRequest
  show "\<exists>resp n' r. logsNet n addr (fetchRequest t follower maxBytes maxWait minBytes \<lparr>ProjectedFields = []\<rparr> [req]) = (Ok resp, n')
      \<and> parseFetchResults resp = Ok [r] \<and> FetchedBucketID r = FetchBucketID req
      \<and> FetchedRecords r = concat (drop (unat (FetchOffset req)) (batchesOf t n (FetchBucketID req))) \<and> batchesOf t n' = batchesOf t n"
    using assms by (simp add: logsNet_def fetchRequest_def Let_def buildFetchLogBucket_def parseFetchResults_def bucketAPIError_def batchesOf_def)
qed

lemma logsNet_scans: "scansLog logsNet t (batchesOf t)"
  by (simp add: scansLog_def logsNet_def batchesOf_def)

lemma nextOffset_above:
  assumes "offsetsLeft log" and "x \<in> set log"
  shows "fst x < unat (nextOffset log)"
proof -
  let ?m = "foldr (\<lambda>x m. max (Suc (fst x)) m) log 0"
  have "?m < 2 ^ 63" using assms(1) by (induction log) (auto simp: offsetsLeft_def)
  then have "unat (nextOffset log) = ?m" by (simp add: nextOffset_def unat_of_nat)
  moreover have "fst x < ?m" using assms(2) by (induction log) auto
  ultimately show ?thesis by simp
qed

text \<open>The library reads two columns of the batch that was cut.\<close>

lemmas order_types = orderSchema_def NewSchema_def type_constructors SchemaFromRowSchema_def SchemaValidate_def arrowFieldAt_def
  ordersLib_def newStaticMessageReader_def

lemma orders_decode:
  "DecodeRecordBatch ordersLib orderSchema [1, 2] = Ok arrowDemoRows" "DecodeRecordBatch ordersLib orderSchema [] = Ok []"
  "DecodeRecordBatch ordersLib (projectSchema [0, 3] orderSchema) [3] = Ok (map (projectVals [0, 3]) arrowDemoRows)"
  "DecodeRecordBatch ordersLib (projectSchema [0, 3] orderSchema) [] = Ok []"
  unfolding projected_orders(1)
  by (simp_all add: projected_orders(2) DecodeRecordBatch_def order_types ordersColumns_def arrowDemoRows_def extractValue_def
      goindex_def upt_rec)

lemma orders_undecodable:
  assumes "payload \<noteq> []" and "payload \<noteq> [1, 2]"
  shows "DecodeRecordBatch ordersLib orderSchema payload \<noteq> Ok rows"
  using assms by (auto simp: DecodeRecordBatch_def order_types ordersColumns_def extractValue_def goindex_def upt_rec)

lemma cutBatch_projected: "projectedBatch ordersLib orderSchema [0, 3] b (cutBatch b)"
proof -
  let ?payload = "if drop 48 b = [1, 2] then [3] else [] :: bytes"
  have "DecodeRecordBatch ordersLib (projectSchema [0, 3] orderSchema) ?payload = Ok (map (projectVals [0, 3]) rows)"
    if "DecodeRecordBatch ordersLib orderSchema (drop 48 b) = Ok rows" for rows
    using that orders_undecodable[of "drop 48 b" rows] orders_decode by (cases "drop 48 b = []") auto
  then show ?thesis unfolding projectedBatch_def
    by (intro exI[of _ ?payload]) (simp add: cutBatch_def Let_def)
qed

lemma logsNet_arrow: "storesArrow ordersLib orderSchema [0, 3] logsNet 7 (\<lambda>n. n 7)"
  unfolding storesArrow_def
proof (intro conjI allI impI)
  fix n :: logsState and addr acks ms b payload
  assume "offsetsLeft (n 7 b)"
  then show "\<exists>resp n' r ts. logsNet n addr (ProduceLogRequest acks 7 ms [buildProduceBucketRecord None b payload]) = (Ok resp, n')
      \<and> parseProduceResults resp = ([r], None) \<and> (\<forall>x \<in> set (n 7 b). fst x < unat (ResOffset r))
      \<and> n' 7 = (n 7)(b := n 7 b @ [(unat (ResOffset r), stamped (ResOffset r) ts payload)])"
    by (auto simp: logsNet_def buildProduceBucketRecord_def parseProduceResults_def parseWriteItem_def
        writeFailure_def bucketAPIError_def List.map_filter_simps Let_def nextOffset_above)
next
  fix n :: logsState and addr follower maxBytes maxWait minBytes and asked :: "int32 list" and req :: FetchBucketRequest
  assume "(asked = [] \<or> asked = [0, 3]) \<and> FetchPartitionID req = None"
  then have asked: "asked = [] \<or> asked = [0, 3]" by blast
  let ?found = "fromOffset (FetchOffset req) (n 7 (FetchBucketID req))"
  let ?bs = "if asked = [] then ?found else map cutBatch ?found"
  have "list_all2 (projectedBatch ordersLib orderSchema [0, 3]) ?found (map cutBatch ?found)"
    by (simp add: list_all2_map2 list.rel_refl cutBatch_projected)
  with asked show "\<exists>resp n' r k bs. logsNet n addr (fetchRequest 7 follower maxBytes maxWait minBytes \<lparr>ProjectedFields = asked\<rparr> [req]) = (Ok resp, n')
      \<and> parseFetchResults resp = Ok [r] \<and> 0 < k \<and> FetchedRecords r = concat bs \<and> n' 7 = n 7
      \<and> (if asked = [] then bs = take k ?found else list_all2 (projectedBatch ordersLib orderSchema asked) (take k ?found) bs)"
    by (intro exI[of _ "FetchLogResponse [[PbFetchResp None (FetchBucketID req) None None None None (Some (concat ?bs)) None]]"]
        exI[of _ n] exI[of _ "\<lparr>FetchedPartitionID = None, FetchedBucketID = FetchBucketID req, HighWatermark = 0,
          LogStartOffset = 0, FilteredEndOffset = None, FetchedRecords = concat ?bs\<rparr>"] exI[of _ "Suc (length ?found)"] exI[of _ ?bs])
      (auto simp: logsNet_def fetchRequest_def Let_def buildFetchLogBucket_def parseFetchResults_def bucketAPIError_def)
qed

definition typesInfo :: TableInfo where
  "typesInfo = (demoInfo (envTypesTable demoEnv))\<lparr>TableID := 6\<rparr>"

definition arrowsInfo :: TableInfo where
  "arrowsInfo = (demoInfo (envArrowTable demoEnv))\<lparr>TableID := 7\<rparr>"

definition logsRoute :: "int64 \<Rightarrow> BucketRoute" where
  "logsRoute t = \<lparr>RouteTableID = t, RoutePartitionID = 0, HasPartition = False, RouteBucketID = 0, LeaderID = 1,
     LeaderEpoch = 0, Replicas = []\<rparr>"

definition logsWorld :: "logsState world" where
  "logsWorld = (let w = tableWorld (envLogTable demoEnv) (\<lambda>_ _. []) in w\<lparr>cache := SetTable typesInfo
     (SetRoute (logsRoute 6) (SetTable arrowsInfo (SetRoute (logsRoute 7) (cache w))))\<rparr>)"

lemma logs_ready:
  "logReady (demoCluster logsNet) (envLogTable demoEnv) (demoInfo (envLogTable demoEnv)) logsWorld"
  "logReady (demoCluster logsNet) (envTypesTable demoEnv) typesInfo logsWorld"
  "logReady (demoCluster logsNet) (envArrowTable demoEnv) arrowsInfo logsWorld"
  by (simp_all add: logReady_def logsWorld_def typesInfo_def arrowsInfo_def logsRoute_def tableWorld_def demoInfo_def demoCluster_def
      routeFor_def Let_def cache_defs demoEnv_def demoEnvironment_def getenv_def routeKey_inj)

lemma orders_lawful: "arrowLawful ordersLib orderSchema arrowDemoRows cmp"
proof -
  have "appendRows ordersLib sch orderSchema arrowDemoRows
      = Ok (map (\<lambda>i. map (\<lambda>col. col ! i) ordersColumns) [0, 1])" if "SchemaFromRowSchema orderSchema = Ok sch" for sch
    using that by (auto simp: order_types arrowDemoRows_def ordersColumns_def appendValue_def arrow_conversions)
  moreover have "length sch = 4" if "SchemaFromRowSchema orderSchema = Ok sch" for sch
    using that by (auto simp: order_types)
  moreover have "columnsOf 4 (map (\<lambda>i. map (\<lambda>col. col ! i) ordersColumns) [0, 1]) = ordersColumns"
    by (simp add: columnsOf_def ordersColumns_def upt_rec)
  ultimately show ?thesis
    by (auto simp: arrowLawful_def ipcCarries_def builders_def decimals_def ordersLib_def newStaticMessageReader_def)
qed

lemma arrow_ready: "arrowReady (demoCluster logsNet) demoEnv arrowsInfo logsWorld"
proof -
  let ?opts = "\<lparr>ArrowSchemaID = SchemaID arrowsInfo, AppendOnly = True, UseZstd = True, UseLZ4 = False, ArrowWriterState = None\<rparr>"
  have "ParseTableProperties (tableDecoder (demoCluster logsNet)) (TableJSON arrowsInfo) = Ok [''table.kv.format'' \<mapsto> ''compacted'']"
    by (simp add: ParseTableProperties_def demoCluster_def customerTable_def)
  moreover have "arrowOptions (SchemaID arrowsInfo) [''table.kv.format'' \<mapsto> ''compacted''] = Ok ?opts"
    by (simp add: arrowOptions_def property_def toUpper_def Let_def)
  moreover have "length p < 2 ^ 32" if "arrow_EncodeLogRecordBatch ordersLib orderSchema arrowDemoRows ?opts = Ok p" for p
    using that by (auto simp: arrow_EncodeLogRecordBatch_def EncodeRecordBatchWithOptions_def ordersLib_def res_elims split: if_splits)
  moreover have "arrowLibrary (demoCluster logsNet) = ordersLib" "fetchOrder (demoCluster logsNet) gs = gs" for gs
    by (simp_all add: demoCluster_def)
  ultimately show ?thesis using logs_ready(3) orders_lawful unfolding arrowReady_def by auto
qed

lemma log_checks_pass_witness:
  "\<exists>n n' n'' off batch. runLogAppendAndLimitScan (demoCluster logsNet) demoEnv logsWorld = (Ok (), logsWorld\<lparr>net := n\<rparr>)
    \<and> bucketRows orderSchema (batchesOf 5 n 0) logDemoRows
    \<and> runAllTypesAppendAndLimitScan (demoCluster logsNet) demoEnv logsWorld = (Ok (), logsWorld\<lparr>net := n'\<rparr>)
    \<and> bucketRows allTypesSchema (batchesOf 6 n' 0) [allTypesRow \<lparr>Unscaled = Some 12345, DecScale = 2\<rparr>]
    \<and> runArrowLogAppendFetchAndProjection (demoCluster logsNet) demoEnv logsWorld = (Ok (), logsWorld\<lparr>net := n''\<rparr>)
    \<and> n'' 7 0 = [(off, batch)] \<and> arrowStored ordersLib orderSchema arrowDemoRows batch"
proof -
  have c: "rpcOf (demoCluster logsNet) = logsNet" "arrowLibrary (demoCluster logsNet) = ordersLib"
    "ratParser (demoCluster logsNet) = demoRat" "net logsWorld = (\<lambda>_ _. [])" "TableID typesInfo = 6" "TableID arrowsInfo = 7"
    by (simp_all add: demoCluster_def logsWorld_def tableWorld_def Let_def typesInfo_def arrowsInfo_def)
  have e: "bucketRows orderSchema (batchesOf 5 (\<lambda>_ _. []) 0) []" "bucketRows allTypesSchema (batchesOf 6 (\<lambda>_ _. []) 0) []"
    "offsetsLeft []" "demoRat (lit ''123.45'') = Some (2469, 20)"
    by (simp_all add: batchesOf_def offsetsLeft_def demoRat_def)
  from log_checks_pass[OF logs_ready(1,2), where orderLogs = "batchesOf 5" and typeLogs = "batchesOf 6" and oldOrders = "[]"
      and oldTypes = "[]" and arrows = arrowsInfo and arrowLogs = "\<lambda>n. n 7", unfolded c tableWorld_cached(3)]
  show ?thesis using logsNet_stores logsNet_scans logsNet_arrow arrow_ready e by simp
qed

subsection \<open>Waiting for the tables\<close>

text \<open>The answers that successive calls of \<open>ListTables\<close> get, and the world they leave.\<close>

inductive listings :: "'w network \<Rightarrow> string \<Rightarrow> 'w world \<Rightarrow> string list list \<Rightarrow> 'w world \<Rightarrow> bool" for rpc name where
  asked: "ListTables rpc name w = (Ok ts, w1) \<Longrightarrow> listings rpc name w [ts] w1"
| again: "ListTables rpc name w = (Ok ts, w1) \<Longrightarrow> listings rpc name w1 tss w2 \<Longrightarrow> listings rpc name w (ts # tss) w2"

inductive_cases listings_ConsE: "listings rpc name w (ts # tss) w2"

lemma listings_not_Nil [simp]: "\<not> listings rpc name w [] w2"
  by (auto elim: listings.cases)

lemma wanted_listed: "list_all (containsString ts) wanted \<longleftrightarrow> set wanted \<subseteq> set ts"
  by (auto simp: list_all_iff)

lemma wait_ok_lists:
  "waitForTables ticks rpc name wanted w = (Ok (), w') \<Longrightarrow>
     \<exists>tss ts. listings rpc name w (tss @ [ts]) w' \<and> length tss \<le> ticks
       \<and> list_all (\<lambda>l. \<not> set wanted \<subseteq> set l) tss \<and> set wanted \<subseteq> set ts"
proof (induction ticks arbitrary: w)
  case 0
  then obtain ts where "ListTables rpc name w = (Ok ts, w')" "set wanted \<subseteq> set ts"
    by (subst (asm) waitForTables.simps) (auto simp: bindA_eq_Ok wanted_listed split: if_splits)
  then show ?case by (intro exI[of _ "[]"] exI[of _ ts]) (simp add: asked)
next
  case (Suc n)
  from Suc.prems have "bindA (ListTables rpc name)
      (\<lambda>ts. if set wanted \<subseteq> set ts then liftA (Ok ()) else waitForTables n rpc name wanted) w = (Ok (), w')"
    by (subst (asm) waitForTables.simps) (simp only: wanted_listed nat.case)
  then obtain ts w1 where l: "ListTables rpc name w = (Ok ts, w1)"
    and r: "(if set wanted \<subseteq> set ts then liftA (Ok ()) else waitForTables n rpc name wanted) w1 = (Ok (), w')"
    by (auto simp: bindA_eq_Ok)
  show ?case
  proof (cases "set wanted \<subseteq> set ts")
    case True
    with l r show ?thesis by (intro exI[of _ "[]"] exI[of _ ts]) (auto intro: asked)
  next
    case False
    with r have "waitForTables n rpc name wanted w1 = (Ok (), w')" by simp
    from Suc.IH[OF this] obtain tss t where "listings rpc name w1 (tss @ [t]) w'" "length tss \<le> n"
      "list_all (\<lambda>l. \<not> set wanted \<subseteq> set l) tss" "set wanted \<subseteq> set t" by blast
    with l False show ?thesis by (intro exI[of _ "ts # tss"] exI[of _ t]) (auto intro: again)
  qed
qed

lemma wait_lists_ok:
  assumes "listings rpc name w (tss @ [ts]) w'" and "length tss \<le> ticks"
    and "list_all (\<lambda>l. \<not> set wanted \<subseteq> set l) tss" and "set wanted \<subseteq> set ts"
  shows "waitForTables ticks rpc name wanted w = (Ok (), w')"
  using assms
proof (induction tss arbitrary: w ticks)
  case Nil
  then show ?case by (subst waitForTables.simps) (auto simp: wanted_listed elim!: listings_ConsE)
next
  case (Cons t tss)
  then obtain n where n: "ticks = Suc n" by (cases ticks) auto
  from Cons.prems(1) obtain w1 where l: "ListTables rpc name w = (Ok t, w1)" "listings rpc name w1 (tss @ [ts]) w'"
    by (auto elim: listings_ConsE)
  with Cons.IH[OF l(2), of n] Cons.prems n show ?case
    by (subst waitForTables.simps) (simp add: wanted_listed)
qed

lemma wait_in_vain:
  assumes "listings rpc name w tss w'" and "length tss = Suc ticks" and "list_all (\<lambda>l. \<not> set wanted \<subseteq> set l) tss"
  shows "waitForTables ticks rpc name wanted w = (Fail DeadlineExceeded, w')"
  using assms
proof (induction arbitrary: ticks rule: listings.induct)
  case (asked w ts w1)
  then show ?case by (subst waitForTables.simps) (simp add: wanted_listed)
next
  case (again w ts w1 tss w2)
  from again.hyps(2) have "tss \<noteq> []" by auto
  with again.prems obtain n where "ticks = Suc n" "length tss = Suc n" by (cases ticks) auto
  with again show ?case by (subst waitForTables.simps) (simp add: wanted_listed)
qed

text \<open>
  C6. The program waits for its tables exactly as long as it has to: with \<open>ticks\<close> ticks before
  its context is done the wait succeeds if and only if one of at most \<open>ticks + 1\<close> successive
  lists holds every table and none before it does, and then it ends in the world after that
  list. When \<open>ticks + 1\<close> lists were read and each lacks a table, it ends with the error of
  the context.
\<close>

theorem wait_for_tables_outcome:
  "(waitForTables ticks rpc name wanted w = (Ok (), w') \<longleftrightarrow>
      (\<exists>tss ts. listings rpc name w (tss @ [ts]) w' \<and> length tss \<le> ticks
        \<and> list_all (\<lambda>l. \<not> set wanted \<subseteq> set l) tss \<and> set wanted \<subseteq> set ts))
   \<and> (listings rpc name w tss w' \<and> length tss = Suc ticks \<and> list_all (\<lambda>l. \<not> set wanted \<subseteq> set l) tss
      \<longrightarrow> waitForTables ticks rpc name wanted w = (Fail DeadlineExceeded, w'))"
  by (intro conjI iffI impI, rule wait_ok_lists, assumption, elim exE conjE, rule wait_lists_ok, assumption+,
      elim conjE, rule wait_in_vain)

lemma wait_for_tables_outcome_witness:
  "waitForTables 1 catNet ''fluss'' [''e2e_orders'', ''gone''] catWorld = (Fail DeadlineExceeded, catWorld)"
proof -
  let ?names = "map TableName (filter (\<lambda>p. DatabaseName p = ''fluss'') (envTables demoEnv))"
  have l: "ListTables catNet ''fluss'' catWorld = (Ok ?names, catWorld)"
    by (simp add: ListTables_def invokeAny_def invokeA_def anyAddress_def expect_def catWorld_def catNet_def cache_defs bindA_def)
  have "''gone'' \<notin> set ?names" by (simp add: demoEnv_def demoEnvironment_def envTables_def getenv_def Let_def)
  then have "list_all (\<lambda>ts. \<not> set [''e2e_orders'', ''gone''] \<subseteq> set ts) [?names, ?names]"
    by (simp only: list.pred_inject) auto
  moreover have "listings catNet ''fluss'' catWorld [?names, ?names] catWorld" by (intro again[OF l] asked[OF l])
  moreover have "length [?names, ?names] = Suc 1" by simp
  ultimately show ?thesis
    using wait_for_tables_outcome[of 1 catNet "''fluss''" "[''e2e_orders'', ''gone'']" catWorld catWorld "[?names, ?names]"]
    by blast
qed

subsection \<open>Comparing sets of rows\<close>

text \<open>
  Rows are compared by their printed text: a row of two texts and one of a single text with a
  blank in it, or an integer and its digits, are taken for the same.
\<close>

lemma digit_code: "of_char (char_of (55 :: nat)) = (55 :: 8 word)"
proof -
  have "of_char (char_of (55 :: nat)) = (of_nat (of_char (char_of (55 :: nat))) :: 8 word)"
    by (rule of_nat_of_char[symmetric])
  also have "of_char (char_of (55 :: nat)) = (55 :: nat)" by simp
  finally show ?thesis by simp
qed

lemma row_sets_confused:
  "sameDecodedRowSet other [\<lparr>rowFields = [], rowValues = [VString [97], VString [98]]\<rparr>]
      [\<lparr>rowFields = [], rowValues = [VString [97, 32, 98]]\<rparr>]"
  "sameDecodedRowSet other [\<lparr>rowFields = [], rowValues = [VInt64 7]\<rparr>] [\<lparr>rowFields = [], rowValues = [VString [55]]\<rparr>]"
  by (simp_all add: sameDecodedRowSet_iff rowKey_def bracketed_def intText_def itoa_def natDigits.simps lit_def digit_code)

end
