(* ===== verification/Proto_Reflect.thy ===== *)
theory Proto_Reflect
  imports Go_Base
begin

text \<open>
  Setting the fields of a message by name (\<open>internal/pbutil/pbutil.go\<close>). The reflection
  library is the record \<open>reflection\<close> over its descriptors, field descriptors and messages:
  \<open>fieldByName\<close> is \<open>Fields().ByName\<close>, \<open>setField\<close> is \<open>Set\<close>, \<open>mutableList\<close> is \<open>Mutable(fd).List()\<close>, which
  creates the list of an unset field, and \<open>appendField\<close> appends to that list. A message is a
  pointer to a mutable object: the functions here return the object as they leave it. The
  library panics on a value that does not fit its field.

  The laws hold for every library whose messages behave like maps from fields to values, which
  is what its documentation says: a setter is seen by a reader of the same field and by no
  other, and the values appended one by one end behind those that were there.
\<close>

datatype 'm pbValue =
    ValueOfString string
  | ValueOfBool bool
  | ValueOfInt32 int32
  | ValueOfInt64 int64
  | ValueOfBytes bytes
  | ValueOfMessage 'm

record ('d, 'f, 'm) reflection =
  descriptorOf :: "'m \<Rightarrow> 'd"
  fieldByName :: "'d \<Rightarrow> string \<Rightarrow> 'f option"
  setField :: "'m \<Rightarrow> 'f \<Rightarrow> 'm pbValue \<Rightarrow> 'm res"
  mutableList :: "'m \<Rightarrow> 'f \<Rightarrow> 'm res"
  appendField :: "'m \<Rightarrow> 'f \<Rightarrow> 'm pbValue \<Rightarrow> 'm res"

definition Field :: "('d, 'f, 'm) reflection \<Rightarrow> 'd \<Rightarrow> string \<Rightarrow> 'f res" where
  "Field lib md name = (case fieldByName lib md name of
      None \<Rightarrow> Fail (Errf ''field %q not found in %s'') | Some fd \<Rightarrow> Ok fd)"

definition SetString :: "('d, 'f, 'm) reflection \<Rightarrow> 'm \<Rightarrow> string \<Rightarrow> string \<Rightarrow> 'm res" where
  "SetString lib msg name v = andThen (Field lib (descriptorOf lib msg) name) (\<lambda>fd. setField lib msg fd (ValueOfString v))"

definition SetBool :: "('d, 'f, 'm) reflection \<Rightarrow> 'm \<Rightarrow> string \<Rightarrow> bool \<Rightarrow> 'm res" where
  "SetBool lib msg name v = andThen (Field lib (descriptorOf lib msg) name) (\<lambda>fd. setField lib msg fd (ValueOfBool v))"

definition SetInt32 :: "('d, 'f, 'm) reflection \<Rightarrow> 'm \<Rightarrow> string \<Rightarrow> int32 \<Rightarrow> 'm res" where
  "SetInt32 lib msg name v = andThen (Field lib (descriptorOf lib msg) name) (\<lambda>fd. setField lib msg fd (ValueOfInt32 v))"

definition SetInt64 :: "('d, 'f, 'm) reflection \<Rightarrow> 'm \<Rightarrow> string \<Rightarrow> int64 \<Rightarrow> 'm res" where
  "SetInt64 lib msg name v = andThen (Field lib (descriptorOf lib msg) name) (\<lambda>fd. setField lib msg fd (ValueOfInt64 v))"

definition SetBytes :: "('d, 'f, 'm) reflection \<Rightarrow> 'm \<Rightarrow> string \<Rightarrow> bytes \<Rightarrow> 'm res" where
  "SetBytes lib msg name v = andThen (Field lib (descriptorOf lib msg) name) (\<lambda>fd. setField lib msg fd (ValueOfBytes v))"

definition SetMessage :: "('d, 'f, 'm) reflection \<Rightarrow> 'm \<Rightarrow> string \<Rightarrow> 'm \<Rightarrow> 'm res" where
  "SetMessage lib msg name v = andThen (Field lib (descriptorOf lib msg) name) (\<lambda>fd. setField lib msg fd (ValueOfMessage v))"

text \<open>The loop over the values to append.\<close>

fun appendAll :: "('d, 'f, 'm) reflection \<Rightarrow> 'f \<Rightarrow> 'm pbValue list \<Rightarrow> 'm \<Rightarrow> 'm res" where
  "appendAll lib fd [] msg = Ok msg"
| "appendAll lib fd (v # vs) msg = andThen (appendField lib msg fd v) (appendAll lib fd vs)"

definition appendValues :: "('d, 'f, 'm) reflection \<Rightarrow> 'm \<Rightarrow> string \<Rightarrow> 'm pbValue list \<Rightarrow> 'm res" where
  "appendValues lib msg name vs = andThen (Field lib (descriptorOf lib msg) name) (\<lambda>fd.
     andThen (mutableList lib msg fd) (appendAll lib fd vs))"

definition AppendString :: "('d, 'f, 'm) reflection \<Rightarrow> 'm \<Rightarrow> string \<Rightarrow> string list \<Rightarrow> 'm res" where
  "AppendString lib msg name vs = appendValues lib msg name (map ValueOfString vs)"

definition AppendInt32 :: "('d, 'f, 'm) reflection \<Rightarrow> 'm \<Rightarrow> string \<Rightarrow> int32 list \<Rightarrow> 'm res" where
  "AppendInt32 lib msg name vs = appendValues lib msg name (map ValueOfInt32 vs)"

definition AppendInt64 :: "('d, 'f, 'm) reflection \<Rightarrow> 'm \<Rightarrow> string \<Rightarrow> int64 list \<Rightarrow> 'm res" where
  "AppendInt64 lib msg name vs = appendValues lib msg name (map ValueOfInt64 vs)"

definition AppendBytes :: "('d, 'f, 'm) reflection \<Rightarrow> 'm \<Rightarrow> string \<Rightarrow> bytes list \<Rightarrow> 'm res" where
  "AppendBytes lib msg name vs = appendValues lib msg name (map ValueOfBytes vs)"

definition AppendMessage :: "('d, 'f, 'm) reflection \<Rightarrow> 'm \<Rightarrow> string \<Rightarrow> 'm list \<Rightarrow> 'm res" where
  "AppendMessage lib msg name vs = appendValues lib msg name (map ValueOfMessage vs)"

lemmas setter_defs = SetString_def SetBool_def SetInt32_def SetInt64_def SetBytes_def SetMessage_def
lemmas appender_defs = AppendString_def AppendInt32_def AppendInt64_def AppendBytes_def AppendMessage_def

subsection \<open>Messages as maps\<close>

text \<open>
  \<open>values m f\<close> reads the values of a field: one after \<open>Set\<close>, those of the list of a repeated
  field. Operations of the library keep the descriptor, and change their own field only.
\<close>

definition fieldStep :: "('d, 'f, 'm) reflection \<Rightarrow> ('m \<Rightarrow> 'f \<Rightarrow> 'm pbValue list) \<Rightarrow> 'm \<Rightarrow> 'f \<Rightarrow> 'm pbValue list \<Rightarrow> 'm \<Rightarrow> bool" where
  "fieldStep lib values m f vs m' \<longleftrightarrow> descriptorOf lib m' = descriptorOf lib m \<and> values m' = (values m)(f := vs)"

definition mapLike :: "('d, 'f, 'm) reflection \<Rightarrow> ('m \<Rightarrow> 'f \<Rightarrow> 'm pbValue list) \<Rightarrow> bool" where
  "mapLike lib values \<longleftrightarrow> (\<forall>m f m'.
      (\<forall>v. setField lib m f v = Ok m' \<longrightarrow> fieldStep lib values m f [v] m')
    \<and> (mutableList lib m f = Ok m' \<longrightarrow> fieldStep lib values m f (values m f) m')
    \<and> (\<forall>v. appendField lib m f v = Ok m' \<longrightarrow> fieldStep lib values m f (values m f @ [v]) m'))"

lemma fieldStep_trans:
  "fieldStep lib values m f vs m1 \<Longrightarrow> fieldStep lib values m1 f vs' m2 \<Longrightarrow> fieldStep lib values m f vs' m2"
  by (simp add: fieldStep_def)

lemma appendAll_values:
  assumes "mapLike lib values" and "appendAll lib f vs m = Ok m'"
  shows "fieldStep lib values m f (values m f @ vs) m'"
  using assms(2)
proof (induction vs arbitrary: m)
  case Nil
  then show ?case by (simp add: fieldStep_def)
next
  case (Cons v vs)
  then obtain m1 where m1: "appendField lib m f v = Ok m1" "appendAll lib f vs m1 = Ok m'" by (auto split: res.splits elim: andThen.elims)
  from assms(1) m1(1) have s: "fieldStep lib values m f (values m f @ [v]) m1" by (auto simp: mapLike_def)
  moreover from s have "values m1 f = values m f @ [v]" by (simp add: fieldStep_def)
  ultimately show ?case using fieldStep_trans[OF s Cons.IH[OF m1(2)]] by simp
qed

text \<open>
  A setter that returns has set the field of that name and nothing else; an appender has put
  its values, in their order, behind those of the field.
\<close>

theorem setters_set:
  assumes "mapLike lib values" and "fieldByName lib (descriptorOf lib m) name = Some f"
  shows "SetString lib m name s = Ok m' \<Longrightarrow> fieldStep lib values m f [ValueOfString s] m'"
    and "SetBool lib m name b = Ok m' \<Longrightarrow> fieldStep lib values m f [ValueOfBool b] m'"
    and "SetInt32 lib m name i = Ok m' \<Longrightarrow> fieldStep lib values m f [ValueOfInt32 i] m'"
    and "SetInt64 lib m name l = Ok m' \<Longrightarrow> fieldStep lib values m f [ValueOfInt64 l] m'"
    and "SetBytes lib m name bs = Ok m' \<Longrightarrow> fieldStep lib values m f [ValueOfBytes bs] m'"
    and "SetMessage lib m name sub = Ok m' \<Longrightarrow> fieldStep lib values m f [ValueOfMessage sub] m'"
  using assms by (simp_all add: setter_defs Field_def mapLike_def)

lemma appendValues_values:
  assumes "mapLike lib values" and "fieldByName lib (descriptorOf lib m) name = Some f" and "appendValues lib m name vs = Ok m'"
  shows "fieldStep lib values m f (values m f @ vs) m'"
proof -
  from assms(2,3) obtain m1 where m1: "mutableList lib m f = Ok m1" "appendAll lib f vs m1 = Ok m'"
    by (auto simp: appendValues_def Field_def elim: andThen.elims)
  from assms(1) m1(1) have s: "fieldStep lib values m f (values m f) m1" by (simp add: mapLike_def)
  moreover from s have "values m1 f = values m f" by (simp add: fieldStep_def)
  ultimately show ?thesis using fieldStep_trans[OF s appendAll_values[OF assms(1) m1(2)]] by simp
qed

theorem appenders_append:
  assumes "mapLike lib values" and "fieldByName lib (descriptorOf lib m) name = Some f"
  shows "AppendString lib m name ss = Ok m' \<Longrightarrow> fieldStep lib values m f (values m f @ map ValueOfString ss) m'"
    and "AppendInt32 lib m name is = Ok m' \<Longrightarrow> fieldStep lib values m f (values m f @ map ValueOfInt32 is) m'"
    and "AppendInt64 lib m name ls = Ok m' \<Longrightarrow> fieldStep lib values m f (values m f @ map ValueOfInt64 ls) m'"
    and "AppendBytes lib m name bss = Ok m' \<Longrightarrow> fieldStep lib values m f (values m f @ map ValueOfBytes bss) m'"
    and "AppendMessage lib m name subs = Ok m' \<Longrightarrow> fieldStep lib values m f (values m f @ map ValueOfMessage subs) m'"
  unfolding appender_defs by (rule appendValues_values[OF assms]; assumption)+

text \<open>A name that the descriptor does not have is an error of every function, and changes nothing.\<close>

theorem unknown_field:
  assumes "fieldByName lib (descriptorOf lib m) name = None"
  shows "SetString lib m name s = Fail (Errf ''field %q not found in %s'')"
    and "SetBool lib m name b = Fail (Errf ''field %q not found in %s'')"
    and "SetInt32 lib m name i = Fail (Errf ''field %q not found in %s'')"
    and "SetInt64 lib m name l = Fail (Errf ''field %q not found in %s'')"
    and "SetBytes lib m name bs = Fail (Errf ''field %q not found in %s'')"
    and "SetMessage lib m name sub = Fail (Errf ''field %q not found in %s'')"
    and "appendValues lib m name vs = Fail (Errf ''field %q not found in %s'')"
  using assms by (simp_all add: setter_defs appendValues_def Field_def)

end
