(* ===== verification/Spec2Isabelle.thy ===== *)
theory Spec2Isabelle
  imports Row_Properties Client_Properties Writer_Properties Read_Properties Arrow_Properties
    Transport_Properties Schema_Properties Snapshot_Properties Table_Properties
    Demo_Properties Proto_Reflect
begin

text \<open>
  A verification development for the Fluss client in Go (\<open>src/client\<close>, \<open>src/internal\<close>).

  \<^bold>\<open>The program.\<close> A client dials a cluster and keeps a cache of its metadata: servers, tables, and
  which server leads which bucket of a table (\<open>client/client.go\<close>, \<open>internal/metadata/cache.go\<close>).
  Administration calls go to any server or the coordinator (\<open>client/admin.go\<close>). Reads and writes of
  a table are grouped by the leaders of their buckets and sent to them; a write that failed
  for want of a leader is sent once more after a metadata refresh (\<open>client/table.go\<close>). Writers buffer
  batches and flush them by size, bytes or a timer (\<open>client/writer.go\<close>); a scanner pages through a
  key-value bucket (\<open>client/scanner.go\<close>). On top of these, \<open>client/row.go\<close> turns rows into payloads and
  back with the row codec (\<open>internal/codec/row\<close>) or the Arrow codec (\<open>internal/codec/arrow\<close>), and
  scans snapshots: files fetched from a store, opened as a local database
  (\<open>internal/snapshot\<close>), with rows of older schemas projected by column name. Column types come
  from a schema descriptor (\<open>internal/metadata/schema_descriptor.go\<close>). Every call is a frame on a
  connection with a reader goroutine that gives each response to the call with its id
  (\<open>internal/transport/client.go\<close>, \<open>internal/codec/frame\<close>). An end-to-end program waits for the tables
  of a cluster and runs twenty checks on it through the client (\<open>demo/fluss-paimon/go-e2e/main.go\<close>).

  \<^bold>\<open>Conventions.\<close> A call returns a \<open>res\<close>: a value, an error (\<open>goerr\<close>), or a panic (\<open>Go_Base\<close>). Integers
  of a width are words; \<open>int\<close> is an integer where the code does no arithmetic that could leave
  its range, and offsets and lengths are naturals. Strings are lists of
  characters (bytes), except string values of rows, which are bytes. A Go map whose iteration order can
  matter is an association list in that order; others are maps. Messages of errors are their
  format strings: the formatted arguments are left out. A call of the client is a function of the \<open>world\<close>
  (\<open>Client_State\<close>: cache, endpoints, network), and the network is a parameter, as is everything
  the sources call but do not hold: the Arrow library, \<open>json.Unmarshal\<close> and \<open>proto.Unmarshal\<close>, URLs, the
  file system, the object store and the snapshot database. What a theorem relies on there is a named
  hypothesis, and its witness instantiates the parameter.

  \<^bold>\<open>Theories.\<close>
  \<^item> \<open>Go_Base\<close>, \<open>Go_Bytes\<close>, \<open>Go_Strings\<close>: results, slices, byte encodings, varints, decimal printing, and
    the lemmas all components share.
  \<^item> \<open>Row_Types\<close>, \<open>Row_Coerce\<close>, \<open>Row_Encode\<close>, \<open>Row_Decode\<close>, \<open>Row_Batch\<close> model \<open>codec/row\<close>: types, conversions of
    dynamic values, both layouts, lookup keys (\<open>Row_Key\<close>), and log, key-value and value batches.
    \<open>Row_Roundtrip\<close> states the layout of a row as a locale, interpreted for the indexed layout in
    \<open>Row_Laws\<close> and for the compacted one in \<open>Row_Compact\<close>; \<open>Row_Safety\<close> shows that decoding never
    panics and \<open>Row_Typing\<close> that its rows conform to the schema; \<open>Codec_Limits\<close> states where values are
    lost or refused; \<open>Row_Key\<close> has the locale of prefix-free codes behind lookup keys; \<open>Batch_Laws\<close> has
    the locale of concatenated units (\<open>batch_stream\<close>), interpreted for records, row batches and, in
    \<open>Arrow_Laws\<close>, Arrow batches, and that a CRC detects a changed byte.
  \<^item> \<open>Metadata_Cache\<close>, \<open>Protocol\<close>, \<open>Client_Messages\<close>, \<open>Client_Parse\<close>, \<open>Client_State\<close>, \<open>Client_Admin\<close> model the cache (the
    locale \<open>store\<close>, interpreted three times), errors and frames, messages, their builders and
    parsers, dialling, refreshing, routing and grouping, and every administration call.
    \<open>Client_Laws\<close> shows that ingesting metadata refines two finite maps, and the invariant of
    the cache.
  \<^item> \<open>Table_Write\<close> and \<open>Table_Write_Laws\<close>: writing with partial failures; the locale \<open>write_api\<close> is
    the contract of one attempt that both kinds of write meet.
  \<^item> \<open>Writer\<close>, \<open>Upsert_Writer\<close>, \<open>Writer_Laws\<close>: the buffering writers; concurrent calls are a step
    relation at the grain of the critical sections.
  \<^item> \<open>Table_Read\<close>, \<open>Table_Descriptor\<close>, \<open>Client_Row\<close>: lookups, fetches, the scanner, and rows on top.
  \<^item> \<open>Arrow_Codec\<close>, \<open>Arrow_Batch\<close>, \<open>Arrow_Laws\<close>: the Arrow codec over a lawful Arrow library.
  \<^item> \<open>Proto_Factory\<close>, \<open>Transport\<close>, \<open>Transport_Laws\<close>: message names, opening a connection as a function of the
    world, and calls, reader and \<open>failAll\<close> as a step relation with its invariants.
    \<open>Transport_Stream\<close> follows the frames of a socket through the reader.
  \<^item> \<open>Proto_Reflect\<close>: setting fields of a message by name (\<open>internal/pbutil\<close>), which nothing calls so far.
  \<^item> \<open>Schema_Descriptor\<close>, \<open>Schema_Laws\<close>: the parser of column types, its totality, and reading back.
  \<^item> \<open>Snapshot_Decode\<close>, \<open>Snapshot_Fetch\<close>, \<open>Snapshot_Scan\<close>, \<open>Snapshot_Laws\<close>: snapshots.
  \<^item> \<open>Table_Format\<close>, \<open>Log_Table\<close>, \<open>Kv_Table\<close>: tables end to end. A log table refines a list of rows
    per bucket and a key-value table a map from keys to rows, over servers that store what they
    are sent. \<open>Arrow_Table\<close> does the same for Arrow batches, with the columns a fetch asks for.
  \<^item> \<open>Demo_Checks\<close> (helpers: equality of rows, their text, the two waiting loops), \<open>Demo_Admin\<close> and
    \<open>Demo_Data\<close> (one definition per check, and \<open>demoMain\<close>) model the end-to-end program, with the names
    of its functions. \<open>Catalog\<close> specifies the administration of a cluster as a catalogue of databases,
    tables and partitions; \<open>Demo_Admin_Laws\<close> shows every admin check against it, \<open>Demo_Data_Laws\<close>,
    \<open>Demo_Prefix_Laws\<close>, \<open>Demo_Log_Laws\<close> and \<open>Demo_Arrow_Laws\<close> those of the key-value and log tables.
  \<^item> The theories named \<open>_Properties\<close> hold the properties with their witnesses.

  \<^bold>\<open>What is shown.\<close> Rows, batches, frames, type names and schemas survive encoding and decoding, and the
  exceptions are theorems too; corruption is detected; decoders do not panic on rows and keys
  are injective. Routes lead to the leader the metadata named last; writes reach each bucket at least
  once when they succeed and at most twice; reads return what the servers hold. An open
  writer loses, repeats and reorders nothing under any interleaving. A response reaches the call
  it answers, and no waiting call is lost. Snapshot rows come out by column name. The
  admin checks of the end-to-end program, its checks on two key-value tables and on three log tables pass
  on servers that meet their specification, and leave it in the state they should; for its check
  of snapshots, the calls it makes have properties. Where the
  code does not do what it means to, a property states what it does instead: among them timestamps
  and large decimals in the compacted layout, failed writes that are reported as
  successes, buffers that outgrow their limit, a reader that blocks for good, connections that
  are kept after their end, and snapshot columns that are ignored.

  \<^bold>\<open>Fuel and termination.\<close> Recursion over data is structural or has a measure. \<open>parseType\<close> and \<open>rowLoop\<close> take the
  length of the text as fuel: a nested type comes after a keyword and a bracket, and every field
  takes a character and a comma, so that it is enough (\<open>parseType_enough\<close>). \<open>scanLoop\<close> takes the number
  of pages, \<open>writeLoop\<close> the list of its wake-ups: a server may send pages for ever, and a blocked write may wait
  for ever, so that the properties give the fuel that is enough (\<open>scan_rows_complete\<close>) or show
  that none is (\<open>oversized_write_waits\<close>). \<open>waitForTables\<close> and \<open>waitForLatestKVSnapshot\<close> take the number of ticks before
  the context of the program is done, which is when the code gives up
  (\<open>wait_for_tables_outcome\<close>). \<open>authLoop\<close> is a partial function, as a server may challenge for ever.

  \<^bold>\<open>Not modelled.\<close> The generated protobuf code and its wire format (messages are datatypes); what
  the end-to-end program prints, its deferred \<open>Close\<close>, and the text of floats and maps, which is a
  parameter; time, except that timers
  may fire at any moment and contexts may end; the memory model below the critical sections of
  mutexes and the operations of channels and \<open>sync.Map\<close>; floating point arithmetic (floats are
  their bits). The \<open>else\<close> of the type assertions on generated messages is kept only where
  the model's messages could reach it.
\<close>

end
